(* ===== verification/PyPrelude.thy ===== *)
theory PyPrelude
  imports
    Complex_Main
    "HOL-Library.AList"
    "HOL-Library.Multiset"
    "HOL-Library.List_Lexorder"
    "HOL-Library.Char_ord"
    "HOL-Library.Product_Lexorder"
begin

text \<open>
  The part of Python the NimbusMesh-X sources rely on, shared by every component theory:
  \<^item> numbers: Python's unbounded \<open>int\<close> is \<open>int\<close>; a \<open>float\<close> is an exact rational
    (\<open>pyfloat\<close>), with \<open>round(x, n)\<close> (half to even), \<open>int(x)\<close> (truncation) written out;
  \<^item> exceptions: the sum type \<open>py_error + 'a\<close> with its sequencing operator \<open>ebind\<close>;
  \<^item> \<open>dict\<close> and \<open>defaultdict\<close>: association lists in insertion order, updated in place
    or at the end, as CPython does; the contract of such a dictionary is the locale
    \<open>py_dict\<close>, interpreted on the association lists;
  \<^item> \<open>min\<close>/\<open>max\<close> with a key (the first extremal element wins) and \<open>list.sort\<close>
    (stable, also with \<open>reverse=True\<close>);
  \<^item> f-strings of integers.
\<close>

section \<open>Collections of rewrite rules\<close>

named_theorems dict_simps \<open>lookups after dictionary updates\<close>
named_theorems round_rules \<open>bounds and signs of rounded floats\<close>
named_theorems result_simps \<open>sequencing of fallible computations\<close>

section \<open>Floats\<close>

type_synonym pyfloat = rat

text \<open>\<open>round(x, n)\<close>: the nearest multiple of \<open>10 ** -n\<close>, ties to the even multiple.\<close>

definition round_half_even :: "rat \<Rightarrow> int" where
  "round_half_even x =
     (let f = \<lfloor>x\<rfloor>; d = x - of_int f
      in if d < 1 / 2 then f
         else if 1 / 2 < d then f + 1
         else if even f then f else f + 1)"

definition py_round :: "nat \<Rightarrow> rat \<Rightarrow> rat" where
  "py_round n x = of_int (round_half_even (x * 10 ^ n)) / 10 ^ n"

text \<open>\<open>int(x)\<close> of a float truncates towards zero.\<close>

definition py_int :: "rat \<Rightarrow> int" where
  "py_int x = (if 0 \<le> x then \<lfloor>x\<rfloor> else \<lceil>x\<rceil>)"

lemma round_half_even_of_int [simp]: "round_half_even (of_int k) = k"
  by (simp add: round_half_even_def)

lemma round_half_even_error: "\<bar>of_int (round_half_even x) - x\<bar> \<le> 1 / 2"
proof -
  have "of_int \<lfloor>x\<rfloor> \<le> x" and "x < of_int \<lfloor>x\<rfloor> + 1" by linarith+
  then show ?thesis by (auto simp: round_half_even_def Let_def abs_le_iff)
qed

lemma round_half_even_mono: "x \<le> y \<Longrightarrow> round_half_even x \<le> round_half_even y"
proof -
  assume xy: "x \<le> y"
  show ?thesis
  proof (cases "\<lfloor>x\<rfloor> = \<lfloor>y\<rfloor>")
    case True
    with xy show ?thesis by (auto simp: round_half_even_def Let_def)
  next
    case False
    with xy floor_mono [OF xy] have "\<lfloor>x\<rfloor> + 1 \<le> \<lfloor>y\<rfloor>" by linarith
    moreover have "round_half_even x \<le> \<lfloor>x\<rfloor> + 1" and "\<lfloor>y\<rfloor> \<le> round_half_even y"
      by (auto simp: round_half_even_def Let_def)
    ultimately show ?thesis by linarith
  qed
qed

lemma py_round_mono: "x \<le> y \<Longrightarrow> py_round n x \<le> py_round n y"
  by (simp add: py_round_def divide_right_mono round_half_even_mono)

lemma py_round_error [round_rules]: "\<bar>py_round n x - x\<bar> \<le> 1 / (2 * 10 ^ n)"
proof -
  have "py_round n x - x = (of_int (round_half_even (x * 10 ^ n)) - x * 10 ^ n) / 10 ^ n"
    by (simp add: py_round_def field_simps)
  moreover have "\<bar>of_int (round_half_even (x * 10 ^ n)) - x * 10 ^ n\<bar> / 10 ^ n \<le> (1 / 2) / 10 ^ n"
    by (intro divide_right_mono round_half_even_error) simp
  ultimately show ?thesis by (simp add: abs_divide)
qed

text \<open>A value that is already a multiple of \<open>10 ** -n\<close> is not changed.\<close>

lemma py_round_fixed: "x * 10 ^ n = of_int k \<Longrightarrow> py_round n x = x"
  by (simp add: py_round_def) (simp add: field_simps)

lemma py_round_of_int [simp]: "py_round n (of_int k) = of_int k"
  by (rule py_round_fixed [where k = "k * 10 ^ n"]) simp

lemma py_round_0 [simp]: "py_round n 0 = 0"
  using py_round_of_int [of n 0] by simp

lemma py_round_1 [simp]: "py_round n 1 = 1"
  using py_round_of_int [of n 1] by simp

lemma py_round_idem [simp]: "py_round n (py_round n x) = py_round n x"
  by (rule py_round_fixed [where k = "round_half_even (x * 10 ^ n)"]) (simp add: py_round_def)

lemma py_round_nonneg [round_rules]: "0 \<le> x \<Longrightarrow> 0 \<le> py_round n x"
  using py_round_mono [of 0 x n] by simp

lemma py_round_le_int: "x \<le> of_int k \<Longrightarrow> py_round n x \<le> of_int k"
  using py_round_mono [of x "of_int k" n] by simp

lemma py_round_le_fixed: "x \<le> b \<Longrightarrow> b * 10 ^ n = of_int k \<Longrightarrow> py_round n x \<le> b"
  using py_round_mono [of x b n] by (simp add: py_round_fixed)

lemma py_round_ge_fixed: "b \<le> x \<Longrightarrow> b * 10 ^ n = of_int k \<Longrightarrow> b \<le> py_round n x"
  using py_round_mono [of b x n] by (simp add: py_round_fixed)

lemma py_int_nonneg: "0 \<le> x \<Longrightarrow> 0 \<le> py_int x"
  by (simp add: py_int_def)

lemma py_int_le: "0 \<le> x \<Longrightarrow> of_int (py_int x) \<le> x"
  by (simp add: py_int_def)

lemma py_int_of_int [simp]: "py_int (of_int k) = k"
  by (simp add: py_int_def)

lemma py_int_mono: "x \<le> y \<Longrightarrow> py_int x \<le> py_int y"
proof -
  assume xy: "x \<le> y"
  consider "0 \<le> x" | "x < 0" "0 \<le> y" | "y < 0" by linarith
  then show ?thesis
  proof cases
    case 2
    then have "\<lceil>x\<rceil> \<le> 0" and "0 \<le> \<lfloor>y\<rfloor>" by (simp_all add: ceiling_le_iff le_floor_iff)
    then have "\<lceil>x\<rceil> \<le> \<lfloor>y\<rfloor>" by (rule order_trans)
    with 2 show ?thesis by (simp add: py_int_def)
  qed (use xy in \<open>auto simp: py_int_def floor_mono ceiling_mono\<close>)
qed

section \<open>Exceptions\<close>

text \<open>
  \<open>Untyped\<close> is not an exception of the program: it marks the inputs the model leaves out, those that
  store a value of another type in a field annotated as a string, which Python does not check.
\<close>

datatype py_error =
    ValueError string
  | KeyError string
  | IndexError
  | TypeError
  | ZeroDivisionError
  | RuntimeError string
  | FileNotFoundError string
  | StopIteration
  | AttributeError string
  | ImportError string
  | SystemExit string
  | Untyped string

type_synonym 'a result = "py_error + 'a"

definition ebind :: "'a result \<Rightarrow> ('a \<Rightarrow> 'b result) \<Rightarrow> 'b result" where
  "ebind r f = (case r of Inl e \<Rightarrow> Inl e | Inr x \<Rightarrow> f x)"

lemma ebind_Inl [simp, result_simps]: "ebind (Inl e) f = Inl e"
  and ebind_Inr [simp, result_simps]: "ebind (Inr x) f = f x"
  by (simp_all add: ebind_def)

lemma ebind_eq_Inr [result_simps]: "ebind r f = Inr y \<longleftrightarrow> (\<exists>x. r = Inr x \<and> f x = Inr y)"
  by (cases r) auto

lemma ebind_eq_Inl: "ebind r f = Inl e \<longleftrightarrow> r = Inl e \<or> (\<exists>x. r = Inr x \<and> f x = Inl e)"
  by (cases r) auto

lemma ebind_assoc: "ebind (ebind r f) g = ebind r (\<lambda>x. ebind (f x) g)"
  by (cases r) auto

text \<open>A loop whose body may raise, collecting the results: a comprehension or an append loop.\<close>

fun emap :: "('a \<Rightarrow> 'b result) \<Rightarrow> 'a list \<Rightarrow> 'b list result" where
  "emap f [] = Inr []"
| "emap f (x # xs) = ebind (f x) (\<lambda>y. ebind (emap f xs) (\<lambda>ys. Inr (y # ys)))"

lemma emap_Inr_iff: "emap f xs = Inr ys \<longleftrightarrow> list_all2 (\<lambda>x y. f x = Inr y) xs ys"
  by (induction xs arbitrary: ys) (auto simp: result_simps list_all2_Cons1)

lemma emap_length: "emap f xs = Inr ys \<Longrightarrow> length ys = length xs"
  by (simp add: emap_Inr_iff list_all2_lengthD)

lemma emap_in_set: "emap f xs = Inr ys \<Longrightarrow> y \<in> set ys \<Longrightarrow> \<exists>x \<in> set xs. f x = Inr y"
  by (induction xs arbitrary: ys) (auto simp: result_simps)

lemma emap_total: "(\<And>x. x \<in> set xs \<Longrightarrow> \<exists>y. f x = Inr y) \<Longrightarrow> \<exists>ys. emap f xs = Inr ys"
proof (induction xs)
  case (Cons x xs)
  then obtain ys where "emap f xs = Inr ys" by auto
  moreover from Cons.prems obtain y where "f x = Inr y" by auto
  ultimately show ?case by simp
qed simp

lemma emap_each: "(\<And>x. x \<in> set xs \<Longrightarrow> f x = Inr (g x)) \<Longrightarrow> emap f xs = Inr (map g xs)"
  by (induction xs) simp_all

text \<open>A loop that threads a state through a body that may raise.\<close>

fun efold :: "('a \<Rightarrow> 's \<Rightarrow> 's result) \<Rightarrow> 'a list \<Rightarrow> 's \<Rightarrow> 's result" where
  "efold f [] s = Inr s"
| "efold f (x # xs) s = ebind (f x s) (efold f xs)"

lemma efold_append: "efold f (xs @ ys) s = ebind (efold f xs s) (efold f ys)"
  by (induction xs arbitrary: s) (simp_all add: ebind_assoc ebind_def fun_eq_iff split: sum.split)

lemma efold_invariant:
  assumes "\<And>x s s'. x \<in> set xs \<Longrightarrow> P s \<Longrightarrow> f x s = Inr s' \<Longrightarrow> P s'"
    and "P s" and "efold f xs s = Inr s'"
  shows "P s'"
  using assms by (induction xs arbitrary: s) (auto simp: result_simps)

section \<open>Dictionaries\<close>

text \<open>
  A \<open>dict\<close> keeps its keys in insertion order: \<open>d[k] = v\<close> overwrites the value of a
  present key where it stands and appends a new key at the end, which is
  \<^const>\<open>AList.update\<close>; \<open>del d[k]\<close> is \<^const>\<open>AList.delete\<close>; \<open>d.get(k)\<close> is
  \<^const>\<open>map_of\<close>. Reading \<open>d[k]\<close> of a \<open>defaultdict\<close> stores the default first.
\<close>

type_synonym ('k, 'v) dict = "('k \<times> 'v) list"

definition dict_keys :: "('k, 'v) dict \<Rightarrow> 'k list" where
  "dict_keys d = map fst d"

definition dict_values :: "('k, 'v) dict \<Rightarrow> 'v list" where
  "dict_values d = map snd d"

definition dict_ok :: "('k, 'v) dict \<Rightarrow> bool" where
  "dict_ok d \<longleftrightarrow> distinct (map fst d)"

definition dict_get :: "'v \<Rightarrow> ('k, 'v) dict \<Rightarrow> 'k \<Rightarrow> 'v" where
  "dict_get v0 d k = (case map_of d k of None \<Rightarrow> v0 | Some v \<Rightarrow> v)"

definition dict_item :: "('v, 'w) dict \<Rightarrow> 'v \<Rightarrow> py_error \<Rightarrow> 'w result" where
  "dict_item d k e = (case map_of d k of None \<Rightarrow> Inl e | Some v \<Rightarrow> Inr v)"

text \<open>\<open>d | e\<close>.\<close>

definition dict_union :: "('k, 'v) dict \<Rightarrow> ('k, 'v) dict \<Rightarrow> ('k, 'v) dict" where
  "dict_union d e = fold (\<lambda>(k, v). AList.update k v) e d"

definition dd_touch :: "'v \<Rightarrow> 'k \<Rightarrow> ('k, 'v) dict \<Rightarrow> ('k, 'v) dict" where
  "dd_touch v0 k d = (if map_of d k = None then AList.update k v0 d else d)"

text \<open>
  What the components need of a dictionary: the lookup after a store or a deletion, and
  that the keys stay distinct.
\<close>

locale py_dict =
  fixes lookup :: "'d \<Rightarrow> 'k \<Rightarrow> 'v option"
    and store :: "'k \<Rightarrow> 'v \<Rightarrow> 'd \<Rightarrow> 'd"
    and remove :: "'k \<Rightarrow> 'd \<Rightarrow> 'd"
    and keys :: "'d \<Rightarrow> 'k list"
    and invar :: "'d \<Rightarrow> bool"
  assumes lookup_store: "lookup (store k v d) k' = (if k' = k then Some v else lookup d k')"
    and lookup_remove: "lookup (remove k d) k' = (if k' = k then None else lookup d k')"
    and keys_lookup: "set (keys d) = dom (lookup d)"
    and invar_distinct: "invar d \<Longrightarrow> distinct (keys d)"
    and invar_store: "invar d \<Longrightarrow> invar (store k v d)"
    and invar_remove: "invar d \<Longrightarrow> invar (remove k d)"
begin

lemma lookup_store_same: "lookup (store k v d) k = Some v"
  by (simp add: lookup_store)

lemma keys_store: "set (keys (store k v d)) = insert k (set (keys d))"
  by (auto simp: keys_lookup lookup_store dom_def)

lemma keys_remove: "set (keys (remove k d)) = set (keys d) - {k}"
  by (auto simp: keys_lookup lookup_remove dom_def split: if_splits)

lemma length_keys_store:
  assumes "invar d"
  shows "length (keys (store k v d)) = length (keys d) + (if lookup d k = None then 1 else 0)"
proof -
  have "length (keys (store k v d)) = card (insert k (set (keys d)))"
    using invar_distinct [OF invar_store [OF assms]] distinct_card keys_store by metis
  also have "\<dots> = length (keys d) + (if k \<in> set (keys d) then 0 else 1)"
    using distinct_card [OF invar_distinct [OF assms]] by (simp add: card_insert_if)
  also have "k \<in> set (keys d) \<longleftrightarrow> lookup d k \<noteq> None"
    by (auto simp: keys_lookup)
  finally show ?thesis by simp
qed

end

interpretation adict: py_dict map_of AList.update AList.delete dict_keys dict_ok
proof unfold_locales
  fix k k' :: 'a and v :: 'b and d :: "('a, 'b) dict"
  show "map_of (AList.update k v d) k' = (if k' = k then Some v else map_of d k')"
    by (simp add: update_conv')
  show "map_of (AList.delete k d) k' = (if k' = k then None else map_of d k')"
    by (simp add: delete_conv')
  show "set (dict_keys d) = dom (map_of d)"
    by (simp add: dict_keys_def dom_map_of_conv_image_fst)
  show "dict_ok d \<Longrightarrow> distinct (dict_keys d)"
    by (simp add: dict_ok_def dict_keys_def)
  show "dict_ok d \<Longrightarrow> dict_ok (AList.update k v d)"
    by (simp add: dict_ok_def distinct_update)
  show "dict_ok d \<Longrightarrow> dict_ok (AList.delete k d)"
    by (simp add: dict_ok_def distinct_delete)
qed

lemmas dict_lookup_rules [dict_simps] = adict.lookup_store adict.lookup_remove

lemma dict_ok_Nil [simp]: "dict_ok []"
  by (simp add: dict_ok_def)

lemma dict_get_Nil [simp]: "dict_get v0 [] k = v0"
  by (simp add: dict_get_def)

lemma dict_get_update [dict_simps]:
  "dict_get v0 (AList.update k v d) k' = (if k' = k then v else dict_get v0 d k')"
  by (simp add: dict_get_def dict_simps)

lemma dict_get_touch [simp]: "dict_get v0 (dd_touch v0 k d) k' = dict_get v0 d k'"
  by (simp add: dd_touch_def dict_get_def dict_simps)

lemma dict_ok_touch: "dict_ok d \<Longrightarrow> dict_ok (dd_touch v0 k d)"
  by (simp add: dd_touch_def adict.invar_store)

text \<open>The sum of a dictionary's values after a store.\<close>

lemma sum_values_update:
  fixes d :: "('k, 'v::ab_group_add) dict"
  assumes "dict_ok d"
  shows "sum_list (dict_values (AList.update k v d)) = sum_list (dict_values d) + (v - dict_get 0 d k)"
  using assms
proof (induction d)
  case (Cons p d)
  then show ?case
    by (cases "fst p = k")
       (auto simp: dict_values_def dict_get_def dict_ok_def algebra_simps split: option.splits)
qed (simp add: dict_values_def dict_get_def)

lemma values_update_subset: "set (dict_values (AList.update k v d)) \<subseteq> insert v (set (dict_values d))"
  by (induction d) (auto simp: dict_values_def)

lemma fold_update_distinct:
  "distinct (map f xs) \<Longrightarrow> set (map f xs) \<inter> set (map fst d) = {} \<Longrightarrow>
     fold (\<lambda>x. AList.update (f x) (g x)) xs d = d @ map (\<lambda>x. (f x, g x)) xs"
proof (induction xs arbitrary: d)
  case (Cons x xs)
  then have "f x \<notin> set (map fst d)" by auto
  then have "AList.update (f x) (g x) d = d @ [(f x, g x)]" by (induction d) auto
  with Cons show ?case by auto
qed simp

section \<open>Selection and sorting\<close>

text \<open>\<open>xs[i]\<close>: a negative index counts from the end, an index out of range raises.\<close>

definition py_item :: "'a list \<Rightarrow> int \<Rightarrow> 'a result" where
  "py_item xs i =
     (let j = (if i < 0 then i + int (length xs) else i)
      in if 0 \<le> j \<and> j < int (length xs) then Inr (xs ! nat j) else Inl IndexError)"

lemma py_item_Inr [simp]: "0 \<le> i \<Longrightarrow> i < int (length xs) \<Longrightarrow> py_item xs i = Inr (xs ! nat i)"
  by (simp add: py_item_def)

lemma py_item_in_set: "py_item xs i = Inr x \<Longrightarrow> x \<in> set xs"
  by (auto simp: py_item_def Let_def split: if_splits)

text \<open>\<open>min(xs, key=f)\<close> and \<open>max(xs, key=f)\<close>: the first extremal element.\<close>

definition min_by :: "('a \<Rightarrow> 'k::linorder) \<Rightarrow> 'a list \<Rightarrow> 'a result" where
  "min_by f xs =
     (case xs of [] \<Rightarrow> Inl (ValueError ''min() arg is an empty sequence'')
      | y # ys \<Rightarrow> Inr (fold (\<lambda>z best. if f z < f best then z else best) ys y))"

definition max_by :: "('a \<Rightarrow> 'k::linorder) \<Rightarrow> 'a list \<Rightarrow> 'a result" where
  "max_by f xs =
     (case xs of [] \<Rightarrow> Inl (ValueError ''max() arg is an empty sequence'')
      | y # ys \<Rightarrow> Inr (fold (\<lambda>z best. if f best < f z then z else best) ys y))"

text \<open>
  The position of the selected element: everything before it is strictly worse, nothing
  after it is better.
\<close>

definition first_least :: "('a \<Rightarrow> 'k::linorder) \<Rightarrow> 'a list \<Rightarrow> 'a \<Rightarrow> bool" where
  "first_least f xs m \<longleftrightarrow>
     (\<exists>pre post. xs = pre @ m # post \<and> (\<forall>x \<in> set pre. f m < f x) \<and> (\<forall>x \<in> set post. f m \<le> f x))"

lemma first_least_snoc:
  assumes "first_least f xs m"
  shows "first_least f (xs @ [z]) (if f z < f m then z else m)"
proof -
  from assms obtain pre post where xs: "xs = pre @ m # post"
    and pre: "\<forall>x \<in> set pre. f m < f x" and post: "\<forall>x \<in> set post. f m \<le> f x"
    by (auto simp: first_least_def)
  show ?thesis
  proof (cases "f z < f m")
    case True
    have "\<forall>x \<in> set xs. f z < f x" using True pre post xs by fastforce
    with True show ?thesis
      unfolding first_least_def by (intro exI [of _ xs] exI [of _ "[]"]) simp
  next
    case False
    with xs pre post show ?thesis
      unfolding first_least_def by (intro exI [of _ pre] exI [of _ "post @ [z]"]) auto
  qed
qed

lemma fold_first_least: "first_least f (y # ys) (fold (\<lambda>z best. if f z < f best then z else best) ys y)"
proof (induction ys rule: rev_induct)
  case Nil
  show ?case unfolding first_least_def by (intro exI [of _ "[]"]) simp
next
  case (snoc z ys)
  from first_least_snoc [OF this, of z] show ?case by simp
qed

lemma min_by_first_least: "min_by f xs = Inr m \<Longrightarrow> first_least f xs m"
  by (auto simp: min_by_def fold_first_least split: list.splits)

lemma min_by_Inr: "xs \<noteq> [] \<Longrightarrow> \<exists>m. min_by f xs = Inr m"
  by (auto simp: min_by_def neq_Nil_conv)

lemma min_by_Inl_iff: "(\<exists>e. min_by f xs = Inl e) \<longleftrightarrow> xs = []"
  by (auto simp: min_by_def split: list.splits)

lemma min_by_in_set: "min_by f xs = Inr m \<Longrightarrow> m \<in> set xs"
  by (drule min_by_first_least) (auto simp: first_least_def)

lemma first_least_le: "first_least f xs m \<Longrightarrow> x \<in> set xs \<Longrightarrow> f m \<le> f x"
  by (fastforce simp: first_least_def)

lemma min_by_le: "min_by f xs = Inr m \<Longrightarrow> x \<in> set xs \<Longrightarrow> f m \<le> f x"
  by (drule min_by_first_least) (rule first_least_le)

text \<open>\<open>max\<close> is \<open>min\<close> for the negated key, on numbers.\<close>

lemma max_by_min_by:
  fixes f :: "'a \<Rightarrow> rat"
  shows "xs \<noteq> [] \<Longrightarrow> max_by f xs = min_by (\<lambda>x. - f x) xs"
  by (auto simp: max_by_def min_by_def neq_Nil_conv)

text \<open>
  \<open>xs.sort(key=f)\<close> is stable, and so is \<open>xs.sort(key=f, reverse=True)\<close>, which CPython
  implements by reversing, sorting and reversing again.
\<close>

definition sort_desc :: "('a \<Rightarrow> 'k::linorder) \<Rightarrow> 'a list \<Rightarrow> 'a list" where
  "sort_desc f xs = rev (sort_key f (rev xs))"

lemma set_sort_desc [simp]: "set (sort_desc f xs) = set xs"
  and mset_sort_desc [simp]: "mset (sort_desc f xs) = mset xs"
  and length_sort_desc [simp]: "length (sort_desc f xs) = length xs"
  by (simp_all add: sort_desc_def)

lemma sorted_sort_desc: "sorted_wrt (\<lambda>x y. f y \<le> f x) (sort_desc f xs)"
proof -
  have "sorted (map f (sort_key f (rev xs)))" by simp
  then have "sorted_wrt (\<lambda>x y. f x \<le> f y) (sort_key f (rev xs))"
    by (simp add: sorted_wrt_map)
  then show ?thesis by (simp add: sort_desc_def sorted_wrt_rev)
qed

section \<open>Strings\<close>

text \<open>Decimal rendering: \<open>str(n)\<close>, \<open>f"{n}"\<close> and the zero-padded \<open>f"{n:06d}"\<close>.\<close>

fun show_nat :: "nat \<Rightarrow> string" where
  "show_nat n = (if n < 10 then [char_of (48 + n)] else show_nat (n div 10) @ [char_of (48 + n mod 10)])"

declare show_nat.simps [simp del]

definition show_int :: "int \<Rightarrow> string" where
  "show_int k = (if k < 0 then CHR ''-'' # show_nat (nat (- k)) else show_nat (nat k))"

definition zfill :: "nat \<Rightarrow> string \<Rightarrow> string" where
  "zfill w s = replicate (w - length s) CHR ''0'' @ s"

text \<open>\<open>f"{x:.nf}"\<close>: the value rounded half to even to \<open>n\<close> decimals.\<close>

definition format_fixed :: "nat \<Rightarrow> rat \<Rightarrow> string" where
  "format_fixed n x =
     (let k = nat (round_half_even (\<bar>x\<bar> * 10 ^ n))
      in (if x < 0 then ''-'' else []) @ show_nat (k div 10 ^ n) @ ''.'' @ zfill n (show_nat (k mod 10 ^ n)))"

definition read_nat :: "string \<Rightarrow> nat" where
  "read_nat s = foldl (\<lambda>n c. 10 * n + (of_char c - 48)) 0 s"

lemma read_nat_snoc: "read_nat (s @ [c]) = 10 * read_nat s + (of_char c - 48)"
  by (simp add: read_nat_def)

lemma of_char_digit: "n < 10 \<Longrightarrow> of_char (char_of (48 + n)) = (48 + n :: nat)"
  by simp

lemma read_show_nat [simp]: "read_nat (show_nat n) = n"
proof (induction n rule: show_nat.induct)
  case (1 n)
  show ?case
  proof (cases "n < 10")
    case True
    then show ?thesis by (simp add: show_nat.simps [of n] read_nat_def)
  next
    case False
    then show ?thesis using "1.IH" by (simp add: show_nat.simps [of n] read_nat_snoc)
  qed
qed

lemma show_nat_inject [simp]: "show_nat m = show_nat n \<longleftrightarrow> m = n"
  by (metis read_show_nat)

lemma show_nat_digits: "c \<in> set (show_nat n) \<Longrightarrow> c \<in> set ''0123456789''"
proof (induction n rule: show_nat.induct)
  case (1 n)
  have digit: "char_of (48 + k) \<in> set ''0123456789''" if "k < 10" for k :: nat
  proof -
    have "\<forall>k \<in> set [0..<10]. char_of (48 + k :: nat) \<in> set ''0123456789''" by code_simp
    with that show ?thesis by simp
  qed
  show ?case
  proof (cases "n < 10")
    case True
    with "1.prems" digit show ?thesis by (simp add: show_nat.simps [of n])
  next
    case False
    with "1.prems" consider "c \<in> set (show_nat (n div 10))" | "c = char_of (48 + n mod 10)"
      by (auto simp: show_nat.simps [of n])
    then show ?thesis using "1.IH" [OF False] digit [of "n mod 10"] by cases auto
  qed
qed

text \<open>Splitting at a separator that the first part does not contain is unambiguous.\<close>

lemma sep_inject:
  assumes "c \<notin> set a" and "c \<notin> set a'"
  shows "a @ c # b = a' @ c # b' \<longleftrightarrow> a = a' \<and> b = b'"
  using assms
proof (induction a arbitrary: a')
  case Nil
  then show ?case by (cases a') auto
next
  case (Cons x a)
  then show ?case by (cases a') auto
qed

section \<open>JSON values\<close>

text \<open>What \<open>json.loads\<close> returns and \<open>dict[str, Any]\<close> holds.\<close>

datatype json =
    JNull
  | JBool bool
  | JInt int
  | JFloat pyfloat
  | JStr string
  | JList "json list"
  | JDict "(string \<times> json) list"

fun opt_str :: "string option \<Rightarrow> json" where
  "opt_str None = JNull"
| "opt_str (Some s) = JStr s"

end
