(* ===== verification/PyStrings.thy ===== *)
theory PyStrings
  imports PyPrelude
begin

text \<open>
  The string methods and the two regular expressions the sources use, on ASCII text:
  \<open>strip\<close>, \<open>rstrip\<close>, \<open>split()\<close>, \<open>splitlines\<close>, \<open>startswith\<close>, \<open>in\<close>, \<open>lower\<close> and the
  pattern \<open>(GPU\d+|NIC\d+)\<close> with \<open>re.findall\<close> and \<open>re.match\<close>. The lemmas say that splitting
  yields non-empty words without white space, and that joining and splitting are inverse.
\<close>

definition is_space :: "char \<Rightarrow> bool" where
  "is_space c \<longleftrightarrow> (let n = of_char c :: nat in n = 32 \<or> (9 \<le> n \<and> n \<le> 13) \<or> (28 \<le> n \<and> n \<le> 31))"

definition is_digit :: "char \<Rightarrow> bool" where
  "is_digit c \<longleftrightarrow> (let n = of_char c :: nat in 48 \<le> n \<and> n \<le> 57)"

definition lstrip :: "string \<Rightarrow> string" where
  "lstrip s = dropWhile is_space s"

definition rstrip :: "string \<Rightarrow> string" where
  "rstrip s = rev (dropWhile is_space (rev s))"

definition strip :: "string \<Rightarrow> string" where
  "strip s = rstrip (lstrip s)"

definition lower_char :: "char \<Rightarrow> char" where
  "lower_char c = (let n = of_char c :: nat in if 65 \<le> n \<and> n \<le> 90 then char_of (n + 32) else c)"

definition lower :: "string \<Rightarrow> string" where
  "lower s = map lower_char s"

text \<open>\<open>s.split()\<close>: the maximal runs of non-space characters.\<close>

function split_ws :: "string \<Rightarrow> string list" where
  "split_ws s =
     (let t = dropWhile is_space s
      in if t = [] then [] else takeWhile (\<lambda>c. \<not> is_space c) t # split_ws (dropWhile (\<lambda>c. \<not> is_space c) t))"
  by pat_completeness auto
termination
proof (relation "measure length", goal_cases)
  case 1
  show ?case by simp
next
  case (2 s t)
  then have "t \<noteq> []" and "\<not> is_space (hd t)" using hd_dropWhile [of is_space s] by simp_all
  then have "length (dropWhile (\<lambda>c. \<not> is_space c) t) < length t"
    by (cases t) (auto intro: le_less_trans [OF length_dropWhile_le])
  also have "length t \<le> length s" using 2 by (simp add: length_dropWhile_le)
  finally show ?case by simp
qed

declare split_ws.simps [simp del]

text \<open>\<open>s.splitlines()\<close>: line feed, carriage return (with or without line feed) and the other
  ASCII line boundaries; no empty last line.\<close>

definition is_linebreak :: "char \<Rightarrow> bool" where
  "is_linebreak c \<longleftrightarrow> (let n = of_char c :: nat in (10 \<le> n \<and> n \<le> 13) \<or> (28 \<le> n \<and> n \<le> 30))"

fun splitlines_from :: "string \<Rightarrow> string \<Rightarrow> string list" where
  "splitlines_from line [] = (if line = [] then [] else [line])"
| "splitlines_from line [c] = (if is_linebreak c then [line] else [line @ [c]])"
| "splitlines_from line (c # d # s) =
     (if \<not> is_linebreak c then splitlines_from (line @ [c]) (d # s)
      else if c = CHR 0x0D \<and> d = CHR 0x0A then line # splitlines_from [] s
      else line # splitlines_from [] (d # s))"

definition splitlines :: "string \<Rightarrow> string list" where
  "splitlines s = splitlines_from [] s"

lemma splitlines_from_plain:
  assumes "\<forall>c \<in> set t. \<not> is_linebreak c" and "is_linebreak c" and "c \<noteq> CHR 0x0D"
  shows "splitlines_from line (t @ c # s) = (line @ t) # splitlines_from [] s"
  using assms(1)
proof (induction t arbitrary: line)
  case Nil
  show ?case using assms(2,3) by (cases s) simp_all
next
  case (Cons d t)
  then show ?case by (cases t) simp_all
qed

lemma splitlines_lines:
  assumes "\<forall>t \<in> set ts. \<forall>c \<in> set t. \<not> is_linebreak c"
  shows "splitlines (concat (map (\<lambda>t. t @ [CHR 0x0A]) ts)) = ts"
proof -
  have "is_linebreak (CHR 0x0A)" by (simp add: is_linebreak_def)
  with assms show ?thesis
    unfolding splitlines_def by (induction ts) (simp_all add: splitlines_from_plain)
qed

definition startswith :: "string \<Rightarrow> string \<Rightarrow> bool" where
  "startswith s p \<longleftrightarrow> take (length p) s = p"

fun contains :: "string \<Rightarrow> string \<Rightarrow> bool" where
  "contains p [] \<longleftrightarrow> p = []"
| "contains p (c # s) \<longleftrightarrow> startswith (c # s) p \<or> contains p s"

text \<open>
  The pattern \<open>(GPU\d+|NIC\d+)\<close> at the start of a text: the matched device name and the rest.
\<close>

definition match_device :: "string \<Rightarrow> (string \<times> string) option" where
  "match_device s =
     (let digits = takeWhile is_digit (drop 3 s)
      in if (startswith s ''GPU'' \<or> startswith s ''NIC'') \<and> digits \<noteq> []
         then Some (take 3 s @ digits, drop (3 + length digits) s) else None)"

lemma match_device_shorter: "match_device s = Some (d, r) \<Longrightarrow> length r < length s"
proof -
  assume m: "match_device s = Some (d, r)"
  then have "takeWhile is_digit (drop 3 s) \<noteq> []" and "r = drop (3 + length (takeWhile is_digit (drop 3 s))) s"
    by (auto simp: match_device_def Let_def split: if_splits)
  moreover from this(1) have "drop 3 s \<noteq> []" by auto
  ultimately show ?thesis by simp
qed

text \<open>\<open>re.findall\<close>: the non-overlapping matches from left to right.\<close>

function findall_device :: "string \<Rightarrow> string list" where
  "findall_device s =
     (case match_device s of
        Some (d, r) \<Rightarrow> d # findall_device r
      | None \<Rightarrow> (case s of [] \<Rightarrow> [] | c # t \<Rightarrow> findall_device t))"
  by pat_completeness auto
termination
  by (relation "measure length") (auto dest: match_device_shorter)

declare findall_device.simps [simp del]

text \<open>\<open>re.match(r"^(GPU\d+|NIC\d+)\s", line)\<close>.\<close>

definition is_device_row :: "string \<Rightarrow> bool" where
  "is_device_row line \<longleftrightarrow>
     (case match_device line of Some (d, c # r) \<Rightarrow> is_space c | _ \<Rightarrow> False)"

section \<open>Numbers from text and from JSON\<close>

text \<open>
  \<open>int(s)\<close> and \<open>float(s)\<close> of a string: surrounding white space, a sign, decimal digits with
  single underscores between them, for floats also a fraction and an exponent. The spellings of
  infinity and NaN are outside the float model and refused like any other text.
\<close>

fun valid_digits :: "bool \<Rightarrow> string \<Rightarrow> bool" where
  "valid_digits prev [] \<longleftrightarrow> prev"
| "valid_digits prev (c # s) \<longleftrightarrow>
     (if is_digit c then valid_digits True s else c = CHR ''_'' \<and> prev \<and> valid_digits False s)"

definition parse_digits :: "string \<Rightarrow> nat option" where
  "parse_digits s = (if valid_digits False s then Some (read_nat (filter is_digit s)) else None)"

definition parse_signed :: "(string \<Rightarrow> 'a::uminus option) \<Rightarrow> string \<Rightarrow> 'a option" where
  "parse_signed p s =
     (case s of [] \<Rightarrow> None
      | c # r \<Rightarrow> if c = CHR ''-'' then map_option uminus (p r) else if c = CHR ''+'' then p r else p s)"

definition parse_int :: "string \<Rightarrow> int option" where
  "parse_int s = parse_signed (\<lambda>d. map_option int (parse_digits d)) (strip s)"

definition parse_fraction :: "string \<Rightarrow> rat option" where
  "parse_fraction m =
     (let ip = takeWhile (\<lambda>c. c \<noteq> CHR ''.'') m; fp = drop (Suc (length ip)) m;
          digits = (\<lambda>d. if d = [] then Some 0 else parse_digits d)
      in if ip = [] \<and> fp = [] then None
         else case (digits ip, digits fp) of
             (Some i, Some f) \<Rightarrow> Some (of_nat i + of_nat f / 10 ^ length (filter is_digit fp))
           | _ \<Rightarrow> None)"

definition parse_unsigned_float :: "string \<Rightarrow> rat option" where
  "parse_unsigned_float s =
     (let m = takeWhile (\<lambda>c. c \<noteq> CHR ''e'' \<and> c \<noteq> CHR ''E'') s; r = drop (length m) s
      in case (parse_fraction m,
               if r = [] then Some 0 else parse_signed (\<lambda>d. map_option int (parse_digits d)) (tl r)) of
           (Some x, Some k) \<Rightarrow> Some (if 0 \<le> k then x * 10 ^ nat k else x / 10 ^ nat (- k))
         | _ \<Rightarrow> None)"

definition parse_float :: "string \<Rightarrow> rat option" where
  "parse_float s = parse_signed parse_unsigned_float (strip s)"

definition json_int :: "json \<Rightarrow> int result" where
  "json_int v =
     (case v of JInt k \<Rightarrow> Inr k | JFloat x \<Rightarrow> Inr (py_int x) | JBool b \<Rightarrow> Inr (if b then 1 else 0)
      | JStr s \<Rightarrow> (case parse_int s of Some k \<Rightarrow> Inr k | None \<Rightarrow> Inl (ValueError s))
      | _ \<Rightarrow> Inl TypeError)"

definition json_float :: "json \<Rightarrow> pyfloat result" where
  "json_float v =
     (case v of JInt k \<Rightarrow> Inr (of_int k) | JFloat x \<Rightarrow> Inr x | JBool b \<Rightarrow> Inr (if b then 1 else 0)
      | JStr s \<Rightarrow> (case parse_float s of Some x \<Rightarrow> Inr x | None \<Rightarrow> Inl (ValueError s))
      | _ \<Rightarrow> Inl TypeError)"

text \<open>
  \<open>str(v)\<close>; the rendering of floats, lists and dictionaries (\<open>repr\<close>) is the parameter \<open>repr\<close>.
\<close>

definition json_str :: "(json \<Rightarrow> string) \<Rightarrow> json \<Rightarrow> string" where
  "json_str repr v =
     (case v of JStr s \<Rightarrow> s | JInt k \<Rightarrow> show_int k | JNull \<Rightarrow> ''None''
      | JBool b \<Rightarrow> if b then ''True'' else ''False'' | _ \<Rightarrow> repr v)"

text \<open>Truth value of a JSON value, as \<open>if not payload\<close> tests it.\<close>

fun json_truthy :: "json \<Rightarrow> bool" where
  "json_truthy JNull \<longleftrightarrow> False"
| "json_truthy (JBool b) \<longleftrightarrow> b"
| "json_truthy (JInt k) \<longleftrightarrow> k \<noteq> 0"
| "json_truthy (JFloat x) \<longleftrightarrow> x \<noteq> 0"
| "json_truthy (JStr s) \<longleftrightarrow> s \<noteq> []"
| "json_truthy (JList xs) \<longleftrightarrow> xs \<noteq> []"
| "json_truthy (JDict d) \<longleftrightarrow> d \<noteq> []"

section \<open>Access to JSON values\<close>

text \<open>Iterating over, and reading attributes of, a value that came from JSON.\<close>

definition json_iter :: "json \<Rightarrow> json list result" where
  "json_iter v =
     (case v of JList xs \<Rightarrow> Inr xs | JDict d \<Rightarrow> Inr (map JStr (dict_keys d)) | JStr s \<Rightarrow> Inr (map (\<lambda>c. JStr [c]) s)
      | _ \<Rightarrow> Inl TypeError)"

definition json_get :: "json \<Rightarrow> string \<Rightarrow> json \<Rightarrow> json result" where
  "json_get v k d = (case v of JDict kvs \<Rightarrow> Inr (dict_get d kvs k) | _ \<Rightarrow> Inl (AttributeError ''get''))"

text \<open>\<open>v.get(k1) or v.get(k2) or d\<close>.\<close>

fun json_first :: "json \<Rightarrow> string list \<Rightarrow> json \<Rightarrow> json result" where
  "json_first v [] d = Inr d"
| "json_first v (k # ks) d = ebind (json_get v k JNull) (\<lambda>x. if json_truthy x then Inr x else json_first v ks d)"

text \<open>\<open>v[k]\<close> with a string key.\<close>

definition json_item :: "json \<Rightarrow> string \<Rightarrow> json result" where
  "json_item v k = (case v of JDict kvs \<Rightarrow> dict_item kvs k (KeyError k) | _ \<Rightarrow> Inl TypeError)"

lemma json_item_Inr: "json_item v k = Inr x \<longleftrightarrow> (\<exists>kvs. v = JDict kvs \<and> map_of kvs k = Some x)"
  by (auto simp: json_item_def dict_item_def split: json.splits option.splits)

section \<open>Lemmas\<close>

lemma is_digit_set: "c \<in> set ''0123456789'' \<Longrightarrow> is_digit c"
  by (auto simp: is_digit_def)

lemma show_nat_nonempty [simp]: "show_nat n \<noteq> []"
  by (subst show_nat.simps) simp

lemma valid_digits_all: "\<forall>c \<in> set s. is_digit c \<Longrightarrow> valid_digits b s \<longleftrightarrow> s \<noteq> [] \<or> b"
  by (induction s arbitrary: b) auto

lemma parse_show_nat [simp]: "parse_digits (show_nat n) = Some n"
proof -
  have "\<forall>c \<in> set (show_nat n). is_digit c" using show_nat_digits is_digit_set by blast
  then show ?thesis by (simp add: parse_digits_def valid_digits_all)
qed

lemma split_ws_words: "w \<in> set (split_ws s) \<Longrightarrow> w \<noteq> [] \<and> (\<forall>c \<in> set w. \<not> is_space c)"
proof (induction s rule: split_ws.induct)
  case (1 s)
  define t where "t = dropWhile is_space s"
  show ?case
  proof (cases "t = []")
    case True
    with "1.prems" show ?thesis by (simp add: split_ws.simps [of s] t_def)
  next
    case False
    have "\<not> is_space (hd t)" using False hd_dropWhile unfolding t_def by blast
    then have "takeWhile (\<lambda>c. \<not> is_space c) t \<noteq> []" using False by (cases t) auto
    note first = this
    have "split_ws s =
        takeWhile (\<lambda>c. \<not> is_space c) t # split_ws (dropWhile (\<lambda>c. \<not> is_space c) t)"
      using False by (simp only: split_ws.simps [of s] t_def [symmetric] Let_def if_False)
    with "1.prems" consider (head) "w = takeWhile (\<lambda>c. \<not> is_space c) t"
      | (tail) "w \<in> set (split_ws (dropWhile (\<lambda>c. \<not> is_space c) t))"
      by auto
    then show ?thesis
    proof cases
      case head
      with first show ?thesis by (metis set_takeWhileD)
    next
      case tail
      then show ?thesis by (rule "1.IH" [OF t_def False])
    qed
  qed
qed

section \<open>Printing and parsing numbers\<close>

lemma digit_plain:
  assumes "is_digit c"
  shows "\<not> is_space c" "c \<noteq> CHR ''-''" "c \<noteq> CHR ''+''" "c \<noteq> CHR ''.''" "c \<noteq> CHR ''e''" "c \<noteq> CHR ''E''" "c \<noteq> CHR 0x0D"
  using assms by (auto simp: is_digit_def is_space_def Let_def)

lemma show_nat_all_digits: "c \<in> set (show_nat n) \<Longrightarrow> is_digit c"
  using show_nat_digits is_digit_set by blast

lemma zfill_all_digits: "c \<in> set (zfill w (show_nat n)) \<Longrightarrow> is_digit c"
proof -
  assume "c \<in> set (zfill w (show_nat n))"
  then consider "c = CHR ''0''" | "c \<in> set (show_nat n)" by (auto simp: zfill_def)
  then show ?thesis by cases (simp_all add: show_nat_all_digits, simp add: is_digit_def)
qed

lemma strip_plain: "\<forall>c \<in> set s. \<not> is_space c \<Longrightarrow> strip s = s"
proof -
  assume plain: "\<forall>c \<in> set s. \<not> is_space c"
  have drop: "dropWhile is_space t = t" if "\<forall>c \<in> set t. \<not> is_space c" for t using that by (cases t) simp_all
  have "dropWhile is_space s = s" "dropWhile is_space (rev s) = rev s" using plain by (simp_all add: drop)
  then show ?thesis by (simp add: strip_def lstrip_def rstrip_def)
qed

lemma takeWhile_all: "\<forall>c \<in> set s. P c \<Longrightarrow> takeWhile P s = s"
  by (simp add: takeWhile_eq_all_conv)

lemma length_show_nat: "n < 10 ^ Suc k \<Longrightarrow> length (show_nat n) \<le> Suc k"
proof (induction k arbitrary: n)
  case 0
  then show ?case by (simp add: show_nat.simps [of n])
next
  case (Suc k)
  show ?case
  proof (cases "n < 10")
    case False
    have "n div 10 < 10 ^ Suc k" using Suc.prems by (simp add: div_less_iff_less_mult)
    with Suc.IH False show ?thesis by (simp add: show_nat.simps [of n])
  qed (simp add: show_nat.simps [of n])
qed

lemma read_nat_zeros: "read_nat (replicate k CHR ''0'' @ s) = read_nat s"
proof -
  have "foldl (\<lambda>n c. 10 * n + (of_char c - 48)) 0 (replicate k CHR ''0'') = (0 :: nat)" by (induction k) simp_all
  then show ?thesis by (simp add: read_nat_def)
qed

lemma read_nat_zfill [simp]: "read_nat (zfill w s) = read_nat s"
  by (simp add: zfill_def read_nat_zeros)

lemma zfill_nonempty [simp]: "zfill w (show_nat n) \<noteq> []"
  by (simp add: zfill_def)

lemma parse_zfill [simp]: "parse_digits (zfill w (show_nat n)) = Some n"
proof -
  have "\<forall>c \<in> set (zfill w (show_nat n)). is_digit c" using zfill_all_digits by blast
  then show ?thesis by (simp add: parse_digits_def valid_digits_all)
qed

lemma non_digits [simp]: "\<not> is_digit CHR ''e''" "\<not> is_digit CHR ''E''" "\<not> is_digit CHR ''.''" "\<not> is_digit CHR 0x0D"
  by (simp_all add: is_digit_def)

lemma digits_avoid [simp]:
  "\<not> is_digit c \<Longrightarrow> c \<notin> set (show_nat n)" "\<not> is_digit c \<Longrightarrow> c \<notin> set (zfill w (show_nat n))"
  using show_nat_all_digits zfill_all_digits by blast+

text \<open>Decimal digits with a fraction are read as the number they denote.\<close>

lemma parse_unsigned_decimal:
  "parse_unsigned_float (show_nat a @ CHR ''.'' # zfill w (show_nat b)) =
     Some (of_nat a + of_nat b / 10 ^ length (zfill w (show_nat b)))"
proof -
  let ?s = "show_nat a @ CHR ''.'' # zfill w (show_nat b)"
  have e: "takeWhile (\<lambda>c. c \<noteq> CHR ''e'' \<and> c \<noteq> CHR ''E'') ?s = ?s" by (intro takeWhile_all) auto
  have d: "takeWhile (\<lambda>c. c \<noteq> CHR ''.'') ?s = show_nat a" by (subst takeWhile_append2) auto
  have "filter is_digit (zfill w (show_nat b)) = zfill w (show_nat b)"
    using zfill_all_digits by (auto simp: filter_id_conv)
  then show ?thesis unfolding parse_unsigned_float_def parse_fraction_def Let_def e d by simp
qed

lemma parse_unsigned_integer: "parse_unsigned_float (show_nat a) = Some (of_nat a)"
proof -
  have e: "takeWhile (\<lambda>c. c \<noteq> CHR ''e'' \<and> c \<noteq> CHR ''E'') (show_nat a) = show_nat a" by (intro takeWhile_all) auto
  have d: "takeWhile (\<lambda>c. c \<noteq> CHR ''.'') (show_nat a) = show_nat a" by (intro takeWhile_all) auto
  show ?thesis unfolding parse_unsigned_float_def parse_fraction_def Let_def e d by simp
qed

lemma parse_signed_digit:
  assumes "s \<noteq> []" and "is_digit (hd s)"
  shows "parse_signed p s = p s"
  using assms digit_plain(2,3) [OF assms(2)] by (cases s) (simp_all add: parse_signed_def)

lemma show_nat_hd [simp]: "is_digit (hd (show_nat n))"
  by (rule show_nat_all_digits [of _ n]) simp

lemma parse_float_show_nat [simp]: "parse_float (show_nat n) = Some (of_nat n)"
proof -
  have "strip (show_nat n) = show_nat n" using show_nat_all_digits digit_plain(1) by (intro strip_plain) blast
  then show ?thesis by (simp add: parse_float_def parse_signed_digit parse_unsigned_integer)
qed

lemma parse_float_show_int [simp]: "0 \<le> k \<Longrightarrow> parse_float (show_int k) = Some (of_int k)"
  by (simp add: show_int_def)

text \<open>Reading \<open>f"{x:.nf}"\<close> gives \<open>x\<close> rounded to \<open>n\<close> decimals.\<close>

lemma format_fixed_chars: "c \<in> set (format_fixed n x) \<Longrightarrow> is_digit c \<or> c = CHR ''-'' \<or> c = CHR ''.''"
  by (auto simp: format_fixed_def Let_def dest: show_nat_all_digits zfill_all_digits split: if_splits)

lemma round_half_even_neg: "round_half_even (- x) = - round_half_even x"
proof -
  have "x - of_int \<lfloor>x\<rfloor> < 1" and "of_int \<lfloor>x\<rfloor> \<le> x" by linarith+
  show ?thesis
  proof (cases "of_int \<lfloor>x\<rfloor> = x")
    case True
    then obtain m where "x = of_int m" by metis
    then show ?thesis using round_half_even_of_int [of m] round_half_even_of_int [of "- m"] by simp
  next
    case False
    then have "\<lfloor>- x\<rfloor> = - \<lfloor>x\<rfloor> - 1" by (simp add: floor_minus ceiling_altdef)
    then show ?thesis by (auto simp: round_half_even_def Let_def)
  qed
qed

lemma format_fixed_parts:
  assumes "0 < n"
  obtains a b where "format_fixed n x = (if x < 0 then ''-'' else []) @ show_nat a @ CHR ''.'' # zfill n (show_nat b)"
    and "length (zfill n (show_nat b)) = n"
    and "py_round n x = (if x < 0 then - (of_nat a + of_nat b / 10 ^ n) else of_nat a + of_nat b / 10 ^ n)"
proof -
  define k where "k = nat (round_half_even (\<bar>x\<bar> * 10 ^ n))"
  have k0: "0 \<le> round_half_even (\<bar>x\<bar> * 10 ^ n)" using round_half_even_mono [of 0 "\<bar>x\<bar> * 10 ^ n"] round_half_even_of_int [of 0] by simp
  have fmt: "format_fixed n x = (if x < 0 then ''-'' else []) @ show_nat (k div 10 ^ n) @ CHR ''.'' # zfill n (show_nat (k mod 10 ^ n))"
    unfolding format_fixed_def Let_def k_def by simp
  obtain j where j: "n = Suc j" using assms by (cases n) auto
  have "length (show_nat (k mod 10 ^ n)) \<le> n" unfolding j by (rule length_show_nat) simp
  then have len: "length (zfill n (show_nat (k mod 10 ^ n))) = n" by (simp add: zfill_def)
  have parts: "of_nat (k div 10 ^ n) + of_nat (k mod 10 ^ n) / 10 ^ n = (of_nat k / 10 ^ n :: rat)"
  proof -
    have "(of_nat k :: rat) = of_nat (k div 10 ^ n * 10 ^ n + k mod 10 ^ n)" by (simp only: div_mult_mod_eq)
    also have "\<dots> = of_nat (k div 10 ^ n) * 10 ^ n + of_nat (k mod 10 ^ n)" by (simp only: of_nat_add of_nat_mult of_nat_power of_nat_numeral)
    finally have "of_nat k / 10 ^ n = (of_nat (k div 10 ^ n) * 10 ^ n + of_nat (k mod 10 ^ n)) / (10 ^ n :: rat)"
      by (rule arg_cong)
    then show ?thesis by (simp only: add_divide_distrib) simp
  qed
  have "of_nat k = (of_int (round_half_even (\<bar>x\<bar> * 10 ^ n)) :: rat)" using k0 by (simp add: k_def)
  then have "py_round n x = (if x < 0 then - (of_nat k / 10 ^ n) else of_nat k / 10 ^ n)"
    using round_half_even_neg [of "x * 10 ^ n"] by (auto simp: py_round_def abs_if)
  then show ?thesis by (intro that [OF fmt len]) (simp only: parts)
qed

lemma parse_format_fixed:
  assumes "0 < n"
  shows "parse_float (format_fixed n x) = Some (py_round n x)"
proof -
  obtain a b where fmt: "format_fixed n x = (if x < 0 then ''-'' else []) @ show_nat a @ CHR ''.'' # zfill n (show_nat b)"
    and len: "length (zfill n (show_nat b)) = n"
    and val: "py_round n x = (if x < 0 then - (of_nat a + of_nat b / 10 ^ n) else of_nat a + of_nat b / 10 ^ n)"
    using format_fixed_parts [OF assms] by blast
  let ?body = "show_nat a @ CHR ''.'' # zfill n (show_nat b)"
  have body: "parse_unsigned_float ?body = Some (of_nat a + of_nat b / 10 ^ n)" by (simp add: parse_unsigned_decimal len)
  have strip: "strip (format_fixed n x) = format_fixed n x"
  proof (intro strip_plain ballI)
    fix c assume "c \<in> set (format_fixed n x)"
    then consider "is_digit c" | "c = CHR ''-''" | "c = CHR ''.''" using format_fixed_chars by blast
    then show "\<not> is_space c" by cases (simp_all add: digit_plain(1), simp_all add: is_space_def)
  qed
  have "hd ?body = hd (show_nat a)" by simp
  then have "parse_signed parse_unsigned_float ?body = parse_unsigned_float ?body"
    by (intro parse_signed_digit) (simp_all only: show_nat_hd, simp)
  with body val strip show ?thesis by (auto simp: parse_float_def fmt) (auto simp: parse_signed_def)
qed

end
