(* ===== verification/Argparse.thy ===== *)
theory Argparse
  imports PyStrings
begin

text \<open>
  Command lines as the programs of the repository read them with \<open>argparse\<close>: parsers whose arguments are
  long options with one value, with one or more values (\<open>nargs="+"\<close>) or with none (\<open>store_true\<close>). The
  classification of the arguments follows the library: exact and unambiguous abbreviated options,
  \<open>--option=value\<close>, negative numbers and texts with blanks as values, the help option. Every error ends
  the program with status 2, the help with status 0. The separator \<open>--\<close>, which these parsers have no use
  for, is outside the model. The lemmas show that options given with their values are read back, and that
  the others have their defaults.
\<close>

section \<open>Parsers\<close>

datatype arg_kind = Text_arg | Int_arg | Texts_arg | Ints_arg | Flag_arg

datatype arg_value = No_value | Text string | Number int | Texts "string list" | Numbers "int list" | Flag bool

record arg_option =
  ao_flag :: string
  ao_kind :: arg_kind
  ao_default :: arg_value
  ao_required :: bool
  ao_choices :: "string list option"

type_synonym namespace = "(string, arg_value) dict"

definition usage_error :: "'a result" where
  "usage_error = Inl (SystemExit ''2'')"

text \<open>The attribute an option sets: its name with underscores.\<close>

definition dest :: "string \<Rightarrow> string" where
  "dest flag = map (\<lambda>c. if c = CHR ''-'' then CHR ''_'' else c) (drop 2 flag)"

definition add_argument :: "string \<Rightarrow> arg_kind \<Rightarrow> arg_value \<Rightarrow> arg_option" where
  "add_argument flag kind d = \<lparr>ao_flag = flag, ao_kind = kind, ao_default = d, ao_required = False, ao_choices = None\<rparr>"

section \<open>Classification\<close>

datatype arg_class = Value | Option arg_option "string option" | Help | Invalid | Unknown | Separator

definition negative_number :: "string \<Rightarrow> bool" where
  "negative_number s =
     (case s of [] \<Rightarrow> False
      | c # d \<Rightarrow> c = CHR ''-'' \<and>
          (d \<noteq> [] \<and> (\<forall>x \<in> set d. is_digit x) \<or>
           (let r = dropWhile is_digit d
            in startswith r ''.'' \<and> tl r \<noteq> [] \<and> (\<forall>x \<in> set (tl r). is_digit x))))"

text \<open>The part before the first \<open>=\<close>, and the value after it if there is one.\<close>

definition split_value :: "string \<Rightarrow> string \<times> string option" where
  "split_value s =
     (let name = takeWhile (\<lambda>c. c \<noteq> CHR ''='') s; rest = dropWhile (\<lambda>c. c \<noteq> CHR ''='') s
      in (name, case rest of [] \<Rightarrow> None | _ # v \<Rightarrow> Some v))"

definition find_option :: "arg_option list \<Rightarrow> string \<Rightarrow> arg_option option" where
  "find_option options flag = find (\<lambda>p. ao_flag p = flag) options"

definition classify :: "arg_option list \<Rightarrow> string \<Rightarrow> arg_class" where
  "classify options s =
     (if s = ''--'' then Separator
      else if \<not> startswith s ''-'' then Value
      else if s \<in> {''-h'', ''--help''} then Help
      else case find_option options s of
          Some p \<Rightarrow> Option p None
        | None \<Rightarrow>
            if length s = 1 then Value
            else let (name, explicit) = split_value s;
                     exact = (if explicit = None then None else find_option options name);
                     near = filter (\<lambda>flag. startswith flag name) (''--help'' # map ao_flag options)
            in (case exact of
                  Some p \<Rightarrow> Option p explicit
                | None \<Rightarrow>
                    if startswith s ''--'' \<and> 1 < length near then Invalid
                    else if startswith s ''--'' \<and> length near = 1
                    then (case find_option options (hd near) of
                            Some p \<Rightarrow> Option p explicit
                          | None \<Rightarrow> if explicit = None then Help else Invalid)
                    else if negative_number s then Value
                    else if CHR '' '' \<in> set s then Value
                    else Unknown))"

section \<open>Parsing\<close>

definition arg_text :: "arg_option \<Rightarrow> string \<Rightarrow> string result" where
  "arg_text p v = (case ao_choices p of None \<Rightarrow> Inr v | Some choices \<Rightarrow> if v \<in> set choices then Inr v else usage_error)"

definition arg_int :: "string \<Rightarrow> int result" where
  "arg_int v = (case parse_int v of None \<Rightarrow> usage_error | Some n \<Rightarrow> Inr n)"

text \<open>The value an option gets from the arguments that follow it, and how many of them it takes.\<close>

definition option_value :: "arg_option \<Rightarrow> string option \<Rightarrow> string list \<Rightarrow> (arg_value \<times> nat) result" where
  "option_value p explicit following =
     (let given = (case explicit of Some v \<Rightarrow> [v] | None \<Rightarrow> following);
          taken = (\<lambda>n. case explicit of Some _ \<Rightarrow> 0 | None \<Rightarrow> n)
      in case ao_kind p of
           Flag_arg \<Rightarrow> if explicit = None then Inr (Flag True, 0) else usage_error
         | Text_arg \<Rightarrow> (case given of [] \<Rightarrow> usage_error | v # _ \<Rightarrow> ebind (arg_text p v) (\<lambda>t. Inr (Text t, taken 1)))
         | Int_arg \<Rightarrow> (case given of [] \<Rightarrow> usage_error | v # _ \<Rightarrow> ebind (arg_int v) (\<lambda>n. Inr (Number n, taken 1)))
         | Texts_arg \<Rightarrow> if given = [] then usage_error
             else ebind (emap (arg_text p) given) (\<lambda>ts. Inr (Texts ts, taken (length given)))
         | Ints_arg \<Rightarrow> if given = [] then usage_error
             else ebind (emap arg_int given) (\<lambda>ns. Inr (Numbers ns, taken (length given))))"

text \<open>The options given, in order, and whether an argument was not recognised.\<close>

function parse_loop :: "arg_option list \<Rightarrow> string list \<Rightarrow> namespace \<Rightarrow> bool \<Rightarrow> (namespace \<times> bool) result" where
  "parse_loop options [] given extras = Inr (given, extras)"
| "parse_loop options (s # rest) given extras =
     (case classify options s of
        Value \<Rightarrow> parse_loop options rest given True
      | Unknown \<Rightarrow> parse_loop options rest given True
      | Help \<Rightarrow> Inl (SystemExit ''0'')
      | Invalid \<Rightarrow> usage_error
      | Separator \<Rightarrow> Inl (Untyped ''--'')
      | Option p explicit \<Rightarrow>
          ebind (option_value p explicit (takeWhile (\<lambda>t. classify options t = Value) rest)) (\<lambda>(v, n).
          parse_loop options (drop n rest) (AList.update (dest (ao_flag p)) v given) extras))"
  by pat_completeness auto
termination by (relation "measure (\<lambda>(_, args, _, _). length args)") auto

definition parse_args :: "arg_option list \<Rightarrow> string list \<Rightarrow> namespace result" where
  "parse_args options argv =
     ebind (parse_loop options argv [] False) (\<lambda>(given, extras).
     if extras \<or> (\<exists>p \<in> set options. ao_required p \<and> map_of given (dest (ao_flag p)) = None) then usage_error
     else Inr (map (\<lambda>p. (dest (ao_flag p), dict_get (ao_default p) given (dest (ao_flag p)))) options))"

text \<open>The attributes of a namespace.\<close>

definition args_text :: "namespace \<Rightarrow> string \<Rightarrow> string result" where
  "args_text args k = (case map_of args k of Some (Text t) \<Rightarrow> Inr t | _ \<Rightarrow> Inl (AttributeError k))"

definition args_optional :: "namespace \<Rightarrow> string \<Rightarrow> string option result" where
  "args_optional args k =
     (case map_of args k of Some (Text t) \<Rightarrow> Inr (Some t) | Some No_value \<Rightarrow> Inr None | _ \<Rightarrow> Inl (AttributeError k))"

definition args_int :: "namespace \<Rightarrow> string \<Rightarrow> int result" where
  "args_int args k = (case map_of args k of Some (Number n) \<Rightarrow> Inr n | _ \<Rightarrow> Inl (AttributeError k))"

definition args_texts :: "namespace \<Rightarrow> string \<Rightarrow> string list result" where
  "args_texts args k = (case map_of args k of Some (Texts ts) \<Rightarrow> Inr ts | _ \<Rightarrow> Inl (AttributeError k))"

definition args_ints :: "namespace \<Rightarrow> string \<Rightarrow> int list result" where
  "args_ints args k = (case map_of args k of Some (Numbers ns) \<Rightarrow> Inr ns | _ \<Rightarrow> Inl (AttributeError k))"

definition args_flag :: "namespace \<Rightarrow> string \<Rightarrow> bool result" where
  "args_flag args k = (case map_of args k of Some (Flag b) \<Rightarrow> Inr b | _ \<Rightarrow> Inl (AttributeError k))"

section \<open>Given options are read back\<close>

text \<open>Parsers whose options are long, with different names.\<close>

definition options_ok :: "arg_option list \<Rightarrow> bool" where
  "options_ok options \<longleftrightarrow> distinct (map ao_flag options) \<and>
     (\<forall>p \<in> set options. startswith (ao_flag p) ''--'' \<and> ao_flag p \<notin> {''--'', ''--help''})"

lemma classify_flag:
  assumes "options_ok options" and "p \<in> set options"
  shows "classify options (ao_flag p) = Option p None"
proof -
  have flag: "startswith (ao_flag p) ''--''" "ao_flag p \<noteq> ''--''" "ao_flag p \<noteq> ''--help''"
    using assms by (auto simp: options_ok_def)
  then have "startswith (ao_flag p) ''-''" "ao_flag p \<noteq> ''-h''"
    by (cases "ao_flag p"; auto simp: startswith_def)+
  moreover have "find_option options (ao_flag p) = Some p"
    using assms unfolding find_option_def find_Some_iff options_ok_def by (auto simp: distinct_conv_nth in_set_conv_nth)
  ultimately show ?thesis using flag by (simp add: classify_def)
qed

lemma classify_plain: "\<not> startswith s ''-'' \<Longrightarrow> classify options s = Value"
  by (auto simp: classify_def startswith_def)

lemma classify_number:
  assumes "options_ok options"
  shows "classify options (show_int n) = Value"
proof (cases "n < 0")
  case False
  then have "\<not> startswith (show_int n) ''-''"
    using show_nat_digits [of "hd (show_nat (nat n))" "nat n"] by (cases "show_nat (nat n)") (auto simp: show_int_def startswith_def)
  then show ?thesis by (rule classify_plain)
next
  case True
  let ?d = "show_nat (nat (- n))"
  have s: "show_int n = CHR ''-'' # ?d" using True by (simp add: show_int_def)
  have digits: "?d \<noteq> []" "\<forall>x \<in> set ?d. is_digit x" using show_nat_nonempty show_nat_all_digits by auto
  obtain c r where d: "?d = c # r" "is_digit c" using digits by (cases ?d) auto
  then have c: "c \<noteq> CHR ''-''" "c \<noteq> CHR ''h''" by (auto simp: is_digit_def)
  have "find_option options (show_int n) = None"
    using assms c unfolding find_option_def find_None_iff s d(1) by (auto simp: options_ok_def startswith_def)
  moreover have "CHR ''='' \<notin> set (show_int n)" using digits(2) by (auto simp: s is_digit_def)
  then have "\<forall>x \<in> set (show_int n). x \<noteq> CHR ''=''" by blast
  then have "takeWhile (\<lambda>c. c \<noteq> CHR ''='') (show_int n) = show_int n" "dropWhile (\<lambda>c. c \<noteq> CHR ''='') (show_int n) = []"
    by (simp_all add: takeWhile_eq_all_conv dropWhile_eq_Nil_conv)
  then have "split_value (show_int n) = (show_int n, None)" unfolding split_value_def Let_def by (simp only: list.case)
  moreover have "negative_number (show_int n)" using digits by (simp add: s negative_number_def)
  moreover have "\<not> startswith (show_int n) ''--''" "startswith (show_int n) ''-''" "length (show_int n) \<noteq> 1"
      "show_int n \<notin> {''-h'', ''--help'', ''--''}" using c by (auto simp: s d(1) startswith_def)
  ultimately show ?thesis by (simp add: classify_def)
qed

lemma parse_int_show: "parse_int (show_int n) = Some n"
proof -
  have digits: "\<forall>c \<in> set (show_nat m). is_digit c" for m using show_nat_all_digits by blast
  moreover have "\<not> is_space (CHR ''-'')" by (simp add: is_space_def)
  ultimately have "\<forall>c \<in> set (show_int n). \<not> is_space c" using digit_plain(1) by (auto simp: show_int_def)
  then have "strip (show_int n) = show_int n" by (rule strip_plain)
  then have p: "parse_int (show_int n) = parse_signed (\<lambda>d. map_option int (parse_digits d)) (show_int n)" by (simp add: parse_int_def)
  show ?thesis
  proof (cases "n < 0")
    case True
    then show ?thesis unfolding p by (simp add: show_int_def parse_signed_def)
  next
    case False
    then show ?thesis unfolding p by (simp add: show_int_def parse_signed_digit)
  qed
qed

text \<open>The arguments that give an option its value.\<close>

fun value_texts :: "arg_value \<Rightarrow> string list" where
  "value_texts (Text t) = [t]"
| "value_texts (Number n) = [show_int n]"
| "value_texts (Texts ts) = ts"
| "value_texts (Numbers ns) = map show_int ns"
| "value_texts _ = []"

definition plain_text :: "arg_option \<Rightarrow> string \<Rightarrow> bool" where
  "plain_text p t \<longleftrightarrow> \<not> startswith t ''-'' \<and> (case ao_choices p of None \<Rightarrow> True | Some choices \<Rightarrow> t \<in> set choices)"

definition fits :: "arg_option \<Rightarrow> arg_value \<Rightarrow> bool" where
  "fits p v \<longleftrightarrow> (case (ao_kind p, v) of
       (Text_arg, Text t) \<Rightarrow> plain_text p t
     | (Int_arg, Number n) \<Rightarrow> True
     | (Texts_arg, Texts ts) \<Rightarrow> ts \<noteq> [] \<and> (\<forall>t \<in> set ts. plain_text p t)
     | (Ints_arg, Numbers ns) \<Rightarrow> ns \<noteq> []
     | (Flag_arg, Flag b) \<Rightarrow> b
     | _ \<Rightarrow> False)"

definition command_line :: "(arg_option \<times> arg_value) list \<Rightarrow> string list" where
  "command_line settings = concat (map (\<lambda>(p, v). ao_flag p # value_texts v) settings)"

lemma texts_are_values:
  assumes "options_ok options" and "fits p v"
  shows "\<forall>t \<in> set (value_texts v). classify options t = Value"
  using assms(2) classify_number [OF assms(1)] classify_plain
  by (cases "ao_kind p"; cases v) (auto simp: fits_def plain_text_def)

lemma option_value_texts:
  assumes "fits p v"
  shows "option_value p None (value_texts v) = Inr (v, length (value_texts v))"
proof -
  have plain: "plain_text p t \<Longrightarrow> arg_text p t = Inr t" for t by (auto simp: plain_text_def arg_text_def split: option.splits)
  have "\<forall>t \<in> set ts. plain_text p t \<Longrightarrow> emap (arg_text p) ts = Inr ts" for ts by (induction ts) (simp_all add: plain)
  moreover have ints: "arg_int (show_int n) = Inr n" for n by (simp add: arg_int_def parse_int_show)
  have "emap arg_int (map show_int ns) = Inr ns" for ns by (induction ns) (simp_all add: ints)
  ultimately show ?thesis using assms plain ints
    by (cases "ao_kind p"; cases v) (simp_all add: fits_def option_value_def)
qed

lemma parse_loop_command_line:
  assumes "options_ok options" and "\<forall>(p, v) \<in> set settings. p \<in> set options \<and> fits p v"
  shows "parse_loop options (command_line settings) given extras =
    Inr (fold (\<lambda>(p, v). AList.update (dest (ao_flag p)) v) settings given, extras)"
  using assms(2)
proof (induction settings arbitrary: given)
  case (Cons setting settings)
  obtain p v where pv: "setting = (p, v)" by force
  have p: "p \<in> set options" and v: "fits p v" using Cons.prems by (simp_all add: pv)
  let ?rest = "command_line settings"
  have "classify options (hd ?rest) \<noteq> Value" if "?rest \<noteq> []"
    using that Cons.prems classify_flag [OF assms(1)] by (cases settings) (auto simp: command_line_def)
  then have "takeWhile (\<lambda>t. classify options t = Value) ?rest = []" by (cases ?rest) simp_all
  then have "takeWhile (\<lambda>t. classify options t = Value) (value_texts v @ ?rest) = value_texts v"
    using texts_are_values [OF assms(1) v] by simp
  then show ?case
    using Cons.IH Cons.prems option_value_texts [OF v] classify_flag [OF assms(1) p] by (simp add: pv command_line_def)
qed (simp add: command_line_def)

text \<open>The value of an attribute after some options have been given.\<close>

definition setting :: "arg_value \<Rightarrow> (arg_option \<times> arg_value) list \<Rightarrow> string \<Rightarrow> arg_value" where
  "setting d settings k = fold (\<lambda>(p, v) d. if dest (ao_flag p) = k then v else d) settings d"

lemma setting_simps [simp]:
  "setting d [] k = d" "setting d (a @ b) k = setting (setting d a k) b k"
  "setting d ((p, v) # settings) k = setting (if dest (ao_flag p) = k then v else d) settings k"
  "setting d (if c then a else b) k = (if c then setting d a k else setting d b k)"
  by (simp_all add: setting_def)

lemma given_setting:
  "dict_get d (fold (\<lambda>(p, v). AList.update (dest (ao_flag p)) v) settings g) k = setting (dict_get d g k) settings k"
  by (induction settings arbitrary: g) (auto simp: dict_simps)

text \<open>
  Options given with values that fit them are read back, the last one given of each; the others have
  their defaults.
\<close>

lemma command_line_parsed:
  assumes "options_ok options" and "\<forall>(p, v) \<in> set settings. p \<in> set options \<and> fits p v"
    and "\<forall>p \<in> set options. ao_required p \<longrightarrow> p \<in> fst ` set settings"
  shows "parse_args options (command_line settings) =
    Inr (map (\<lambda>p. (dest (ao_flag p), setting (ao_default p) settings (dest (ao_flag p)))) options)"
proof -
  define given where "given = fold (\<lambda>(p, v). AList.update (dest (ao_flag p)) v) settings []"
  have present: "map_of (fold (\<lambda>(p, v). AList.update (dest (ao_flag p)) v) ss g) k \<noteq> None"
    if "map_of g k \<noteq> None \<or> k \<in> (dest \<circ> ao_flag \<circ> fst) ` set ss" for ss g k
    using that by (induction ss arbitrary: g) (auto simp: dict_simps)
  have "map_of given (dest (ao_flag p)) \<noteq> None" if "p \<in> set options" "ao_required p" for p
    unfolding given_def using that assms(3) by (intro present) force
  then have "\<not> (\<exists>p \<in> set options. ao_required p \<and> map_of given (dest (ao_flag p)) = None)" by blast
  moreover have "dict_get d given k = setting d settings k" for d k unfolding given_def given_setting by (simp add: dict_get_def)
  ultimately show ?thesis
    using parse_loop_command_line [OF assms(1,2), of "[]" False, folded given_def]
    unfolding parse_args_def by (simp only: ebind_Inr prod.case) simp
qed

text \<open>A misspelt option never goes unnoticed.\<close>

lemma parse_loop_extras: "parse_loop options argv given True = Inr (given', extras) \<Longrightarrow> extras"
  by (induction options argv given "True" arbitrary: given' rule: parse_loop.induct)
     (auto simp: result_simps usage_error_def split: arg_class.splits)

section \<open>A namespace has what the parser declares\<close>

definition choice_ok :: "arg_option \<Rightarrow> string \<Rightarrow> bool" where
  "choice_ok p t \<longleftrightarrow> (case ao_choices p of None \<Rightarrow> True | Some choices \<Rightarrow> t \<in> set choices)"

definition typed :: "arg_option \<Rightarrow> arg_value \<Rightarrow> bool" where
  "typed p v \<longleftrightarrow> (case (ao_kind p, v) of
       (Text_arg, Text t) \<Rightarrow> choice_ok p t
     | (Int_arg, Number n) \<Rightarrow> True
     | (Texts_arg, Texts ts) \<Rightarrow> \<forall>t \<in> set ts. choice_ok p t
     | (Ints_arg, Numbers ns) \<Rightarrow> True
     | (Flag_arg, Flag b) \<Rightarrow> True
     | _ \<Rightarrow> False)"

lemma option_value_typed:
  assumes "option_value p explicit following = Inr (v, n)"
  shows "typed p v"
proof -
  have one: "arg_text p t = Inr u \<Longrightarrow> choice_ok p u" for t u
    by (auto simp: arg_text_def choice_ok_def usage_error_def split: option.splits if_splits)
  then have "emap (arg_text p) ts = Inr us \<Longrightarrow> \<forall>u \<in> set us. choice_ok p u" for ts us
    by (induction ts arbitrary: us) (auto simp: result_simps)
  with assms one show ?thesis
    by (cases "ao_kind p") (auto simp: option_value_def Let_def typed_def usage_error_def result_simps split: list.splits if_splits)
qed

lemma classify_option: "classify options s = Option p explicit \<Longrightarrow> p \<in> set options"
proof -
  have "find_option options f = Some q \<Longrightarrow> q \<in> set options" for f q by (auto simp: find_option_def find_Some_iff)
  then show "classify options s = Option p explicit \<Longrightarrow> p \<in> set options"
    by (auto simp: classify_def Let_def split: if_splits option.splits prod.splits)
qed

definition given_ok :: "arg_option list \<Rightarrow> namespace \<Rightarrow> bool" where
  "given_ok options given \<longleftrightarrow> (\<forall>k v. map_of given k = Some v \<longrightarrow> (\<exists>p \<in> set options. dest (ao_flag p) = k \<and> typed p v))"

lemma parse_loop_typed:
  "parse_loop options argv given extras = Inr (given', extras') \<Longrightarrow> given_ok options given \<Longrightarrow> given_ok options given'"
proof (induction options argv given extras rule: parse_loop.induct)
  case (2 options s rest given extras)
  show ?case
  proof (cases "classify options s")
    case (Option p explicit)
    then obtain v n where v: "option_value p explicit (takeWhile (\<lambda>t. classify options t = Value) rest) = Inr (v, n)"
      and rest: "parse_loop options (drop n rest) (AList.update (dest (ao_flag p)) v given) extras = Inr (given', extras')"
      using "2.prems"(1) by (auto simp: result_simps)
    have "given_ok options (AList.update (dest (ao_flag p)) v given)"
      using "2.prems"(2) option_value_typed [OF v] classify_option [OF Option] by (auto simp: given_ok_def dict_simps)
    with "2.IH" Option rest v show ?thesis by (metis (no_types, lifting))
  qed (use 2 in \<open>auto simp: usage_error_def\<close>)
qed simp

lemma parse_args_typed:
  assumes "parse_args options argv = Inr args" and "distinct (map (dest \<circ> ao_flag) options)" and "p \<in> set options"
  shows "\<exists>v. map_of args (dest (ao_flag p)) = Some v \<and> (typed p v \<or> \<not> ao_required p \<and> v = ao_default p)"
proof -
  obtain given where loop: "parse_loop options argv [] False = Inr (given, False)"
    and req: "\<forall>p \<in> set options. ao_required p \<longrightarrow> map_of given (dest (ao_flag p)) \<noteq> None"
    and args: "args = map (\<lambda>p. (dest (ao_flag p), dict_get (ao_default p) given (dest (ao_flag p)))) options"
    using assms(1) by (auto simp: parse_args_def result_simps usage_error_def split: if_splits)
  have ok: "given_ok options given" using parse_loop_typed [OF loop] by (simp add: given_ok_def)
  have "map_of args (dest (ao_flag p)) = Some (dict_get (ao_default p) given (dest (ao_flag p)))"
    unfolding args by (rule map_of_is_SomeI) (use assms(2,3) in \<open>auto simp: comp_def\<close>)
  moreover have "typed p (dict_get (ao_default p) given (dest (ao_flag p))) \<or>
      \<not> ao_required p \<and> dict_get (ao_default p) given (dest (ao_flag p)) = ao_default p"
  proof (cases "map_of given (dest (ao_flag p))")
    case None
    then show ?thesis using req assms(3) by (auto simp: dict_get_def)
  next
    case (Some v)
    then obtain q where "q \<in> set options" "dest (ao_flag q) = dest (ao_flag p)" "typed q v" using ok by (auto simp: given_ok_def)
    moreover have "inj_on (dest \<circ> ao_flag) (set options)" using assms(2) by (simp add: distinct_map)
    ultimately have "q = p" using assms(3) inj_onD [of "dest \<circ> ao_flag" "set options" q p] by simp
    with \<open>typed q v\<close> Some show ?thesis by (simp add: dict_get_def)
  qed
  ultimately show ?thesis by blast
qed

end
