(* ===== verification/Heapq.thy ===== *)
theory Heapq
  imports PyPrelude
begin

text \<open>
  The standard library's \<open>heapq\<close> as the topology service uses it: a bag of comparable items
  from which the least is popped. Items that compare equal are indistinguishable, so the array
  layout of the binary heap is not observable and the bag is kept as a list. Clients see the
  contract \<open>priority_queue\<close> only.
\<close>

definition heappush :: "'a::linorder list \<Rightarrow> 'a \<Rightarrow> 'a list" where
  "heappush q x = q @ [x]"

definition heappop :: "'a::linorder list \<Rightarrow> ('a \<times> 'a list) option" where
  "heappop q = (if q = [] then None else let m = Min (set q) in Some (m, remove1 m q))"

locale priority_queue =
  fixes push :: "'q \<Rightarrow> 'a::linorder \<Rightarrow> 'q"
    and pop :: "'q \<Rightarrow> ('a \<times> 'q) option"
    and items :: "'q \<Rightarrow> 'a multiset"
  assumes items_push: "items (push q x) = add_mset x (items q)"
    and pop_None: "pop q = None \<longleftrightarrow> items q = {#}"
    and pop_items: "pop q = Some (x, q') \<Longrightarrow> items q = add_mset x (items q')"
    and pop_least: "pop q = Some (x, q') \<Longrightarrow> y \<in># items q \<Longrightarrow> x \<le> y"
begin

lemma pop_size: "pop q = Some (x, q') \<Longrightarrow> size (items q') < size (items q)"
  by (simp add: pop_items)

lemma pop_mem: "pop q = Some (x, q') \<Longrightarrow> x \<in># items q"
  by (simp add: pop_items)

lemma pop_other: "pop q = Some (x, q') \<Longrightarrow> y \<in># items q \<Longrightarrow> y \<noteq> x \<Longrightarrow> y \<in># items q'"
  by (simp add: pop_items)

lemma pop_sub: "pop q = Some (x, q') \<Longrightarrow> y \<in># items q' \<Longrightarrow> y \<in># items q"
  by (simp add: pop_items)

end

interpretation heapq: priority_queue heappush heappop mset
proof unfold_locales
  fix q q' :: "'a list" and x y :: 'a
  show "mset (heappush q x) = add_mset x (mset q)"
    by (simp add: heappush_def)
  show "heappop q = None \<longleftrightarrow> mset q = {#}"
    by (simp add: heappop_def Let_def)
  assume pop: "heappop q = Some (x, q')"
  then have "q \<noteq> []" and x: "x = Min (set q)" and q': "q' = remove1 x q"
    by (auto simp: heappop_def Let_def split: if_splits)
  then show "mset q = add_mset x (mset q')"
    using Min_in [of "set q"] by simp
  show "y \<in># mset q \<Longrightarrow> x \<le> y"
    using x by simp
qed

lemma heappop_length: "heappop q = Some (x, q') \<Longrightarrow> length q' < length q"
  using heapq.pop_size [of q x q'] by simp

end
