(* ===== verification/GpuTopology.thy ===== *)
theory GpuTopology
  imports PyStrings
begin

text \<open>
  The parser of \<open>nvidia-smi topo -m\<close> output, \<open>topology/gpu_topology_parser.py\<close>: the two
  tables, \<open>GpuTopologySnapshot.from_text\<close> with its error paths (no header line, a GPU without
  a row or a column), and the two averages the topology service uses. The lemmas bound every
  cell of the matrices, and from them the affinity and the cost factor of any text that parses.
\<close>

section \<open>Tables\<close>

definition BANDWIDTH_TIERS :: "(string, pyfloat) dict" where
  "BANDWIDTH_TIERS =
     [(''X'', 0), (''NV1'', 1), (''NV2'', 1.2), (''NV4'', 1.4), (''NV8'', 1.8), (''NV12'', 2),
      (''NV16'', 2.2), (''NV18'', 2.3), (''NVSW'', 2.5), (''PIX'', 0.65), (''PXB'', 0.45),
      (''PHB'', 0.35), (''NODE'', 0.28), (''SYS'', 0.18), (''SOC'', 0.12)]"

definition LATENCY_WEIGHTS :: "(string, pyfloat) dict" where
  "LATENCY_WEIGHTS =
     [(''X'', 0), (''NV1'', 0.15), (''NV2'', 0.12), (''NV4'', 0.1), (''NV8'', 0.08),
      (''NV12'', 0.07), (''NV16'', 0.06), (''NV18'', 0.05), (''NVSW'', 0.04), (''PIX'', 0.4),
      (''PXB'', 0.55), (''PHB'', 0.72), (''NODE'', 0.88), (''SYS'', 1), (''SOC'', 1.1)]"

section \<open>GpuTopologySnapshot\<close>

record gpu_topology_snapshot =
  gt_devices :: "string list"
  gt_relations :: "(string, (string, string) dict) dict"
  gt_adjacency_matrix :: "pyfloat list list"
  gt_latency_weights :: "pyfloat list list"
  gt_bandwidth_tiers :: "pyfloat list list"

definition dict_of_pairs :: "('k \<times> 'v) list \<Rightarrow> ('k, 'v) dict" where
  "dict_of_pairs kvs = fold (\<lambda>(k, v). AList.update k v) kvs []"

text \<open>The loop over the lines, up to the legend.\<close>

fun read_relations ::
  "string list \<Rightarrow> string list \<Rightarrow> (string, (string, string) dict) dict
    \<Rightarrow> (string, (string, string) dict) dict" where
  "read_relations devices [] relations = relations"
| "read_relations devices (line # lines) relations =
     (if startswith line ''Legend'' then relations
      else if \<not> is_device_row line then read_relations devices lines relations
      else case split_ws line of
          [] \<Rightarrow> read_relations devices lines relations
        | source # cells \<Rightarrow>
            read_relations devices lines
              (if startswith source ''GPU''
               then AList.update source (dict_of_pairs (zip devices (take (length devices) cells))) relations
               else relations))"

text \<open>The three numbers of one cell: cost, latency weight and bandwidth tier.\<close>

definition cell_values :: "string \<Rightarrow> pyfloat \<times> pyfloat \<times> pyfloat" where
  "cell_values relation =
     (let bw = dict_get 0.1 BANDWIDTH_TIERS relation;
          lat = dict_get 1.2 LATENCY_WEIGHTS relation;
          cost = (if relation = ''X'' then 0 else max 0.01 (1.2 - bw + lat))
      in (py_round 4 cost, lat, bw))"

definition cell_relation ::
  "(string, (string, string) dict) dict \<Rightarrow> string \<Rightarrow> string \<Rightarrow> string result" where
  "cell_relation relations source target =
     ebind (dict_item relations source (KeyError source)) (\<lambda>row.
       dict_item row target (KeyError target))"

definition from_text :: "string \<Rightarrow> gpu_topology_snapshot result" where
  "from_text text =
     (let lines = map rstrip (filter (\<lambda>line. strip line \<noteq> []) (splitlines text))
      in case find (\<lambda>line. contains ''GPU'' line \<and> contains ''CPU Affinity'' line) lines of
           None \<Rightarrow> Inl StopIteration
         | Some header_line \<Rightarrow>
             (let devices = findall_device header_line;
                  relations = read_relations devices lines [];
                  gpu_devices = filter (\<lambda>device. startswith device ''GPU'') devices
              in ebind (emap (\<lambda>source. emap (\<lambda>target.
                     ebind (cell_relation relations source target) (\<lambda>relation.
                       Inr (cell_values relation))) gpu_devices) gpu_devices) (\<lambda>rows.
                   Inr \<lparr>gt_devices = gpu_devices,
                        gt_relations =
                          map (\<lambda>(source, mapping).
                                (source, filter (\<lambda>(target, relation). target \<in> set gpu_devices) mapping))
                            (filter (\<lambda>(source, mapping). source \<in> set gpu_devices) relations),
                        gt_adjacency_matrix = map (map fst) rows,
                        gt_latency_weights = map (map (fst \<circ> snd)) rows,
                        gt_bandwidth_tiers = map (map (snd \<circ> snd)) rows\<rparr>)))"

text \<open>\<open>from_file\<close> reads the text first; the file system is a parameter.\<close>

definition from_file :: "(string \<Rightarrow> string option) \<Rightarrow> string \<Rightarrow> gpu_topology_snapshot result" where
  "from_file fs path =
     (case fs path of None \<Rightarrow> Inl (FileNotFoundError path) | Some text \<Rightarrow> from_text text)"

definition overall_affinity :: "gpu_topology_snapshot \<Rightarrow> pyfloat" where
  "overall_affinity g =
     (let values = concat (map (filter (\<lambda>value. 0 < value)) (gt_bandwidth_tiers g))
      in if values = [] then 0
         else py_round 4 (sum_list values / of_nat (length values) / Max (set (dict_values BANDWIDTH_TIERS))))"

definition average_cost :: "gpu_topology_snapshot \<Rightarrow> pyfloat" where
  "average_cost g =
     (let values = concat (map (filter (\<lambda>value. 0 < value)) (gt_adjacency_matrix g))
      in if values = [] then 1
         else py_round 4 (sum_list values / of_nat (length values)))"

definition matrix_json :: "pyfloat list list \<Rightarrow> json" where
  "matrix_json m = JList (map (\<lambda>row. JList (map JFloat row)) m)"

definition gpu_to_dict :: "gpu_topology_snapshot \<Rightarrow> (string, json) dict" where
  "gpu_to_dict g =
     [(''devices'', JList (map JStr (gt_devices g))),
      (''relations'', JDict (map (\<lambda>(source, row). (source, JDict (map (\<lambda>(target, r). (target, JStr r)) row))) (gt_relations g))),
      (''adjacency_matrix'', matrix_json (gt_adjacency_matrix g)), (''latency_weights'', matrix_json (gt_latency_weights g)),
      (''bandwidth_tiers'', matrix_json (gt_bandwidth_tiers g)), (''overall_affinity'', JFloat (overall_affinity g)),
      (''average_cost'', JFloat (average_cost g))]"

section \<open>Lemmas\<close>

lemma max_bandwidth: "Max (set (dict_values BANDWIDTH_TIERS)) = 2.5"
  by (simp add: dict_values_def BANDWIDTH_TIERS_def)

lemma bandwidth_bounds: "0 \<le> dict_get 0.1 BANDWIDTH_TIERS r \<and> dict_get 0.1 BANDWIDTH_TIERS r \<le> 2.5"
  by (simp add: dict_get_def BANDWIDTH_TIERS_def)

lemma bandwidth_ge: "r \<noteq> ''X'' \<Longrightarrow> 0.1 \<le> dict_get 0.1 BANDWIDTH_TIERS r"
  by (simp add: dict_get_def BANDWIDTH_TIERS_def)

lemma latency_le: "dict_get 1.2 LATENCY_WEIGHTS r \<le> 1.2"
  by (simp add: dict_get_def LATENCY_WEIGHTS_def)

lemma cell_cost_bounds: "fst (cell_values r) = 0 \<or> (0.01 \<le> fst (cell_values r) \<and> fst (cell_values r) \<le> 2.3)"
proof (cases "r = ''X''")
  case True
  then show ?thesis by (simp add: cell_values_def)
next
  case False
  define c where "c = max 0.01 (1.2 - dict_get 0.1 BANDWIDTH_TIERS r + dict_get 1.2 LATENCY_WEIGHTS r)"
  have "c \<le> 2.3" using latency_le [of r] bandwidth_ge [OF False] by (simp add: c_def max_def)
  moreover have "0.01 \<le> c" by (simp add: c_def)
  ultimately have "py_round 4 c \<le> 2.3" and "0.01 \<le> py_round 4 c"
    using py_round_le_fixed [of c "2.3" 4 23000] py_round_ge_fixed [of "0.01" c 4 100] by simp_all
  with False show ?thesis by (simp add: cell_values_def Let_def c_def)
qed

text \<open>Averages stay between bounds of the averaged values.\<close>

lemma average_bounds:
  fixes xs :: "rat list"
  assumes "xs \<noteq> []" and "\<And>x. x \<in> set xs \<Longrightarrow> a \<le> x \<and> x \<le> b"
  shows "a \<le> sum_list xs / of_nat (length xs) \<and> sum_list xs / of_nat (length xs) \<le> b"
proof -
  have "a * of_nat (length xs) \<le> sum_list xs \<and> sum_list xs \<le> b * of_nat (length xs)"
    using assms(2) by (induction xs) (auto simp: algebra_simps add_mono)
  with assms(1) show ?thesis by (simp add: field_simps)
qed

lemma from_text_cells:
  assumes "from_text text = Inr g"
  obtains rows where "gt_adjacency_matrix g = map (map fst) rows"
    and "gt_bandwidth_tiers g = map (map (snd \<circ> snd)) rows"
    and "length rows = length (gt_devices g)"
    and "\<And>row. row \<in> set rows \<Longrightarrow> length row = length (gt_devices g)"
    and "\<And>row cell. row \<in> set rows \<Longrightarrow> cell \<in> set row \<Longrightarrow> \<exists>r. cell = cell_values r"
proof -
  from assms obtain relations rows where
    rows: "emap (\<lambda>source. emap (\<lambda>target. ebind (cell_relation relations source target) (\<lambda>relation.
             Inr (cell_values relation))) (gt_devices g)) (gt_devices g) = Inr rows"
    and g: "gt_adjacency_matrix g = map (map fst) rows"
      "gt_bandwidth_tiers g = map (map (snd \<circ> snd)) rows"
    by (auto simp: from_text_def Let_def result_simps split: option.splits)
  have inner: "length row = length (gt_devices g) \<and> (\<forall>cell \<in> set row. \<exists>r. cell = cell_values r)"
    if "row \<in> set rows" for row
  proof -
    from emap_in_set [OF rows that] obtain source where
      row: "emap (\<lambda>target. ebind (cell_relation relations source target) (\<lambda>relation.
             Inr (cell_values relation))) (gt_devices g) = Inr row" by blast
    have "\<exists>r. cell = cell_values r" if "cell \<in> set row" for cell
      using emap_in_set [OF row that] by (auto simp: result_simps)
    with emap_length [OF row] show ?thesis by blast
  qed
  show ?thesis
    by (rule that [OF g emap_length [OF rows]]) (use inner in auto)
qed

lemma from_text_bounds:
  assumes "from_text text = Inr g"
  shows "0 \<le> overall_affinity g \<and> overall_affinity g \<le> 1 \<and>
    0.01 \<le> average_cost g \<and> average_cost g \<le> 2.3"
proof -
  obtain rows where adj: "gt_adjacency_matrix g = map (map fst) rows"
    and bw: "gt_bandwidth_tiers g = map (map (snd \<circ> snd)) rows"
    and cells: "\<And>row cell. row \<in> set rows \<Longrightarrow> cell \<in> set row \<Longrightarrow> \<exists>r. cell = cell_values r"
    by (rule from_text_cells [OF assms]) blast
  let ?bw = "concat (map (filter (\<lambda>value. 0 < value)) (gt_bandwidth_tiers g))"
  let ?cost = "concat (map (filter (\<lambda>value. 0 < value)) (gt_adjacency_matrix g))"
  have bw_in: "0 \<le> x \<and> x \<le> 2.5" if "x \<in> set ?bw" for x
    using that cells bandwidth_bounds unfolding bw by (fastforce simp: cell_values_def Let_def)
  have cost_in: "0.01 \<le> x \<and> x \<le> 2.3" if "x \<in> set ?cost" for x
  proof -
    from that obtain row cell where "row \<in> set rows" "cell \<in> set row" and x: "x = fst cell" "0 < x"
      unfolding adj by auto
    with cells obtain r where "cell = cell_values r" by blast
    with x cell_cost_bounds [of r] show ?thesis by auto
  qed
  have "0 \<le> overall_affinity g \<and> overall_affinity g \<le> 1"
  proof (cases "?bw = []")
    case False
    define avg where "avg = sum_list ?bw / of_nat (length ?bw)"
    have "overall_affinity g = py_round 4 (avg / 2.5)"
      using False by (simp only: overall_affinity_def Let_def if_False max_bandwidth avg_def)
    moreover have "0 \<le> avg \<and> avg \<le> 2.5"
      unfolding avg_def by (rule average_bounds [OF False bw_in])
    ultimately show ?thesis
      using py_round_mono [of 0 "avg / 2.5" 4] py_round_mono [of "avg / 2.5" 1 4] by simp
  qed (simp add: overall_affinity_def)
  moreover have "0.01 \<le> average_cost g \<and> average_cost g \<le> 2.3"
  proof (cases "?cost = []")
    case False
    define avg where "avg = sum_list ?cost / of_nat (length ?cost)"
    have "average_cost g = py_round 4 avg"
      using False by (simp only: average_cost_def Let_def if_False avg_def)
    moreover have "0.01 \<le> avg \<and> avg \<le> 2.3"
      unfolding avg_def by (rule average_bounds [OF False cost_in])
    ultimately show ?thesis
      using py_round_le_fixed [of avg "2.3" 4 23000] py_round_ge_fixed [of "0.01" avg 4 100] by simp
  qed (simp add: average_cost_def)
  ultimately show ?thesis by blast
qed

text \<open>
  Whatever text parses, the cluster affinity the probe reports lies between 0 and 1 and
  its cost factor between 0.01 and 2.3: the topology service multiplies route costs by a
  positive factor.
\<close>

theorem probe_bounds:
  assumes "from_text text = Inr g"
  shows "0 \<le> overall_affinity g \<and> overall_affinity g \<le> 1 \<and>
    0.01 \<le> average_cost g \<and> average_cost g \<le> 2.3"
  by (rule from_text_bounds [OF assms])

definition two_gpus_text :: string where
  "two_gpus_text =
     ''     GPU0  GPU1  CPU Affinity'' @ [CHR 0x0A] @
     ''GPU0  X    NV4   0-47'' @ [CHR 0x0A] @
     ''GPU1 NV4    X    0-47'' @ [CHR 0x0A] @ ''Legend:'' @ [CHR 0x0A]"

lemma two_gpus_parse:
  "from_text two_gpus_text = Inr
     \<lparr>gt_devices = [''GPU0'', ''GPU1''],
      gt_relations = [(''GPU0'', [(''GPU0'', ''X''), (''GPU1'', ''NV4'')]),
                      (''GPU1'', [(''GPU0'', ''NV4''), (''GPU1'', ''X'')])],
      gt_adjacency_matrix = [[0, 0.01], [0.01, 0]],
      gt_latency_weights = [[0, 0.1], [0.1, 0]],
      gt_bandwidth_tiers = [[0, 1.4], [1.4, 0]]\<rparr>"
  by code_simp

theorem probe_bounds_witness:
  "\<exists>g. from_text two_gpus_text = Inr g \<and> 0 \<le> overall_affinity g \<and> overall_affinity g \<le> 1"
  using two_gpus_parse probe_bounds [OF two_gpus_parse] by blast

end
