(* ===== verification/Types.thy ===== *)
theory Types
  imports PyPrelude
begin

text \<open>
  The data model of \<open>nimbusmesh_x/types.py\<close>: the tables of SLA priorities, topology tiers
  and model scales, the request and its validation, the mutable run-time state of pools and
  clusters with their methods, and the immutable candidate, decision and result records. The
  hash behind \<open>stable_prefix_signature\<close> (\<open>hashlib.blake2b\<close>) is the parameter \<open>H\<close>.
  The lemmas show what validation accepts, that the memory estimate is positive and falls with
  the tokens a cache hit saves, and how \<open>PoolRuntime.refresh\<close> accounts for memory.
\<close>

section \<open>Tables\<close>

definition SLA_PRIORITY :: "(string, int) dict" where
  "SLA_PRIORITY = [(''realtime'', 3), (''interactive'', 2), (''best_effort'', 1)]"

definition TOPOLOGY_TIER_SCORE :: "(string, pyfloat) dict" where
  "TOPOLOGY_TIER_SCORE =
     [(''nvlink-mesh'', 1), (''nvlink-ring'', 0.92), (''pcie-fabric'', 0.72),
      (''ethernet'', 0.55), (''cpu-fallback'', 0.2)]"

definition MODEL_SCALE_HINTS :: "(string, pyfloat) dict" where
  "MODEL_SCALE_HINTS =
     [(''llama-3-70b'', 1.35), (''mixtral-8x7b'', 1.2), (''mistral-7b'', 0.75),
      (''llama-3-8b'', 0.6), (''deepseek-v2-lite'', 0.95), (''maia-sim'', 0.8)]"

lemmas table_defs = SLA_PRIORITY_def TOPOLOGY_TIER_SCORE_def MODEL_SCALE_HINTS_def

section \<open>Free functions\<close>

definition stable_prefix_signature ::
  "(string \<Rightarrow> string) \<Rightarrow> string \<Rightarrow> string \<Rightarrow> string option \<Rightarrow> string \<Rightarrow> string" where
  "stable_prefix_signature H tenant_id model_id session_id salt =
     (let session = (case session_id of None \<Rightarrow> ''anon'' | Some s \<Rightarrow> if s = '''' then ''anon'' else s);
          base = tenant_id @ '':'' @ model_id @ '':'' @ session @ '':'' @ salt
      in H base)"

definition normalize_sla_class :: "string \<Rightarrow> string result" where
  "normalize_sla_class sla_class =
     (if map_of SLA_PRIORITY sla_class = None
      then Inl (ValueError (''Unsupported SLA class: '' @ sla_class))
      else Inr sla_class)"

definition model_scale :: "string \<Rightarrow> pyfloat" where
  "model_scale model_id = dict_get 1 MODEL_SCALE_HINTS model_id"

definition estimate_request_memory_gb :: "int \<Rightarrow> int \<Rightarrow> string \<Rightarrow> int \<Rightarrow> pyfloat" where
  "estimate_request_memory_gb prompt_tokens generation_tokens model_id cache_saved_tokens =
     (let effective_tokens = max 1 (prompt_tokens + generation_tokens - cache_saved_tokens)
      in (of_int effective_tokens / 2048) * 1.15 * model_scale model_id)"

section \<open>InferenceRequest\<close>

record inference_request =
  rq_request_id :: string
  rq_tenant_id :: string
  rq_model_id :: string
  rq_prompt_tokens :: int
  rq_generation_tokens :: int
  rq_arrival_ts :: pyfloat
  rq_sla_class :: string
  rq_session_id :: "string option"
  rq_prefix_signature :: "string option"
  rq_max_latency_ms :: pyfloat
  rq_metadata :: "(string, json) dict"

text \<open>
  \<open>__post_init__\<close>, run on the record the constructor has just filled in (with the class's
  defaults for the fields the caller leaves out).
\<close>

definition request_post_init ::
  "(string \<Rightarrow> string) \<Rightarrow> inference_request \<Rightarrow> inference_request result" where
  "request_post_init H r =
     ebind (normalize_sla_class (rq_sla_class r)) (\<lambda>_.
       if rq_prompt_tokens r \<le> 0 \<or> rq_generation_tokens r \<le> 0
       then Inl (ValueError ''Token counts must be positive.'')
       else if rq_arrival_ts r < 0
       then Inl (ValueError ''arrival_ts must be non-negative.'')
       else if rq_max_latency_ms r \<le> 0
       then Inl (ValueError ''max_latency_ms must be positive.'')
       else if rq_prefix_signature r = None
       then Inr (r\<lparr>rq_prefix_signature :=
              Some (stable_prefix_signature H (rq_tenant_id r) (rq_model_id r) (rq_session_id r)
                (show_int (rq_prompt_tokens r div 128) @ '':'' @
                 show_int (rq_generation_tokens r div 64)))\<rparr>)
       else Inr r)"

definition InferenceRequest ::
  "(string \<Rightarrow> string) \<Rightarrow> string \<Rightarrow> string \<Rightarrow> string \<Rightarrow> int \<Rightarrow> int \<Rightarrow> pyfloat \<Rightarrow> string
    \<Rightarrow> string option \<Rightarrow> string option \<Rightarrow> pyfloat \<Rightarrow> (string, json) dict
    \<Rightarrow> inference_request result" where
  "InferenceRequest H request_id tenant_id model_id prompt_tokens generation_tokens arrival_ts
      sla_class session_id prefix_signature max_latency_ms metadata =
     request_post_init H
       \<lparr>rq_request_id = request_id, rq_tenant_id = tenant_id, rq_model_id = model_id,
        rq_prompt_tokens = prompt_tokens, rq_generation_tokens = generation_tokens,
        rq_arrival_ts = arrival_ts, rq_sla_class = sla_class, rq_session_id = session_id,
        rq_prefix_signature = prefix_signature, rq_max_latency_ms = max_latency_ms,
        rq_metadata = metadata\<rparr>"

definition total_tokens :: "inference_request \<Rightarrow> int" where
  "total_tokens r = rq_prompt_tokens r + rq_generation_tokens r"

text \<open>The requests \<open>__post_init__\<close> lets through.\<close>

definition request_ok :: "inference_request \<Rightarrow> bool" where
  "request_ok r \<longleftrightarrow>
     map_of SLA_PRIORITY (rq_sla_class r) \<noteq> None \<and> 0 < rq_prompt_tokens r \<and>
     0 < rq_generation_tokens r \<and> 0 \<le> rq_arrival_ts r \<and> 0 < rq_max_latency_ms r \<and>
     rq_prefix_signature r \<noteq> None"

section \<open>PoolRuntime\<close>

record pool_runtime =
  pr_cluster_id :: string
  pr_zone :: string
  pr_pool_id :: string
  pr_backend_name :: string
  pr_accelerator_type :: string
  pr_supported_models :: "string list"
  pr_prefill_tps :: pyfloat
  pr_decode_tps :: pyfloat
  pr_memory_gb :: pyfloat
  pr_gpu_count :: int
  pr_parallel_slots :: int
  pr_cost_per_1m_tokens :: pyfloat
  pr_energy_proxy :: pyfloat
  pr_topology_tier :: string
  pr_premium :: bool
  pr_queue_limit :: int
  pr_congestion_score :: pyfloat
  pr_slot_available_at :: "pyfloat list"
  pr_active_memory_gb :: pyfloat
  pr_cache_reserved_gb :: pyfloat
  pr_decision_count :: int
  pr_completed_count :: int
  pr_inflight_memory :: "(pyfloat \<times> pyfloat) list"

definition pool_post_init :: "pool_runtime \<Rightarrow> pool_runtime" where
  "pool_post_init p =
     (if pr_slot_available_at p = []
      then p\<lparr>pr_slot_available_at := replicate (nat (pr_parallel_slots p)) 0\<rparr>
      else p)"

text \<open>One iteration of the loop of \<open>PoolRuntime.refresh\<close>.\<close>

definition refresh_step ::
  "pyfloat \<Rightarrow> pyfloat \<times> pyfloat \<Rightarrow> (pyfloat \<times> pyfloat) list \<times> pyfloat
    \<Rightarrow> (pyfloat \<times> pyfloat) list \<times> pyfloat" where
  "refresh_step now item acc =
     (case item of (finish_ts, memory_gb) \<Rightarrow> case acc of (still_inflight, active_memory) \<Rightarrow>
        if now < finish_ts
        then (still_inflight @ [(finish_ts, memory_gb)], active_memory + memory_gb)
        else acc)"

definition pool_refresh :: "pyfloat \<Rightarrow> pool_runtime \<Rightarrow> pool_runtime" where
  "pool_refresh now p =
     (case fold (refresh_step now) (pr_inflight_memory p) ([], 0) of (still_inflight, active_memory) \<Rightarrow>
        p\<lparr>pr_inflight_memory := still_inflight, pr_active_memory_gb := active_memory\<rparr>)"

definition inflight_count :: "pool_runtime \<Rightarrow> pyfloat \<Rightarrow> int" where
  "inflight_count p now = int (length (filter (\<lambda>ts. now < ts) (pr_slot_available_at p)))"

definition queue_delay_ms :: "pool_runtime \<Rightarrow> pyfloat \<Rightarrow> pyfloat result" where
  "queue_delay_ms p now =
     ebind (min_by (\<lambda>ts. ts) (pr_slot_available_at p)) (\<lambda>earliest.
       Inr (max 0 (earliest - now) * 1000))"

definition memory_headroom_gb :: "pool_runtime \<Rightarrow> pyfloat" where
  "memory_headroom_gb p =
     max 0 (pr_memory_gb p - pr_active_memory_gb p - pr_cache_reserved_gb p)"

section \<open>ClusterRuntime\<close>

record cluster_runtime =
  cr_cluster_id :: string
  cr_zone :: string
  cr_ingress_cost :: pyfloat
  cr_network_costs :: "(string, pyfloat) dict"
  cr_base_congestion :: pyfloat
  cr_failure_windows :: "(pyfloat \<times> pyfloat) list"
  cr_congestion_windows :: "(pyfloat \<times> pyfloat \<times> pyfloat) list"
  cr_pools :: "(string, pool_runtime) dict"

definition effective_congestion :: "cluster_runtime \<Rightarrow> pyfloat \<Rightarrow> pyfloat" where
  "effective_congestion c now =
     fold (\<lambda>(start, end_ts, multiplier) congestion.
             if start \<le> now \<and> now \<le> end_ts then congestion * multiplier else congestion)
       (cr_congestion_windows c) (cr_base_congestion c)"

definition unavailable :: "cluster_runtime \<Rightarrow> pyfloat \<Rightarrow> bool" where
  "unavailable c now \<longleftrightarrow> list_ex (\<lambda>(start, end_ts). start \<le> now \<and> now \<le> end_ts) (cr_failure_windows c)"

section \<open>Immutable records\<close>

record topology_node =
  tn_node_id :: string
  tn_kind :: string
  tn_cluster_id :: string
  tn_zone :: string
  tn_metadata :: "(string, json) dict"

record topology_link =
  tl_source :: string
  tl_target :: string
  tl_bandwidth_gbps :: pyfloat
  tl_latency_us :: pyfloat
  tl_cost :: pyfloat

record candidate_placement =
  cp_cluster_id :: string
  cp_pool_id :: string
  cp_backend_name :: string
  cp_accelerator_type :: string
  cp_queue_delay_ms :: pyfloat
  cp_projected_prefill_ms :: pyfloat
  cp_projected_decode_ms :: pyfloat
  cp_expected_cache_hit_ratio :: pyfloat
  cp_expected_cache_saved_tokens :: int
  cp_topology_affinity :: pyfloat
  cp_network_cost :: pyfloat
  cp_congestion_score :: pyfloat
  cp_memory_headroom_gb :: pyfloat
  cp_accelerator_cost_per_1m_tokens :: pyfloat
  cp_fairness_penalty :: pyfloat
  cp_premium :: bool
  cp_available :: bool
  cp_rejection_reason :: "string option"
  cp_score_breakdown :: "(string, pyfloat) dict"

definition estimated_total_latency_ms :: "candidate_placement \<Rightarrow> pyfloat" where
  "estimated_total_latency_ms c =
     cp_queue_delay_ms c + cp_projected_prefill_ms c + cp_projected_decode_ms c"

record routing_decision =
  rd_request_id :: string
  rd_policy_name :: string
  rd_cluster_id :: string
  rd_pool_id :: string
  rd_backend_name :: string
  rd_estimated_latency_ms :: pyfloat
  rd_estimated_queue_delay_ms :: pyfloat
  rd_estimated_cache_hit_ratio :: pyfloat
  rd_topology_affinity :: pyfloat
  rd_network_cost :: pyfloat
  rd_accelerator_cost_per_1m_tokens :: pyfloat
  rd_fairness_penalty :: pyfloat
  rd_score_breakdown :: "(string, pyfloat) dict"

record request_result =
  rr_request :: inference_request
  rr_decision :: routing_decision
  rr_admitted :: bool
  rr_actual_start_ts :: pyfloat
  rr_completion_ts :: pyfloat
  rr_queue_delay_ms :: pyfloat
  rr_prefill_latency_ms :: pyfloat
  rr_decode_latency_ms :: pyfloat
  rr_total_latency_ms :: pyfloat
  rr_cache_hit_ratio :: pyfloat
  rr_cache_saved_tokens :: int
  rr_memory_gb :: pyfloat
  rr_cost_usd :: pyfloat
  rr_energy_proxy :: pyfloat
  rr_network_cost :: pyfloat
  rr_sla_met :: bool
  rr_rejection_reason :: "string option"

record tenant_stats =
  ts_submitted :: int
  ts_completed :: int
  ts_total_latency_ms :: pyfloat
  ts_sla_misses :: int

definition TenantStats :: tenant_stats where
  "TenantStats = \<lparr>ts_submitted = 0, ts_completed = 0, ts_total_latency_ms = 0, ts_sla_misses = 0\<rparr>"

section \<open>Serialisation of a result\<close>

text \<open>\<open>dataclasses.asdict\<close> on the three nested records, in field order.\<close>

definition floats_json :: "(string, pyfloat) dict \<Rightarrow> json" where
  "floats_json d = JDict (map (\<lambda>(k, v). (k, JFloat v)) d)"

definition request_to_dict :: "inference_request \<Rightarrow> json" where
  "request_to_dict r = JDict
     [(''request_id'', JStr (rq_request_id r)), (''tenant_id'', JStr (rq_tenant_id r)),
      (''model_id'', JStr (rq_model_id r)), (''prompt_tokens'', JInt (rq_prompt_tokens r)),
      (''generation_tokens'', JInt (rq_generation_tokens r)),
      (''arrival_ts'', JFloat (rq_arrival_ts r)), (''sla_class'', JStr (rq_sla_class r)),
      (''session_id'', opt_str (rq_session_id r)),
      (''prefix_signature'', opt_str (rq_prefix_signature r)),
      (''max_latency_ms'', JFloat (rq_max_latency_ms r)), (''metadata'', JDict (rq_metadata r))]"

definition decision_to_dict :: "routing_decision \<Rightarrow> json" where
  "decision_to_dict d = JDict
     [(''request_id'', JStr (rd_request_id d)), (''policy_name'', JStr (rd_policy_name d)),
      (''cluster_id'', JStr (rd_cluster_id d)), (''pool_id'', JStr (rd_pool_id d)),
      (''backend_name'', JStr (rd_backend_name d)),
      (''estimated_latency_ms'', JFloat (rd_estimated_latency_ms d)),
      (''estimated_queue_delay_ms'', JFloat (rd_estimated_queue_delay_ms d)),
      (''estimated_cache_hit_ratio'', JFloat (rd_estimated_cache_hit_ratio d)),
      (''topology_affinity'', JFloat (rd_topology_affinity d)),
      (''network_cost'', JFloat (rd_network_cost d)),
      (''accelerator_cost_per_1m_tokens'', JFloat (rd_accelerator_cost_per_1m_tokens d)),
      (''fairness_penalty'', JFloat (rd_fairness_penalty d)),
      (''score_breakdown'', floats_json (rd_score_breakdown d))]"

definition candidate_to_dict :: "candidate_placement \<Rightarrow> json" where
  "candidate_to_dict c = JDict
     [(''cluster_id'', JStr (cp_cluster_id c)), (''pool_id'', JStr (cp_pool_id c)),
      (''backend_name'', JStr (cp_backend_name c)), (''accelerator_type'', JStr (cp_accelerator_type c)),
      (''queue_delay_ms'', JFloat (cp_queue_delay_ms c)),
      (''projected_prefill_ms'', JFloat (cp_projected_prefill_ms c)),
      (''projected_decode_ms'', JFloat (cp_projected_decode_ms c)),
      (''expected_cache_hit_ratio'', JFloat (cp_expected_cache_hit_ratio c)),
      (''expected_cache_saved_tokens'', JInt (cp_expected_cache_saved_tokens c)),
      (''topology_affinity'', JFloat (cp_topology_affinity c)), (''network_cost'', JFloat (cp_network_cost c)),
      (''congestion_score'', JFloat (cp_congestion_score c)),
      (''memory_headroom_gb'', JFloat (cp_memory_headroom_gb c)),
      (''accelerator_cost_per_1m_tokens'', JFloat (cp_accelerator_cost_per_1m_tokens c)),
      (''fairness_penalty'', JFloat (cp_fairness_penalty c)), (''premium'', JBool (cp_premium c)),
      (''available'', JBool (cp_available c)), (''rejection_reason'', opt_str (cp_rejection_reason c)),
      (''score_breakdown'', floats_json (cp_score_breakdown c))]"

definition to_dict :: "request_result \<Rightarrow> (string, json) dict" where
  "to_dict r =
     [(''request'', request_to_dict (rr_request r)), (''decision'', decision_to_dict (rr_decision r)),
      (''admitted'', JBool (rr_admitted r)), (''actual_start_ts'', JFloat (rr_actual_start_ts r)),
      (''completion_ts'', JFloat (rr_completion_ts r)),
      (''queue_delay_ms'', JFloat (rr_queue_delay_ms r)),
      (''prefill_latency_ms'', JFloat (rr_prefill_latency_ms r)),
      (''decode_latency_ms'', JFloat (rr_decode_latency_ms r)),
      (''total_latency_ms'', JFloat (rr_total_latency_ms r)),
      (''cache_hit_ratio'', JFloat (rr_cache_hit_ratio r)),
      (''cache_saved_tokens'', JInt (rr_cache_saved_tokens r)),
      (''memory_gb'', JFloat (rr_memory_gb r)), (''cost_usd'', JFloat (rr_cost_usd r)),
      (''energy_proxy'', JFloat (rr_energy_proxy r)), (''network_cost'', JFloat (rr_network_cost r)),
      (''sla_met'', JBool (rr_sla_met r)), (''rejection_reason'', opt_str (rr_rejection_reason r))]"

section \<open>Lemmas\<close>

lemma normalize_sla_class_Inr [simp]:
  "normalize_sla_class c = Inr c' \<longleftrightarrow> c' = c \<and> map_of SLA_PRIORITY c \<noteq> None"
  by (auto simp: normalize_sla_class_def)

lemma sla_classes:
  "map_of SLA_PRIORITY c \<noteq> None \<longleftrightarrow> c \<in> {''realtime'', ''interactive'', ''best_effort''}"
  by (auto simp: SLA_PRIORITY_def)

lemma request_post_init_ok: "request_post_init H r = Inr r' \<Longrightarrow> request_ok r'"
  by (auto simp: request_post_init_def request_ok_def result_simps not_le split: if_splits)

lemma request_post_init_fields:
  "request_post_init H r = Inr r' \<Longrightarrow> r' = r\<lparr>rq_prefix_signature := rq_prefix_signature r'\<rparr>"
  by (auto simp: request_post_init_def result_simps split: if_splits)

text \<open>
  A request is constructed exactly when its SLA class is known, its token counts and its
  latency bound are positive and its arrival is not negative; the constructed request is valid, keeps
  every field the caller gave and carries the given prefix signature, or else the one derived from
  its tenant, model, session and token buckets. Everything else is refused with a \<open>ValueError\<close>.
\<close>

theorem request_validation:
  "case request_post_init H r of
     Inr r' \<Rightarrow> request_ok r' \<and> r' = r\<lparr>rq_prefix_signature := rq_prefix_signature r'\<rparr> \<and>
       rq_prefix_signature r' = Some (case rq_prefix_signature r of Some signature \<Rightarrow> signature
         | None \<Rightarrow> stable_prefix_signature H (rq_tenant_id r) (rq_model_id r) (rq_session_id r)
             (show_int (rq_prompt_tokens r div 128) @ '':'' @ show_int (rq_generation_tokens r div 64)))
   | Inl e \<Rightarrow> (\<exists>message. e = ValueError message) \<and>
       (map_of SLA_PRIORITY (rq_sla_class r) = None \<or> rq_prompt_tokens r \<le> 0 \<or> rq_generation_tokens r \<le> 0 \<or>
        rq_arrival_ts r < 0 \<or> rq_max_latency_ms r \<le> 0)"
  by (auto simp: request_post_init_def normalize_sla_class_def request_ok_def not_le not_less split: option.splits)

lemma model_scale_pos: "0 < model_scale m"
  by (simp add: model_scale_def MODEL_SCALE_HINTS_def dict_get_def)

lemma memory_estimate_pos: "0 < estimate_request_memory_gb p g m s"
  by (simp add: estimate_request_memory_gb_def Let_def model_scale_pos)

lemma memory_estimate_antimono:
  "s \<le> s' \<Longrightarrow> estimate_request_memory_gb p g m s' \<le> estimate_request_memory_gb p g m s"
  unfolding estimate_request_memory_gb_def Let_def
  by (intro mult_right_mono divide_right_mono) (auto simp: less_imp_le [OF model_scale_pos])

lemma fold_refresh_step:
  "fold (refresh_step now) xs (still, m) =
     (still @ filter (\<lambda>x. now < fst x) xs, m + sum_list (map snd (filter (\<lambda>x. now < fst x) xs)))"
  by (induction xs arbitrary: still m) (auto simp: refresh_step_def)

lemma pool_refresh_eq:
  "pool_refresh now p =
     p\<lparr>pr_inflight_memory := filter (\<lambda>x. now < fst x) (pr_inflight_memory p),
       pr_active_memory_gb := sum_list (map snd (filter (\<lambda>x. now < fst x) (pr_inflight_memory p)))\<rparr>"
  by (simp add: pool_refresh_def fold_refresh_step)

lemma pool_refresh_later:
  assumes "t \<le> now"
  shows "pool_refresh now (pool_refresh t p) = pool_refresh now p"
proof -
  have "filter (\<lambda>x. t < fst x \<and> now < fst x) xs = filter (\<lambda>x. now < fst x) xs"
    for xs :: "(pyfloat \<times> pyfloat) list"
    using assms by (intro filter_cong) auto
  then show ?thesis by (simp add: pool_refresh_eq)
qed

lemma inflight_count_le_slots: "inflight_count p now \<le> int (length (pr_slot_available_at p))"
  by (simp add: inflight_count_def)

lemma queue_delay_nonneg: "queue_delay_ms p now = Inr d \<Longrightarrow> 0 \<le> d"
  by (auto simp: queue_delay_ms_def result_simps)

lemma queue_delay_ms_Inr: "pr_slot_available_at p \<noteq> [] \<Longrightarrow> \<exists>d. queue_delay_ms p now = Inr d"
  using min_by_Inr [of "pr_slot_available_at p" "\<lambda>ts. ts"] by (auto simp: queue_delay_ms_def)

text \<open>A queue delay of zero means that some slot is free.\<close>

lemma queue_delay_zero_iff:
  assumes "queue_delay_ms p now = Inr d"
  shows "d = 0 \<longleftrightarrow> inflight_count p now < int (length (pr_slot_available_at p))"
proof -
  from assms obtain e where e: "min_by (\<lambda>ts. ts) (pr_slot_available_at p) = Inr e"
    and d: "d = max 0 (e - now) * 1000" by (auto simp: queue_delay_ms_def result_simps)
  have "d = 0 \<longleftrightarrow> e \<le> now" using d by (auto simp: max_def)
  also have "\<dots> \<longleftrightarrow> (\<exists>ts \<in> set (pr_slot_available_at p). ts \<le> now)"
    using min_by_in_set [OF e] min_by_le [OF e] by (meson order_trans)
  also have "\<dots> \<longleftrightarrow> length (filter (\<lambda>ts. now < ts) (pr_slot_available_at p)) < length (pr_slot_available_at p)"
    using length_filter_less [of _ "pr_slot_available_at p" "\<lambda>ts. now < ts"]
    by (auto simp: not_less intro: ccontr)
       (metis filter_True less_irrefl not_less)
  finally show ?thesis by (simp add: inflight_count_def)
qed

lemma memory_headroom_nonneg: "0 \<le> memory_headroom_gb p"
  by (simp add: memory_headroom_gb_def)

lemma effective_congestion_nonneg:
  assumes "0 \<le> cr_base_congestion c" and "\<forall>(s, e, m) \<in> set (cr_congestion_windows c). 0 \<le> m"
  shows "0 \<le> effective_congestion c now"
proof -
  have "0 \<le> b \<Longrightarrow> \<forall>(s, e, m) \<in> set ws. 0 \<le> m \<Longrightarrow>
     0 \<le> fold (\<lambda>(start, end_ts, multiplier) congestion.
             if start \<le> now \<and> now \<le> end_ts then congestion * multiplier else congestion) ws b"
    for ws :: "(pyfloat \<times> pyfloat \<times> pyfloat) list" and b
    by (induction ws arbitrary: b) auto
  with assms show ?thesis by (simp add: effective_congestion_def)
qed

end
