(* ===== verification/Config.thy ===== *)
theory Config
  imports Types
begin

text \<open>
  The experiment configuration of \<open>nimbusmesh_x/config.py\<close>: one record per frozen dataclass
  and the two functional updates \<open>with_policy\<close> and \<open>with_seed\<close>. Reading a configuration from a
  JSON file is the subject of \<open>ConfigLoader\<close>.
\<close>

record distribution_config =
  dc_distribution :: string
  dc_mean :: pyfloat
  dc_sigma :: pyfloat
  dc_min :: int
  dc_max :: int

record workload_config =
  wc_request_count :: int
  wc_duration_s :: pyfloat
  wc_arrival_pattern :: string
  wc_prompt_tokens :: distribution_config
  wc_generation_tokens :: distribution_config
  wc_tenant_weights :: "(string, pyfloat) dict"
  wc_model_mix :: "(string, pyfloat) dict"
  wc_sla_mix :: "(string, pyfloat) dict"
  wc_trace_path :: "string option"
  wc_trace_replay_speed :: pyfloat
  wc_trace_default_model :: string
  wc_trace_default_sla :: string
  wc_trace_limit :: "int option"
  wc_session_reuse_probability :: pyfloat
  wc_burst_factor :: pyfloat
  wc_cache_hostility :: pyfloat

record pool_spec =
  ps_pool_id :: string
  ps_backend_name :: string
  ps_accelerator_type :: string
  ps_supported_models :: "string list"
  ps_prefill_tps :: pyfloat
  ps_decode_tps :: pyfloat
  ps_memory_gb :: pyfloat
  ps_gpu_count :: int
  ps_parallel_slots :: int
  ps_cost_per_1m_tokens :: pyfloat
  ps_energy_proxy :: pyfloat
  ps_topology_tier :: string
  ps_premium :: bool
  ps_queue_limit :: int

record cluster_spec =
  cs_cluster_id :: string
  cs_zone :: string
  cs_ingress_cost :: pyfloat
  cs_network_costs :: "(string, pyfloat) dict"
  cs_base_congestion :: pyfloat
  cs_pools :: "pool_spec list"
  cs_gpu_topology_file :: "string option"
  cs_failure_windows :: "(pyfloat \<times> pyfloat) list"
  cs_congestion_windows :: "(pyfloat \<times> pyfloat \<times> pyfloat) list"

record experiment_config =
  ec_name :: string
  ec_seed :: int
  ec_policy :: string
  ec_workload :: workload_config
  ec_clusters :: "cluster_spec list"
  ec_decision_log_path :: "string option"
  ec_metrics_output_path :: "string option"
  ec_fairness_strength :: pyfloat
  ec_target_fairness :: pyfloat

definition with_policy :: "experiment_config \<Rightarrow> string \<Rightarrow> experiment_config" where
  "with_policy c policy = c\<lparr>ec_policy := policy\<rparr>"

definition with_seed :: "experiment_config \<Rightarrow> int \<Rightarrow> experiment_config" where
  "with_seed c seed = c\<lparr>ec_seed := seed\<rparr>"

lemma with_policy_with_seed: "with_seed (with_policy c p) s = with_policy (with_seed c s) p"
  by (simp add: with_policy_def with_seed_def)

end
