(* ===== verification/Samples.thy ===== *)
theory Samples
  imports Config
begin

text \<open>
  One small concrete experiment, after \<open>configs/failure_congestion.json\<close>: a premium cluster
  that is down from second 24 to 34 and a standard cluster, one pool each. The witnesses of
  the component theories evaluate the model on it.
\<close>

definition demo_bw_pool :: pool_spec where
  "demo_bw_pool = \<lparr>ps_pool_id = ''bw-premium'', ps_backend_name = ''triton'',
     ps_accelerator_type = ''nvidia-blackwell-b200'',
     ps_supported_models = [''llama-3-70b'', ''mixtral-8x7b'', ''deepseek-v2-lite''],
     ps_prefill_tps = 34000, ps_decode_tps = 16200, ps_memory_gb = 1536, ps_gpu_count = 8,
     ps_parallel_slots = 2, ps_cost_per_1m_tokens = 5.8, ps_energy_proxy = 1.45,
     ps_topology_tier = ''nvlink-mesh'', ps_premium = True, ps_queue_limit = 96\<rparr>"

definition demo_h100_pool :: pool_spec where
  "demo_h100_pool = \<lparr>ps_pool_id = ''h100-main'', ps_backend_name = ''mock'',
     ps_accelerator_type = ''nvidia-h100'', ps_supported_models = [],
     ps_prefill_tps = 20000, ps_decode_tps = 9000, ps_memory_gb = 640, ps_gpu_count = 8,
     ps_parallel_slots = 2, ps_cost_per_1m_tokens = 4.2, ps_energy_proxy = 1.2,
     ps_topology_tier = ''nvlink-ring'', ps_premium = False, ps_queue_limit = 64\<rparr>"

definition demo_bw_cluster :: cluster_spec where
  "demo_bw_cluster = \<lparr>cs_cluster_id = ''eastus-bw'', cs_zone = ''eastus'', cs_ingress_cost = 1,
     cs_network_costs = [(''centralus-h100'', 1.2)], cs_base_congestion = 0.08,
     cs_pools = [demo_bw_pool], cs_gpu_topology_file = None, cs_failure_windows = [(24, 34)],
     cs_congestion_windows = []\<rparr>"

definition demo_h100_cluster :: cluster_spec where
  "demo_h100_cluster = \<lparr>cs_cluster_id = ''centralus-h100'', cs_zone = ''centralus'',
     cs_ingress_cost = 1.1, cs_network_costs = [(''eastus-bw'', 1.2)], cs_base_congestion = 0.1,
     cs_pools = [demo_h100_pool], cs_gpu_topology_file = None, cs_failure_windows = [],
     cs_congestion_windows = [(20, 40, 2)]\<rparr>"

definition demo_distribution :: distribution_config where
  "demo_distribution = \<lparr>dc_distribution = ''uniform'', dc_mean = 1024, dc_sigma = 0.7, dc_min = 32,
     dc_max = 32768\<rparr>"

definition demo_workload :: workload_config where
  "demo_workload = \<lparr>wc_request_count = 4, wc_duration_s = 8, wc_arrival_pattern = ''uniform'',
     wc_prompt_tokens = demo_distribution, wc_generation_tokens = demo_distribution,
     wc_tenant_weights = [(''copilot'', 0.4), (''search'', 0.6)],
     wc_model_mix = [(''llama-3-8b'', 1)], wc_sla_mix = [(''interactive'', 1)],
     wc_trace_path = None, wc_trace_replay_speed = 1, wc_trace_default_model = ''llama-3-8b'',
     wc_trace_default_sla = ''interactive'', wc_trace_limit = None,
     wc_session_reuse_probability = 0.6, wc_burst_factor = 1, wc_cache_hostility = 0\<rparr>"

definition demo_config :: experiment_config where
  "demo_config = \<lparr>ec_name = ''demo'', ec_seed = 7, ec_policy = ''multi_objective'',
     ec_workload = demo_workload, ec_clusters = [demo_bw_cluster, demo_h100_cluster],
     ec_decision_log_path = None, ec_metrics_output_path = None, ec_fairness_strength = 0.35,
     ec_target_fairness = 0.95\<rparr>"

lemmas demo_defs = demo_config_def demo_workload_def demo_distribution_def demo_bw_cluster_def
  demo_h100_cluster_def demo_bw_pool_def demo_h100_pool_def

text \<open>A file system without files.\<close>

definition no_files :: "string \<Rightarrow> string option" where
  "no_files path = None"

text \<open>A request of the demo tenant, the decision that sent it to the H100 pool, and its result.\<close>

definition demo_request :: inference_request where
  "demo_request = \<lparr>rq_request_id = ''req-000001'', rq_tenant_id = ''copilot'', rq_model_id = ''llama-3-8b'',
     rq_prompt_tokens = 1000, rq_generation_tokens = 200, rq_arrival_ts = 1, rq_sla_class = ''interactive'',
     rq_session_id = Some ''copilot-session-1'', rq_prefix_signature = Some ''sig'',
     rq_max_latency_ms = 2200, rq_metadata = []\<rparr>"

definition demo_decision :: routing_decision where
  "demo_decision = \<lparr>rd_request_id = ''req-000001'', rd_policy_name = ''multi_objective'',
     rd_cluster_id = ''centralus-h100'', rd_pool_id = ''h100-main'', rd_backend_name = ''mock'',
     rd_estimated_latency_ms = 100, rd_estimated_queue_delay_ms = 0, rd_estimated_cache_hit_ratio = 0,
     rd_topology_affinity = 0.92, rd_network_cost = 1.1, rd_accelerator_cost_per_1m_tokens = 4.2,
     rd_fairness_penalty = 0, rd_score_breakdown = []\<rparr>"

definition demo_result :: request_result where
  "demo_result = \<lparr>rr_request = demo_request, rr_decision = demo_decision, rr_admitted = True,
     rr_actual_start_ts = 1, rr_completion_ts = 2, rr_queue_delay_ms = 0, rr_prefill_latency_ms = 60,
     rr_decode_latency_ms = 40, rr_total_latency_ms = 100, rr_cache_hit_ratio = 0, rr_cache_saved_tokens = 0,
     rr_memory_gb = 0.4, rr_cost_usd = 0.01, rr_energy_proxy = 1.44, rr_network_cost = 1.1, rr_sla_met = True,
     rr_rejection_reason = None\<rparr>"

lemmas demo_result_defs = demo_request_def demo_decision_def demo_result_def

text \<open>The run-time state of the H100 pool before its first request.\<close>

definition demo_pool :: pool_runtime where
  "demo_pool = \<lparr>pr_cluster_id = ''centralus-h100'', pr_zone = ''centralus'', pr_pool_id = ''h100-main'',
     pr_backend_name = ''mock'', pr_accelerator_type = ''nvidia-h100'', pr_supported_models = [],
     pr_prefill_tps = 20000, pr_decode_tps = 9000, pr_memory_gb = 640, pr_gpu_count = 8,
     pr_parallel_slots = 2, pr_cost_per_1m_tokens = 4.2, pr_energy_proxy = 1.2,
     pr_topology_tier = ''nvlink-ring'', pr_premium = False, pr_queue_limit = 64, pr_congestion_score = 0,
     pr_slot_available_at = [0, 0], pr_active_memory_gb = 0, pr_cache_reserved_gb = 0,
     pr_decision_count = 0, pr_completed_count = 0, pr_inflight_memory = []\<rparr>"

end
