(* ===== verification/TopologyService.thy ===== *)
theory TopologyService
  imports Heapq GpuTopology Samples
begin

text \<open>
  The topology service, \<open>topology_service/graph.py\<close>: the graph of gateways and pools built
  from the configuration, Dijkstra's search with lazy deletion over it, and the affinity and
  route cost the router asks for. \<open>None\<close> stands for \<open>float("inf")\<close>, the cost of an
  unreachable target. The lemmas show that the search always ends and, on graphs without
  negative costs, returns the least cost of a walk (or infinity exactly when there is no
  walk); and that the route cost of a configured pool is the cost of its own gateway link,
  whatever the inter-cluster costs are.
\<close>

section \<open>Shortest paths\<close>

type_synonym adjacency = "(string, topology_link list) dict"

text \<open>The loop over the edges of the node just visited.\<close>

fun relax ::
  "pyfloat \<Rightarrow> topology_link list \<Rightarrow> (string, pyfloat) dict \<Rightarrow> (pyfloat \<times> string) list
    \<Rightarrow> (string, pyfloat) dict \<times> (pyfloat \<times> string) list" where
  "relax cost [] distances frontier = (distances, frontier)"
| "relax cost (edge # edges) distances frontier =
     (let new_cost = cost + tl_cost edge
      in if (case map_of distances (tl_target edge) of None \<Rightarrow> True | Some d \<Rightarrow> new_cost < d)
         then relax cost edges (AList.update (tl_target edge) new_cost distances)
                (heappush frontier (new_cost, tl_target edge))
         else relax cost edges distances frontier)"

text \<open>
  The \<open>while frontier\<close> loop. Every iteration takes an item from the frontier; items are added
  only when a node with outgoing edges is visited for the first time, so the nodes still to
  visit bound the search.
\<close>

definition unvisited :: "adjacency \<Rightarrow> string set \<Rightarrow> nat" where
  "unvisited adjacency visited = card (set (dict_keys adjacency) - visited)"

function search ::
  "adjacency \<Rightarrow> string \<Rightarrow> (pyfloat \<times> string) list \<Rightarrow> string set \<Rightarrow> (string, pyfloat) dict
    \<Rightarrow> pyfloat option" where
  "search adjacency target frontier visited distances =
     (case heappop frontier of
        None \<Rightarrow> None
      | Some ((cost, node_id), frontier') \<Rightarrow>
          if node_id \<in> visited then search adjacency target frontier' visited distances
          else if node_id = target then Some cost
          else (case relax cost (dict_get [] adjacency node_id) distances frontier' of
                  (distances', frontier'') \<Rightarrow>
                    search adjacency target frontier'' (insert node_id visited) distances'))"
  by pat_completeness auto

termination
proof (relation "measures [\<lambda>(adjacency, target, frontier, visited, distances). unvisited adjacency visited,
                           \<lambda>(adjacency, target, frontier, visited, distances). length frontier]", goal_cases)
  case 1
  show ?case by simp
next
  case 2
  then show ?case by (auto dest: heappop_length)
next
  case (3 adjacency target frontier visited distances item entry frontier' cost node_id distances' frontier'')
  show ?case
  proof (cases "node_id \<in> set (dict_keys adjacency)")
    case True
    have "card (set (dict_keys adjacency) - insert node_id visited) < card (set (dict_keys adjacency) - visited)"
      by (rule psubset_card_mono) (use True 3 in auto)
    then show ?thesis by (simp add: unvisited_def)
  next
    case False
    then have "map_of adjacency node_id = None"
      by (simp add: dict_keys_def map_of_eq_None_iff)
    with 3 have "frontier'' = frontier'" by (auto simp: dict_get_def)
    moreover have "set (dict_keys adjacency) - insert node_id visited = set (dict_keys adjacency) - visited"
      using False by auto
    ultimately show ?thesis using 3 by (auto simp: unvisited_def dest: heappop_length)
  qed
qed

declare search.simps [simp del]

definition shortest_path_cost :: "adjacency \<Rightarrow> string \<Rightarrow> string \<Rightarrow> pyfloat option" where
  "shortest_path_cost adjacency source target = search adjacency target [(0, source)] {} [(source, 0)]"

section \<open>Correctness of the search\<close>

text \<open>The specification: a walk along edges of the graph, with the sum of their costs.\<close>

inductive walk :: "adjacency \<Rightarrow> string \<Rightarrow> string \<Rightarrow> pyfloat \<Rightarrow> bool" for adjacency source where
  stay: "walk adjacency source source 0"
| step: "walk adjacency source u c \<Longrightarrow> e \<in> set (dict_get [] adjacency u)
    \<Longrightarrow> walk adjacency source (tl_target e) (c + tl_cost e)"

definition nonneg_costs :: "adjacency \<Rightarrow> bool" where
  "nonneg_costs adjacency \<longleftrightarrow> (\<forall>edges \<in> set (dict_values adjacency). \<forall>e \<in> set edges. 0 \<le> tl_cost e)"

lemma nonneg_costs_edge: "nonneg_costs adjacency \<Longrightarrow> e \<in> set (dict_get [] adjacency u) \<Longrightarrow> 0 \<le> tl_cost e"
  by (cases "map_of adjacency u")
     (auto simp: nonneg_costs_def dict_get_def dict_values_def dest: map_of_SomeD)

lemma walk_nonneg: "walk adjacency s v c \<Longrightarrow> nonneg_costs adjacency \<Longrightarrow> 0 \<le> c"
  by (induction rule: walk.induct) (auto dest: nonneg_costs_edge)

text \<open>What relaxing the edges of one node does to the distances and the frontier.\<close>

lemma relax_frontier:
  assumes "relax cost es D F = (D', F')"
  shows "set F \<subseteq> set F'"
    and "x \<in> set F' \<Longrightarrow> x \<in> set F \<or> (\<exists>e \<in> set es. x = (cost + tl_cost e, tl_target e))"
  using assms
  by (induction cost es D F rule: relax.induct) (auto simp: Let_def heappush_def split: if_splits)

lemma relax_lowers:
  assumes "relax cost es D F = (D', F')" and "map_of D v = Some d"
  shows "\<exists>d'. map_of D' v = Some d' \<and> d' \<le> d"
  using assms
proof (induction cost es D F arbitrary: d rule: relax.induct)
  case (2 cost e es D F)
  show ?case
  proof (cases "case map_of D (tl_target e) of None \<Rightarrow> True | Some d \<Rightarrow> cost + tl_cost e < d")
    case True
    define D1 where "D1 = AList.update (tl_target e) (cost + tl_cost e) D"
    obtain d1 where "map_of D1 v = Some d1" "d1 \<le> d"
      using True "2.prems"(2) by (cases "v = tl_target e") (auto simp: D1_def dict_simps)
    with "2.IH"(1) [OF refl True] "2.prems"(1) True show ?thesis
      by (fastforce simp: Let_def D1_def)
  next
    case False
    with 2 show ?thesis by (auto simp: Let_def)
  qed
qed auto

lemma relax_reaches:
  assumes "relax cost es D F = (D', F')" and "e \<in> set es"
  shows "\<exists>d. map_of D' (tl_target e) = Some d \<and> d \<le> cost + tl_cost e"
  using assms
proof (induction cost es D F rule: relax.induct)
  case (2 cost a es D F)
  show ?case
  proof (cases "e = a")
    case False
    with 2 show ?thesis by (auto simp: Let_def split: if_splits)
  next
    case True
    show ?thesis
    proof (cases "case map_of D (tl_target a) of None \<Rightarrow> True | Some d \<Rightarrow> cost + tl_cost a < d")
      case lower: True
      have "map_of (AList.update (tl_target a) (cost + tl_cost a) D) (tl_target e) = Some (cost + tl_cost e)"
        using True by (simp add: dict_simps)
      with lower "2.prems"(1) show ?thesis by (auto simp: Let_def dest: relax_lowers)
    next
      case keep: False
      then obtain d where d: "map_of D (tl_target e) = Some d" "d \<le> cost + tl_cost e"
        using True by (auto split: option.splits)
      from keep "2.prems"(1) have "relax cost es D F = (D', F')" by (simp add: Let_def)
      from relax_lowers [OF this d(1)] d(2) show ?thesis by fastforce
    qed
  qed
qed simp

lemma relax_changed:
  assumes "relax cost es D F = (D', F')" and "map_of D' v = Some d" and "map_of D v \<noteq> Some d"
  shows "(d, v) \<in> set F' \<and> (\<exists>e \<in> set es. v = tl_target e \<and> d = cost + tl_cost e)"
  using assms
proof (induction cost es D F rule: relax.induct)
  case (2 cost e es D F)
  show ?case
  proof (cases "case map_of D (tl_target e) of None \<Rightarrow> True | Some d \<Rightarrow> cost + tl_cost e < d")
    case True
    define D1 where "D1 = AList.update (tl_target e) (cost + tl_cost e) D"
    define F1 where "F1 = heappush F (cost + tl_cost e, tl_target e)"
    from True "2.prems"(1) have r: "relax cost es D1 F1 = (D', F')" by (simp add: Let_def D1_def F1_def)
    show ?thesis
    proof (cases "map_of D1 v = Some d")
      case False
      with "2.IH"(1) [OF refl True] "2.prems" r show ?thesis by (auto simp: D1_def F1_def)
    next
      case now: True
      with "2.prems"(3) have "v = tl_target e" and "d = cost + tl_cost e"
        by (auto simp: D1_def dict_simps split: if_splits)
      moreover from relax_frontier(1) [OF r] have "(cost + tl_cost e, tl_target e) \<in> set F'"
        by (auto simp: F1_def heappush_def)
      ultimately show ?thesis by auto
    qed
  next
    case False
    with 2 show ?thesis by (auto simp: Let_def)
  qed
qed auto

text \<open>
  The loop invariant: every distance is the cost of a walk and is queued until its node is
  visited; the edges of visited nodes are relaxed; visited nodes are no farther than
  anything still queued.
\<close>

definition search_inv ::
  "adjacency \<Rightarrow> string \<Rightarrow> (pyfloat \<times> string) list \<Rightarrow> string set \<Rightarrow> (string, pyfloat) dict \<Rightarrow> bool" where
  "search_inv adjacency source frontier visited distances \<longleftrightarrow>
     map_of distances source = Some 0 \<and>
     (\<forall>v d. map_of distances v = Some d \<longrightarrow> walk adjacency source v d) \<and>
     (\<forall>c v. (c, v) \<in> set frontier \<longrightarrow> (\<exists>d. map_of distances v = Some d \<and> d \<le> c)) \<and>
     (\<forall>v d. map_of distances v = Some d \<longrightarrow> v \<in> visited \<or> (d, v) \<in> set frontier) \<and>
     (\<forall>u \<in> visited. \<exists>du. map_of distances u = Some du \<and>
        (\<forall>e \<in> set (dict_get [] adjacency u).
           \<exists>d. map_of distances (tl_target e) = Some d \<and> d \<le> du + tl_cost e) \<and>
        (\<forall>(c, v) \<in> set frontier. du \<le> c))"

lemma search_invI:
  assumes "map_of D source = Some 0"
    and "\<And>v d. map_of D v = Some d \<Longrightarrow> walk adjacency source v d"
    and "\<And>c v. (c, v) \<in> set F \<Longrightarrow> \<exists>d. map_of D v = Some d \<and> d \<le> c"
    and "\<And>v d. map_of D v = Some d \<Longrightarrow> v \<in> V \<or> (d, v) \<in> set F"
    and "\<And>u. u \<in> V \<Longrightarrow> \<exists>du. map_of D u = Some du \<and>
        (\<forall>e \<in> set (dict_get [] adjacency u).
           \<exists>d. map_of D (tl_target e) = Some d \<and> d \<le> du + tl_cost e) \<and>
        (\<forall>(c, v) \<in> set F. du \<le> c)"
  shows "search_inv adjacency source F V D"
  using assms unfolding search_inv_def by blast

lemma search_invD:
  assumes "search_inv adjacency source F V D"
  shows "map_of D source = Some 0"
    and "map_of D v = Some d \<Longrightarrow> walk adjacency source v d"
    and "(c, v) \<in> set F \<Longrightarrow> \<exists>d. map_of D v = Some d \<and> d \<le> c"
    and "map_of D v = Some d \<Longrightarrow> v \<in> V \<or> (d, v) \<in> set F"
    and "u \<in> V \<Longrightarrow> \<exists>du. map_of D u = Some du \<and>
        (\<forall>e \<in> set (dict_get [] adjacency u).
           \<exists>d. map_of D (tl_target e) = Some d \<and> d \<le> du + tl_cost e) \<and>
        (\<forall>(c, v) \<in> set F. du \<le> c)"
  using assms unfolding search_inv_def by blast+

lemma search_inv_init: "search_inv adjacency source [(0, source)] {} [(source, 0)]"
  by (auto simp: search_inv_def intro: walk.stay split: if_splits)

lemma search_inv_skip:
  assumes "search_inv adjacency source F V D" and "heappop F = Some ((c, v), F')" and "v \<in> V"
  shows "search_inv adjacency source F' V D"
proof -
  from heapq.pop_items [OF assms(2)] have F: "set F = insert (c, v) (set F')"
    by (metis set_mset_mset set_mset_add_mset_insert)
  show ?thesis
  proof (rule search_invI [OF search_invD(1,2) [OF assms(1)]])
    fix w d assume "map_of D w = Some d"
    from search_invD(4) [OF assms(1) this] show "w \<in> V \<or> (d, w) \<in> set F'" using F assms(3) by auto
  next
    fix u assume "u \<in> V"
    from search_invD(5) [OF assms(1) this] show "\<exists>du. map_of D u = Some du \<and>
        (\<forall>e \<in> set (dict_get [] adjacency u).
           \<exists>d. map_of D (tl_target e) = Some d \<and> d \<le> du + tl_cost e) \<and>
        (\<forall>(c, v) \<in> set F'. du \<le> c)" unfolding F by blast
  qed (use search_invD(3) [OF assms(1)] F in auto)
qed

text \<open>Any walk leads to a visited node no nearer than recorded, or passes a queued node.\<close>

lemma search_inv_walk:
  assumes "search_inv adjacency source F V D" and "nonneg_costs adjacency"
    and "walk adjacency source v c"
  shows "(v \<in> V \<and> (\<exists>d. map_of D v = Some d \<and> d \<le> c)) \<or> (\<exists>y d. y \<notin> V \<and> (d, y) \<in> set F \<and> d \<le> c)"
  using assms(3)
proof (induction rule: walk.induct)
  case stay
  show ?case using search_invD(1) [OF assms(1)] search_invD(4) [OF assms(1) search_invD(1) [OF assms(1)]]
    by auto
next
  case (step u c e)
  have e: "0 \<le> tl_cost e" using assms(2) step.hyps(2) by (rule nonneg_costs_edge)
  from step.IH show ?case
  proof (elim disjE conjE exE)
    fix d assume "u \<in> V" and d: "map_of D u = Some d" "d \<le> c"
    with search_invD(5) [OF assms(1)] step.hyps(2)
    obtain d' where d': "map_of D (tl_target e) = Some d'" "d' \<le> d + tl_cost e" by fastforce
    with d(2) have "d' \<le> c + tl_cost e" by linarith
    with d'(1) search_invD(4) [OF assms(1) d'(1)] show ?thesis by blast
  next
    fix y d assume "y \<notin> V" "(d, y) \<in> set F" "d \<le> c"
    moreover from this e have "d \<le> c + tl_cost e" by linarith
    ultimately show ?thesis by blast
  qed
qed

text \<open>The node just popped, if not visited before, carries its least distance.\<close>

lemma search_inv_popped:
  assumes inv: "search_inv adjacency source F V D" and "nonneg_costs adjacency"
    and pop: "heappop F = Some ((c, v), F')" and "v \<notin> V"
  shows "map_of D v = Some c" and "walk adjacency source v c"
    and "walk adjacency source v c' \<Longrightarrow> c \<le> c'"
proof -
  have least: "c \<le> d" if "(d, y) \<in> set F" for d y
    using heapq.pop_least [OF pop, of "(d, y)"] that by (auto simp: less_eq_prod_def)
  have "(c, v) \<in> set F" using heapq.pop_mem [OF pop] by simp
  with search_invD(3) [OF inv] obtain d where d: "map_of D v = Some d" "d \<le> c" by blast
  with search_invD(4) [OF inv] \<open>v \<notin> V\<close> have "(d, v) \<in> set F" by blast
  with least d(2) have "d = c" by fastforce
  with d(1) show D: "map_of D v = Some c" by simp
  then show "walk adjacency source v c" by (rule search_invD(2) [OF inv])
  assume "walk adjacency source v c'"
  from search_inv_walk [OF inv assms(2) this] \<open>v \<notin> V\<close> obtain y d where "(d, y) \<in> set F" "d \<le> c'" by blast
  with least [of d y] show "c \<le> c'" by linarith
qed

lemma search_inv_visit:
  assumes inv: "search_inv adjacency source F V D" and nonneg: "nonneg_costs adjacency"
    and pop: "heappop F = Some ((c, v), F')" and "v \<notin> V"
    and relaxed: "relax c (dict_get [] adjacency v) D F' = (D', F'')"
  shows "search_inv adjacency source F'' (insert v V) D'"
proof -
  from heapq.pop_items [OF pop] have F: "set F = insert (c, v) (set F')"
    by (metis set_mset_mset set_mset_add_mset_insert)
  have least: "c \<le> d" if "(d, y) \<in> set F" for d y
    using heapq.pop_least [OF pop, of "(d, y)"] that by (auto simp: less_eq_prod_def)
  note Dv = search_inv_popped(1) [OF inv nonneg pop \<open>v \<notin> V\<close>]
  note wv = search_inv_popped(2) [OF inv nonneg pop \<open>v \<notin> V\<close>]
  have edge: "0 \<le> tl_cost e" if "e \<in> set (dict_get [] adjacency v)" for e
    using nonneg that by (rule nonneg_costs_edge)
  have queued: "c \<le> d" if "(d, y) \<in> set F''" for d y
    using relax_frontier(2) [OF relaxed that] least F edge by fastforce
  have kept: "map_of D' u = Some d" if "map_of D u = Some d" "d \<le> c" for u d
  proof -
    from relax_lowers [OF relaxed that(1)] obtain d' where d': "map_of D' u = Some d'" "d' \<le> d" by blast
    have "d' = d"
    proof (rule ccontr)
      assume "d' \<noteq> d"
      with that(1) relax_changed [OF relaxed d'(1)] edge have "c \<le> d'" by auto
      with d'(2) that(2) \<open>d' \<noteq> d\<close> show False by linarith
    qed
    with d'(1) show ?thesis by simp
  qed
  have walks: "walk adjacency source w d" if "map_of D' w = Some d" for w d
    using relax_changed [OF relaxed that] inv wv
    by (cases "map_of D w = Some d") (auto dest: search_invD(2) intro: walk.step)
  have bound: "\<exists>d. map_of D' w = Some d \<and> d \<le> k" if "(k, w) \<in> set F''" for k w
    using relax_frontier(2) [OF relaxed that]
  proof
    assume "(k, w) \<in> set F'"
    with search_invD(3) [OF inv, of k w] F obtain d where d: "map_of D w = Some d" "d \<le> k" by auto
    from relax_lowers [OF relaxed d(1)] d(2) show ?thesis by (meson order_trans)
  qed (auto dest: relax_reaches [OF relaxed])
  have queue: "w \<in> insert v V \<or> (d, w) \<in> set F''" if "map_of D' w = Some d" for w d
    using relax_changed [OF relaxed that] relax_frontier(1) [OF relaxed] search_invD(4) [OF inv, of w d] F
    by (cases "map_of D w = Some d") auto
  have old: "\<exists>du. map_of D' u = Some du \<and>
      (\<forall>e \<in> set (dict_get [] adjacency u). \<exists>d. map_of D' (tl_target e) = Some d \<and> d \<le> du + tl_cost e) \<and>
      (\<forall>(k, w) \<in> set F''. du \<le> k)" if "u \<in> V" for u
  proof -
    from search_invD(5) [OF inv that] obtain du where du: "map_of D u = Some du"
      "\<forall>e \<in> set (dict_get [] adjacency u). \<exists>d. map_of D (tl_target e) = Some d \<and> d \<le> du + tl_cost e"
      "\<forall>(k, w) \<in> set F. du \<le> k" by blast
    then have "du \<le> c" using F by auto
    moreover have "\<exists>d. map_of D' (tl_target e) = Some d \<and> d \<le> du + tl_cost e"
      if "e \<in> set (dict_get [] adjacency u)" for e
      using du(2) that relax_lowers [OF relaxed] by (meson order_trans)
    moreover have "\<forall>(k, w) \<in> set F''. du \<le> k" using queued \<open>du \<le> c\<close> by fastforce
    ultimately show ?thesis using kept [OF du(1)] by blast
  qed
  have new: "\<forall>e \<in> set (dict_get [] adjacency v). \<exists>d. map_of D' (tl_target e) = Some d \<and> d \<le> c + tl_cost e"
    using relax_reaches [OF relaxed] by blast
  have src: "map_of D' source = Some 0"
    by (rule kept [OF search_invD(1) [OF inv] walk_nonneg [OF wv nonneg]])
  show ?thesis
  proof (rule search_invI [OF src walks bound queue])
    fix u assume "u \<in> insert v V"
    then consider "u = v" | "u \<in> V" by blast
    then show "\<exists>du. map_of D' u = Some du \<and>
      (\<forall>e \<in> set (dict_get [] adjacency u). \<exists>d. map_of D' (tl_target e) = Some d \<and> d \<le> du + tl_cost e) \<and>
      (\<forall>(k, w) \<in> set F''. du \<le> k)"
    proof cases
      case 1
      from queued have "\<forall>(k, w) \<in> set F''. c \<le> k" by blast
      with 1 new kept [OF Dv] show ?thesis by auto
    qed (rule old)
  qed
qed

lemma search_result:
  assumes "search_inv adjacency source F V D" and "nonneg_costs adjacency" and "target \<notin> V"
  shows "case search adjacency target F V D of
      Some c \<Rightarrow> walk adjacency source target c \<and> (\<forall>c'. walk adjacency source target c' \<longrightarrow> c \<le> c')
    | None \<Rightarrow> \<not> (\<exists>c. walk adjacency source target c)"
  using assms
proof (induction adjacency target F V D rule: search.induct)
  case (1 adjacency target F V D)
  show ?case
  proof (cases "heappop F")
    case None
    with heapq.pop_None [of F] have "F = []" by simp
    with search_inv_walk [OF "1.prems"(1,2)] "1.prems"(3) None show ?thesis
      by (subst search.simps) auto
  next
    case (Some a)
    obtain c v F' where a: "a = ((c, v), F')" by (metis surj_pair)
    with Some have pop: "heappop F = Some ((c, v), F')" by simp
    consider (skip) "v \<in> V" | (found) "v \<notin> V" "v = target" | (visit) "v \<notin> V" "v \<noteq> target" by blast
    then show ?thesis
    proof cases
      case skip
      from "1.IH"(1) [OF pop refl refl skip search_inv_skip [OF "1.prems"(1) pop skip] "1.prems"(2,3)]
      show ?thesis using pop skip by (simp add: search.simps [of adjacency target F V D])
    next
      case found
      with search_inv_popped [OF "1.prems"(1,2) pop] pop show ?thesis
        by (simp add: search.simps [of adjacency target F V D])
    next
      case visit
      obtain D' F'' where r: "relax c (dict_get [] adjacency v) D F' = (D', F'')" by (metis surj_pair)
      from "1.IH"(2) [OF pop refl refl visit r [symmetric]
          search_inv_visit [OF "1.prems"(1,2) pop visit(1) r] "1.prems"(2)] visit "1.prems"(3)
      show ?thesis using pop visit r by (simp add: search.simps [of adjacency target F V D])
    qed
  qed
qed

text \<open>
  C6: the search returns the least cost of a walk from the source to the target, and infinity
  exactly when there is none, on every graph without negative edge costs. (That it returns at
  all is the termination proof of \<open>search\<close>.)
\<close>

theorem shortest_path_cost_correct:
  assumes "nonneg_costs adjacency"
  shows "case shortest_path_cost adjacency source target of
      Some c \<Rightarrow> walk adjacency source target c \<and> (\<forall>c'. walk adjacency source target c' \<longrightarrow> c \<le> c')
    | None \<Rightarrow> \<not> (\<exists>c. walk adjacency source target c)"
  unfolding shortest_path_cost_def using search_inv_init assms by (rule search_result) simp

definition diamond :: adjacency where
  "diamond =
     [(''a'', [\<lparr>tl_source = ''a'', tl_target = ''b'', tl_bandwidth_gbps = 1, tl_latency_us = 1, tl_cost = 5\<rparr>,
              \<lparr>tl_source = ''a'', tl_target = ''c'', tl_bandwidth_gbps = 1, tl_latency_us = 1, tl_cost = 1\<rparr>]),
      (''c'', [\<lparr>tl_source = ''c'', tl_target = ''b'', tl_bandwidth_gbps = 1, tl_latency_us = 1, tl_cost = 2\<rparr>])]"

lemma diamond_cost: "shortest_path_cost diamond ''a'' ''b'' = Some 3"
  by code_simp

theorem shortest_path_cost_correct_witness:
  "nonneg_costs diamond \<and> shortest_path_cost diamond ''a'' ''b'' = Some 3 \<and>
     walk diamond ''a'' ''b'' 3 \<and> \<not> walk diamond ''a'' ''b'' 2"
proof -
  have "nonneg_costs diamond" by (simp add: nonneg_costs_def diamond_def dict_values_def)
  with shortest_path_cost_correct [OF this, of "''a''" "''b''"] diamond_cost show ?thesis by auto
qed

section \<open>TopologyService\<close>

record topology_service =
  tp_nodes :: "(string, topology_node) dict"
  tp_adjacency :: adjacency
  tp_cluster_gateways :: "(string, string) dict"
  tp_cluster_probe_affinity :: "(string, pyfloat) dict"
  tp_cluster_probe_cost_factor :: "(string, pyfloat) dict"

definition add_edge ::
  "string \<Rightarrow> string \<Rightarrow> pyfloat \<Rightarrow> pyfloat \<Rightarrow> pyfloat \<Rightarrow> topology_service \<Rightarrow> topology_service" where
  "add_edge source target bandwidth_gbps latency_us cost t =
     t\<lparr>tp_adjacency :=
         AList.update source
           (dict_get [] (tp_adjacency t) source @
              [\<lparr>tl_source = source, tl_target = target, tl_bandwidth_gbps = bandwidth_gbps,
                tl_latency_us = latency_us, tl_cost = cost\<rparr>])
           (tp_adjacency t)\<rparr>"

definition gateway_node_id :: "string \<Rightarrow> string" where
  "gateway_node_id cluster_id = ''gateway:'' @ cluster_id"

definition pool_node_id :: "string \<Rightarrow> string \<Rightarrow> string" where
  "pool_node_id cluster_id pool_id = ''pool:'' @ cluster_id @ '':'' @ pool_id"

definition tier_score :: "string \<Rightarrow> pyfloat" where
  "tier_score tier = dict_get 0.6 TOPOLOGY_TIER_SCORE tier"

definition internal_cost :: "string \<Rightarrow> pyfloat" where
  "internal_cost tier = max 0.05 (1.2 - tier_score tier)"

text \<open>The body of the inner loop of \<open>_build_from_config\<close>, for one pool.\<close>

definition add_pool :: "cluster_spec \<Rightarrow> pool_spec \<Rightarrow> topology_service \<Rightarrow> topology_service" where
  "add_pool cluster pool t =
     (let gateway_id = gateway_node_id (cs_cluster_id cluster);
          node_id = pool_node_id (cs_cluster_id cluster) (ps_pool_id pool);
          node = \<lparr>tn_node_id = node_id, tn_kind = ''pool'', tn_cluster_id = cs_cluster_id cluster,
                  tn_zone = cs_zone cluster,
                  tn_metadata = [(''accelerator_type'', JStr (ps_accelerator_type pool)),
                                 (''topology_tier'', JStr (ps_topology_tier pool)),
                                 (''gpu_count'', JInt (ps_gpu_count pool))]\<rparr>;
          score = tier_score (ps_topology_tier pool);
          bandwidth = 800 * score;
          latency = 8 + (1 - score) * 35;
          cost = internal_cost (ps_topology_tier pool)
      in add_edge node_id gateway_id bandwidth latency cost
           (add_edge gateway_id node_id bandwidth latency cost
             (t\<lparr>tp_nodes := AList.update node_id node (tp_nodes t)\<rparr>)))"

text \<open>One iteration of the first loop: the gateway, the pools, the optional probe file.\<close>

definition add_cluster ::
  "(string \<Rightarrow> string option) \<Rightarrow> cluster_spec \<Rightarrow> topology_service \<Rightarrow> topology_service result" where
  "add_cluster fs cluster t =
     (let cid = cs_cluster_id cluster;
          gateway_id = gateway_node_id cid;
          node = \<lparr>tn_node_id = gateway_id, tn_kind = ''gateway'', tn_cluster_id = cid,
                  tn_zone = cs_zone cluster, tn_metadata = []\<rparr>;
          t1 = t\<lparr>tp_cluster_gateways := AList.update cid gateway_id (tp_cluster_gateways t),
                 tp_nodes := AList.update gateway_id node (tp_nodes t)\<rparr>;
          t2 = fold (add_pool cluster) (cs_pools cluster) t1
      in case cs_gpu_topology_file cluster of
           None \<Rightarrow> Inr t2
         | Some path \<Rightarrow>
             if path = [] then Inr t2
             else ebind (from_file fs path) (\<lambda>parsed.
               Inr (t2\<lparr>tp_cluster_probe_affinity :=
                          AList.update cid (overall_affinity parsed) (tp_cluster_probe_affinity t2),
                       tp_cluster_probe_cost_factor :=
                          AList.update cid (average_cost parsed) (tp_cluster_probe_cost_factor t2)\<rparr>)))"

text \<open>One iteration of the second loop: the links between gateways.\<close>

definition add_network_link :: "string \<Rightarrow> string \<times> pyfloat \<Rightarrow> topology_service \<Rightarrow> topology_service" where
  "add_network_link source_gateway item t =
     (case item of (target_cluster_id, cost) \<Rightarrow>
        if target_cluster_id = ''ingress'' then t
        else (case map_of (tp_cluster_gateways t) target_cluster_id of
                None \<Rightarrow> t
              | Some target_gateway \<Rightarrow>
                  if target_gateway = [] then t
                  else add_edge source_gateway target_gateway (400 / max cost 0.5) (25 * cost) cost t))"

definition add_network_links :: "cluster_spec \<Rightarrow> topology_service \<Rightarrow> topology_service result" where
  "add_network_links cluster t =
     ebind (dict_item (tp_cluster_gateways t) (cs_cluster_id cluster) (KeyError (cs_cluster_id cluster)))
       (\<lambda>source_gateway. Inr (fold (add_network_link source_gateway) (cs_network_costs cluster) t))"

definition empty_topology :: topology_service where
  "empty_topology = \<lparr>tp_nodes = [], tp_adjacency = [], tp_cluster_gateways = [],
     tp_cluster_probe_affinity = [], tp_cluster_probe_cost_factor = []\<rparr>"

definition build_from_config ::
  "(string \<Rightarrow> string option) \<Rightarrow> experiment_config \<Rightarrow> topology_service result" where
  "build_from_config fs config =
     ebind (efold (add_cluster fs) (ec_clusters config) empty_topology) (\<lambda>t.
       efold add_network_links (ec_clusters config) t)"

text \<open>\<open>TOPOLOGY_TIER_SCORE.get(tier, 0.6)\<close> on a metadata value (lists and dicts do not hash).\<close>

fun tier_lookup :: "json \<Rightarrow> pyfloat result" where
  "tier_lookup (JStr tier) = Inr (tier_score tier)"
| "tier_lookup (JList _) = Inl TypeError"
| "tier_lookup (JDict _) = Inl TypeError"
| "tier_lookup _ = Inr 0.6"

definition pool_affinity :: "topology_service \<Rightarrow> string \<Rightarrow> string \<Rightarrow> int \<Rightarrow> pyfloat result" where
  "pool_affinity t cluster_id pool_id prompt_tokens =
     (let node_id = pool_node_id cluster_id pool_id
      in ebind (dict_item (tp_nodes t) node_id (KeyError node_id)) (\<lambda>node.
         ebind (dict_item (tn_metadata node) ''topology_tier'' (KeyError ''topology_tier'')) (\<lambda>tier.
         ebind (tier_lookup tier) (\<lambda>score.
           let long_context_factor = min 1 (of_int prompt_tokens / 8192);
               probe_affinity = dict_get score (tp_cluster_probe_affinity t) cluster_id;
               blended = (score * 0.8) + (probe_affinity * 0.2)
           in Inr (py_round 4 (blended * (0.65 + 0.35 * long_context_factor)))))))"

definition route_cost :: "topology_service \<Rightarrow> string \<Rightarrow> string \<Rightarrow> pyfloat option result" where
  "route_cost t cluster_id pool_id =
     ebind (dict_item (tp_cluster_gateways t) cluster_id (KeyError cluster_id)) (\<lambda>gateway_id.
       Inr (case shortest_path_cost (tp_adjacency t) gateway_id (pool_node_id cluster_id pool_id) of
              None \<Rightarrow> None
            | Some base_cost \<Rightarrow>
                Some (py_round 4 (base_cost * dict_get 1 (tp_cluster_probe_cost_factor t) cluster_id))))"

definition snapshot :: "topology_service \<Rightarrow> json" where
  "snapshot t = JDict
     [(''nodes'', JDict (map (\<lambda>(node_id, node).
         (node_id, JDict (dict_union (tn_metadata node)
            [(''kind'', JStr (tn_kind node)), (''cluster_id'', JStr (tn_cluster_id node))]))) (tp_nodes t))),
      (''edges'', JDict (map (\<lambda>(node_id, edges).
         (node_id, JList (map (\<lambda>edge. JDict
            [(''target'', JStr (tl_target edge)), (''bandwidth_gbps'', JFloat (tl_bandwidth_gbps edge)),
             (''latency_us'', JFloat (tl_latency_us edge)), (''cost'', JFloat (tl_cost edge))]) edges))) (tp_adjacency t)))]"

section \<open>The graph the configuration builds\<close>

lemma add_edge_fields [simp]:
  "tp_nodes (add_edge s g b l c t) = tp_nodes t"
  "tp_cluster_gateways (add_edge s g b l c t) = tp_cluster_gateways t"
  "tp_cluster_probe_affinity (add_edge s g b l c t) = tp_cluster_probe_affinity t"
  "tp_cluster_probe_cost_factor (add_edge s g b l c t) = tp_cluster_probe_cost_factor t"
  by (simp_all add: add_edge_def)

lemma add_edge_adjacency [simp]:
  "dict_get [] (tp_adjacency (add_edge s g b l c t)) k =
     dict_get [] (tp_adjacency t) k @
       (if k = s then [\<lparr>tl_source = s, tl_target = g, tl_bandwidth_gbps = b, tl_latency_us = l, tl_cost = c\<rparr>]
        else [])"
  by (simp add: add_edge_def dict_simps)

lemma node_ids_disjoint [simp]:
  "gateway_node_id c \<noteq> pool_node_id c' p" "pool_node_id c' p \<noteq> gateway_node_id c"
  by (simp_all add: gateway_node_id_def pool_node_id_def)

lemma gateway_node_id_inject [simp]: "gateway_node_id c = gateway_node_id c' \<longleftrightarrow> c = c'"
  by (simp add: gateway_node_id_def)

lemma pool_node_id_inject:
  assumes "CHR '':'' \<notin> set c" and "CHR '':'' \<notin> set c'"
  shows "pool_node_id c p = pool_node_id c' p' \<longleftrightarrow> c = c' \<and> p = p'"
  using sep_inject [OF assms] by (simp add: pool_node_id_def)

text \<open>
  What every state of the construction satisfies, \<open>cls\<close> being the configured clusters: links
  lead to gateways, or from a gateway to a pool of its own cluster at that pool's internal
  cost; gateways are registered under their own name; probes are within the parser's bounds.
\<close>

definition link_ok :: "cluster_spec set \<Rightarrow> string \<Rightarrow> topology_link \<Rightarrow> bool" where
  "link_ok cls k e \<longleftrightarrow>
     (\<exists>c. tl_target e = gateway_node_id c) \<or>
     (\<exists>cl \<in> cls. \<exists>p \<in> set (cs_pools cl). k = gateway_node_id (cs_cluster_id cl) \<and>
        tl_target e = pool_node_id (cs_cluster_id cl) (ps_pool_id p) \<and>
        tl_cost e = internal_cost (ps_topology_tier p))"

definition topology_ok :: "cluster_spec set \<Rightarrow> topology_service \<Rightarrow> bool" where
  "topology_ok cls t \<longleftrightarrow>
     (\<forall>k. \<forall>e \<in> set (dict_get [] (tp_adjacency t) k). link_ok cls k e) \<and>
     (\<forall>c g. map_of (tp_cluster_gateways t) c = Some g \<longrightarrow> g = gateway_node_id c) \<and>
     (\<forall>c a. map_of (tp_cluster_probe_affinity t) c = Some a \<longrightarrow> 0 \<le> a \<and> a \<le> 1) \<and>
     (\<forall>c f. map_of (tp_cluster_probe_cost_factor t) c = Some f \<longrightarrow> 0.01 \<le> f \<and> f \<le> 2.3)"

text \<open>What the pool \<open>p\<close> of the cluster \<open>cl\<close> has once it is added, and keeps.\<close>

definition pool_linked :: "cluster_spec \<Rightarrow> pool_spec \<Rightarrow> topology_service \<Rightarrow> bool" where
  "pool_linked cl p t \<longleftrightarrow>
     map_of (tp_cluster_gateways t) (cs_cluster_id cl) = Some (gateway_node_id (cs_cluster_id cl)) \<and>
     (\<exists>e \<in> set (dict_get [] (tp_adjacency t) (gateway_node_id (cs_cluster_id cl))).
        tl_target e = pool_node_id (cs_cluster_id cl) (ps_pool_id p)) \<and>
     (\<exists>n. map_of (tp_nodes t) (pool_node_id (cs_cluster_id cl) (ps_pool_id p)) = Some n \<and>
        (\<exists>tier. map_of (tn_metadata n) ''topology_tier'' = Some (JStr tier)))"

lemma topology_ok_empty: "topology_ok cls empty_topology"
  by (simp add: topology_ok_def empty_topology_def)

lemma topology_ok_add_edge:
  assumes "topology_ok cls t"
    and "link_ok cls s \<lparr>tl_source = s, tl_target = g, tl_bandwidth_gbps = b, tl_latency_us = l, tl_cost = c\<rparr>"
  shows "topology_ok cls (add_edge s g b l c t)"
  using assms by (auto simp: topology_ok_def)

lemma topology_ok_nodes [simp]: "topology_ok cls (t\<lparr>tp_nodes := ns\<rparr>) = topology_ok cls t"
  by (simp add: topology_ok_def)

lemma topology_ok_add_pool:
  assumes "topology_ok cls t" and "cl \<in> cls" and "p \<in> set (cs_pools cl)"
  shows "topology_ok cls (add_pool cl p t)"
  unfolding add_pool_def Let_def
  by (intro topology_ok_add_edge) (use assms in \<open>auto simp: link_ok_def\<close>)

lemma add_pool_links: 
  assumes "map_of (tp_cluster_gateways t) (cs_cluster_id cl) = Some (gateway_node_id (cs_cluster_id cl))"
  shows "pool_linked cl p (add_pool cl p t)"
  using assms by (auto simp: pool_linked_def add_pool_def Let_def dict_simps)

lemma add_pool_gateways [simp]: "tp_cluster_gateways (add_pool cl p t) = tp_cluster_gateways t"
  by (simp add: add_pool_def Let_def)

lemma pool_linked_add_pool: "pool_linked cl p t \<Longrightarrow> pool_linked cl p (add_pool cl' p' t)"
  by (auto simp: pool_linked_def add_pool_def Let_def dict_simps)

lemma topology_ok_add_pools:
  "topology_ok cls t \<Longrightarrow> cl \<in> cls \<Longrightarrow> set ps \<subseteq> set (cs_pools cl) \<Longrightarrow> topology_ok cls (fold (add_pool cl) ps t)"
  by (induction ps arbitrary: t) (auto simp: topology_ok_add_pool)

lemma pool_linked_add_pools: "pool_linked cl p t \<Longrightarrow> pool_linked cl p (fold (add_pool cl') ps t)"
  by (induction ps arbitrary: t) (auto simp: pool_linked_add_pool)

lemma add_pools_links:
  assumes "map_of (tp_cluster_gateways t) (cs_cluster_id cl) = Some (gateway_node_id (cs_cluster_id cl))"
    and "p \<in> set ps"
  shows "pool_linked cl p (fold (add_pool cl) ps t)"
  using assms
proof (induction ps arbitrary: t)
  case (Cons q ps)
  then show ?case
    by (cases "p = q") (auto simp: add_pool_links pool_linked_add_pools)
qed simp

lemma topology_ok_add_cluster:
  assumes "topology_ok cls t" and "cl \<in> cls" and "add_cluster fs cl t = Inr t'"
  shows "topology_ok cls t'"
proof -
  define t1 where "t1 = t\<lparr>tp_cluster_gateways :=
      AList.update (cs_cluster_id cl) (gateway_node_id (cs_cluster_id cl)) (tp_cluster_gateways t),
    tp_nodes := AList.update (gateway_node_id (cs_cluster_id cl))
      \<lparr>tn_node_id = gateway_node_id (cs_cluster_id cl), tn_kind = ''gateway'',
       tn_cluster_id = cs_cluster_id cl, tn_zone = cs_zone cl, tn_metadata = []\<rparr> (tp_nodes t)\<rparr>"
  have "topology_ok cls t1"
    using assms(1) by (auto simp: topology_ok_def t1_def dict_simps split: if_splits)
  then have ok: "topology_ok cls (fold (add_pool cl) (cs_pools cl) t1)"
    using assms(2) by (rule topology_ok_add_pools) simp
  from assms(3) consider "t' = fold (add_pool cl) (cs_pools cl) t1"
    | (probe) doc g where "from_text doc = Inr g"
      "t' = (fold (add_pool cl) (cs_pools cl) t1)\<lparr>
         tp_cluster_probe_affinity := AList.update (cs_cluster_id cl) (overall_affinity g)
           (tp_cluster_probe_affinity (fold (add_pool cl) (cs_pools cl) t1)),
         tp_cluster_probe_cost_factor := AList.update (cs_cluster_id cl) (average_cost g)
           (tp_cluster_probe_cost_factor (fold (add_pool cl) (cs_pools cl) t1))\<rparr>"
    by (auto simp: add_cluster_def Let_def t1_def from_file_def result_simps split: option.splits if_splits)
  then show ?thesis
  proof cases
    case (probe doc g)
    with ok from_text_bounds [OF probe(1)] show ?thesis
      by (auto simp: topology_ok_def dict_simps split: if_splits)
  qed (use ok in simp)
qed

lemma add_pools_gateways [simp]: "tp_cluster_gateways (fold (add_pool cl) ps t) = tp_cluster_gateways t"
  by (induction ps arbitrary: t) simp_all

lemma pool_linked_cong:
  assumes "pool_linked cl p t" and "tp_adjacency t' = tp_adjacency t" and "tp_nodes t' = tp_nodes t"
    and "tp_cluster_gateways t' = tp_cluster_gateways t"
  shows "pool_linked cl p t'"
  using assms by (simp add: pool_linked_def)

lemma add_cluster_links:
  assumes "add_cluster fs cl t = Inr t'"
    and "(cl' = cl \<and> p \<in> set (cs_pools cl)) \<or> pool_linked cl' p t"
  shows "pool_linked cl' p t'"
proof -
  define t1 where "t1 = t\<lparr>tp_cluster_gateways :=
      AList.update (cs_cluster_id cl) (gateway_node_id (cs_cluster_id cl)) (tp_cluster_gateways t),
    tp_nodes := AList.update (gateway_node_id (cs_cluster_id cl))
      \<lparr>tn_node_id = gateway_node_id (cs_cluster_id cl), tn_kind = ''gateway'',
       tn_cluster_id = cs_cluster_id cl, tn_zone = cs_zone cl, tn_metadata = []\<rparr> (tp_nodes t)\<rparr>"
  have "pool_linked cl' p (fold (add_pool cl) (cs_pools cl) t1)"
    using assms(2)
  proof
    assume "cl' = cl \<and> p \<in> set (cs_pools cl)"
    then show ?thesis by (auto intro: add_pools_links simp: t1_def dict_simps)
  next
    assume "pool_linked cl' p t"
    then have "pool_linked cl' p t1" by (auto simp: pool_linked_def t1_def dict_simps)
    then show ?thesis by (rule pool_linked_add_pools)
  qed
  with assms(1) show ?thesis
    by (auto simp: add_cluster_def Let_def t1_def result_simps split: option.splits if_splits
        elim!: pool_linked_cong)
qed

lemma add_network_link_fields [simp]:
  "tp_cluster_gateways (add_network_link s i t) = tp_cluster_gateways t"
  "tp_nodes (add_network_link s i t) = tp_nodes t"
  by (auto simp: add_network_link_def split: prod.splits option.splits)

lemma topology_ok_add_network_link:
  assumes "topology_ok cls t"
  shows "topology_ok cls (add_network_link s i t)"
proof -
  have "link_ok cls s \<lparr>tl_source = s, tl_target = g, tl_bandwidth_gbps = b, tl_latency_us = l, tl_cost = c\<rparr>"
    if "map_of (tp_cluster_gateways t) k = Some g" for k g b l c
  proof -
    from assms that have "g = gateway_node_id k" unfolding topology_ok_def by blast
    then show ?thesis by (auto simp: link_ok_def)
  qed
  with assms show ?thesis
    by (auto simp: add_network_link_def topology_ok_add_edge split: prod.splits option.splits)
qed

lemma pool_linked_add_network_link: "pool_linked cl p t \<Longrightarrow> pool_linked cl p (add_network_link s i t)"
  by (auto simp: pool_linked_def add_network_link_def split: prod.splits option.splits)

lemma add_network_links_preserve:
  assumes "add_network_links cl t = Inr t'"
  shows "topology_ok cls t \<Longrightarrow> topology_ok cls t'"
    and "pool_linked cl' p t \<Longrightarrow> pool_linked cl' p t'"
proof -
  from assms obtain s where t': "t' = fold (add_network_link s) (cs_network_costs cl) t"
    by (auto simp: add_network_links_def result_simps)
  have "topology_ok cls t \<Longrightarrow> topology_ok cls (fold (add_network_link s) xs t)"
    and "pool_linked cl' p t \<Longrightarrow> pool_linked cl' p (fold (add_network_link s) xs t)" for xs t
    by (induction xs arbitrary: t) (auto simp: topology_ok_add_network_link pool_linked_add_network_link)
  with t' show "topology_ok cls t \<Longrightarrow> topology_ok cls t'"
    and "pool_linked cl' p t \<Longrightarrow> pool_linked cl' p t'" by auto
qed

lemma add_clusters_links:
  assumes "efold (add_cluster fs) cls t = Inr t'"
    and "(cl \<in> set cls \<and> p \<in> set (cs_pools cl)) \<or> pool_linked cl p t"
  shows "pool_linked cl p t'"
  using assms
proof (induction cls arbitrary: t)
  case (Cons c cls)
  from Cons.prems(1) obtain t1 where t1: "add_cluster fs c t = Inr t1" "efold (add_cluster fs) cls t1 = Inr t'"
    by (auto simp: result_simps)
  from Cons.prems(2) have "(cl \<in> set cls \<and> p \<in> set (cs_pools cl)) \<or> pool_linked cl p t1"
    using add_cluster_links [OF t1(1)] by auto
  with t1(2) show ?case by (rule Cons.IH)
qed auto

lemma build_ok:
  assumes "build_from_config fs config = Inr t"
  shows "topology_ok (set (ec_clusters config)) t"
    and "cl \<in> set (ec_clusters config) \<Longrightarrow> p \<in> set (cs_pools cl) \<Longrightarrow> pool_linked cl p t"
proof -
  from assms obtain t1 where t1: "efold (add_cluster fs) (ec_clusters config) empty_topology = Inr t1"
    and t: "efold add_network_links (ec_clusters config) t1 = Inr t"
    by (auto simp: build_from_config_def result_simps)
  have "topology_ok (set (ec_clusters config)) t1"
    by (rule efold_invariant [OF _ _ t1]) (auto intro: topology_ok_empty topology_ok_add_cluster)
  then show "topology_ok (set (ec_clusters config)) t"
    by (rule efold_invariant [OF _ _ t, rotated]) (auto intro: add_network_links_preserve)
  assume "cl \<in> set (ec_clusters config)" and "p \<in> set (cs_pools cl)"
  with add_clusters_links [OF t1] have "pool_linked cl p t1" by blast
  then show "pool_linked cl p t"
    by (rule efold_invariant [OF _ _ t, rotated]) (auto intro: add_network_links_preserve)
qed

text \<open>
  A target that is queued and not visited is found, at a cost that satisfies whatever all its
  queue entries, present and future, satisfy.
\<close>

lemma search_queued:
  assumes "(k, target) \<in> set F" and "target \<notin> V"
    and "\<And>c. (c, target) \<in> set F \<Longrightarrow> K c"
    and "\<And>v e c. v \<notin> V \<Longrightarrow> e \<in> set (dict_get [] adjacency v) \<Longrightarrow> tl_target e = target \<Longrightarrow> K (c + tl_cost e)"
  shows "\<exists>c. search adjacency target F V D = Some c \<and> K c"
  using assms
proof (induction adjacency target F V D arbitrary: k rule: search.induct)
  case (1 adjacency target F V D)
  from "1.prems"(1) heapq.pop_None [of F] obtain c v F' where pop: "heappop F = Some ((c, v), F')"
    by (cases "heappop F") auto
  from heapq.pop_items [OF pop] have F: "set F = insert (c, v) (set F')"
    by (metis set_mset_mset set_mset_add_mset_insert)
  consider (skip) "v \<in> V" | (found) "v \<notin> V" "v = target" | (visit) "v \<notin> V" "v \<noteq> target" by blast
  then show ?case
  proof cases
    case skip
    with "1.prems"(1,2) F have "(k, target) \<in> set F'" by auto
    from "1.IH"(1) [OF pop refl refl skip this] "1.prems"(2-) F pop skip show ?thesis
      by (auto simp: search.simps [of adjacency target F V D])
  next
    case found
    with pop F "1.prems"(3) show ?thesis by (auto simp: search.simps [of adjacency target F V D])
  next
    case visit
    obtain D' F'' where r: "relax c (dict_get [] adjacency v) D F' = (D', F'')" by (metis surj_pair)
    from "1.prems"(1) F visit relax_frontier(1) [OF r] have q: "(k, target) \<in> set F''" by auto
    have "K d" if "(d, target) \<in> set F''" for d
      using relax_frontier(2) [OF r that] "1.prems"(3,4) F visit(1) by auto
    from "1.IH"(2) [OF pop refl refl visit r [symmetric] q _ this] "1.prems"(2,4) visit
    show ?thesis using pop r by (auto simp: search.simps [of adjacency target F V D])
  qed
qed

lemma shortest_path_linked:
  assumes "source \<noteq> target" and "e \<in> set (dict_get [] adjacency source)" and "tl_target e = target"
    and "\<And>e. e \<in> set (dict_get [] adjacency source) \<Longrightarrow> tl_target e = target \<Longrightarrow> K (tl_cost e)"
    and "\<And>v e c. v \<noteq> source \<Longrightarrow> e \<in> set (dict_get [] adjacency v) \<Longrightarrow> tl_target e = target \<Longrightarrow> K (c + tl_cost e)"
  shows "\<exists>c. shortest_path_cost adjacency source target = Some c \<and> K c"
proof -
  obtain D F where r: "relax 0 (dict_get [] adjacency source) [(source, 0)] [] = (D, F)"
    by (metis surj_pair)
  have pop: "heappop [(0, source)] = Some ((0 :: pyfloat, source), [])" by (simp add: heappop_def)
  from relax_reaches [OF r assms(2)] assms(3) obtain d where d: "map_of D target = Some d" by auto
  have "(d, target) \<in> set F"
    using relax_changed [OF r d] assms(1) by auto
  then have "\<exists>c. search adjacency target F {source} D = Some c \<and> K c"
  proof (rule search_queued)
    show "K c" if "(c, target) \<in> set F" for c
      using relax_frontier(2) [OF r that] assms(4) by auto
  qed (use assms(1,5) in auto)
  with pop r assms(1) show ?thesis
    by (simp add: shortest_path_cost_def search.simps [of adjacency target "[(0, source)]"])
qed

lemma route_cost_linked:
  assumes "pool_linked cl p t"
  shows "\<exists>c. route_cost t (cs_cluster_id cl) (ps_pool_id p) = Inr (Some c)"
proof -
  from assms obtain e where
    gw: "map_of (tp_cluster_gateways t) (cs_cluster_id cl) = Some (gateway_node_id (cs_cluster_id cl))"
    and e: "e \<in> set (dict_get [] (tp_adjacency t) (gateway_node_id (cs_cluster_id cl)))"
      "tl_target e = pool_node_id (cs_cluster_id cl) (ps_pool_id p)"
    by (auto simp: pool_linked_def)
  from shortest_path_linked [OF _ e, where K = "\<lambda>_. True"] gw show ?thesis
    by (auto simp: route_cost_def dict_item_def)
qed

text \<open>
  In the topology built from any configuration, every configured pool has a finite route
  cost: \<open>route_cost\<close> neither raises nor returns infinity, however the inter-cluster costs
  are set.
\<close>

theorem route_cost_finite:
  assumes "build_from_config fs config = Inr t"
    and "cl \<in> set (ec_clusters config)" and "p \<in> set (cs_pools cl)"
  shows "\<exists>c. route_cost t (cs_cluster_id cl) (ps_pool_id p) = Inr (Some c)"
  by (rule route_cost_linked [OF build_ok(2) [OF assms]])

text \<open>
  Identifiers under which no two pools share a node of the graph: cluster identifiers are
  distinct and free of colons, pool identifiers distinct within a cluster.
\<close>

definition ids_ok :: "experiment_config \<Rightarrow> bool" where
  "ids_ok config \<longleftrightarrow>
     distinct (map cs_cluster_id (ec_clusters config)) \<and>
     (\<forall>cl \<in> set (ec_clusters config).
        CHR '':'' \<notin> set (cs_cluster_id cl) \<and> distinct (map ps_pool_id (cs_pools cl)))"

lemma ids_ok_unique:
  assumes "ids_ok config" and "cl \<in> set (ec_clusters config)" and "cl' \<in> set (ec_clusters config)"
    and "p \<in> set (cs_pools cl)" and "p' \<in> set (cs_pools cl')"
    and "pool_node_id (cs_cluster_id cl) (ps_pool_id p) = pool_node_id (cs_cluster_id cl') (ps_pool_id p')"
  shows "cl' = cl \<and> p' = p"
proof -
  from assms(1-3) have "CHR '':'' \<notin> set (cs_cluster_id cl)" and "CHR '':'' \<notin> set (cs_cluster_id cl')"
    by (auto simp: ids_ok_def)
  with assms(6) have eq: "cs_cluster_id cl = cs_cluster_id cl'" "ps_pool_id p = ps_pool_id p'"
    by (auto simp: pool_node_id_inject)
  with assms(1-3) have "cl' = cl" by (auto simp: ids_ok_def distinct_map inj_on_def)
  with eq(2) assms(1,2,4,5) show ?thesis by (auto simp: ids_ok_def distinct_map inj_on_def)
qed

lemma route_cost_built:
  assumes "build_from_config fs config = Inr t" and "ids_ok config"
    and "cl \<in> set (ec_clusters config)" and "p \<in> set (cs_pools cl)"
  shows "route_cost t (cs_cluster_id cl) (ps_pool_id p) =
    Inr (Some (py_round 4 (internal_cost (ps_topology_tier p) *
                 dict_get 1 (tp_cluster_probe_cost_factor t) (cs_cluster_id cl))))"
proof -
  let ?gw = "gateway_node_id (cs_cluster_id cl)"
  let ?node = "pool_node_id (cs_cluster_id cl) (ps_pool_id p)"
  from build_ok(2) [OF assms(1,3,4)] obtain e where gw: "map_of (tp_cluster_gateways t) (cs_cluster_id cl) = Some ?gw"
    and e: "e \<in> set (dict_get [] (tp_adjacency t) ?gw)" "tl_target e = ?node"
    by (auto simp: pool_linked_def)
  have only: "k = ?gw \<and> tl_cost e = internal_cost (ps_topology_tier p)"
    if "e \<in> set (dict_get [] (tp_adjacency t) k)" and target: "tl_target e = ?node" for k e
  proof -
    from build_ok(1) [OF assms(1)] that(1) have "link_ok (set (ec_clusters config)) k e"
      by (auto simp: topology_ok_def)
    with target obtain cl' p' where "cl' \<in> set (ec_clusters config)" "p' \<in> set (cs_pools cl')"
      "k = gateway_node_id (cs_cluster_id cl')" "tl_cost e = internal_cost (ps_topology_tier p')"
      "?node = pool_node_id (cs_cluster_id cl') (ps_pool_id p')"
      by (auto simp: link_ok_def)
    with ids_ok_unique [OF assms(2,3) _ assms(4)] show ?thesis by blast
  qed
  have "\<exists>c. shortest_path_cost (tp_adjacency t) ?gw ?node = Some c \<and> c = internal_cost (ps_topology_tier p)"
    by (rule shortest_path_linked [OF _ e]) (use only in auto)
  with gw show ?thesis by (simp add: route_cost_def dict_item_def)
qed

text \<open>
  C28: the search over the whole graph computes, for a configured pool, exactly the cost of the
  pool's own gateway link times the cluster's probe factor: no detour over other clusters ever
  changes a route cost.
\<close>

theorem route_cost_closed_form:
  assumes "build_from_config fs config = Inr t" and "ids_ok config"
    and "cl \<in> set (ec_clusters config)" and "p \<in> set (cs_pools cl)"
  shows "route_cost t (cs_cluster_id cl) (ps_pool_id p) =
    Inr (Some (py_round 4 (internal_cost (ps_topology_tier p) *
                 dict_get 1 (tp_cluster_probe_cost_factor t) (cs_cluster_id cl))))"
  by (rule route_cost_built [OF assms])

lemma tier_score_bounds: "0.2 \<le> tier_score tier \<and> tier_score tier \<le> 1"
  by (simp add: tier_score_def TOPOLOGY_TIER_SCORE_def dict_get_def)

lemma route_cost_nonneg:
  assumes "topology_ok cls t" and "nonneg_costs (tp_adjacency t)" and "route_cost t c p = Inr (Some x)"
  shows "0 \<le> x"
proof -
  from assms(3) obtain g b where b: "shortest_path_cost (tp_adjacency t) g (pool_node_id c p) = Some b"
    and x: "x = py_round 4 (b * dict_get 1 (tp_cluster_probe_cost_factor t) c)"
    by (auto simp: route_cost_def result_simps split: option.splits)
  have "0 \<le> dict_get 1 (tp_cluster_probe_cost_factor t) c"
    using assms(1) by (fastforce simp: topology_ok_def dict_get_def split: option.splits)
  moreover have "0 \<le> b"
    using search_result [OF search_inv_init assms(2), of "pool_node_id c p" g] b
      walk_nonneg [OF _ assms(2)] by (auto simp: shortest_path_cost_def)
  ultimately show ?thesis using x by (simp add: py_round_nonneg)
qed

lemma affinity_bounds:
  assumes "topology_ok cls t" and "0 < prompt_tokens" and "pool_affinity t c p prompt_tokens = Inr a"
  shows "0.1 \<le> a \<and> a \<le> 1"
proof -
  from assms(3) obtain tier score where "tier_lookup tier = Inr score"
    and a: "a = py_round 4 ((score * 0.8 + dict_get score (tp_cluster_probe_affinity t) c * 0.2) *
                  (0.65 + 0.35 * min 1 (of_int prompt_tokens / 8192)))"
    by (auto simp: pool_affinity_def Let_def result_simps)
  then have score: "0.2 \<le> score" "score \<le> 1"
    using tier_score_bounds by (auto elim: tier_lookup.elims)
  define probe where "probe = dict_get score (tp_cluster_probe_affinity t) c"
  define w where "w = 0.65 + 0.35 * min 1 (of_int prompt_tokens / 8192 :: rat)"
  have probe: "0 \<le> probe \<and> probe \<le> 1"
    using assms(1) score by (fastforce simp: topology_ok_def dict_get_def probe_def split: option.splits)
  have w: "0.65 \<le> w \<and> w \<le> 1" using assms(2) by (simp add: w_def min_def)
  have "0.16 \<le> score * 0.8 + probe * 0.2" and "score * 0.8 + probe * 0.2 \<le> 1" using score probe by simp_all
  with w have "0.16 * 0.65 \<le> (score * 0.8 + probe * 0.2) * w" and "(score * 0.8 + probe * 0.2) * w \<le> 1 * 1"
    by (intro mult_mono; simp)+
  with a show ?thesis
    using py_round_ge_fixed [of "0.1" _ 4 1000] py_round_mono [of _ 1 4]
    by (simp add: probe_def w_def)
qed

text \<open>
  In a built topology the affinity of every pool, for every prompt, lies between 0.1 and 1.
\<close>

theorem pool_affinity_bounds:
  assumes "build_from_config fs config = Inr t" and "0 < prompt_tokens"
    and "pool_affinity t cluster_id pool_id prompt_tokens = Inr a"
  shows "0.1 \<le> a \<and> a \<le> 1"
  by (rule affinity_bounds [OF build_ok(1) [OF assms(1)] assms(2,3)])

section \<open>Witnesses\<close>

definition demo_topology :: topology_service where
  "demo_topology = (case build_from_config no_files demo_config of Inr t \<Rightarrow> t | Inl e \<Rightarrow> empty_topology)"

lemma demo_builds: "build_from_config no_files demo_config = Inr demo_topology"
proof -
  have "\<not> isl (build_from_config no_files demo_config)" by code_simp
  then show ?thesis by (auto simp: demo_topology_def split: sum.splits)
qed

lemma demo_members:
  "demo_h100_cluster \<in> set (ec_clusters demo_config)" "demo_h100_pool \<in> set (cs_pools demo_h100_cluster)"
  "demo_bw_cluster \<in> set (ec_clusters demo_config)" "demo_bw_pool \<in> set (cs_pools demo_bw_cluster)"
  by (simp_all add: demo_config_def demo_h100_cluster_def demo_bw_cluster_def)

lemma demo_ids_ok: "ids_ok demo_config"
  by (simp add: ids_ok_def demo_defs)

theorem route_cost_finite_witness:
  "\<exists>c. route_cost demo_topology (cs_cluster_id demo_h100_cluster) (ps_pool_id demo_h100_pool) = Inr (Some c)"
  using demo_builds demo_members(1,2) by (rule route_cost_finite)

theorem route_cost_closed_form_witness:
  "route_cost demo_topology (cs_cluster_id demo_h100_cluster) (ps_pool_id demo_h100_pool) =
    Inr (Some (py_round 4 (internal_cost (ps_topology_tier demo_h100_pool) *
      dict_get 1 (tp_cluster_probe_cost_factor demo_topology) (cs_cluster_id demo_h100_cluster))))"
  using demo_builds demo_ids_ok demo_members(1,2) by (rule route_cost_closed_form)

lemma demo_affinity: "pool_affinity demo_topology ''eastus-bw'' ''bw-premium'' 8192 = Inr 1"
  by code_simp

theorem pool_affinity_bounds_witness:
  "pool_affinity demo_topology ''eastus-bw'' ''bw-premium'' 8192 = Inr 1 \<and> (0.1 :: pyfloat) \<le> 1 \<and> (1 :: pyfloat) \<le> 1"
  using demo_affinity pool_affinity_bounds [OF demo_builds _ demo_affinity] by simp

end
