(* ===== verification/Policies.thy ===== *)
theory Policies
  imports Samples
begin

text \<open>
  The routing policies of \<open>policies/\<close>: six heuristics, the contextual bandit and the three
  placeholders for learned policies. A policy object is a value of the datatype \<open>policy\<close>, which
  carries the mutable state of the class; \<open>policy_choose\<close> (the method \<open>choose\<close>) returns the new state with the chosen
  candidate and \<open>observe_result\<close> the new state. The contract the control plane relies on is the
  locale \<open>routing_policy\<close>, interpreted on \<open>policy_choose\<close>; the further lemmas characterise the choice of
  each policy and the evolution of its state.
\<close>

type_synonym place_key = "string \<times> string"

datatype policy =
    RoundRobinPolicy int
  | LeastQueuePolicy
  | TopologyGreedyPolicy
  | CacheAwarePolicy
  | MultiObjectivePolicy
  | FailureAwareSpreadPolicy "(place_key, int) dict"
  | ContextualBanditPolicy pyfloat "(place_key, nat) dict" "(place_key, pyfloat) dict"
  | SB3Policy bool
  | GNNPlaceholderPolicy
  | PyGGNNPolicy bool

fun policy_name :: "policy \<Rightarrow> string" where
  "policy_name (RoundRobinPolicy _) = ''round_robin''"
| "policy_name LeastQueuePolicy = ''least_queue''"
| "policy_name TopologyGreedyPolicy = ''topology_greedy''"
| "policy_name CacheAwarePolicy = ''cache_aware''"
| "policy_name MultiObjectivePolicy = ''multi_objective''"
| "policy_name (FailureAwareSpreadPolicy _) = ''spread''"
| "policy_name (ContextualBanditPolicy _ _ _) = ''contextual_bandit''"
| "policy_name (SB3Policy _) = ''sb3_placeholder''"
| "policy_name GNNPlaceholderPolicy = ''gnn_placeholder''"
| "policy_name (PyGGNNPolicy _) = ''pyg_placeholder''"

definition candidate_key :: "candidate_placement \<Rightarrow> place_key" where
  "candidate_key c = (cp_cluster_id c, cp_pool_id c)"

text \<open>\<open>_available_candidates\<close>; \<open>[...] or candidates\<close> in the learned policies is the same.\<close>

definition available_candidates :: "candidate_placement list \<Rightarrow> candidate_placement list" where
  "available_candidates candidates =
     (let usable = filter cp_available candidates in if usable \<noteq> [] then usable else candidates)"

section \<open>Heuristics\<close>

definition round_robin_choose :: "int \<Rightarrow> candidate_placement list \<Rightarrow> (int \<times> candidate_placement) result" where
  "round_robin_choose cursor candidates =
     (let usable = available_candidates candidates
      in if usable = [] then Inl ZeroDivisionError
         else Inr (cursor + 1, usable ! nat (cursor mod int (length usable))))"

definition least_queue_key :: "candidate_placement \<Rightarrow> pyfloat \<times> pyfloat \<times> pyfloat" where
  "least_queue_key item =
     (cp_queue_delay_ms item, cp_network_cost item, cp_accelerator_cost_per_1m_tokens item)"

definition topology_greedy_key :: "candidate_placement \<Rightarrow> pyfloat" where
  "topology_greedy_key item =
     cp_queue_delay_ms item + cp_network_cost item * 14 - cp_topology_affinity item * 110
     + cp_congestion_score item * 80"

definition cache_aware_key :: "candidate_placement \<Rightarrow> pyfloat \<times> pyfloat \<times> pyfloat \<times> pyfloat" where
  "cache_aware_key item =
     (- (cp_expected_cache_hit_ratio item * 1000), cp_queue_delay_ms item, cp_network_cost item,
      cp_accelerator_cost_per_1m_tokens item)"

definition objective :: "inference_request \<Rightarrow> int \<Rightarrow> candidate_placement \<Rightarrow> pyfloat" where
  "objective request sla_priority item =
     (let latency_weight = (if sla_priority = 3 then 1.4 else if sla_priority = 2 then 1.1 else 0.75);
          cost_weight = (if sla_priority = 3 then 0.25 else 0.55);
          premium_penalty =
            (if rq_sla_class request = ''realtime'' \<and> \<not> cp_premium item then 25
             else if rq_sla_class request = ''best_effort'' \<and> cp_premium item then 70
             else 0);
          breakdown = (\<lambda>k. dict_get 0 (cp_score_breakdown item) k)
      in estimated_total_latency_ms item * latency_weight
         + cp_network_cost item * 18
         + cp_accelerator_cost_per_1m_tokens item * cost_weight
         + cp_congestion_score item * 90
         - cp_expected_cache_hit_ratio item * 450
         - cp_topology_affinity item * 85
         + cp_fairness_penalty item * 110
         - breakdown ''cuda_cache_bonus'' * 70
         + breakdown ''cuda_topology_penalty'' * 65
         + breakdown ''cuda_load_penalty'' * 55
         + premium_penalty)"

definition multi_objective_choose ::
  "inference_request \<Rightarrow> candidate_placement list \<Rightarrow> candidate_placement result" where
  "multi_objective_choose request candidates =
     (let usable = available_candidates candidates in
      ebind (dict_item SLA_PRIORITY (rq_sla_class request) (KeyError (rq_sla_class request)))
        (\<lambda>sla_priority. min_by (objective request sla_priority) usable))"

text \<open>
  The spread policy reads a \<open>defaultdict\<close>: evaluating the key of a candidate stores the default
  count of its pool.
\<close>

definition spread_key :: "(place_key, int) dict \<Rightarrow> candidate_placement \<Rightarrow> int \<times> pyfloat \<times> pyfloat" where
  "spread_key counts item =
     (dict_get 0 counts (candidate_key item), cp_queue_delay_ms item, cp_network_cost item)"

definition touch_all :: "'v \<Rightarrow> candidate_placement list \<Rightarrow> (place_key, 'v) dict \<Rightarrow> (place_key, 'v) dict" where
  "touch_all v0 items d = fold (\<lambda>item. dd_touch v0 (candidate_key item)) items d"

definition spread_choose ::
  "(place_key, int) dict \<Rightarrow> candidate_placement list
    \<Rightarrow> ((place_key, int) dict \<times> candidate_placement) result" where
  "spread_choose counts candidates =
     (let usable = available_candidates candidates; touched = touch_all 0 usable counts in
      ebind (min_by (spread_key counts) usable) (\<lambda>choice.
        let k = candidate_key choice
        in Inr (AList.update k (dict_get 0 touched k + 1) touched, choice)))"

definition result_key :: "request_result \<Rightarrow> place_key" where
  "result_key r = (rd_cluster_id (rr_decision r), rd_pool_id (rr_decision r))"

definition spread_observe :: "(place_key, int) dict \<Rightarrow> request_result \<Rightarrow> (place_key, int) dict" where
  "spread_observe counts r =
     (let k = result_key r in AList.update k (max 0 (dict_get 0 counts k - 1)) counts)"

section \<open>Learned policies\<close>

definition bandit_score ::
  "pyfloat \<Rightarrow> (place_key, nat) dict \<Rightarrow> (place_key, pyfloat) dict \<Rightarrow> candidate_placement \<Rightarrow> pyfloat" where
  "bandit_score exploration_bonus counts value_of c =
     (let key = candidate_key c;
          mean_reward = dict_get 0 value_of key;
          pulls = dict_get 0 counts key;
          exploration = exploration_bonus / (1 + of_nat pulls);
          heuristic_hint = cp_expected_cache_hit_ratio c * 120 + cp_topology_affinity c * 60
            - cp_queue_delay_ms c * 0.08 - cp_accelerator_cost_per_1m_tokens c * 0.08
      in mean_reward + heuristic_hint + exploration)"

definition bandit_reward :: "request_result \<Rightarrow> pyfloat" where
  "bandit_reward r =
     (if rr_sla_met r then 1 else - 0.9) * 120 + rr_cache_hit_ratio r * 60
     - rr_total_latency_ms r * 0.08 - rr_cost_usd r * 9"

definition bandit_observe ::
  "(place_key, nat) dict \<Rightarrow> (place_key, pyfloat) dict \<Rightarrow> request_result
    \<Rightarrow> (place_key, nat) dict \<times> (place_key, pyfloat) dict" where
  "bandit_observe counts value_of r =
     (let key = result_key r;
          n = dict_get 0 counts key + 1;
          alpha = 1 / of_nat n
      in (AList.update key n counts,
          AList.update key ((1 - alpha) * dict_get 0 value_of key + alpha * bandit_reward r) value_of))"

definition gnn_key :: "candidate_placement \<Rightarrow> pyfloat" where
  "gnn_key item =
     estimated_total_latency_ms item - cp_expected_cache_hit_ratio item * 300 - cp_topology_affinity item * 75"

definition pyg_key :: "candidate_placement \<Rightarrow> pyfloat" where
  "pyg_key item =
     estimated_total_latency_ms item - cp_topology_affinity item * 120 - cp_expected_cache_hit_ratio item * 320"

section \<open>The interface of a policy\<close>

definition keep_state :: "policy \<Rightarrow> candidate_placement result \<Rightarrow> (policy \<times> candidate_placement) result" where
  "keep_state p r = ebind r (\<lambda>c. Inr (p, c))"

fun policy_choose ::
  "policy \<Rightarrow> inference_request \<Rightarrow> candidate_placement list \<Rightarrow> (policy \<times> candidate_placement) result" where
  "policy_choose (RoundRobinPolicy cursor) request cs =
     ebind (round_robin_choose cursor cs) (\<lambda>(cursor', c). Inr (RoundRobinPolicy cursor', c))"
| "policy_choose LeastQueuePolicy request cs =
     keep_state LeastQueuePolicy (min_by least_queue_key (available_candidates cs))"
| "policy_choose TopologyGreedyPolicy request cs =
     keep_state TopologyGreedyPolicy (min_by topology_greedy_key (available_candidates cs))"
| "policy_choose CacheAwarePolicy request cs =
     keep_state CacheAwarePolicy (min_by cache_aware_key (available_candidates cs))"
| "policy_choose MultiObjectivePolicy request cs =
     keep_state MultiObjectivePolicy (multi_objective_choose request cs)"
| "policy_choose (FailureAwareSpreadPolicy counts) request cs =
     ebind (spread_choose counts cs) (\<lambda>(counts', c). Inr (FailureAwareSpreadPolicy counts', c))"
| "policy_choose (ContextualBanditPolicy bonus counts value_of) request cs =
     (let usable = available_candidates cs in
      ebind (max_by (bandit_score bonus counts value_of) usable) (\<lambda>c.
        Inr (ContextualBanditPolicy bonus (touch_all 0 usable counts) (touch_all 0 usable value_of), c)))"
| "policy_choose (SB3Policy av) request cs =
     keep_state (SB3Policy av) (min_by estimated_total_latency_ms (available_candidates cs))"
| "policy_choose GNNPlaceholderPolicy request cs =
     keep_state GNNPlaceholderPolicy (min_by gnn_key (available_candidates cs))"
| "policy_choose (PyGGNNPolicy av) request cs =
     keep_state (PyGGNNPolicy av) (min_by pyg_key (available_candidates cs))"

fun observe_result :: "policy \<Rightarrow> request_result \<Rightarrow> policy" where
  "observe_result (FailureAwareSpreadPolicy counts) r = FailureAwareSpreadPolicy (spread_observe counts r)"
| "observe_result (ContextualBanditPolicy bonus counts value_of) r =
     (case bandit_observe counts value_of r of (counts', value_of') \<Rightarrow>
        ContextualBanditPolicy bonus counts' value_of')"
| "observe_result p r = p"

section \<open>The contract of a policy\<close>

text \<open>A policy keeps its name, whatever it chooses and observes.\<close>

lemma policy_choose_name: "policy_choose p request cs = Inr (p', c) \<Longrightarrow> policy_name p' = policy_name p"
  by (cases p) (auto simp: keep_state_def result_simps Let_def)

lemma observe_result_name [simp]: "policy_name (observe_result p r) = policy_name p"
  by (cases p) (simp_all add: case_prod_unfold)

lemma available_candidates_Nil [simp]: "available_candidates cs = [] \<longleftrightarrow> cs = []"
  by (auto simp: available_candidates_def Let_def)

lemma set_available_candidates:
  "set (available_candidates cs) =
     (if \<exists>c \<in> set cs. cp_available c then {c \<in> set cs. cp_available c} else set cs)"
  by (auto simp: available_candidates_def Let_def filter_empty_conv)

text \<open>
  What the control plane needs of a policy: on a non-empty list and a request with a known SLA
  class it returns a usable candidate of that list.
\<close>

locale routing_policy =
  fixes pick :: "'s \<Rightarrow> inference_request \<Rightarrow> candidate_placement list \<Rightarrow> ('s \<times> candidate_placement) result"
  assumes total: "cs \<noteq> [] \<Longrightarrow> map_of SLA_PRIORITY (rq_sla_class r) \<noteq> None \<Longrightarrow> \<exists>s' c. pick s r cs = Inr (s', c)"
    and usable: "pick s r cs = Inr (s', c) \<Longrightarrow> c \<in> set (available_candidates cs)"
begin

lemma member: "pick s r cs = Inr (s', c) \<Longrightarrow> c \<in> set cs"
  by (drule usable) (auto simp: set_available_candidates split: if_splits)

lemma rejects_only_if_forced:
  "pick s r cs = Inr (s', c) \<Longrightarrow> cp_available c \<longleftrightarrow> (\<exists>c' \<in> set cs. cp_available c')"
  by (frule usable) (auto simp: set_available_candidates split: if_splits)

end

lemma keep_state_Inr [simp]: "keep_state p r = Inr (p', c) \<longleftrightarrow> p' = p \<and> r = Inr c"
  by (auto simp: keep_state_def result_simps)

lemma nat_mod_length: "xs \<noteq> [] \<Longrightarrow> nat (k mod int (length xs)) < length xs"
  by (simp add: nat_less_iff)

lemma max_by_Inr: "xs \<noteq> [] \<Longrightarrow> \<exists>m. max_by f xs = Inr m"
  by (auto simp: max_by_def neq_Nil_conv)

lemma max_by_nonempty: "max_by f xs = Inr m \<Longrightarrow> xs \<noteq> []"
  by (auto simp: max_by_def)

lemma max_by_in_set:
  fixes f :: "'a \<Rightarrow> rat"
  shows "max_by f xs = Inr m \<Longrightarrow> m \<in> set xs"
proof -
  assume m: "max_by f xs = Inr m"
  then have "xs \<noteq> []" by (rule max_by_nonempty)
  with m show ?thesis using min_by_in_set [of "\<lambda>x. - f x" xs m] by (simp add: max_by_min_by)
qed

lemma policy_choose_total:
  assumes "cs \<noteq> []" and "map_of SLA_PRIORITY (rq_sla_class r) \<noteq> None"
  shows "\<exists>p' c. policy_choose p r cs = Inr (p', c)"
proof (cases p)
  case (RoundRobinPolicy cursor)
  with assms(1) show ?thesis by (simp add: round_robin_choose_def Let_def)
next
  case MultiObjectivePolicy
  with assms min_by_Inr [of "available_candidates cs"] show ?thesis
    by (auto simp: multi_objective_choose_def dict_item_def)
next
  case (FailureAwareSpreadPolicy counts)
  with assms(1) min_by_Inr [of "available_candidates cs" "spread_key counts"] show ?thesis
    by (auto simp: spread_choose_def Let_def)
next
  case (ContextualBanditPolicy bonus counts value_of)
  with assms(1) max_by_Inr [of "available_candidates cs" "bandit_score bonus counts value_of"] show ?thesis
    by (auto simp: Let_def)
qed (use assms(1) in \<open>auto intro!: min_by_Inr\<close>)

lemma policy_choose_usable:
  assumes "policy_choose p r cs = Inr (p', c)"
  shows "c \<in> set (available_candidates cs)"
proof (cases p)
  case (RoundRobinPolicy cursor)
  with assms show ?thesis
    by (auto simp: round_robin_choose_def Let_def split: if_splits intro!: nth_mem nat_mod_length)
next
  case (ContextualBanditPolicy bonus counts value_of)
  with assms show ?thesis by (auto simp: result_simps Let_def dest: max_by_in_set)
qed (use assms in \<open>auto simp: multi_objective_choose_def spread_choose_def result_simps Let_def
      dest: min_by_in_set\<close>)

interpretation policies: routing_policy policy_choose
  by unfold_locales (fact policy_choose_total, fact policy_choose_usable)

text \<open>
  C21: every policy, given at least one candidate and a valid request, returns one of the candidates,
  and returns an unavailable one only if no candidate is available.
\<close>

theorem policy_choice:
  assumes "cs \<noteq> []" and "request_ok r"
  shows "\<exists>p' c. policy_choose p r cs = Inr (p', c) \<and> c \<in> set cs \<and>
    (cp_available c \<longleftrightarrow> (\<exists>c' \<in> set cs. cp_available c'))"
proof -
  from assms(2) have "map_of SLA_PRIORITY (rq_sla_class r) \<noteq> None" by (simp add: request_ok_def)
  with policies.total [OF assms(1)] obtain p' c where "policy_choose p r cs = Inr (p', c)" by blast
  with policies.member [OF this] policies.rejects_only_if_forced [OF this] show ?thesis by blast
qed

section \<open>What each policy optimises\<close>

text \<open>
  The criteria by which a candidate can be better or worse than another, each as a burden of which
  less is better: the benefits (cache hits, affinity, the bonus of the accelerator kernel, the mean
  reward) count negatively. A mismatch of premium is a realtime request on a pool that is not
  premium or a best-effort request on one that is; outstanding choices, rewards and pulls are those
  in the state of the policy.
\<close>

datatype criterion =
    QueueDelay | Latency | NetworkCost | AcceleratorCost | Congestion | CacheHit | Affinity | Fairness
  | CudaCacheBonus | CudaTopologyPenalty | CudaLoadPenalty | PremiumMismatch
  | Outstanding | MeanReward | Pulls

fun burden :: "policy \<Rightarrow> inference_request \<Rightarrow> criterion \<Rightarrow> candidate_placement \<Rightarrow> pyfloat" where
  "burden p r QueueDelay c = cp_queue_delay_ms c"
| "burden p r Latency c = cp_queue_delay_ms c + cp_projected_prefill_ms c + cp_projected_decode_ms c"
| "burden p r NetworkCost c = cp_network_cost c"
| "burden p r AcceleratorCost c = cp_accelerator_cost_per_1m_tokens c"
| "burden p r Congestion c = cp_congestion_score c"
| "burden p r CacheHit c = - cp_expected_cache_hit_ratio c"
| "burden p r Affinity c = - cp_topology_affinity c"
| "burden p r Fairness c = cp_fairness_penalty c"
| "burden p r CudaCacheBonus c = - dict_get 0 (cp_score_breakdown c) ''cuda_cache_bonus''"
| "burden p r CudaTopologyPenalty c = dict_get 0 (cp_score_breakdown c) ''cuda_topology_penalty''"
| "burden p r CudaLoadPenalty c = dict_get 0 (cp_score_breakdown c) ''cuda_load_penalty''"
| "burden p r PremiumMismatch c =
     of_bool (rq_sla_class r = ''realtime'' \<and> \<not> cp_premium c \<or> rq_sla_class r = ''best_effort'' \<and> cp_premium c)"
| "burden (FailureAwareSpreadPolicy counts) r Outstanding c = of_int (dict_get 0 counts (candidate_key c))"
| "burden (ContextualBanditPolicy bonus counts value_of) r MeanReward c = - dict_get 0 value_of (candidate_key c)"
| "burden (ContextualBanditPolicy bonus counts value_of) r Pulls c = of_nat (dict_get 0 counts (candidate_key c))"
| "burden p r q c = 0"

text \<open>The criteria a policy is to respect; round robin respects none.\<close>

fun criteria :: "policy \<Rightarrow> criterion list" where
  "criteria (RoundRobinPolicy _) = []"
| "criteria LeastQueuePolicy = [QueueDelay, NetworkCost, AcceleratorCost]"
| "criteria TopologyGreedyPolicy = [QueueDelay, NetworkCost, Affinity, Congestion]"
| "criteria CacheAwarePolicy = [CacheHit, QueueDelay, NetworkCost, AcceleratorCost]"
| "criteria MultiObjectivePolicy =
     [Latency, NetworkCost, AcceleratorCost, Congestion, CacheHit, Affinity, Fairness,
      CudaCacheBonus, CudaTopologyPenalty, CudaLoadPenalty, PremiumMismatch]"
| "criteria (FailureAwareSpreadPolicy _) = [Outstanding, QueueDelay, NetworkCost]"
| "criteria (ContextualBanditPolicy _ _ _) = [MeanReward, Pulls, CacheHit, Affinity, QueueDelay, AcceleratorCost]"
| "criteria (SB3Policy _) = [Latency]"
| "criteria GNNPlaceholderPolicy = [Latency, CacheHit, Affinity]"
| "criteria (PyGGNNPolicy _) = [Latency, Affinity, CacheHit]"

text \<open>\<open>d\<close> is nowhere worse than \<open>c\<close>; \<open>d\<close> and \<open>c\<close> are equal on every criterion of the policy.\<close>

definition no_worse :: "policy \<Rightarrow> inference_request \<Rightarrow> candidate_placement \<Rightarrow> candidate_placement \<Rightarrow> bool" where
  "no_worse p r d c \<longleftrightarrow> list_all (\<lambda>q. burden p r q d \<le> burden p r q c) (criteria p)"

definition as_good :: "policy \<Rightarrow> inference_request \<Rightarrow> candidate_placement \<Rightarrow> candidate_placement \<Rightarrow> bool" where
  "as_good p r d c \<longleftrightarrow> list_all (\<lambda>q. burden p r q d = burden p r q c) (criteria p)"

lemma min_by_undominated:
  assumes "min_by f xs = Inr c" and "d \<in> set xs"
    and strict: "f c \<le> f d \<Longrightarrow> E" and tie: "E \<Longrightarrow> f d = f c"
  shows "E \<and> (\<exists>pre post. xs = pre @ c # post \<and> d \<notin> set pre)"
proof
  show E: E by (rule strict) (rule min_by_le [OF assms(1,2)])
  from min_by_first_least [OF assms(1)] obtain pre post where "xs = pre @ c # post" "\<forall>x \<in> set pre. f c < f x"
    by (auto simp: first_least_def)
  with tie [OF E] show "\<exists>pre post. xs = pre @ c # post \<and> d \<notin> set pre" by force
qed

lemma max_by_undominated:
  fixes f :: "'a \<Rightarrow> rat"
  assumes "max_by f xs = Inr c" and "d \<in> set xs" and "f d \<le> f c \<Longrightarrow> E" and "E \<Longrightarrow> f d = f c"
  shows "E \<and> (\<exists>pre post. xs = pre @ c # post \<and> d \<notin> set pre)"
  using min_by_undominated [of "\<lambda>x. - f x" xs c d E] assms max_by_nonempty [OF assms(1)]
  by (simp add: max_by_min_by)

text \<open>The objective weighs every burden of the multi-objective policy positively.\<close>

lemma objective_weights:
  "\<exists>lw cw pw. 0 < lw \<and> 0 < cw \<and> 0 < pw \<and> (\<forall>c. objective r k c =
     lw * burden MultiObjectivePolicy r Latency c + 18 * burden MultiObjectivePolicy r NetworkCost c
     + cw * burden MultiObjectivePolicy r AcceleratorCost c + 90 * burden MultiObjectivePolicy r Congestion c
     + 450 * burden MultiObjectivePolicy r CacheHit c + 85 * burden MultiObjectivePolicy r Affinity c
     + 110 * burden MultiObjectivePolicy r Fairness c + 70 * burden MultiObjectivePolicy r CudaCacheBonus c
     + 65 * burden MultiObjectivePolicy r CudaTopologyPenalty c + 55 * burden MultiObjectivePolicy r CudaLoadPenalty c
     + pw * burden MultiObjectivePolicy r PremiumMismatch c)"
  by (intro exI [of _ "if k = 3 then 1.4 else if k = 2 then 1.1 else 0.75"] exI [of _ "if k = 3 then 0.25 else 0.55"]
      exI [of _ "if rq_sla_class r = ''realtime'' then 25 else 70"])
    (simp add: objective_def estimated_total_latency_ms_def Let_def)

lemma objective_strict:
  assumes "no_worse MultiObjectivePolicy r d c" and "objective r k c \<le> objective r k d"
  shows "as_good MultiObjectivePolicy r d c"
proof -
  let ?b = "burden MultiObjectivePolicy r"
  from assms(1) have le: "?b q d \<le> ?b q c" if "q \<in> set (criteria MultiObjectivePolicy)" for q
    using that unfolding no_worse_def list_all_iff by blast
  have all: "?b Latency d \<le> ?b Latency c" "?b NetworkCost d \<le> ?b NetworkCost c"
    "?b AcceleratorCost d \<le> ?b AcceleratorCost c" "?b Congestion d \<le> ?b Congestion c" "?b CacheHit d \<le> ?b CacheHit c"
    "?b Affinity d \<le> ?b Affinity c" "?b Fairness d \<le> ?b Fairness c" "?b CudaCacheBonus d \<le> ?b CudaCacheBonus c"
    "?b CudaTopologyPenalty d \<le> ?b CudaTopologyPenalty c" "?b CudaLoadPenalty d \<le> ?b CudaLoadPenalty c"
    "?b PremiumMismatch d \<le> ?b PremiumMismatch c" by (rule le, simp)+
  obtain lw cw pw where w: "0 < lw" "0 < cw" "0 < pw" and ob: "\<And>c. objective r k c =
     lw * ?b Latency c + 18 * ?b NetworkCost c + cw * ?b AcceleratorCost c + 90 * ?b Congestion c
     + 450 * ?b CacheHit c + 85 * ?b Affinity c + 110 * ?b Fairness c + 70 * ?b CudaCacheBonus c
     + 65 * ?b CudaTopologyPenalty c + 55 * ?b CudaLoadPenalty c + pw * ?b PremiumMismatch c"
    using objective_weights [of r k] by blast
  have prods: "lw * ?b Latency d \<le> lw * ?b Latency c" "cw * ?b AcceleratorCost d \<le> cw * ?b AcceleratorCost c"
    "pw * ?b PremiumMismatch d \<le> pw * ?b PremiumMismatch c"
    using all w by (auto intro!: mult_left_mono simp del: burden.simps)
  note facts = all prods assms(2) [unfolded ob]
  have "lw * ?b Latency d = lw * ?b Latency c" using facts by linarith
  moreover have "cw * ?b AcceleratorCost d = cw * ?b AcceleratorCost c" using facts by linarith
  moreover have "pw * ?b PremiumMismatch d = pw * ?b PremiumMismatch c" using facts by linarith
  moreover have "?b NetworkCost d = ?b NetworkCost c" using facts by linarith
  moreover have "?b Congestion d = ?b Congestion c" using facts by linarith
  moreover have "?b CacheHit d = ?b CacheHit c" using facts by linarith
  moreover have "?b Affinity d = ?b Affinity c" using facts by linarith
  moreover have "?b Fairness d = ?b Fairness c" using facts by linarith
  moreover have "?b CudaCacheBonus d = ?b CudaCacheBonus c" using facts by linarith
  moreover have "?b CudaTopologyPenalty d = ?b CudaTopologyPenalty c" using facts by linarith
  moreover have "?b CudaLoadPenalty d = ?b CudaLoadPenalty c" using facts by linarith
  ultimately show ?thesis using w by (simp add: as_good_def del: burden.simps)
qed

lemma objective_tie: "as_good MultiObjectivePolicy r d c \<Longrightarrow> objective r k d = objective r k c"
  using objective_weights [of r k] by (auto simp: as_good_def simp del: burden.simps)

lemma exploration_mono:
  fixes b :: rat
  assumes "0 < b" and "m \<le> (n :: nat)"
  shows "b / (1 + of_nat n) \<le> b / (1 + of_nat m)" and "b / (1 + of_nat n) = b / (1 + of_nat m) \<longleftrightarrow> n = m"
proof -
  have pos: "(0 :: rat) < 1 + of_nat k" for k :: nat using of_nat_0_le_iff [of k, where ?'a = rat] by linarith
  from assms pos show "b / (1 + of_nat n) \<le> b / (1 + of_nat m)" by (intro divide_left_mono) auto
  from assms pos [of n] pos [of m] show "b / (1 + of_nat n) = b / (1 + of_nat m) \<longleftrightarrow> n = m"
    by (simp add: frac_eq_eq)
qed

lemma bandit_strict:
  assumes "no_worse (ContextualBanditPolicy b n v) r d c" and "0 < b" and "bandit_score b n v d \<le> bandit_score b n v c"
  shows "as_good (ContextualBanditPolicy b n v) r d c"
proof -
  let ?m = "dict_get 0 n (candidate_key d)" and ?n = "dict_get 0 n (candidate_key c)"
  from assms(1) have mn: "?m \<le> ?n" by (simp add: no_worse_def)
  note e = exploration_mono [OF assms(2) mn]
  from assms(1) have le: "dict_get 0 v (candidate_key c) \<le> dict_get 0 v (candidate_key d)"
    "cp_expected_cache_hit_ratio c \<le> cp_expected_cache_hit_ratio d" "cp_topology_affinity c \<le> cp_topology_affinity d"
    "cp_queue_delay_ms d \<le> cp_queue_delay_ms c"
    "cp_accelerator_cost_per_1m_tokens d \<le> cp_accelerator_cost_per_1m_tokens c"
    by (simp_all add: no_worse_def)
  define x y where "x = b / (1 + of_nat ?n)" and "y = b / (1 + of_nat ?m)"
  have "dict_get 0 v (candidate_key d) + cp_expected_cache_hit_ratio d * 120 + cp_topology_affinity d * 60
      - cp_queue_delay_ms d * (2 / 25) - cp_accelerator_cost_per_1m_tokens d * (2 / 25) + y
    \<le> dict_get 0 v (candidate_key c) + cp_expected_cache_hit_ratio c * 120 + cp_topology_affinity c * 60
      - cp_queue_delay_ms c * (2 / 25) - cp_accelerator_cost_per_1m_tokens c * (2 / 25) + x"
    using assms(3) by (simp add: bandit_score_def Let_def x_def y_def algebra_simps)
  note facts = le e(1) [folded x_def y_def] this
  have "x = y" using facts by linarith
  with e(2) have "?n = ?m" by (simp add: x_def y_def)
  moreover have "dict_get 0 v (candidate_key d) = dict_get 0 v (candidate_key c)" using facts by linarith
  moreover have "cp_expected_cache_hit_ratio d = cp_expected_cache_hit_ratio c" using facts by linarith
  moreover have "cp_topology_affinity d = cp_topology_affinity c" using facts by linarith
  moreover have "cp_queue_delay_ms d = cp_queue_delay_ms c" using facts by linarith
  moreover have "cp_accelerator_cost_per_1m_tokens d = cp_accelerator_cost_per_1m_tokens c" using facts by linarith
  ultimately show ?thesis by (simp add: as_good_def)
qed

lemma bandit_tie: "as_good (ContextualBanditPolicy b n v) r d c \<Longrightarrow> bandit_score b n v d = bandit_score b n v c"
  by (simp add: as_good_def bandit_score_def Let_def)

lemmas burdens = no_worse_def as_good_def estimated_total_latency_ms_def

lemma policy_choose_undominated:
  assumes "policy_choose p r cs = Inr (p', c)" and "\<And>k. p \<noteq> RoundRobinPolicy k"
    and "\<And>b n v. p = ContextualBanditPolicy b n v \<Longrightarrow> 0 < b"
    and "d \<in> set (available_candidates cs)" and "no_worse p r d c"
  shows "as_good p r d c \<and> (\<exists>pre post. available_candidates cs = pre @ c # post \<and> d \<notin> set pre)"
proof (cases p)
  case (RoundRobinPolicy k)
  with assms(2) show ?thesis by blast
next
  case LeastQueuePolicy
  show ?thesis
    by (rule min_by_undominated [where f = least_queue_key, OF _ assms(4)])
      (use assms(1,5) LeastQueuePolicy in \<open>auto simp: burdens least_queue_key_def\<close>)
next
  case TopologyGreedyPolicy
  show ?thesis
    by (rule min_by_undominated [where f = topology_greedy_key, OF _ assms(4)])
      (use assms(1,5) TopologyGreedyPolicy in \<open>auto simp: burdens topology_greedy_key_def\<close>)
next
  case CacheAwarePolicy
  show ?thesis
    by (rule min_by_undominated [where f = cache_aware_key, OF _ assms(4)])
      (use assms(1,5) CacheAwarePolicy in \<open>auto simp: burdens cache_aware_key_def\<close>)
next
  case MultiObjectivePolicy
  with assms(1) obtain k where "min_by (objective r k) (available_candidates cs) = Inr c"
    by (auto simp: multi_objective_choose_def dict_item_def result_simps split: option.splits)
  then show ?thesis
    by (rule min_by_undominated [OF _ assms(4)])
      (use assms(5) MultiObjectivePolicy in \<open>auto intro: objective_strict objective_tie\<close>)
next
  case (FailureAwareSpreadPolicy counts)
  with assms(1) have "min_by (spread_key counts) (available_candidates cs) = Inr c"
    by (auto simp: spread_choose_def result_simps Let_def)
  then show ?thesis
    by (rule min_by_undominated [OF _ assms(4)])
      (use assms(5) FailureAwareSpreadPolicy in \<open>auto simp: burdens spread_key_def\<close>)
next
  case (ContextualBanditPolicy b n v)
  with assms(1) have "max_by (bandit_score b n v) (available_candidates cs) = Inr c"
    by (auto simp: result_simps Let_def)
  then show ?thesis
    by (rule max_by_undominated [OF _ assms(4)])
      (use assms(3,5) ContextualBanditPolicy in \<open>auto intro: bandit_strict bandit_tie\<close>)
next
  case (SB3Policy av)
  show ?thesis
    by (rule min_by_undominated [where f = estimated_total_latency_ms, OF _ assms(4)])
      (use assms(1,5) SB3Policy in \<open>auto simp: burdens\<close>)
next
  case GNNPlaceholderPolicy
  show ?thesis
    by (rule min_by_undominated [where f = gnn_key, OF _ assms(4)])
      (use assms(1,5) GNNPlaceholderPolicy in \<open>auto simp: burdens gnn_key_def\<close>)
next
  case (PyGGNNPolicy av)
  show ?thesis
    by (rule min_by_undominated [where f = pyg_key, OF _ assms(4)])
      (use assms(1,5) PyGGNNPolicy in \<open>auto simp: burdens pyg_key_def\<close>)
qed

text \<open>
  C22: the choice of every policy but round robin is undominated. A usable candidate that is nowhere
  worse than the chosen one, on the criteria the policy is to respect, is equally good on each of
  them and does not stand before it in the list; so a policy never passes over a candidate that is
  better in one respect and no worse in the others. The bandit needs a positive exploration bonus.
\<close>

theorem policy_choice_undominated:
  assumes "policy_choose p r cs = Inr (p', c)" and "\<And>k. p \<noteq> RoundRobinPolicy k"
    and "\<And>b n v. p = ContextualBanditPolicy b n v \<Longrightarrow> 0 < b"
    and "d \<in> set (available_candidates cs)" and "no_worse p r d c"
  shows "as_good p r d c \<and> (\<exists>pre post. available_candidates cs = pre @ c # post \<and> d \<notin> set pre)"
  by (rule policy_choose_undominated [OF assms])

section \<open>Sequences of choices\<close>

text \<open>Consecutive calls on one policy object, without results in between.\<close>

fun choose_seq ::
  "policy \<Rightarrow> (inference_request \<times> candidate_placement list) list
    \<Rightarrow> (policy \<times> candidate_placement list) result" where
  "choose_seq p [] = Inr (p, [])"
| "choose_seq p ((r, cs) # calls) =
     ebind (policy_choose p r cs) (\<lambda>(p', c). ebind (choose_seq p' calls) (\<lambda>(p'', chosen). Inr (p'', c # chosen)))"

lemma round_robin_seq:
  assumes "cs \<noteq> []"
  shows "choose_seq (RoundRobinPolicy k) (replicate n (r, cs)) =
    Inr (RoundRobinPolicy (k + int n),
      map (\<lambda>i. available_candidates cs ! nat ((k + int i) mod int (length (available_candidates cs)))) [0..<n])"
proof (induction n arbitrary: k)
  case (Suc n)
  let ?u = "available_candidates cs"
  have "map (\<lambda>i. ?u ! nat ((k + 1 + int i) mod int (length ?u))) [0..<n] =
      map (\<lambda>i. ?u ! nat ((k + int i) mod int (length ?u))) [1..<Suc n]"
    by (simp add: map_Suc_upt [symmetric] comp_def add.assoc add.commute [of 1] del: upt_Suc)
  with Suc assms show ?case
    by (simp add: round_robin_choose_def Let_def upt_conv_Cons del: upt_Suc)
qed simp

lemma rotation_nth:
  assumes "xs \<noteq> []"
  shows "map (\<lambda>i. xs ! nat ((k + int i) mod int (length xs))) [0..<length xs] = rotate (nat (k mod int (length xs))) xs"
proof (rule nth_equalityI)
  fix i assume "i < length (map (\<lambda>i. xs ! nat ((k + int i) mod int (length xs))) [0..<length xs])"
  then have i: "i < length xs" by simp
  have "nat ((k + int i) mod int (length xs)) = (nat (k mod int (length xs)) + i) mod length xs"
  proof -
    have "k mod int (length xs) = int (nat (k mod int (length xs)))" using assms by simp
    then have "(k + int i) mod int (length xs) = int ((nat (k mod int (length xs)) + i) mod length xs)"
      by (metis mod_add_left_eq of_nat_add of_nat_mod)
    then show ?thesis by simp
  qed
  with i show "map (\<lambda>i. xs ! nat ((k + int i) mod int (length xs))) [0..<length xs] ! i =
      rotate (nat (k mod int (length xs))) xs ! i"
    by (simp add: nth_rotate add.commute)
qed simp

text \<open>
  as many consecutive round-robin choices as there are usable candidates visit each of them
  once, in list order from the cursor on.
\<close>

theorem round_robin_fair:
  assumes "cs \<noteq> []"
  shows "\<exists>p'. choose_seq (RoundRobinPolicy k) (replicate (length (available_candidates cs)) (r, cs)) =
    Inr (p', rotate (nat (k mod int (length (available_candidates cs)))) (available_candidates cs))"
  using round_robin_seq [OF assms, of k "length (available_candidates cs)" r]
    rotation_nth [of "available_candidates cs" k] assms by simp

section \<open>State of the spread policy\<close>

lemma dict_get_touch_all [simp]: "dict_get v0 (touch_all v0 items d) k = dict_get v0 d k"
  by (induction items arbitrary: d) (simp_all add: touch_all_def)

lemma spread_choose_counts:
  assumes "spread_choose counts cs = Inr (counts', c)"
  shows "dict_get 0 counts' k = dict_get 0 counts k + (if k = candidate_key c then 1 else 0)"
  using assms by (auto simp: spread_choose_def Let_def result_simps dict_get_update)

text \<open>
  the counters of the spread policy never go below zero, and a choice followed by the result
  of that same placement leaves every counter as it was: the counters measure the placements
  whose results are still outstanding.
\<close>

theorem spread_counts_outstanding:
  assumes "\<forall>k. 0 \<le> dict_get 0 counts k"
    and "policy_choose (FailureAwareSpreadPolicy counts) r cs = Inr (FailureAwareSpreadPolicy counts', c)"
    and "result_key res = candidate_key c"
  shows "dict_get 0 counts' (candidate_key c) = dict_get 0 counts (candidate_key c) + 1 \<and>
    (\<forall>k. dict_get 0 (spread_observe counts' res) k = dict_get 0 counts k)"
proof -
  have "spread_choose counts cs = Inr (counts', c)" using assms(2) by (auto simp: result_simps)
  note c = spread_choose_counts [OF this]
  have "max 0 (dict_get 0 counts (candidate_key c)) = dict_get 0 counts (candidate_key c)"
    using assms(1) by (simp only: max_def) simp
  with c assms(3) show ?thesis by (simp add: spread_observe_def Let_def dict_get_update)
qed

lemma spread_observe_nonneg:
  "(\<forall>k. 0 \<le> dict_get 0 counts k) \<Longrightarrow> \<forall>k. 0 \<le> dict_get 0 (spread_observe counts res) k"
  by (simp add: spread_observe_def Let_def dict_get_update)

section \<open>State of the bandit\<close>

definition rewards_at :: "place_key \<Rightarrow> request_result list \<Rightarrow> pyfloat list" where
  "rewards_at k rs = map bandit_reward (filter (\<lambda>r. result_key r = k) rs)"

text \<open>The counters and values after a run of results.\<close>

definition bandit_run ::
  "request_result list \<Rightarrow> (place_key, nat) dict \<times> (place_key, pyfloat) dict" where
  "bandit_run rs = fold (\<lambda>r (counts, value_of). bandit_observe counts value_of r) rs ([], [])"

lemma running_mean: "x \<noteq> (0::rat) \<Longrightarrow> x * ((1 - 1 / x) * v + 1 / x * b) = (x - 1) * v + b"
  by (simp add: field_simps)

lemma bandit_run_mean:
  "dict_get 0 (fst (bandit_run rs)) k = length (rewards_at k rs) \<and>
   of_nat (length (rewards_at k rs)) * dict_get 0 (snd (bandit_run rs)) k = sum_list (rewards_at k rs)"
proof (induction rs rule: rev_induct)
  case Nil
  show ?case by (simp add: bandit_run_def rewards_at_def)
next
  case (snoc r rs)
  let ?n = "length (rewards_at k rs)" and ?v = "dict_get 0 (snd (bandit_run rs)) k"
  have run: "bandit_run (rs @ [r]) = bandit_observe (fst (bandit_run rs)) (snd (bandit_run rs)) r"
    by (simp add: bandit_run_def case_prod_unfold)
  show ?case
  proof (cases "result_key r = k")
    case True
    have "of_nat (Suc ?n) * ((1 - 1 / of_nat (Suc ?n)) * ?v + 1 / of_nat (Suc ?n) * bandit_reward r) =
        of_nat ?n * ?v + bandit_reward r"
      using running_mean [of "of_nat (Suc ?n)" ?v] by simp
    with True snoc show ?thesis
      by (simp add: run bandit_observe_def Let_def dict_get_update rewards_at_def)
  next
    case False
    with snoc show ?thesis
      by (simp add: run bandit_observe_def Let_def dict_get_update rewards_at_def)
  qed
qed

text \<open>
  after any run of results the bandit's value of a pool is the arithmetic mean of the rewards
  observed there, and its counter their number.
\<close>

theorem bandit_value_is_mean:
  assumes "rewards_at k rs \<noteq> []"
  shows "dict_get 0 (snd (bandit_run rs)) k = sum_list (rewards_at k rs) / of_nat (length (rewards_at k rs)) \<and>
    dict_get 0 (fst (bandit_run rs)) k = length (rewards_at k rs)"
  using bandit_run_mean [of rs k] assms by (simp add: field_simps)

section \<open>Examples\<close>

definition demo_candidate :: "string \<Rightarrow> pyfloat \<Rightarrow> bool \<Rightarrow> candidate_placement" where
  "demo_candidate pool queue av =
     \<lparr>cp_cluster_id = ''centralus-h100'', cp_pool_id = pool, cp_backend_name = ''mock'',
      cp_accelerator_type = ''nvidia-h100'', cp_queue_delay_ms = queue, cp_projected_prefill_ms = 50,
      cp_projected_decode_ms = 20, cp_expected_cache_hit_ratio = 0, cp_expected_cache_saved_tokens = 0,
      cp_topology_affinity = 0.92, cp_network_cost = 1.1, cp_congestion_score = 0.1,
      cp_memory_headroom_gb = 640, cp_accelerator_cost_per_1m_tokens = 4.2, cp_fairness_penalty = 0,
      cp_premium = False, cp_available = av, cp_rejection_reason = None, cp_score_breakdown = []\<rparr>"

definition demo_candidates :: "candidate_placement list" where
  "demo_candidates = [demo_candidate ''a'' 0 False, demo_candidate ''b'' 9 True, demo_candidate ''c'' 5 True]"

lemma demo_available: "available_candidates demo_candidates = [demo_candidate ''b'' 9 True, demo_candidate ''c'' 5 True]"
  by (simp add: available_candidates_def demo_candidates_def demo_candidate_def)

lemma demo_request_ok: "request_ok demo_request"
  by (simp add: request_ok_def demo_request_def SLA_PRIORITY_def)

theorem policy_choice_witness:
  "\<exists>p' c. policy_choose MultiObjectivePolicy demo_request demo_candidates = Inr (p', c) \<and>
     c \<in> set demo_candidates \<and> cp_available c"
  using policy_choice [of demo_candidates demo_request MultiObjectivePolicy] demo_request_ok
  by (auto simp: demo_candidates_def demo_candidate_def)

theorem policy_choice_undominated_witness:
  "as_good MultiObjectivePolicy demo_request (demo_candidate ''d'' 5 True) (demo_candidate ''c'' 5 True) \<and>
   (\<exists>pre post. available_candidates (demo_candidates @ [demo_candidate ''d'' 5 True]) =
      pre @ demo_candidate ''c'' 5 True # post \<and> demo_candidate ''d'' 5 True \<notin> set pre)"
  by (rule policy_choice_undominated [where p' = MultiObjectivePolicy])
     (simp_all add: available_candidates_def demo_candidates_def demo_candidate_def multi_objective_choose_def
       min_by_def objective_def estimated_total_latency_ms_def no_worse_def demo_request_def dict_item_def
       SLA_PRIORITY_def dict_get_def)

theorem round_robin_fair_witness:
  "\<exists>p'. choose_seq (RoundRobinPolicy 1) [(demo_request, demo_candidates), (demo_request, demo_candidates)] =
     Inr (p', [demo_candidate ''c'' 5 True, demo_candidate ''b'' 9 True])"
  using round_robin_fair [of demo_candidates 1 demo_request]
  by (simp add: demo_available) (simp add: demo_candidates_def numeral_2_eq_2)

theorem spread_counts_outstanding_witness:
  "dict_get 0 (spread_observe [((''centralus-h100'', ''b''), 0), ((''centralus-h100'', ''c''), 1)]
     (demo_result\<lparr>rr_decision := demo_decision\<lparr>rd_pool_id := ''c''\<rparr>\<rparr>)) (''centralus-h100'', ''c'') = (0 :: int)"
  using spread_counts_outstanding [of "[]" demo_request demo_candidates
      "[((''centralus-h100'', ''b''), 0), ((''centralus-h100'', ''c''), 1)]" "demo_candidate ''c'' 5 True"
      "demo_result\<lparr>rr_decision := demo_decision\<lparr>rd_pool_id := ''c''\<rparr>\<rparr>"]
  by (simp add: spread_choose_def demo_available min_by_def spread_key_def candidate_key_def demo_candidate_def
      less_prod_def' touch_all_def dd_touch_def dict_get_def result_key_def demo_decision_def demo_result_def)

theorem bandit_value_is_mean_witness:
  "dict_get 0 (snd (bandit_run [demo_result, demo_result])) (''centralus-h100'', ''h100-main'') = bandit_reward demo_result"
  using bandit_value_is_mean [of "(''centralus-h100'', ''h100-main'')" "[demo_result, demo_result]"]
  by (simp add: rewards_at_def result_key_def demo_result_defs)

end
