(* ===== verification/RemoteSchedulers.thy ===== *)
theory RemoteSchedulers
  imports Policies
begin

text \<open>
  The alternatives to the configured policy that the control plane asks first, and the scoring
  engine that annotates candidates: the gRPC client and the servicer it talks to
  (\<open>grpc_layer/\<close>), the bridge to the C++ core (\<open>scheduler_core/cpp_bridge.py\<close>) with the C++
  function itself (\<open>scheduler_core_cpp/scheduler_core.cpp\<close>), and \<open>CudaScoringEngine\<close>
  (\<open>cuda_kernels/runtime.py\<close>). The generated protobuf stub, the transport and the GPU are not
  part of the sources: the call on the stub and the three kernel launches are parameters. The
  contract of an index-returning scheduler is the locale \<open>index_scheduler\<close>.
\<close>

section \<open>The scoring loop\<close>

text \<open>
  Both schedulers run one loop over the indices: skip what is not available, keep the first
  index of least score; \<open>None\<close> stands for the initial score infinity.
\<close>

definition scan_step :: "(nat \<Rightarrow> bool) \<Rightarrow> (nat \<Rightarrow> pyfloat) \<Rightarrow> nat \<Rightarrow> (nat \<times> pyfloat) option \<Rightarrow> (nat \<times> pyfloat) option" where
  "scan_step skip f i best =
     (if skip i then best
      else case best of None \<Rightarrow> Some (i, f i) | Some (b, best_score) \<Rightarrow> if f i < best_score then Some (i, f i) else best)"

definition scan :: "(nat \<Rightarrow> bool) \<Rightarrow> (nat \<Rightarrow> pyfloat) \<Rightarrow> nat list \<Rightarrow> (nat \<times> pyfloat) option \<Rightarrow> (nat \<times> pyfloat) option" where
  "scan skip f is best = fold (scan_step skip f) is best"

lemma scan_fold:
  "scan skip f is (Some (b, f b)) =
     (let m = fold (\<lambda>z best. if f z < f best then z else best) (filter (\<lambda>i. \<not> skip i) is) b in Some (m, f m))"
  by (induction "is" arbitrary: b) (auto simp: scan_def scan_step_def Let_def)

lemma scan_min_by:
  "scan skip f is None =
     (case min_by f (filter (\<lambda>i. \<not> skip i) is) of Inl _ \<Rightarrow> None | Inr m \<Rightarrow> Some (m, f m))"
proof (induction "is")
  case (Cons i "is")
  then show ?case
    using scan_fold [of skip f "is" i] by (auto simp: scan_def scan_step_def min_by_def Let_def split: list.splits)
qed (simp add: scan_def min_by_def)

section \<open>The gRPC scheduler\<close>

record grpc_candidate =
  gc_cluster_id :: string
  gc_pool_id :: string
  gc_estimated_latency_ms :: pyfloat
  gc_queue_delay_ms :: pyfloat
  gc_cache_hit_ratio :: pyfloat
  gc_topology_affinity :: pyfloat
  gc_network_cost :: pyfloat
  gc_accelerator_cost_per_1m_tokens :: pyfloat
  gc_fairness_penalty :: pyfloat
  gc_available :: bool

record placement_request =
  pq_request_id :: string
  pq_tenant_id :: string
  pq_model_id :: string
  pq_sla_class :: string
  pq_policy_name :: string
  pq_candidates :: "grpc_candidate list"

record placement_response =
  pe_chosen_index :: int
  pe_reason :: string

definition grpc_score :: "string \<Rightarrow> grpc_candidate \<Rightarrow> pyfloat" where
  "grpc_score sla c =
     (let latency_weight = (if sla = ''realtime'' then 1.5 else if sla = ''interactive'' then 1.1 else 0.8);
          cost_weight = (if sla = ''realtime'' then 0.2 else 0.6)
      in gc_estimated_latency_ms c * latency_weight
         + gc_queue_delay_ms c * 0.1
         + gc_network_cost c * 18
         + gc_accelerator_cost_per_1m_tokens c * cost_weight
         + gc_fairness_penalty c * 110
         - gc_cache_hit_ratio c * 450
         - gc_topology_affinity c * 85)"

definition ChoosePlacement :: "placement_request \<Rightarrow> placement_response" where
  "ChoosePlacement request =
     (if pq_candidates request = [] then \<lparr>pe_chosen_index = - 1, pe_reason = ''no-candidates''\<rparr>
      else let cs = pq_candidates request;
               best = scan (\<lambda>i. \<not> gc_available (cs ! i)) (\<lambda>i. grpc_score (pq_sla_class request) (cs ! i))
                        [0..<length cs] None
           in \<lparr>pe_chosen_index = (case best of None \<Rightarrow> 0 | Some (i, _) \<Rightarrow> int i), pe_reason = ''grpc-score''\<rparr>)"

definition grpc_candidate_of :: "candidate_placement \<Rightarrow> grpc_candidate" where
  "grpc_candidate_of c =
     \<lparr>gc_cluster_id = cp_cluster_id c, gc_pool_id = cp_pool_id c,
      gc_estimated_latency_ms = estimated_total_latency_ms c, gc_queue_delay_ms = cp_queue_delay_ms c,
      gc_cache_hit_ratio = cp_expected_cache_hit_ratio c, gc_topology_affinity = cp_topology_affinity c,
      gc_network_cost = cp_network_cost c,
      gc_accelerator_cost_per_1m_tokens = cp_accelerator_cost_per_1m_tokens c,
      gc_fairness_penalty = cp_fairness_penalty c, gc_available = cp_available c\<rparr>"

text \<open>
  The client; \<open>stub\<close> is \<open>None\<close> when the client is not available (disabled, or its set-up
  failed), otherwise the remote call, which may raise.
\<close>

type_synonym grpc_stub = "(placement_request \<Rightarrow> placement_response result) option"

definition grpc_choose ::
  "grpc_stub \<Rightarrow> inference_request \<Rightarrow> candidate_placement list \<Rightarrow> int option result" where
  "grpc_choose stub request candidates =
     (case stub of None \<Rightarrow> Inr None
      | Some call \<Rightarrow>
          ebind (call \<lparr>pq_request_id = rq_request_id request, pq_tenant_id = rq_tenant_id request,
              pq_model_id = rq_model_id request, pq_sla_class = rq_sla_class request,
              pq_policy_name = ''grpc'', pq_candidates = map grpc_candidate_of candidates\<rparr>) (\<lambda>response.
            Inr (if pe_chosen_index response < 0 \<or> int (length candidates) \<le> pe_chosen_index response
                 then None else Some (pe_chosen_index response))))"

text \<open>The constructor enables the client only when asked to, and survives a failed set-up.\<close>

definition GrpcSchedulerClient ::
  "string \<Rightarrow> bool \<Rightarrow> (placement_request \<Rightarrow> placement_response result) result \<Rightarrow> grpc_stub" where
  "GrpcSchedulerClient use_env grpc_installed connect =
     (if use_env = ''1'' \<and> grpc_installed then (case connect of Inl _ \<Rightarrow> None | Inr call \<Rightarrow> Some call) else None)"

section \<open>The C++ core\<close>

definition choose_candidate ::
  "pyfloat list \<Rightarrow> pyfloat list \<Rightarrow> pyfloat list \<Rightarrow> pyfloat list \<Rightarrow> pyfloat list \<Rightarrow> pyfloat list \<Rightarrow>
   pyfloat list \<Rightarrow> int list \<Rightarrow> int \<Rightarrow> int \<Rightarrow> int" where
  "choose_candidate estimated_latency queue_delay cache_hit topology_affinity network_cost accel_cost
      fairness_penalty avail n sla_priority =
     (if n \<le> 0 then - 1
      else let latency_weight = (if sla_priority = 3 then 1.5 else if sla_priority = 2 then 1.1 else 0.8);
               cost_weight = (if sla_priority = 3 then 0.2 else 0.6);
               score = (\<lambda>i. estimated_latency ! i * latency_weight + queue_delay ! i * 0.1
                 + network_cost ! i * 18 + accel_cost ! i * cost_weight
                 + fairness_penalty ! i * 120 - cache_hit ! i * 450 - topology_affinity ! i * 90)
           in case scan (\<lambda>i. avail ! i = 0) score [0..<nat n] None of
                Some (best_index, _) \<Rightarrow> int best_index
              | None \<Rightarrow>
                  (case scan (\<lambda>i. False) (\<lambda>i. estimated_latency ! i) [1..<nat n]
                          (Some (0, estimated_latency ! 0)) of
                     Some (best_index, _) \<Rightarrow> int best_index
                   | None \<Rightarrow> 0))"

text \<open>
  The bridge; \<open>lib\<close> is \<open>None\<close> when the library is not enabled or not found, otherwise the
  exported function.
\<close>

type_synonym cpp_function =
  "pyfloat list \<Rightarrow> pyfloat list \<Rightarrow> pyfloat list \<Rightarrow> pyfloat list \<Rightarrow> pyfloat list \<Rightarrow> pyfloat list \<Rightarrow>
   pyfloat list \<Rightarrow> int list \<Rightarrow> int \<Rightarrow> int \<Rightarrow> int"

definition cpp_choose ::
  "cpp_function option \<Rightarrow> inference_request \<Rightarrow> candidate_placement list \<Rightarrow> int option" where
  "cpp_choose lib request candidates =
     (case lib of None \<Rightarrow> None
      | Some call \<Rightarrow>
          if candidates = [] then None
          else let count = int (length candidates);
                   sla_priority = dict_get 2 SLA_PRIORITY (rq_sla_class request);
                   chosen = call (map estimated_total_latency_ms candidates) (map cp_queue_delay_ms candidates)
                     (map cp_expected_cache_hit_ratio candidates) (map cp_topology_affinity candidates)
                     (map cp_network_cost candidates) (map cp_accelerator_cost_per_1m_tokens candidates)
                     (map cp_fairness_penalty candidates)
                     (map (\<lambda>c. if cp_available c then 1 else 0) candidates) count sla_priority
               in if chosen < 0 \<or> count \<le> chosen then None else Some chosen)"

text \<open>
  The constructor: the library path of the argument or of the environment, else the first
  default location that exists; used only when enabled and present.
\<close>

definition CppSchedulerCore ::
  "(string \<Rightarrow> bool) \<Rightarrow> string option \<Rightarrow> string \<Rightarrow> string list \<Rightarrow> string \<Rightarrow> (string \<Rightarrow> cpp_function)
    \<Rightarrow> cpp_function option" where
  "CppSchedulerCore exists_path library_path env_path defaults use_env load =
     (let given = (case library_path of None \<Rightarrow> env_path | Some p \<Rightarrow> if p = [] then env_path else p);
          path = (if given \<noteq> [] then given
                  else case filter exists_path defaults of [] \<Rightarrow> [] | p # _ \<Rightarrow> p)
      in if use_env = ''1'' \<and> path \<noteq> [] \<and> exists_path path then Some (load path) else None)"

section \<open>The CUDA scoring engine\<close>

text \<open>The kernel launches of an available GPU, from lists of arguments to the list of results.\<close>

record gpu_kernels =
  gk_cache_bonus :: "pyfloat list \<Rightarrow> pyfloat list \<Rightarrow> pyfloat list"
  gk_topology_penalty :: "pyfloat list \<Rightarrow> pyfloat list \<Rightarrow> pyfloat list"
  gk_load_penalty :: "pyfloat list \<Rightarrow> pyfloat list \<Rightarrow> pyfloat list \<Rightarrow> pyfloat list"

definition cache_bonus :: "pyfloat list \<Rightarrow> pyfloat list \<Rightarrow> pyfloat list" where
  "cache_bonus cache_hits saved = map2 (\<lambda>hit s. py_round 4 (hit * (1 + s / 8192))) cache_hits saved"

definition topology_penalty :: "pyfloat list \<Rightarrow> pyfloat list \<Rightarrow> pyfloat list" where
  "topology_penalty affinity network = map2 (\<lambda>a net. py_round 4 (max 0 (net - a))) affinity network"

definition load_penalty :: "pyfloat list \<Rightarrow> pyfloat list \<Rightarrow> pyfloat list \<Rightarrow> pyfloat list" where
  "load_penalty queue_delay congestion memory_headroom =
     map2 (\<lambda>q (cong, mem). py_round 4 (q / 1000 + cong + max 0 (1 - mem / 64)))
       queue_delay (zip congestion memory_headroom)"

definition annotate :: "candidate_placement \<Rightarrow> pyfloat \<times> pyfloat \<times> pyfloat \<Rightarrow> candidate_placement" where
  "annotate c vals =
     (case vals of (cache_value, topo_value, load_value) \<Rightarrow>
        c\<lparr>cp_score_breakdown :=
          AList.update ''cuda_load_penalty'' load_value
            (AList.update ''cuda_topology_penalty'' topo_value
              (AList.update ''cuda_cache_bonus'' cache_value (cp_score_breakdown c)))\<rparr>)"

text \<open>The loop at the end stops with the shortest of the four lists; later candidates stay as they are.\<close>

fun annotate_all ::
  "candidate_placement list \<Rightarrow> pyfloat list \<Rightarrow> pyfloat list \<Rightarrow> pyfloat list \<Rightarrow> candidate_placement list" where
  "annotate_all (c # cs) (b # bs) (t # ts) (l # ls) = annotate c (b, t, l) # annotate_all cs bs ts ls"
| "annotate_all cs bs ts ls = cs"

definition enrich_candidates ::
  "gpu_kernels option \<Rightarrow> candidate_placement list \<Rightarrow> candidate_placement list" where
  "enrich_candidates gpu cs =
     (let cache_hits = map cp_expected_cache_hit_ratio cs;
          saved = map (\<lambda>c. of_int (cp_expected_cache_saved_tokens c)) cs;
          network_costs = map cp_network_cost cs;
          affinity = map cp_topology_affinity cs;
          queue_delay = map cp_queue_delay_ms cs;
          congestion = map cp_congestion_score cs;
          memory_headroom = map cp_memory_headroom_gb cs
      in case gpu of
           Some k \<Rightarrow> annotate_all cs (gk_cache_bonus k cache_hits saved)
             (gk_topology_penalty k affinity network_costs)
             (gk_load_penalty k queue_delay congestion memory_headroom)
         | None \<Rightarrow> annotate_all cs (cache_bonus cache_hits saved)
             (topology_penalty affinity network_costs)
             (load_penalty queue_delay congestion memory_headroom))"

section \<open>The contract of an index scheduler\<close>

text \<open>
  An index a scheduler returns is in range, and names an available candidate whenever there is
  one.
\<close>

locale index_scheduler =
  fixes pick_index :: "inference_request \<Rightarrow> candidate_placement list \<Rightarrow> int option result"
  assumes in_range: "pick_index r cs = Inr (Some i) \<Longrightarrow> 0 \<le> i \<and> i < int (length cs)"
    and prefers_available: "pick_index r cs = Inr (Some i) \<Longrightarrow> \<exists>c \<in> set cs. cp_available c \<Longrightarrow> cp_available (cs ! nat i)"
begin

lemma chosen_member: "pick_index r cs = Inr (Some i) \<Longrightarrow> cs ! nat i \<in> set cs"
  using in_range by (simp add: nat_less_iff)

lemma chosen_available_iff:
  "pick_index r cs = Inr (Some i) \<Longrightarrow> cp_available (cs ! nat i) \<longleftrightarrow> (\<exists>c \<in> set cs. cp_available c)"
  using chosen_member prefers_available by blast

end

text \<open>A scan over the indices of a list finds the first available index of least score.\<close>

lemma scan_indices:
  assumes "scan skip f [0..<n] None = Some (m, x)"
  shows "m < n \<and> \<not> skip m \<and> (\<forall>j < n. \<not> skip j \<longrightarrow> f m \<le> f j) \<and> (\<forall>j < m. \<not> skip j \<longrightarrow> f m < f j)"
proof -
  let ?xs = "filter (\<lambda>i. \<not> skip i) [0..<n]"
  from assms have m: "min_by f ?xs = Inr m" by (auto simp: scan_min_by split: sum.splits)
  then have mem: "m < n \<and> \<not> skip m" using min_by_in_set [OF m] by auto
  moreover have "\<forall>j < n. \<not> skip j \<longrightarrow> f m \<le> f j" using min_by_le [OF m] by auto
  moreover have "f m < f j" if "j < m" "\<not> skip j" for j
  proof -
    obtain pre post where split: "?xs = pre @ m # post" and pre: "\<forall>x \<in> set pre. f m < f x"
      using min_by_first_least [OF m] by (auto simp: first_least_def)
    have "sorted_wrt (<) (pre @ m # post)" unfolding split [symmetric] by (intro sorted_wrt_filter sorted_wrt_upt)
    then have "\<forall>x \<in> set post. m < x" by (simp add: sorted_wrt_append)
    moreover have "j \<in> set (pre @ m # post)" using that mem by (simp flip: split)
    ultimately have "j \<in> set pre" using that by auto
    with pre show ?thesis by blast
  qed
  ultimately show ?thesis by blast
qed

lemma scan_None: "scan skip f [0..<n] None = None \<longleftrightarrow> (\<forall>i < n. skip i)"
proof -
  have "scan skip f [0..<n] None = None \<longleftrightarrow> filter (\<lambda>i. \<not> skip i) [0..<n] = []"
    by (auto simp: scan_min_by min_by_def split: list.splits)
  then show ?thesis by (auto simp: filter_empty_conv)
qed

lemma first_least_in_set: "first_least f xs m \<Longrightarrow> m \<in> set xs"
  by (auto simp: first_least_def)

lemma scan_fallback:
  assumes "0 < n"
  shows "\<exists>m. scan (\<lambda>i. False) f [1..<n] (Some (0, f 0)) = Some (m, f m) \<and> m < n"
proof -
  let ?m = "fold (\<lambda>z best. if f z < f best then z else best) [1..<n] 0"
  have "scan (\<lambda>i. False) f [1..<n] (Some (0, f 0)) = Some (?m, f ?m)"
    using scan_fold [of "\<lambda>i. False" f "[1..<n]" 0] by (simp add: Let_def)
  moreover have "?m \<in> set (0 # [1..<n])"
    by (rule first_least_in_set [OF fold_first_least])
  ultimately show ?thesis using assms by auto
qed

lemma ChoosePlacement_available:
  assumes "request = \<lparr>pq_request_id = a, pq_tenant_id = b, pq_model_id = d, pq_sla_class = sla,
      pq_policy_name = e, pq_candidates = map grpc_candidate_of cs\<rparr>"
    and "\<exists>c \<in> set cs. cp_available c"
  shows "\<exists>i < length cs. pe_chosen_index (ChoosePlacement request) = int i \<and> cp_available (cs ! i) \<and>
    (\<forall>j < length cs. cp_available (cs ! j) \<longrightarrow>
       grpc_score sla (grpc_candidate_of (cs ! i)) \<le> grpc_score sla (grpc_candidate_of (cs ! j)))"
proof -
  let ?gs = "map grpc_candidate_of cs"
  let ?skip = "\<lambda>i. \<not> gc_available (?gs ! i)" and ?f = "\<lambda>i. grpc_score sla (?gs ! i)"
  have skip: "i < length cs \<Longrightarrow> ?skip i \<longleftrightarrow> \<not> cp_available (cs ! i)" for i
    by (simp add: grpc_candidate_of_def)
  obtain j where j: "j < length cs" "cp_available (cs ! j)"
    using assms(2) by (auto simp: in_set_conv_nth)
  then have "\<not> ?skip j" using skip by simp
  with j(1) have "scan ?skip ?f [0..<length cs] None \<noteq> None" unfolding scan_None by blast
  then obtain m x where m: "scan ?skip ?f [0..<length cs] None = Some (m, x)" by auto
  have "cs \<noteq> []" using assms(2) by auto
  with assms(1) m have "pe_chosen_index (ChoosePlacement request) = int m"
    by (simp add: ChoosePlacement_def)
  moreover note best = scan_indices [OF m]
  moreover have "cp_available (cs ! m)"
  proof -
    have "m < length cs" and "\<not> ?skip m" using best by blast+
    then show ?thesis using skip [of m] by blast
  qed
  moreover have "?f m \<le> ?f j" if "j < length cs" "cp_available (cs ! j)" for j
  proof -
    have "\<not> ?skip j" using skip that by simp
    with best that show ?thesis by blast
  qed
  ultimately show ?thesis by auto
qed

text \<open>The bridge to the C++ core.\<close>

definition cpp_score :: "int \<Rightarrow> candidate_placement \<Rightarrow> pyfloat" where
  "cpp_score sla_priority c =
     estimated_total_latency_ms c * (if sla_priority = 3 then 1.5 else if sla_priority = 2 then 1.1 else 0.8)
     + cp_queue_delay_ms c * 0.1 + cp_network_cost c * 18
     + cp_accelerator_cost_per_1m_tokens c * (if sla_priority = 3 then 0.2 else 0.6)
     + cp_fairness_penalty c * 120 - cp_expected_cache_hit_ratio c * 450 - cp_topology_affinity c * 90"

definition cpp_index :: "int \<Rightarrow> candidate_placement list \<Rightarrow> int" where
  "cpp_index sla_priority cs =
     choose_candidate (map estimated_total_latency_ms cs) (map cp_queue_delay_ms cs)
       (map cp_expected_cache_hit_ratio cs) (map cp_topology_affinity cs) (map cp_network_cost cs)
       (map cp_accelerator_cost_per_1m_tokens cs) (map cp_fairness_penalty cs)
       (map (\<lambda>c. if cp_available c then 1 else 0) cs) (int (length cs)) sla_priority"

lemma scan_cong:
  "(\<And>i. i \<in> set is \<Longrightarrow> skip i = skip' i) \<Longrightarrow> (\<And>i. i \<in> set is \<Longrightarrow> f i = f' i) \<Longrightarrow>
     scan skip f is best = scan skip' f' is best"
  unfolding scan_def by (intro fold_cong) (auto simp: scan_step_def fun_eq_iff split: option.splits)

lemma cpp_index_scan:
  assumes "cs \<noteq> []"
  shows "cpp_index k cs =
    (case scan (\<lambda>i. \<not> cp_available (cs ! i)) (\<lambda>i. cpp_score k (cs ! i)) [0..<length cs] None of
       Some (i, _) \<Rightarrow> int i
     | None \<Rightarrow> (case scan (\<lambda>i. False) (\<lambda>i. estimated_total_latency_ms (cs ! i)) [1..<length cs]
           (Some (0, estimated_total_latency_ms (cs ! 0))) of Some (i, _) \<Rightarrow> int i | None \<Rightarrow> 0))"
proof -
  let ?lat = "map estimated_total_latency_ms cs"
  have "scan (\<lambda>i. map (\<lambda>c. if cp_available c then 1 else 0) cs ! i = (0::int))
      (\<lambda>i. ?lat ! i * (if k = 3 then 1.5 else if k = 2 then 1.1 else 0.8) + map cp_queue_delay_ms cs ! i * 0.1
         + map cp_network_cost cs ! i * 18
         + map cp_accelerator_cost_per_1m_tokens cs ! i * (if k = 3 then 0.2 else 0.6)
         + map cp_fairness_penalty cs ! i * 120 - map cp_expected_cache_hit_ratio cs ! i * 450
         - map cp_topology_affinity cs ! i * 90) [0..<length cs] None =
    scan (\<lambda>i. \<not> cp_available (cs ! i)) (\<lambda>i. cpp_score k (cs ! i)) [0..<length cs] None"
    by (rule scan_cong) (simp_all add: cpp_score_def)
  moreover have "scan (\<lambda>i. False) (\<lambda>i. ?lat ! i) [1..<length cs] (Some (0, ?lat ! 0)) =
    scan (\<lambda>i. False) (\<lambda>i. estimated_total_latency_ms (cs ! i)) [1..<length cs]
      (Some (0, estimated_total_latency_ms (cs ! 0)))"
    using assms by (simp, intro scan_cong) simp_all
  ultimately show ?thesis
    using assms by (simp only: cpp_index_def choose_candidate_def Let_def nat_int) simp
qed

lemma cpp_index_range:
  assumes "cs \<noteq> []"
  shows "0 \<le> cpp_index k cs \<and> cpp_index k cs < int (length cs) \<and>
    ((\<exists>c \<in> set cs. cp_available c) \<longrightarrow> cp_available (cs ! nat (cpp_index k cs)) \<and>
       (\<forall>c \<in> set cs. cp_available c \<longrightarrow> cpp_score k (cs ! nat (cpp_index k cs)) \<le> cpp_score k c))"
proof (cases "scan (\<lambda>i. \<not> cp_available (cs ! i)) (\<lambda>i. cpp_score k (cs ! i)) [0..<length cs] None")
  case None
  then have "\<forall>i < length cs. \<not> cp_available (cs ! i)" by (simp add: scan_None)
  then have "\<not> (\<exists>c \<in> set cs. cp_available c)" by (auto simp: in_set_conv_nth)
  moreover obtain m where "scan (\<lambda>i. False) (\<lambda>i. estimated_total_latency_ms (cs ! i)) [1..<length cs]
      (Some (0, estimated_total_latency_ms (cs ! 0))) = Some (m, estimated_total_latency_ms (cs ! m))"
    and "m < length cs"
    using scan_fallback [of "length cs" "\<lambda>i. estimated_total_latency_ms (cs ! i)"] assms by auto
  ultimately show ?thesis using cpp_index_scan [OF assms] None by simp
next
  case (Some best)
  then obtain m x where m: "scan (\<lambda>i. \<not> cp_available (cs ! i)) (\<lambda>i. cpp_score k (cs ! i)) [0..<length cs] None =
      Some (m, x)" by (cases best) auto
  have "cpp_index k cs = int m" using cpp_index_scan [OF assms] m by simp
  with scan_indices [OF m] show ?thesis by (auto simp: in_set_conv_nth)
qed

lemma cpp_choose_index:
  assumes "cs \<noteq> []"
  shows "cpp_choose (Some choose_candidate) r cs = Some (cpp_index (dict_get 2 SLA_PRIORITY (rq_sla_class r)) cs)"
  using assms cpp_index_range [OF assms, of "dict_get 2 SLA_PRIORITY (rq_sla_class r)"]
  by (simp add: cpp_choose_def cpp_index_def Let_def)

lemma cpp_choose_Nil: "cpp_choose lib r [] = None"
  by (simp add: cpp_choose_def split: option.splits)

interpretation cpp: index_scheduler "\<lambda>r cs. Inr (cpp_choose (Some choose_candidate) r cs)"
proof unfold_locales
  fix r cs i
  assume "(Inr (cpp_choose (Some choose_candidate) r cs) :: int option result) = Inr (Some i)"
  then have i: "cpp_choose (Some choose_candidate) r cs = Some i" by simp
  then have "cs \<noteq> []" by (auto simp: cpp_choose_Nil)
  then show "0 \<le> i \<and> i < int (length cs)" and "\<exists>c \<in> set cs. cp_available c \<Longrightarrow> cp_available (cs ! nat i)"
    using i cpp_index_range [of cs "dict_get 2 SLA_PRIORITY (rq_sla_class r)"] by (auto simp: cpp_choose_index)
qed

text \<open>The client connected to the servicer of this repository.\<close>

definition local_stub :: grpc_stub where
  "local_stub = Some (\<lambda>request. Inr (ChoosePlacement request))"

lemma grpc_choose_local:
  assumes "\<exists>c \<in> set cs. cp_available c"
  shows "\<exists>i < length cs. grpc_choose local_stub r cs = Inr (Some (int i)) \<and> cp_available (cs ! i) \<and>
    (\<forall>j < length cs. cp_available (cs ! j) \<longrightarrow>
       grpc_score (rq_sla_class r) (grpc_candidate_of (cs ! i))
         \<le> grpc_score (rq_sla_class r) (grpc_candidate_of (cs ! j)))"
proof -
  let ?q = "\<lparr>pq_request_id = rq_request_id r, pq_tenant_id = rq_tenant_id r, pq_model_id = rq_model_id r,
    pq_sla_class = rq_sla_class r, pq_policy_name = ''grpc'', pq_candidates = map grpc_candidate_of cs\<rparr>"
  obtain i where "i < length cs" and "pe_chosen_index (ChoosePlacement ?q) = int i" and "cp_available (cs ! i)"
    and "\<forall>j < length cs. cp_available (cs ! j) \<longrightarrow>
       grpc_score (rq_sla_class r) (grpc_candidate_of (cs ! i))
         \<le> grpc_score (rq_sla_class r) (grpc_candidate_of (cs ! j))"
    using ChoosePlacement_available [OF refl assms] by blast
  then show ?thesis by (intro exI [of _ i]) (simp add: grpc_choose_def local_stub_def)
qed

interpretation grpc: index_scheduler "grpc_choose local_stub"
proof unfold_locales
  fix r cs i
  assume i: "grpc_choose local_stub r cs = Inr (Some i)"
  then show "0 \<le> i \<and> i < int (length cs)"
    by (auto simp: grpc_choose_def local_stub_def split: if_splits)
  assume "\<exists>c \<in> set cs. cp_available c"
  from grpc_choose_local [OF this, of r] i show "cp_available (cs ! nat i)" by auto
qed

section \<open>Properties\<close>

text \<open>
  C39: when some candidate is available, the gRPC client connected to the servicer returns the
  index of an available candidate whose servicer score is least among the available ones.
\<close>

theorem grpc_choice_optimal:
  assumes "\<exists>c \<in> set cs. cp_available c"
  shows "\<exists>i < length cs. grpc_choose local_stub r cs = Inr (Some (int i)) \<and> cp_available (cs ! i) \<and>
    (\<forall>j < length cs. cp_available (cs ! j) \<longrightarrow>
       grpc_score (rq_sla_class r) (grpc_candidate_of (cs ! i))
         \<le> grpc_score (rq_sla_class r) (grpc_candidate_of (cs ! j)))"
  by (rule grpc_choose_local [OF assms])

theorem grpc_choice_optimal_witness:
  "\<exists>i < length demo_candidates. grpc_choose local_stub demo_request demo_candidates = Inr (Some (int i)) \<and>
     cp_available (demo_candidates ! i)"
proof -
  have "\<exists>c \<in> set demo_candidates. cp_available c" by (simp add: demo_candidates_def demo_candidate_def)
  from grpc_choice_optimal [OF this, of demo_request] show ?thesis by blast
qed

text \<open>
  the C++ core, called through the bridge on at least one candidate, always returns an index
  in range; if some candidate is available the index names an available one of least score.
\<close>

theorem cpp_choice_optimal:
  assumes "cs \<noteq> []"
  shows "\<exists>i. cpp_choose (Some choose_candidate) r cs = Some i \<and> 0 \<le> i \<and> i < int (length cs) \<and>
    ((\<exists>c \<in> set cs. cp_available c) \<longrightarrow> cp_available (cs ! nat i) \<and>
       (\<forall>c \<in> set cs. cp_available c \<longrightarrow>
          cpp_score (dict_get 2 SLA_PRIORITY (rq_sla_class r)) (cs ! nat i)
            \<le> cpp_score (dict_get 2 SLA_PRIORITY (rq_sla_class r)) c))"
  using cpp_choose_index [OF assms, of r] cpp_index_range [OF assms] by simp

theorem cpp_choice_optimal_witness:
  "\<exists>i. cpp_choose (Some choose_candidate) demo_request demo_candidates = Some i \<and> 0 \<le> i \<and> i < 3 \<and>
     cp_available (demo_candidates ! nat i)"
proof -
  have "demo_candidates \<noteq> []" and "\<exists>c \<in> set demo_candidates. cp_available c" and "length demo_candidates = 3"
    by (simp_all add: demo_candidates_def demo_candidate_def)
  with cpp_choice_optimal [OF this(1), of demo_request] show ?thesis by auto
qed

text \<open>
  With no candidate available the two differ: the servicer names the first candidate, the C++
  core the one of least estimated latency.
\<close>

lemma unavailable_choices_differ:
  "grpc_choose local_stub demo_request [demo_candidate ''a'' 9 False, demo_candidate ''b'' 5 False] = Inr (Some 0)"
  "cpp_choose (Some choose_candidate) demo_request [demo_candidate ''a'' 9 False, demo_candidate ''b'' 5 False] = Some 1"
  by (simp_all add: grpc_choose_def local_stub_def ChoosePlacement_def grpc_candidate_of_def scan_def
      scan_step_def demo_candidate_def cpp_choose_def choose_candidate_def estimated_total_latency_ms_def
      upt_conv_Cons Let_def)

text \<open>
  The scoring engine writes its three values into every candidate's breakdown and changes
  nothing else.
\<close>

lemma annotate_keeps:
  "cp_score_breakdown_update (\<lambda>_. []) (annotate c v) = cp_score_breakdown_update (\<lambda>_. []) c"
  by (cases v) (simp add: annotate_def)

lemma annotate_all_keeps:
  "map (cp_score_breakdown_update (\<lambda>_. [])) (annotate_all cs bs ts ls) = map (cp_score_breakdown_update (\<lambda>_. [])) cs"
  by (induction cs bs ts ls rule: annotate_all.induct) (simp_all add: annotate_keeps)

lemma enrich_keeps:
  "map (cp_score_breakdown_update (\<lambda>_. [])) (enrich_candidates gpu cs) = map (cp_score_breakdown_update (\<lambda>_. [])) cs"
  by (simp add: enrich_candidates_def Let_def annotate_all_keeps split: option.splits)

lemma enrich_fields:
  assumes "\<And>c b. f (cp_score_breakdown_update (\<lambda>_. b) c) = f c"
  shows "map f (enrich_candidates gpu cs) = map f cs"
proof -
  have "f = f \<circ> cp_score_breakdown_update (\<lambda>_. [])" using assms by (simp add: fun_eq_iff)
  then show ?thesis by (metis enrich_keeps map_map)
qed

lemma enrich_length [simp]: "length (enrich_candidates gpu cs) = length cs"
  using enrich_keeps [THEN arg_cong, of length] by simp

definition cpu_annotation :: "candidate_placement \<Rightarrow> pyfloat \<times> pyfloat \<times> pyfloat" where
  "cpu_annotation c =
     (py_round 4 (cp_expected_cache_hit_ratio c * (1 + of_int (cp_expected_cache_saved_tokens c) / 8192)),
      py_round 4 (max 0 (cp_network_cost c - cp_topology_affinity c)),
      py_round 4 (cp_queue_delay_ms c / 1000 + cp_congestion_score c + max 0 (1 - cp_memory_headroom_gb c / 64)))"

lemma enrich_cpu: "enrich_candidates None cs = map (\<lambda>c. annotate c (cpu_annotation c)) cs"
  by (induction cs)
     (simp_all add: enrich_candidates_def cache_bonus_def topology_penalty_def load_penalty_def
        cpu_annotation_def Let_def)

end
