(* ===== verification/Csv.thy ===== *)
theory Csv
  imports PyStrings
begin

text \<open>
  What the sources use of the \<open>csv\<close> module in its default dialect: the writer behind
  \<open>csv.DictWriter\<close> (a field is quoted when it contains the delimiter, a quote or a line break, and
  quotes are doubled; records end in CR LF) and the state machine behind \<open>csv.DictReader\<close> on a text
  file opened with universal newlines. The lemmas show that reading what was written gives the
  records back.
\<close>

section \<open>Writing\<close>

definition quote :: char where
  "quote = CHR 0x22"

definition CR :: char where
  "CR = CHR 0x0D"

definition LF :: char where
  "LF = CHR 0x0A"

lemma csv_chars [simp]:
  "quote \<noteq> CR" "CR \<noteq> quote" "quote \<noteq> LF" "LF \<noteq> quote" "CR \<noteq> LF" "LF \<noteq> CR"
  "CHR '','' \<noteq> quote" "quote \<noteq> CHR '',''" "CHR '','' \<noteq> CR" "CR \<noteq> CHR '',''" "CHR '','' \<noteq> LF" "LF \<noteq> CHR '',''"
  by (simp_all add: quote_def CR_def LF_def)

definition needs_quotes :: "string \<Rightarrow> bool" where
  "needs_quotes s \<longleftrightarrow> list_ex (\<lambda>c. c = CHR '','' \<or> c = quote \<or> c = CR \<or> c = LF) s"

definition double_quotes :: "string \<Rightarrow> string" where
  "double_quotes s = concat (map (\<lambda>c. if c = quote then [quote, quote] else [c]) s)"

definition csv_field :: "string \<Rightarrow> string" where
  "csv_field s = (if needs_quotes s then quote # double_quotes s @ [quote] else s)"

fun csv_fields :: "string list \<Rightarrow> string" where
  "csv_fields [] = []"
| "csv_fields [s] = csv_field s"
| "csv_fields (s # t # ss) = csv_field s @ '','' @ csv_fields (t # ss)"

text \<open>A record of one empty field is written as a quoted empty field.\<close>

definition csv_record :: "string list \<Rightarrow> string" where
  "csv_record fields = (if fields = [[]] then [quote, quote] else csv_fields fields) @ [CR, LF]"

section \<open>Reading\<close>

text \<open>Universal newlines: CR LF and CR are read as LF.\<close>

fun universal_newlines :: "string \<Rightarrow> string" where
  "universal_newlines [] = []"
| "universal_newlines [c] = (if c = CR then [LF] else [c])"
| "universal_newlines (c # d # s) =
     (if c = CR then (if d = LF then LF # universal_newlines s else LF # universal_newlines (d # s))
      else c # universal_newlines (d # s))"

text \<open>
  The states of the reader; the record read so far and the field read so far accompany them.
  An empty line is an empty record.
\<close>

datatype csv_state = StartRecord | StartField | InField | InQuotedField | QuoteInQuotedField

fun csv_read :: "csv_state \<Rightarrow> string list \<Rightarrow> string \<Rightarrow> string \<Rightarrow> string list list" where
  "csv_read st rec fld [] = (if st = StartRecord then [] else [rec @ [fld]])"
| "csv_read StartRecord rec fld (c # s) =
     (if c = LF then [] # csv_read StartRecord [] [] s
      else if c = quote then csv_read InQuotedField [] [] s
      else if c = CHR '','' then csv_read StartField [[]] [] s
      else csv_read InField [] [c] s)"
| "csv_read StartField rec fld (c # s) =
     (if c = LF then (rec @ [[]]) # csv_read StartRecord [] [] s
      else if c = quote then csv_read InQuotedField rec [] s
      else if c = CHR '','' then csv_read StartField (rec @ [[]]) [] s
      else csv_read InField rec [c] s)"
| "csv_read InField rec fld (c # s) =
     (if c = LF then (rec @ [fld]) # csv_read StartRecord [] [] s
      else if c = CHR '','' then csv_read StartField (rec @ [fld]) [] s
      else csv_read InField rec (fld @ [c]) s)"
| "csv_read InQuotedField rec fld (c # s) =
     (if c = quote then csv_read QuoteInQuotedField rec fld s
      else csv_read InQuotedField rec (fld @ [c]) s)"
| "csv_read QuoteInQuotedField rec fld (c # s) =
     (if c = quote then csv_read InQuotedField rec (fld @ [quote]) s
      else if c = CHR '','' then csv_read StartField (rec @ [fld]) [] s
      else if c = LF then (rec @ [fld]) # csv_read StartRecord [] [] s
      else csv_read InField rec (fld @ [c]) s)"

definition csv_reader :: "string \<Rightarrow> string list list" where
  "csv_reader content = csv_read StartRecord [] [] (universal_newlines content)"

text \<open>
  \<open>csv.DictReader\<close>: the first record names the columns; of the others the empty ones are skipped
  and a short one is filled with \<open>None\<close>. What a long record has beyond the columns is filed under
  the key \<open>None\<close>, which no caller reads.
\<close>

type_synonym csv_row = "(string, string option) dict"

definition dict_row :: "string list \<Rightarrow> string list \<Rightarrow> csv_row" where
  "dict_row fieldnames record =
     fold (\<lambda>(k, v). AList.update k v)
       (zip fieldnames (map Some record @ replicate (length fieldnames - length record) None)) []"

definition DictReader :: "string \<Rightarrow> string list \<times> csv_row list" where
  "DictReader content =
     (case csv_reader content of
        [] \<Rightarrow> ([], [])
      | fieldnames # records \<Rightarrow> (fieldnames, map (dict_row fieldnames) (filter (\<lambda>r. r \<noteq> []) records)))"

text \<open>\<open>DictWriter.writerow\<close> with one value per column, and the header record.\<close>

definition csv_text :: "string list list \<Rightarrow> string" where
  "csv_text records = concat (map csv_record records)"

section \<open>Reading back what was written\<close>

lemma universal_newlines_plain:
  "CR \<notin> set s \<Longrightarrow> universal_newlines (s @ [CR, LF] @ t) = s @ LF # universal_newlines t"
proof (induction s rule: universal_newlines.induct)
  case (2 c)
  then show ?case by (cases t) auto
next
  case (3 c d s)
  then show ?case by auto
qed simp

text \<open>A quoted field is read back, up to the closing quote.\<close>

lemma csv_read_quoted:
  "csv_read InQuotedField rec fld (double_quotes s @ quote # t) = csv_read QuoteInQuotedField rec (fld @ s) t"
  by (induction s arbitrary: fld) (simp_all add: double_quotes_def)

lemma needs_quotes_Cons [simp]:
  "needs_quotes (c # s) \<longleftrightarrow> c = CHR '','' \<or> c = quote \<or> c = CR \<or> c = LF \<or> needs_quotes s"
  by (simp add: needs_quotes_def)

lemma csv_read_plain:
  "\<not> needs_quotes s \<Longrightarrow> csv_read InField rec fld (s @ t) = csv_read InField rec (fld @ s) t"
  by (induction s arbitrary: fld) simp_all

text \<open>After a field comes a comma or the end of the record.\<close>

lemma csv_read_field_comma:
  assumes "st = StartRecord \<and> rec = [] \<or> st = StartField"
  shows "csv_read st rec [] (csv_field s @ CHR '','' # t) = csv_read StartField (rec @ [s]) [] t"
proof (cases "needs_quotes s")
  case True
  with assms show ?thesis
    by (auto simp: csv_field_def csv_read_quoted)
next
  case False
  with assms show ?thesis by (cases s) (auto simp: csv_field_def csv_read_plain)
qed

lemma csv_read_field_end:
  assumes "st = StartRecord \<and> rec = [] \<and> s \<noteq> [] \<or> st = StartField"
  shows "csv_read st rec [] (csv_field s @ LF # t) = (rec @ [s]) # csv_read StartRecord [] [] t"
proof (cases "needs_quotes s")
  case True
  with assms show ?thesis
    by (auto simp: csv_field_def csv_read_quoted)
next
  case False
  with assms show ?thesis by (cases s) (auto simp: csv_field_def csv_read_plain)
qed

lemma csv_read_fields:
  assumes "fields \<noteq> []" and "st = StartRecord \<and> rec = [] \<and> fields \<noteq> [[]] \<or> st = StartField"
  shows "csv_read st rec [] (csv_fields fields @ LF # t) = (rec @ fields) # csv_read StartRecord [] [] t"
  using assms
proof (induction fields arbitrary: st rec rule: csv_fields.induct)
  case (2 s)
  then show ?case by (auto simp: csv_read_field_end)
next
  case (3 s u ss)
  then have "csv_read st rec [] (csv_field s @ CHR '','' # csv_fields (u # ss) @ LF # t) =
      csv_read StartField (rec @ [s]) [] (csv_fields (u # ss) @ LF # t)"
    by (intro csv_read_field_comma) auto
  with "3.IH" [of StartField "rec @ [s]"] show ?case by simp
qed simp

lemma csv_fields_no_CR: "\<forall>s \<in> set fields. CR \<notin> set s \<Longrightarrow> CR \<notin> set (csv_fields fields)"
  by (induction fields rule: csv_fields.induct)
     (auto simp: csv_field_def double_quotes_def split: if_splits)

definition plain_record :: "string list \<Rightarrow> bool" where
  "plain_record fields \<longleftrightarrow> fields \<noteq> [] \<and> (\<forall>s \<in> set fields. CR \<notin> set s)"

lemma csv_reader_record:
  assumes "plain_record fields"
  shows "csv_reader (csv_record fields @ t) = fields # csv_reader t"
proof (cases "fields = [[]]")
  case True
  then show ?thesis using universal_newlines_plain [of "[quote, quote]" t]
    by (simp add: csv_record_def csv_reader_def)
next
  case False
  with assms have "csv_reader (csv_record fields @ t) =
      csv_read StartRecord [] [] (csv_fields fields @ LF # universal_newlines t)"
    using universal_newlines_plain [OF csv_fields_no_CR, of fields t] by (simp add: csv_record_def csv_reader_def plain_record_def)
  with False assms csv_read_fields [of fields StartRecord "[]"] show ?thesis
    by (simp add: plain_record_def csv_reader_def)
qed

lemma csv_reader_text: "\<forall>r \<in> set records. plain_record r \<Longrightarrow> csv_reader (csv_text records) = records"
proof (induction records)
  case Nil
  then show ?case by (simp add: csv_text_def csv_reader_def)
next
  case (Cons r records)
  then have "csv_reader (csv_record r @ csv_text records) = r # csv_reader (csv_text records)"
    by (intro csv_reader_record) simp
  with Cons show ?case by (simp add: csv_text_def)
qed

lemma dict_row_lookup:
  assumes "distinct fieldnames" and "length record = length fieldnames" and "i < length fieldnames"
  shows "map_of (dict_row fieldnames record) (fieldnames ! i) = Some (Some (record ! i))"
proof -
  have fold_lookup: "map_of (fold (\<lambda>(k, v). AList.update k v) kvs d) k =
      (case map_of (rev kvs) k of None \<Rightarrow> map_of d k | Some v \<Rightarrow> Some v)" for kvs d and k :: 'a
    by (induction kvs arbitrary: d) (auto simp: dict_simps map_add_def split: option.splits)
  have "map_of (rev (zip fieldnames (map Some record))) (fieldnames ! i) = Some (Some (record ! i))"
    using assms by (intro map_of_is_SomeI) (auto simp: rev_map [symmetric] in_set_zip)
  with assms(2) show ?thesis by (simp add: dict_row_def fold_lookup)
qed

text \<open>Reading a written table gives its columns and its records.\<close>

lemma DictReader_text:
  assumes "plain_record fieldnames" and "\<forall>r \<in> set records. plain_record r"
  shows "DictReader (csv_text (fieldnames # records)) = (fieldnames, map (dict_row fieldnames) records)"
proof -
  have "csv_reader (csv_text (fieldnames # records)) = fieldnames # records"
    using assms by (intro csv_reader_text) simp
  moreover have "filter (\<lambda>r. r \<noteq> []) records = records"
    using assms(2) by (auto simp: plain_record_def filter_id_conv)
  ultimately show ?thesis by (simp add: DictReader_def)
qed

end
