(* ===== verification/PyJson.thy ===== *)
theory PyJson
  imports Csv
begin

text \<open>
  The standard library's \<open>json\<close> module as the sources use it: \<open>json.dumps\<close> with the options \<open>indent\<close>
  and \<open>sort_keys\<close>, and \<open>json.loads\<close>. Writer and reader follow the module's own grammar: the escapes of
  \<open>ensure_ascii\<close>, the separators with and without an indent, insignificant white space, the number
  pattern, and dictionaries in which the last of several equal keys wins. How a float is written and read
  is the parameter \<open>float_text\<close>, because the digits of \<open>repr\<close> depend on the binary format; what is used
  of it is that the text is a number literal that is read back. The guards on lengths in the reader are
  there for termination and never fail. The lemmas show that reading inverts writing and that a document
  written without an indent is one line.
\<close>

record float_text =
  ft_repr :: "pyfloat \<Rightarrow> string"
  ft_float :: "string \<Rightarrow> pyfloat option"

section \<open>Writing\<close>

definition backslash :: char where
  "backslash = CHR 0x5C"

definition hex_digit :: "nat \<Rightarrow> char" where
  "hex_digit n = ''0123456789abcdef'' ! n"

text \<open>\<open>ESCAPE_DCT\<close>.\<close>

definition ESCAPES :: "(char \<times> char) list" where
  "ESCAPES = [(backslash, backslash), (quote, quote), (CHR 0x08, CHR ''b''), (CHR 0x0C, CHR ''f''), (LF, CHR ''n''),
     (CR, CHR ''r''), (CHR 0x09, CHR ''t'')]"

definition escape_char :: "char \<Rightarrow> string" where
  "escape_char c =
     (case map_of ESCAPES c of
        Some e \<Rightarrow> [backslash, e]
      | None \<Rightarrow>
          let n = of_char c :: nat
          in if 32 \<le> n \<and> n \<le> 126 then [c] else backslash # ''u00'' @ [hex_digit (n div 16), hex_digit (n mod 16)])"

definition json_string :: "string \<Rightarrow> string" where
  "json_string s = quote # concat (map escape_char s) @ [quote]"

fun join :: "string \<Rightarrow> string list \<Rightarrow> string" where
  "join sep [] = []"
| "join sep [x] = x"
| "join sep (x # y # xs) = x @ sep @ join sep (y # xs)"

definition newline_indent :: "nat \<Rightarrow> nat \<Rightarrow> string" where
  "newline_indent indent level = LF # replicate (indent * level) (CHR '' '')"

text \<open>The items of a list or dictionary between its brackets, on one line or indented.\<close>

definition enclose :: "nat option \<Rightarrow> nat \<Rightarrow> char \<Rightarrow> char \<Rightarrow> string list \<Rightarrow> string" where
  "enclose indent level opening closing items =
     (if items = [] then [opening, closing]
      else case indent of
          None \<Rightarrow> opening # join '', '' items @ [closing]
        | Some n \<Rightarrow> opening # newline_indent n (Suc level) @ join (CHR '','' # newline_indent n (Suc level)) items @
            newline_indent n level @ [closing])"

fun dump :: "float_text \<Rightarrow> nat option \<Rightarrow> nat \<Rightarrow> json \<Rightarrow> string" where
  "dump ft indent level JNull = ''null''"
| "dump ft indent level (JBool b) = (if b then ''true'' else ''false'')"
| "dump ft indent level (JInt k) = show_int k"
| "dump ft indent level (JFloat x) = ft_repr ft x"
| "dump ft indent level (JStr s) = json_string s"
| "dump ft indent level (JList vs) = enclose indent level (CHR ''['') (CHR '']'') (map (dump ft indent (Suc level)) vs)"
| "dump ft indent level (JDict d) =
     enclose indent level (CHR ''{'') (CHR ''}'')
       (map (\<lambda>(k, v). json_string k @ '': '' @ dump ft indent (Suc level) v) d)"

text \<open>\<open>sort_keys\<close> sorts the items of every dictionary.\<close>

fun sort_json :: "json \<Rightarrow> json" where
  "sort_json (JList vs) = JList (map sort_json vs)"
| "sort_json (JDict d) = JDict (sort_key fst (map (\<lambda>(k, v). (k, sort_json v)) d))"
| "sort_json v = v"

definition dumps :: "float_text \<Rightarrow> nat option \<Rightarrow> bool \<Rightarrow> json \<Rightarrow> string" where
  "dumps ft indent sort_keys v = dump ft indent 0 (if sort_keys then sort_json v else v)"

section \<open>Reading\<close>

definition json_space :: "char \<Rightarrow> bool" where
  "json_space c \<longleftrightarrow> c \<in> {CHR '' '', CHR 0x09, LF, CR}"

definition skip_space :: "string \<Rightarrow> string" where
  "skip_space s = dropWhile json_space s"

definition hex_value :: "char \<Rightarrow> nat option" where
  "hex_value c =
     (let n = of_char c :: nat
      in if 48 \<le> n \<and> n \<le> 57 then Some (n - 48) else if 97 \<le> n \<and> n \<le> 102 then Some (n - 87)
         else if 65 \<le> n \<and> n \<le> 70 then Some (n - 55) else None)"

fun hex_number :: "string \<Rightarrow> nat option" where
  "hex_number [] = Some 0"
| "hex_number (c # s) =
     (case (hex_value c, hex_number s) of (Some h, Some n) \<Rightarrow> Some (h * 16 ^ length s + n) | _ \<Rightarrow> None)"

text \<open>\<open>BACKSLASH\<close>.\<close>

definition UNESCAPES :: "(char \<times> char) list" where
  "UNESCAPES = [(quote, quote), (backslash, backslash), (CHR ''/'', CHR ''/''), (CHR ''b'', CHR 0x08),
     (CHR ''f'', CHR 0x0C), (CHR ''n'', LF), (CHR ''r'', CR), (CHR ''t'', CHR 0x09)]"

definition push :: "'a \<Rightarrow> ('a list \<times> string) result \<Rightarrow> ('a list \<times> string) result" where
  "push x r = ebind r (\<lambda>(xs, rest). Inr (x # xs, rest))"

text \<open>The rest of a string literal; code points beyond the characters of the model are left out.\<close>

fun scan_string :: "string \<Rightarrow> (string \<times> string) result" where
  "scan_string [] = Inl (ValueError ''Unterminated string'')"
| "scan_string (c # s) =
     (if c = quote then Inr ([], s)
      else if c = backslash then
        (case s of
           [] \<Rightarrow> Inl (ValueError ''Unterminated string'')
         | e # r \<Rightarrow>
             if e = CHR ''u'' then
               (if length r < 4 then Inl (ValueError ''Invalid uXXXX escape'')
                else case hex_number (take 4 r) of
                  None \<Rightarrow> Inl (ValueError ''Invalid uXXXX escape'')
                | Some n \<Rightarrow> if n < 256 then push (char_of n) (scan_string (drop 4 r)) else Inl (Untyped ''str''))
             else case map_of UNESCAPES e of
                 None \<Rightarrow> Inl (ValueError ''Invalid escape'')
               | Some x \<Rightarrow> push x (scan_string r))
      else if (of_char c :: nat) < 32 then Inl (ValueError ''Invalid control character'')
      else push c (scan_string s))"

text \<open>\<open>NUMBER_RE\<close>: an integer part, a fraction and an exponent.\<close>

definition scan_sign :: "string \<Rightarrow> string \<times> string" where
  "scan_sign s = (case s of [] \<Rightarrow> ([], []) | c # r \<Rightarrow> if c = CHR ''-'' then ([c], r) else ([], s))"

definition scan_int :: "string \<Rightarrow> (string \<times> string) option" where
  "scan_int s =
     (case s of [] \<Rightarrow> None
      | c # r \<Rightarrow> if c = CHR ''0'' then Some ([c], r)
               else if is_digit c then Some (takeWhile is_digit s, dropWhile is_digit s) else None)"

definition scan_frac :: "string \<Rightarrow> string \<times> string" where
  "scan_frac s =
     (case s of [] \<Rightarrow> ([], [])
      | c # r \<Rightarrow> if c = CHR ''.'' \<and> takeWhile is_digit r \<noteq> [] then (c # takeWhile is_digit r, dropWhile is_digit r)
               else ([], s))"

definition scan_exp :: "string \<Rightarrow> string \<times> string" where
  "scan_exp s =
     (case s of [] \<Rightarrow> ([], [])
      | e # r \<Rightarrow>
          let (sg, r1) = (case r of [] \<Rightarrow> ([], []) | c # r' \<Rightarrow> if c \<in> {CHR ''+'', CHR ''-''} then ([c], r') else ([], r))
          in if e \<in> {CHR ''e'', CHR ''E''} \<and> takeWhile is_digit r1 \<noteq> []
             then (e # sg @ takeWhile is_digit r1, dropWhile is_digit r1) else ([], s))"

text \<open>The literal, whether it is a float, and the rest.\<close>

definition scan_number :: "string \<Rightarrow> (string \<times> bool \<times> string) option" where
  "scan_number s =
     (let (sg, s1) = scan_sign s
      in case scan_int s1 of None \<Rightarrow> None
         | Some (ip, s2) \<Rightarrow>
             let (fp, s3) = scan_frac s2; (ep, s4) = scan_exp s3
             in Some (sg @ ip @ fp @ ep, fp \<noteq> [] \<or> ep \<noteq> [], s4))"

definition int_literal :: "string \<Rightarrow> int" where
  "int_literal t = (case t of [] \<Rightarrow> 0 | c # r \<Rightarrow> if c = CHR ''-'' then - int (read_nat r) else int (read_nat t))"

definition parse_number :: "float_text \<Rightarrow> string \<Rightarrow> (json \<times> string) result" where
  "parse_number ft s =
     (case scan_number s of
        Some (t, is_float, r) \<Rightarrow>
          if is_float then (case ft_float ft t of None \<Rightarrow> Inl (Untyped ''float'') | Some x \<Rightarrow> Inr (JFloat x, r))
          else Inr (JInt (int_literal t), r)
      | None \<Rightarrow>
          if startswith s ''NaN'' \<or> startswith s ''Infinity'' \<or> startswith s ''-Infinity'' then Inl (Untyped ''float'')
          else Inl (ValueError ''Expecting value''))"

lemma ebind_cong [fundef_cong]:
  "r = r' \<Longrightarrow> (\<And>x. r' = Inr x \<Longrightarrow> f x = g x) \<Longrightarrow> ebind r f = ebind r' g"
  by (cases r') auto

lemma skip_space_length: "length (skip_space s) \<le> length s"
  by (simp add: skip_space_def length_dropWhile_le)

lemma skip_space_tail: "skip_space s = c # r \<Longrightarrow> length r < length s"
  using skip_space_length [of s] by simp

lemma skip_space_le: "length s < n \<Longrightarrow> length (skip_space s) < n"
  using skip_space_length [of s] by linarith

lemma scan_string_shorter: "scan_string s = Inr (t, r) \<Longrightarrow> length r < length s"
proof (induction s arbitrary: t rule: scan_string.induct)
  case (2 c s)
  then show ?case
    by (fastforce simp: push_def result_simps split: if_splits list.splits option.splits)
qed simp

text \<open>The dictionary of the pairs read: later values replace earlier ones of the same key.\<close>

definition dict_of :: "(string \<times> json) list \<Rightarrow> (string, json) dict" where
  "dict_of pairs = fold (\<lambda>(k, v). AList.update k v) pairs []"

function parse_value :: "float_text \<Rightarrow> string \<Rightarrow> (json \<times> string) result"
  and parse_elements :: "float_text \<Rightarrow> string \<Rightarrow> (json list \<times> string) result"
  and parse_members :: "float_text \<Rightarrow> string \<Rightarrow> ((string \<times> json) list \<times> string) result" where
  "parse_value ft s =
     (case s of
        [] \<Rightarrow> Inl (ValueError ''Expecting value'')
      | c # r \<Rightarrow>
          if c = quote then ebind (scan_string r) (\<lambda>(t, r'). Inr (JStr t, r'))
          else if c = CHR ''{'' then
            (if startswith (skip_space r) ''}'' then Inr (JDict [], drop 1 (skip_space r))
             else ebind (parse_members ft (skip_space r)) (\<lambda>(d, r'). Inr (JDict (dict_of d), r')))
          else if c = CHR ''['' then
            (if startswith (skip_space r) '']'' then Inr (JList [], drop 1 (skip_space r))
             else ebind (parse_elements ft (skip_space r)) (\<lambda>(vs, r'). Inr (JList vs, r')))
          else if startswith s ''null'' then Inr (JNull, drop 4 s)
          else if startswith s ''true'' then Inr (JBool True, drop 4 s)
          else if startswith s ''false'' then Inr (JBool False, drop 5 s)
          else parse_number ft s)"
| "parse_elements ft s =
     ebind (parse_value ft s) (\<lambda>(v, r).
       if \<not> length r < length s then Inl (ValueError ''Expecting value'')
       else case skip_space r of
           [] \<Rightarrow> Inl (ValueError ''Expecting comma delimiter'')
         | c # r' \<Rightarrow>
             if c = CHR '']'' then Inr ([v], r')
             else if c = CHR '','' then push v (parse_elements ft (skip_space r'))
             else Inl (ValueError ''Expecting comma delimiter''))"
| "parse_members ft s =
     (case s of
        [] \<Rightarrow> Inl (ValueError ''Expecting property name'')
      | q # s1 \<Rightarrow>
          if q \<noteq> quote then Inl (ValueError ''Expecting property name'')
          else ebind (scan_string s1) (\<lambda>(k, s2).
            case skip_space s2 of
              [] \<Rightarrow> Inl (ValueError ''Expecting colon delimiter'')
            | c # s3 \<Rightarrow>
                if c \<noteq> CHR '':'' then Inl (ValueError ''Expecting colon delimiter'')
                else ebind (parse_value ft (skip_space s3)) (\<lambda>(v, r).
                  if \<not> length r < length s then Inl (ValueError ''Expecting value'')
                  else case skip_space r of
                      [] \<Rightarrow> Inl (ValueError ''Expecting comma delimiter'')
                    | d # r' \<Rightarrow>
                        if d = CHR ''}'' then Inr ([(k, v)], r')
                        else if d = CHR '','' then push (k, v) (parse_members ft (skip_space r'))
                        else Inl (ValueError ''Expecting comma delimiter''))))"
  by pat_completeness auto

termination
proof (relation "measure (\<lambda>x. case x of Inl (ft, s) \<Rightarrow> 2 * length s | Inr (Inl (ft, s)) \<Rightarrow> 2 * length s + 1
    | Inr (Inr (ft, s)) \<Rightarrow> 2 * length s + 1)", goal_cases)
  case 1
  show ?case by simp
next
  case (2 ft s c r)
  then show ?case using skip_space_length [of r] by simp
next
  case (3 ft s c r)
  then show ?case using skip_space_length [of r] by simp
next
  case (4 ft s)
  show ?case by simp
next
  case prems: (5 ft s x v y c r)
  from prems(3) skip_space_tail [OF prems(4)] skip_space_length [of r] show ?case by simp
next
  case prems: (6 ft s q s1 x k s2 c s3)
  from prems(3,4) have "length s2 < length s1" using scan_string_shorter by blast
  with prems(1) skip_space_tail [OF prems(5)] skip_space_length [of s3] show ?case by simp
next
  case prems: (7 ft s q s1 x k s2 c s3 x' v y d r)
  from prems(9) skip_space_tail [OF prems(10)] skip_space_length [of r] show ?case by simp
qed

declare parse_value.simps [simp del] parse_elements.simps [simp del] parse_members.simps [simp del]

definition loads :: "float_text \<Rightarrow> string \<Rightarrow> json result" where
  "loads ft s =
     ebind (parse_value ft (skip_space s)) (\<lambda>(v, r).
       if skip_space r = [] then Inr v else Inl (ValueError ''Extra data''))"

section \<open>Reading inverts writing\<close>

subsection \<open>Strings\<close>

lemma hex_digits: "k < 16 \<Longrightarrow> hex_value (hex_digit k) = Some k"
proof -
  assume "k < 16"
  moreover have "\<forall>k \<in> set [0..<16]. hex_value (hex_digit k) = Some k" by code_simp
  ultimately show ?thesis by simp
qed

lemma hex_escape: "n < 256 \<Longrightarrow> hex_number (''00'' @ [hex_digit (n div 16), hex_digit (n mod 16)]) = Some n"
  using hex_digits [of "n div 16"] hex_digits [of "n mod 16"] by (simp add: hex_value_def)

lemma scan_unicode:
  "hex_number e = Some n \<Longrightarrow> length e = 4 \<Longrightarrow> n < 256 \<Longrightarrow>
    scan_string (backslash # CHR ''u'' # e @ r) = push (char_of n) (scan_string r)"
  by (simp add: quote_def backslash_def)

lemma scan_escaped: "scan_string (escape_char c @ r) = push c (scan_string r)"
proof (cases "map_of ESCAPES c")
  case (Some e)
  then have "(c, e) \<in> set ESCAPES" by (rule map_of_SomeD)
  then have "map_of UNESCAPES e = Some c" "e \<noteq> CHR ''u''"
    by (auto simp: ESCAPES_def UNESCAPES_def quote_def backslash_def LF_def CR_def)
  then show ?thesis by (simp add: escape_char_def Some quote_def backslash_def)
next
  case None
  then have plain: "c \<noteq> quote" "c \<noteq> backslash" by (auto simp: ESCAPES_def split: if_splits)
  show ?thesis
  proof (cases "32 \<le> (of_char c :: nat) \<and> (of_char c :: nat) \<le> 126")
    case True
    with plain None show ?thesis by (simp add: escape_char_def)
  next
    case False
    let ?n = "of_char c :: nat"
    let ?e = "''00'' @ [hex_digit (?n div 16), hex_digit (?n mod 16)]"
    have "scan_string (backslash # CHR ''u'' # ?e @ r) = push (char_of ?n) (scan_string r)"
      by (rule scan_unicode [OF hex_escape]) simp_all
    moreover have "escape_char c = backslash # CHR ''u'' # ?e" using None False by (simp add: escape_char_def Let_def)
    ultimately show ?thesis by simp
  qed
qed

lemma scan_json_string: "scan_string (concat (map escape_char s) @ quote # r) = Inr (s, r)"
  by (induction s) (simp_all add: scan_escaped push_def)

subsection \<open>Numbers\<close>

text \<open>What may follow a number: no character that could extend it.\<close>

definition number_end :: "string \<Rightarrow> bool" where
  "number_end r \<longleftrightarrow> (case r of [] \<Rightarrow> True | c # _ \<Rightarrow> \<not> is_digit c \<and> c \<notin> set ''.eE'')"

lemma digits_end:
  assumes "case r of [] \<Rightarrow> True | c # _ \<Rightarrow> \<not> is_digit c"
  shows "takeWhile is_digit (s @ r) = takeWhile is_digit s" "dropWhile is_digit (s @ r) = dropWhile is_digit s @ r"
  using assms by (induction s) (auto split: list.splits)

lemma number_digits_end: "number_end r \<Longrightarrow> case r of [] \<Rightarrow> True | c # _ \<Rightarrow> \<not> is_digit c"
  by (simp add: number_end_def split: list.splits)

lemma scan_int_end:
  assumes "scan_int s = Some (ip, s')" and "case r of [] \<Rightarrow> True | c # _ \<Rightarrow> \<not> is_digit c"
  shows "scan_int (s @ r) = Some (ip, s' @ r)"
  using assms(1) digits_end [OF assms(2), of s] by (auto simp: scan_int_def split: list.splits if_splits)

lemma scan_frac_end:
  assumes "scan_frac s = (fp, s')" and "number_end r"
  shows "scan_frac (s @ r) = (fp, s' @ r)"
proof (cases s)
  case Nil
  with assms show ?thesis by (auto simp: scan_frac_def number_end_def split: list.splits)
next
  case (Cons c t)
  with assms digits_end [OF number_digits_end [OF assms(2)], of t] show ?thesis by (auto simp: scan_frac_def split: if_splits)
qed

lemma scan_exp_end:
  assumes "scan_exp s = (ep, [])" and "number_end r"
  shows "scan_exp (s @ r) = (ep, r)"
proof (cases s)
  case Nil
  with assms show ?thesis by (auto simp: scan_exp_def number_end_def split: list.splits)
next
  case (Cons e t)
  show ?thesis
  proof (cases t)
    case Nil
    with assms Cons show ?thesis by (auto simp: scan_exp_def split: if_splits)
  next
    case (Cons c u)
    with assms \<open>s = e # t\<close> digits_end [OF number_digits_end [OF assms(2)], of t] digits_end [OF number_digits_end [OF assms(2)], of u] show ?thesis
      by (auto simp: scan_exp_def split: if_splits)
  qed
qed

lemma scan_number_end:
  assumes "scan_number t = Some (t, b, [])" and "number_end r"
  shows "scan_number (t @ r) = Some (t, b, r)"
proof -
  obtain sg s1 where sg: "scan_sign t = (sg, s1)" by force
  from assms(1) sg obtain ip s2 where ip: "scan_int s1 = Some (ip, s2)"
    by (auto simp: scan_number_def split: option.splits)
  obtain fp s3 where fp: "scan_frac s2 = (fp, s3)" by force
  obtain ep s4 where ep: "scan_exp s3 = (ep, s4)" by force
  from assms(1) sg ip fp ep have t: "sg @ ip @ fp @ ep = t" "b = (fp \<noteq> [] \<or> ep \<noteq> [])" "s4 = []"
    by (simp_all add: scan_number_def)
  have "t \<noteq> []" using ip sg by (auto simp: scan_sign_def scan_int_def)
  with sg have "scan_sign (t @ r) = (sg, s1 @ r)" by (auto simp: scan_sign_def split: list.splits if_splits)
  with scan_int_end [OF ip number_digits_end [OF assms(2)]] scan_frac_end [OF fp assms(2)] scan_exp_end [OF ep [unfolded t(3)] assms(2)] t
  show ?thesis by (simp add: scan_number_def)
qed

lemma show_nat_leading: "0 < n \<Longrightarrow> hd (show_nat n) \<noteq> CHR ''0''"
proof (induction n rule: show_nat.induct)
  case (1 n)
  show ?case
  proof (cases "n < 10")
    case True
    with "1.prems" have "n \<in> set [1..<10]" by simp
    moreover have "\<forall>n \<in> set [1..<10]. (char_of (48 + n) :: char) \<noteq> CHR ''0''" by code_simp
    ultimately show ?thesis using True by (simp add: show_nat.simps [of n])
  next
    case False
    with "1.IH" show ?thesis by (simp add: show_nat.simps [of n])
  qed
qed

lemma scan_int_show_nat: "scan_int (show_nat n) = Some (show_nat n, [])"
proof (cases "n = 0")
  case True
  have "show_nat 0 = ''0''" by code_simp
  with True show ?thesis by (simp add: scan_int_def)
next
  case False
  then obtain c r where s: "show_nat n = c # r" "c \<noteq> CHR ''0''"
    using show_nat_leading [of n] by (cases "show_nat n") simp_all
  have "\<forall>x \<in> set (show_nat n). is_digit x" using show_nat_all_digits by blast
  with s show ?thesis by (simp add: scan_int_def takeWhile_all dropWhile_eq_Nil_conv)
qed

lemma minus_no_digit: "\<not> is_digit (CHR ''-'')"
  by (simp add: is_digit_def)

lemma scan_show_int: "scan_number (show_int k) = Some (show_int k, False, [])"
proof -
  have "scan_sign (show_int k) = (if k < 0 then ''-'' else [], show_nat (nat \<bar>k\<bar>))"
  proof (cases "k < 0")
    case False
    obtain c r where "show_nat (nat k) = c # r" by (cases "show_nat (nat k)") simp_all
    moreover from this have "c \<noteq> CHR ''-''" using show_nat_hd [of "nat k"] minus_no_digit by auto
    ultimately show ?thesis using False by (simp add: show_int_def scan_sign_def)
  qed (simp add: show_int_def scan_sign_def)
  then show ?thesis
    using scan_int_show_nat [of "nat \<bar>k\<bar>"] by (simp add: scan_number_def scan_frac_def scan_exp_def show_int_def)
qed

lemma int_literal_show: "int_literal (show_int k) = k"
proof (cases "k < 0")
  case False
  obtain c r where s: "show_nat (nat k) = c # r" by (cases "show_nat (nat k)") simp_all
  then have "c \<noteq> CHR ''-''" using show_nat_hd [of "nat k"] minus_no_digit by auto
  with s have "int_literal (show_nat (nat k)) = int (read_nat (show_nat (nat k)))" by (simp add: int_literal_def)
  with False show ?thesis by (simp add: show_int_def)
qed (simp add: int_literal_def show_int_def)

text \<open>What the text of floats promises: a literal of the number pattern, not an integer, read back.\<close>

definition floats_ok :: "float_text \<Rightarrow> bool" where
  "floats_ok ft \<longleftrightarrow>
     (\<forall>x. scan_number (ft_repr ft x) = Some (ft_repr ft x, True, []) \<and> ft_float ft (ft_repr ft x) = Some x)"

lemma scan_number_first:
  assumes "scan_number t = Some u"
  shows "\<exists>c r. t = c # r \<and> (is_digit c \<or> c = CHR ''-'')"
proof -
  obtain sg s1 where sg: "scan_sign t = (sg, s1)" by force
  with assms obtain ip s2 where "scan_int s1 = Some (ip, s2)" by (auto simp: scan_number_def split: option.splits)
  moreover have "is_digit (CHR ''0'')" by (simp add: is_digit_def)
  ultimately show ?thesis using sg by (auto simp: scan_sign_def scan_int_def split: list.splits if_splits)
qed

lemma digit_first:
  assumes "is_digit c \<or> c = CHR ''-''"
  shows "c \<noteq> quote" "c \<noteq> CHR ''{''" "c \<noteq> CHR ''[''" "c \<noteq> CHR ''n''" "c \<noteq> CHR ''t''" "c \<noteq> CHR ''f''"
    "\<not> json_space c" "c \<noteq> CHR '']''" "c \<noteq> CHR ''}''"
  using assms by (auto simp: is_digit_def json_space_def quote_def LF_def CR_def)

lemma parse_number_value:
  assumes "scan_number t = Some (t, b, [])" and "number_end r"
  shows "parse_value ft (t @ r) = parse_number ft (t @ r)"
proof -
  obtain c u where "t = c # u" "is_digit c \<or> c = CHR ''-''" using scan_number_first [OF assms(1)] by blast
  with digit_first [OF this(2)] show ?thesis by (simp add: parse_value.simps startswith_def)
qed

subsection \<open>Documents\<close>

text \<open>A text that starts with neither white space nor a closing bracket.\<close>

definition solid :: "string \<Rightarrow> bool" where
  "solid s \<longleftrightarrow> (case s of [] \<Rightarrow> False | c # _ \<Rightarrow> \<not> json_space c \<and> c \<noteq> CHR '']'' \<and> c \<noteq> CHR ''}'')"

lemma solid_append [simp]: "solid s \<Longrightarrow> solid (s @ r)"
  by (simp add: solid_def split: list.splits)

lemma skip_solid [simp]: "solid s \<Longrightarrow> skip_space s = s"
  by (simp add: solid_def skip_space_def split: list.splits)

lemma solid_open [simp]: "solid s \<Longrightarrow> \<not> startswith s '']''" "solid s \<Longrightarrow> \<not> startswith s ''}''"
  by (auto simp: solid_def startswith_def split: list.splits)

lemma skip_spaces: "\<forall>c \<in> set ws. json_space c \<Longrightarrow> skip_space (ws @ s) = skip_space s"
  by (induction ws) (simp_all add: skip_space_def)

lemma skip_spaces_solid: "\<forall>c \<in> set ws. json_space c \<Longrightarrow> solid s \<Longrightarrow> skip_space (ws @ s) = s"
  by (simp add: skip_spaces)

lemma skip_spaces_char: "\<forall>c \<in> set ws. json_space c \<Longrightarrow> \<not> json_space d \<Longrightarrow> skip_space (ws @ d # s) = d # s"
  by (simp add: skip_spaces skip_space_def)

lemma space_ends: "json_space c \<Longrightarrow> \<not> is_digit c \<and> c \<notin> set ''.eE''"
  by (auto simp: is_digit_def json_space_def LF_def CR_def)

lemma spaces_end: "\<forall>c \<in> set ws. json_space c \<Longrightarrow> number_end (ws @ CHR '']'' # s) \<and> number_end (ws @ CHR ''}'' # s)"
proof (cases ws)
  case Nil
  then show ?thesis by (simp add: number_end_def is_digit_def)
next
  case (Cons c cs)
  moreover assume "\<forall>c \<in> set ws. json_space c"
  ultimately show ?thesis using space_ends [of c] by (simp add: number_end_def)
qed

lemma comma_end [simp]: "number_end (CHR '','' # s)" "number_end []"
  by (simp_all add: number_end_def is_digit_def)

lemma bracket_spaces [simp]:
  "\<not> json_space (CHR '']'')" "\<not> json_space (CHR ''}'')" "\<not> json_space (CHR '','')" "\<not> json_space (CHR '':'')"
  by (simp_all add: json_space_def LF_def CR_def)

lemma skip_delimiter [simp]:
  "skip_space (CHR '','' # s) = CHR '','' # s" "skip_space (CHR '':'' # s) = CHR '':'' # s"
  "skip_space (CHR '' '' # s) = skip_space s"
  by (simp_all add: skip_space_def) (simp add: json_space_def)

text \<open>One element or member, and what follows it.\<close>

lemma element_read:
  assumes "parse_value ft (t @ r) = Inr (v, r)" and "solid t"
  shows "parse_elements ft (t @ r) =
    (case skip_space r of
       [] \<Rightarrow> Inl (ValueError ''Expecting comma delimiter'')
     | c # r' \<Rightarrow>
         if c = CHR '']'' then Inr ([v], r')
         else if c = CHR '','' then push v (parse_elements ft (skip_space r'))
         else Inl (ValueError ''Expecting comma delimiter''))"
proof -
  have "t \<noteq> []" using assms(2) by (auto simp: solid_def)
  with assms(1) show ?thesis by (simp add: parse_elements.simps [of ft "t @ r"])
qed

lemma member_read:
  assumes "parse_value ft (t @ r) = Inr (v, r)" and "solid t"
  shows "parse_members ft (json_string k @ '': '' @ t @ r) =
    (case skip_space r of
       [] \<Rightarrow> Inl (ValueError ''Expecting comma delimiter'')
     | c # r' \<Rightarrow>
         if c = CHR ''}'' then Inr ([(k, v)], r')
         else if c = CHR '','' then push (k, v) (parse_members ft (skip_space r'))
         else Inl (ValueError ''Expecting comma delimiter''))"
  using assms scan_json_string [of k "'': '' @ t @ r"]
  by (subst parse_members.simps) (simp add: json_string_def)

lemma elements_read:
  assumes "vs \<noteq> []" and "\<forall>c \<in> set ws. json_space c" and "\<forall>c \<in> set post. json_space c"
    and "\<And>v r. v \<in> set vs \<Longrightarrow> number_end r \<Longrightarrow> parse_value ft (f v @ r) = Inr (v, r)"
    and "\<And>v. v \<in> set vs \<Longrightarrow> solid (f v)"
  shows "parse_elements ft (join (CHR '','' # ws) (map f vs) @ post @ CHR '']'' # r) = Inr (vs, r)"
  using assms(1,4,5)
proof (induction vs rule: induct_list012)
  case (2 v)
  have "parse_value ft (f v @ post @ CHR '']'' # r) = Inr (v, post @ CHR '']'' # r)"
    using spaces_end [OF assms(3)] by (intro 2(2)) simp_all
  from element_read [OF this 2(3)] show ?case using skip_spaces_char [OF assms(3), of "CHR '']''" r] by simp
next
  case (3 v w vs)
  let ?rest = "join (CHR '','' # ws) (map f (w # vs)) @ post @ CHR '']'' # r"
  have "solid ?rest" using "3.prems"(3) [of w] by (cases vs) simp_all
  then have skip: "skip_space (ws @ ?rest) = ?rest" by (rule skip_spaces_solid [OF assms(2)])
  have "parse_value ft (f v @ CHR '','' # ws @ ?rest) = Inr (v, CHR '','' # ws @ ?rest)"
    by (rule "3.prems"(2)) simp_all
  note element_read [OF this "3.prems"(3)]
  moreover have "parse_elements ft ?rest = Inr (w # vs, r)" using "3.IH"(2) "3.prems" by simp
  ultimately show ?case using skip by (simp add: push_def)
qed simp

lemma members_read:
  assumes "d \<noteq> []" and "\<forall>c \<in> set ws. json_space c" and "\<forall>c \<in> set post. json_space c"
    and "\<And>k v r. (k, v) \<in> set d \<Longrightarrow> number_end r \<Longrightarrow> parse_value ft (f v @ r) = Inr (v, r)"
    and "\<And>k v. (k, v) \<in> set d \<Longrightarrow> solid (f v)"
  shows "parse_members ft (join (CHR '','' # ws) (map (\<lambda>(k, v). json_string k @ '': '' @ f v) d) @ post @ CHR ''}'' # r) = Inr (d, r)"
  using assms(1,4,5)
proof (induction d rule: induct_list012)
  case (2 p)
  obtain k v where p: "p = (k, v)" by force
  have "parse_value ft (f v @ post @ CHR ''}'' # r) = Inr (v, post @ CHR ''}'' # r)"
    using spaces_end [OF assms(3)] by (intro 2(2) [of k]) (simp_all add: p)
  from member_read [OF this, of k] 2(3) [of k v] show ?case
    using skip_spaces_char [OF assms(3), of "CHR ''}''" r] by (simp add: p)
next
  case (3 p q d)
  obtain k v where p: "p = (k, v)" by force
  let ?rest = "join (CHR '','' # ws) (map (\<lambda>(k, v). json_string k @ '': '' @ f v) (q # d)) @ post @ CHR ''}'' # r"
  have "solid (json_string k')" for k' by (simp add: json_string_def solid_def json_space_def quote_def LF_def CR_def)
  then have "solid ?rest" by (cases d; cases q) simp_all
  then have skip: "skip_space (ws @ ?rest) = ?rest" by (rule skip_spaces_solid [OF assms(2)])
  have "parse_value ft (f v @ CHR '','' # ws @ ?rest) = Inr (v, CHR '','' # ws @ ?rest)"
    by (rule "3.prems"(2) [of k]) (simp_all add: p)
  note member_read [OF this "3.prems"(3), of k k]
  moreover have "parse_members ft ?rest = Inr (q # d, r)"
    by (rule "3.IH"(2) [OF _ "3.prems"(2,3)]) auto
  ultimately show ?case using skip by (simp add: push_def p)
qed simp

text \<open>Values as Python holds them: the keys of every dictionary are distinct.\<close>

fun json_ok :: "json \<Rightarrow> bool" where
  "json_ok (JList vs) \<longleftrightarrow> (\<forall>v \<in> set vs. json_ok v)"
| "json_ok (JDict d) \<longleftrightarrow> dict_ok d \<and> (\<forall>(k, v) \<in> set d. json_ok v)"
| "json_ok v \<longleftrightarrow> True"

lemma number_solid: "scan_number t = Some u \<Longrightarrow> solid t"
proof -
  assume "scan_number t = Some u"
  then obtain c r where "t = c # r" "is_digit c \<or> c = CHR ''-''" using scan_number_first by blast
  with digit_first(7-9) [OF this(2)] show ?thesis by (simp add: solid_def)
qed

lemma dump_solid:
  assumes "floats_ok ft"
  shows "solid (dump ft indent level v)"
proof (cases v)
  case (JInt k)
  show ?thesis unfolding JInt dump.simps by (rule number_solid [OF scan_show_int])
next
  case (JFloat x)
  have "scan_number (ft_repr ft x) = Some (ft_repr ft x, True, [])" using assms by (simp add: floats_ok_def)
  then show ?thesis unfolding JFloat dump.simps by (rule number_solid)
qed (simp_all add: solid_def json_string_def enclose_def json_space_def quote_def LF_def CR_def split: option.splits)

text \<open>A non-empty list or dictionary in either layout.\<close>

lemma enclose_layout:
  assumes "items \<noteq> []"
  shows "\<exists>pre ws post. enclose indent level opening closing items =
      opening # pre @ join (CHR '','' # ws) items @ post @ [closing] \<and>
    (\<forall>c \<in> set pre. json_space c) \<and> (\<forall>c \<in> set ws. json_space c) \<and> (\<forall>c \<in> set post. json_space c)"
proof (cases indent)
  case None
  with assms show ?thesis
    by (intro exI [of _ "[]"] exI [of _ "'' ''"]) (simp add: enclose_def json_space_def)
next
  case (Some n)
  have "\<forall>c \<in> set (newline_indent n l). json_space c" for l by (simp add: newline_indent_def json_space_def)
  with Some assms show ?thesis
    by (intro exI [of _ "newline_indent n (Suc level)"] exI [of _ "newline_indent n level"]) (simp add: enclose_def)
qed

lemma join_solid:
  assumes "items \<noteq> []" and "\<forall>t \<in> set items. solid t"
  shows "solid (join sep items @ r)"
  using assms by (induction sep items rule: join.induct) simp_all

lemma dict_of_distinct: "dict_ok d \<Longrightarrow> dict_of d = d"
  using fold_update_distinct [of fst d "[]" snd] by (simp add: dict_of_def dict_ok_def case_prod_unfold)

lemma parse_dump:
  assumes "floats_ok ft" and "json_ok v" and "number_end r"
  shows "parse_value ft (dump ft indent level v @ r) = Inr (v, r)"
  using assms(2,3)
proof (induction v arbitrary: level r)
  case (JInt k)
  then show ?case
    using parse_number_value [OF scan_show_int, of r ft k] scan_number_end [OF scan_show_int, of r k]
    by (simp add: parse_number_def int_literal_show)
next
  case (JFloat x)
  have t: "scan_number (ft_repr ft x) = Some (ft_repr ft x, True, [])" "ft_float ft (ft_repr ft x) = Some x"
    using assms(1) by (simp_all add: floats_ok_def)
  with parse_number_value [OF t(1) JFloat(2)] scan_number_end [OF t(1) JFloat(2)] show ?case by (simp add: parse_number_def)
next
  case (JStr s)
  show ?case using scan_json_string [of s r] by (simp add: parse_value.simps json_string_def)
next
  case (JList vs)
  show ?case
  proof (cases "vs = []")
    case True
    then show ?thesis by (simp add: parse_value.simps enclose_def quote_def skip_space_def startswith_def)
  next
    case False
    let ?f = "dump ft indent (Suc level)"
    from False obtain pre ws post where e: "dump ft indent level (JList vs) = CHR ''['' # pre @ join (CHR '','' # ws) (map ?f vs) @ post @ '']''"
      and sp: "\<forall>c \<in> set pre. json_space c" "\<forall>c \<in> set ws. json_space c" "\<forall>c \<in> set post. json_space c"
      using enclose_layout [of "map ?f vs" indent level "CHR ''[''" "CHR '']''"] by auto
    let ?body = "join (CHR '','' # ws) (map ?f vs) @ post @ CHR '']'' # r"
    have "solid ?body" using False dump_solid [OF assms(1)] by (intro join_solid) auto
    moreover from this have "skip_space (pre @ ?body) = ?body" by (rule skip_spaces_solid [OF sp(1)])
    moreover have "parse_elements ft ?body = Inr (vs, r)"
      using JList.IH JList.prems(1) dump_solid [OF assms(1)] by (intro elements_read [OF False sp(2,3)]) simp_all
    ultimately show ?thesis unfolding e by (subst parse_value.simps) (simp add: quote_def)
  qed
next
  case (JDict d)
  show ?case
  proof (cases "d = []")
    case True
    then show ?thesis by (simp add: parse_value.simps enclose_def quote_def skip_space_def startswith_def)
  next
    case False
    let ?f = "dump ft indent (Suc level)"
    let ?m = "\<lambda>(k, v). json_string k @ '': '' @ ?f v"
    from False obtain pre ws post where e: "dump ft indent level (JDict d) = CHR ''{'' # pre @ join (CHR '','' # ws) (map ?m d) @ post @ ''}''"
      and sp: "\<forall>c \<in> set pre. json_space c" "\<forall>c \<in> set ws. json_space c" "\<forall>c \<in> set post. json_space c"
      using enclose_layout [of "map ?m d" indent level "CHR ''{''" "CHR ''}''"] by auto
    let ?body = "join (CHR '','' # ws) (map ?m d) @ post @ CHR ''}'' # r"
    have "solid (json_string k @ s)" for k s
      by (simp add: json_string_def solid_def json_space_def quote_def LF_def CR_def)
    then have "solid ?body" using False by (intro join_solid) auto
    moreover from this have "skip_space (pre @ ?body) = ?body" by (rule skip_spaces_solid [OF sp(1)])
    moreover have "parse_members ft ?body = Inr (d, r)"
    proof (rule members_read [OF False sp(2,3)])
      show "parse_value ft (?f v @ r') = Inr (v, r')" if "(k, v) \<in> set d" "number_end r'" for k v r'
        using JDict.IH [OF that(1), of v] JDict.prems(1) that by auto
    qed (rule dump_solid [OF assms(1)])
    moreover have "dict_of d = d" using JDict.prems(1) by (simp add: dict_of_distinct)
    ultimately show ?thesis unfolding e by (subst parse_value.simps) (simp add: quote_def)
  qed
qed (auto simp: parse_value.simps startswith_def quote_def)

text \<open>Sorting the keys keeps what a dictionary maps them to.\<close>

lemma distinct_sort_keys: "distinct (map fst (sort_key fst d)) \<longleftrightarrow> distinct (map fst d)"
  by (rule mset_eq_imp_distinct_iff) simp

lemma sort_json_ok: "json_ok v \<Longrightarrow> json_ok (sort_json v)"
proof (induction v rule: sort_json.induct)
  case (2 d)
  then show ?case by (auto simp: dict_ok_def distinct_sort_keys case_prod_unfold comp_def)
qed auto

lemma sorted_lookup:
  assumes "dict_ok d"
  shows "map_of (sort_key fst d) = map_of d"
proof (rule map_of_eqI)
  show "set (map fst (sort_key fst d)) = set (map fst d)" by simp
next
  have "distinct (map fst (sort_key fst d))" using assms by (simp add: dict_ok_def distinct_sort_keys)
  then show "\<forall>k \<in> set (map fst (sort_key fst d)). map_of (sort_key fst d) k = map_of d k"
    using assms by (auto simp: dict_ok_def map_of_eq_Some_iff)
qed

lemma loads_dumps:
  assumes "floats_ok ft" and "json_ok v"
  shows "loads ft (dumps ft indent sort_keys v) = Inr (if sort_keys then sort_json v else v)"
proof -
  let ?v = "if sort_keys then sort_json v else v"
  have "json_ok ?v" using assms(2) sort_json_ok by simp
  from parse_dump [OF assms(1) this, of "[]" indent 0] dump_solid [OF assms(1), of indent 0 ?v]
  show ?thesis by (simp add: loads_def dumps_def skip_space_def [of "[]"])
qed

subsection \<open>The guards never fail\<close>

lemma scan_number_shorter:
  assumes "scan_number s = Some (t, b, r)"
  shows "length r < length s"
proof -
  obtain sg s1 where sg: "scan_sign s = (sg, s1)" by force
  from assms sg obtain ip s2 where ip: "scan_int s1 = Some (ip, s2)" by (auto simp: scan_number_def split: option.splits)
  obtain fp s3 where fp: "scan_frac s2 = (fp, s3)" by force
  obtain ep s4 where ep: "scan_exp s3 = (ep, s4)" by force
  have drop: "length (dropWhile is_digit u) \<le> length u" for u by (rule length_dropWhile_le)
  have "length s1 \<le> length s" using sg by (auto simp: scan_sign_def split: list.splits if_splits)
  moreover have "length s2 < length s1"
    using ip drop [of "tl s1"] by (auto simp: scan_int_def less_Suc_eq_le split: list.splits if_splits)
  moreover have "length s3 \<le> length s2"
    using fp drop [of "tl s2"] by (auto simp: scan_frac_def intro: le_SucI split: list.splits if_splits)
  moreover have "length s4 \<le> length s3"
    using ep drop [of "tl s3"] drop [of "tl (tl s3)"] by (auto simp: scan_exp_def intro: le_SucI split: list.splits if_splits)
  moreover have "r = s4" using assms sg ip fp ep by (simp add: scan_number_def)
  ultimately show ?thesis by simp
qed

lemma parse_number_shorter: "parse_number ft s = Inr (v, r) \<Longrightarrow> length r < length s"
  using scan_number_shorter by (fastforce simp: parse_number_def split: option.splits if_splits)

text \<open>What a list or dictionary goes on with after a value that left \<open>y\<close>.\<close>

lemma goes_on:
  assumes "(if \<not> length y < length s then Inl e1 else case skip_space y of [] \<Rightarrow> Inl e2
      | c # r' \<Rightarrow> if c = close then Inr ([x], r') else if c = CHR '','' then push x (next_items (skip_space r')) else Inl e3) = Inr (xs, r)"
  shows "length r < length s \<or> (\<exists>t xs'. length t < length s \<and> next_items t = Inr (xs', r))"
proof -
  from assms have y: "length y < length s" by (simp split: if_splits)
  with assms obtain c r' where c: "skip_space y = c # r'" by (cases "skip_space y") simp_all
  have r': "length r' < length s" using skip_space_tail [OF c] y by simp
  then have "length (skip_space r') < length s" using skip_space_length [of r'] by simp
  with assms y c r' show ?thesis by (auto simp: push_def result_simps split: if_splits)
qed

lemma parse_members_goes_on:
  assumes "parse_members ft s = Inr (d, r)"
  shows "length r < length s \<or> (\<exists>t d'. length t < length s \<and> parse_members ft t = Inr (d', r))"
proof (cases s)
  case (Cons q s1)
  note p = assms [unfolded Cons parse_members.simps [of ft "q # s1"] list.case]
  then obtain k s2 where "(case skip_space s2 of [] \<Rightarrow> Inl (ValueError ''Expecting colon delimiter'')
      | c # s3 \<Rightarrow> if c \<noteq> CHR '':'' then Inl (ValueError ''Expecting colon delimiter'')
        else ebind (parse_value ft (skip_space s3)) (\<lambda>(v, y).
          if \<not> length y < length (q # s1) then Inl (ValueError ''Expecting value'')
          else case skip_space y of [] \<Rightarrow> Inl (ValueError ''Expecting comma delimiter'')
            | d # r' \<Rightarrow> if d = CHR ''}'' then Inr ([(k, v)], r') else if d = CHR '','' then push (k, v) (parse_members ft (skip_space r'))
              else Inl (ValueError ''Expecting comma delimiter''))) = Inr (d, r)"
    by (auto simp only: ebind_eq_Inr split_paired_Ex prod.case split: if_splits)
  then obtain s3 where "ebind (parse_value ft (skip_space s3)) (\<lambda>(v, y).
          if \<not> length y < length (q # s1) then Inl (ValueError ''Expecting value'')
          else case skip_space y of [] \<Rightarrow> Inl (ValueError ''Expecting comma delimiter'')
            | d # r' \<Rightarrow> if d = CHR ''}'' then Inr ([(k, v)], r') else if d = CHR '','' then push (k, v) (parse_members ft (skip_space r'))
              else Inl (ValueError ''Expecting comma delimiter'')) = Inr (d, r)"
    by (cases "skip_space s2") (auto simp only: list.case split: if_splits)
  then show ?thesis unfolding Cons by (auto simp only: ebind_eq_Inr split_paired_Ex prod.case dest!: goes_on)
qed (use assms in \<open>simp add: parse_members.simps\<close>)

lemma parse_members_shorter: "parse_members ft s = Inr (d, r) \<Longrightarrow> length r < length s"
proof (induction "length s" arbitrary: s d rule: less_induct)
  case less
  from parse_members_goes_on [OF less.prems] less.hyps show ?case by fastforce
qed

lemma parse_elements_shorter: "parse_elements ft s = Inr (vs, r) \<Longrightarrow> length r < length s"
proof (induction "length s" arbitrary: s vs rule: less_induct)
  case less
  from less.prems obtain v y where "(if \<not> length y < length s then Inl (ValueError ''Expecting value'')
      else case skip_space y of [] \<Rightarrow> Inl (ValueError ''Expecting comma delimiter'')
         | c # r' \<Rightarrow> if c = CHR '']'' then Inr ([v], r') else if c = CHR '','' then push v (parse_elements ft (skip_space r'))
           else Inl (ValueError ''Expecting comma delimiter'')) = Inr (vs, r)"
    by (subst (asm) parse_elements.simps) (auto simp only: ebind_eq_Inr split_paired_Ex prod.case)
  from goes_on [OF this] less.hyps show ?case by fastforce
qed

lemma parse_value_shorter:
  assumes "parse_value ft s = Inr (v, r)"
  shows "length r < length s"
proof (cases s)
  case (Cons c u)
  have "length (drop 1 (skip_space u)) < length s" "length (skip_space u) < length s"
    using Cons skip_space_length [of u] by simp_all
  with assms Cons parse_number_shorter [of ft s] scan_string_shorter [of u] parse_members_shorter [of ft "skip_space u"]
    parse_elements_shorter [of ft "skip_space u"]
  show ?thesis by (subst (asm) parse_value.simps) (force simp: result_simps split: if_splits)
qed (use assms in \<open>simp add: parse_value.simps\<close>)

subsection \<open>A document on one line\<close>

definition printable :: "char \<Rightarrow> bool" where
  "printable c \<longleftrightarrow> (let n = of_char c :: nat in 32 \<le> n \<and> n \<le> 126)"

lemma printable_break: "\<not> printable LF" "\<not> printable CR"
  by (simp_all add: printable_def LF_def CR_def)

lemma digit_printable: "is_digit c \<Longrightarrow> printable c"
  by (simp add: is_digit_def printable_def Let_def)

lemma takeWhile_digits: "c \<in> set (takeWhile is_digit s) \<Longrightarrow> printable c"
  using set_takeWhileD [of c is_digit s] digit_printable by blast

lemma number_printable:
  assumes "scan_number t = Some (t, b, [])" and "c \<in> set t"
  shows "printable c"
proof -
  obtain sg s1 where sg: "scan_sign t = (sg, s1)" by force
  from assms(1) sg obtain ip s2 where ip: "scan_int s1 = Some (ip, s2)"
    by (auto simp: scan_number_def split: option.splits)
  obtain fp s3 where fp: "scan_frac s2 = (fp, s3)" by force
  obtain ep s4 where ep: "scan_exp s3 = (ep, s4)" by force
  have "t = sg @ ip @ fp @ ep" using assms(1) sg ip fp ep by (simp add: scan_number_def)
  with assms(2) consider "c \<in> set sg" | "c \<in> set ip" | "c \<in> set fp" | "c \<in> set ep" by auto
  then show ?thesis
  proof cases
    case 1
    with sg show ?thesis by (auto simp: scan_sign_def printable_def split: list.splits if_splits)
  next
    case 2
    with ip takeWhile_digits [of c s1] show ?thesis by (auto simp: scan_int_def printable_def split: list.splits if_splits)
  next
    case 3
    with fp takeWhile_digits [of c "tl s2"] show ?thesis by (auto simp: scan_frac_def printable_def split: list.splits if_splits)
  next
    case 4
    with ep takeWhile_digits [of c "tl s3"] takeWhile_digits [of c "tl (tl s3)"] show ?thesis
      by (auto simp: scan_exp_def printable_def split: list.splits if_splits)
  qed
qed

lemma hex_printable: "k < 16 \<Longrightarrow> printable (hex_digit k)"
proof -
  assume "k < 16"
  moreover have "\<forall>k \<in> set [0..<16]. printable (hex_digit k)" by code_simp
  ultimately show ?thesis by simp
qed

lemma escape_printable: "x \<in> set (escape_char c) \<Longrightarrow> printable x"
proof (cases "map_of ESCAPES c")
  case (Some e)
  assume "x \<in> set (escape_char c)"
  with Some have "x = backslash \<or> x = e" by (auto simp: escape_char_def)
  moreover have "printable e" using map_of_SomeD [OF Some]
    by (auto simp: ESCAPES_def printable_def quote_def backslash_def)
  ultimately show ?thesis by (auto simp: printable_def backslash_def)
next
  case None
  assume "x \<in> set (escape_char c)"
  moreover have "(of_char c :: nat) div 16 < 16" by (intro less_mult_imp_div_less) simp
  ultimately show ?thesis using None hex_printable [of "of_char c div 16"] hex_printable [of "of_char c mod 16"]
    by (auto simp: escape_char_def Let_def printable_def backslash_def split: if_splits)
qed

lemma json_string_printable: "c \<in> set (json_string s) \<Longrightarrow> printable c"
  using escape_printable by (auto simp: json_string_def) (simp_all add: printable_def quote_def)

lemma join_chars: "c \<in> set (join sep items) \<Longrightarrow> c \<in> set sep \<or> (\<exists>t \<in> set items. c \<in> set t)"
  by (induction sep items rule: join.induct) auto

lemma dump_printable:
  assumes "floats_ok ft" and "c \<in> set (dump ft None level v)"
  shows "printable c"
  using assms(2)
proof (induction v arbitrary: level)
  case (JInt k)
  then show ?case using number_printable [OF scan_show_int] by simp
next
  case (JFloat x)
  then show ?case using assms(1) number_printable [of "ft_repr ft x"] by (auto simp: floats_ok_def)
next
  case (JStr s)
  then show ?case using json_string_printable by simp
next
  case (JList vs)
  then have "c \<in> set ''[], '' \<or> (\<exists>t \<in> set (map (dump ft None (Suc level)) vs). c \<in> set t)"
    by (auto simp: enclose_def split: if_splits dest!: join_chars)
  with JList.IH show ?case by (auto simp: printable_def)
next
  case (JDict d)
  then have "c \<in> set ''{}, '' \<or> (\<exists>t \<in> set (map (\<lambda>(k, v). json_string k @ '': '' @ dump ft None (Suc level) v) d). c \<in> set t)"
    by (auto simp: enclose_def split: if_splits dest!: join_chars)
  then consider "c \<in> set ''{}, :''" | k v where "(k, v) \<in> set d" "c \<in> set (json_string k)"
    | k v where "(k, v) \<in> set d" "c \<in> set (dump ft None (Suc level) v)" by auto
  then show ?case
  proof cases
    case (3 k v)
    then show ?thesis using JDict.IH [of "(k, v)" v] by simp
  qed (auto simp: printable_def dest: json_string_printable)
qed (auto simp: printable_def split: if_splits)

lemma dumps_printable: "floats_ok ft \<Longrightarrow> c \<in> set (dumps ft None sort_keys v) \<Longrightarrow> printable c"
  unfolding dumps_def by (rule dump_printable)

lemma dumps_one_line:
  assumes "floats_ok ft"
  shows "LF \<notin> set (dumps ft None sort_keys v)" "CR \<notin> set (dumps ft None sort_keys v)"
  using dumps_printable [OF assms] printable_break by blast+

section \<open>str and repr\<close>

text \<open>\<open>repr\<close> of a string: in single quotes, unless only single quotes occur in it.\<close>

definition repr_char :: "char \<Rightarrow> char \<Rightarrow> string" where
  "repr_char q c =
     (let n = of_char c :: nat
      in if c = q \<or> c = backslash then [backslash, c]
         else if c = LF then [backslash, CHR ''n''] else if c = CR then [backslash, CHR ''r'']
         else if c = CHR 0x09 then [backslash, CHR ''t'']
         else if n < 32 \<or> 127 \<le> n \<and> n \<le> 160 \<or> n = 173
         then backslash # CHR ''x'' # [hex_digit (n div 16), hex_digit (n mod 16)] else [c])"

definition repr_str :: "string \<Rightarrow> string" where
  "repr_str s =
     (let q = (if CHR 0x27 \<in> set s \<and> quote \<notin> set s then quote else CHR 0x27)
      in q # concat (map (repr_char q) s) @ [q])"

fun py_repr :: "float_text \<Rightarrow> json \<Rightarrow> string" where
  "py_repr ft JNull = ''None''"
| "py_repr ft (JBool b) = (if b then ''True'' else ''False'')"
| "py_repr ft (JInt k) = show_int k"
| "py_repr ft (JFloat x) = ft_repr ft x"
| "py_repr ft (JStr s) = repr_str s"
| "py_repr ft (JList vs) = CHR ''['' # join '', '' (map (py_repr ft) vs) @ '']''"
| "py_repr ft (JDict d) = CHR ''{'' # join '', '' (map (\<lambda>(k, v). repr_str k @ '': '' @ py_repr ft v) d) @ ''}''"

definition py_str :: "float_text \<Rightarrow> json \<Rightarrow> string" where
  "py_str ft v = json_str (py_repr ft) v"

section \<open>An instance\<close>

text \<open>
  A float text for the exact numbers of the model: decimals up to six digits as Python writes them, up
  to trailing zeros, and any other fraction as numerator and denominator in the shape of a literal.
\<close>

definition exact_repr :: "pyfloat \<Rightarrow> string" where
  "exact_repr x =
     (if py_round 6 x = x then format_fixed 6 x
      else case quotient_of x of (a, b) \<Rightarrow> (if a < 0 then ''-'' else []) @ show_nat (nat \<bar>a\<bar>) @ ''.0e'' @ show_nat (nat b))"

definition exact_float :: "string \<Rightarrow> pyfloat option" where
  "exact_float t =
     (let (sg, s) = scan_sign t; num = takeWhile is_digit s; den = drop 3 (dropWhile is_digit s)
      in if CHR ''e'' \<notin> set t then parse_float t
         else Some ((if sg = [] then 1 else - 1) * of_nat (read_nat num) / of_nat (read_nat den)))"

definition exact_text :: float_text where
  "exact_text = \<lparr>ft_repr = exact_repr, ft_float = exact_float\<rparr>"

lemma scan_number_parts:
  "scan_sign t = (sg, s1) \<Longrightarrow> scan_int s1 = Some (ip, s2) \<Longrightarrow> scan_frac s2 = (fp, s3) \<Longrightarrow> scan_exp s3 = (ep, s4) \<Longrightarrow>
    scan_number t = Some (sg @ ip @ fp @ ep, fp \<noteq> [] \<or> ep \<noteq> [], s4)"
  by (simp add: scan_number_def)

text \<open>A literal with a fraction and perhaps an exponent.\<close>

lemma scan_fraction:
  assumes "fs \<noteq> []" and "\<forall>c \<in> set fs. is_digit c" and "ep = [] \<or> (\<exists>ds. ep = CHR ''e'' # ds \<and> ds \<noteq> [] \<and> (\<forall>c \<in> set ds. is_digit c))"
  shows "scan_number ((if b then ''-'' else []) @ show_nat n @ ''.'' @ fs @ ep) =
    Some ((if b then ''-'' else []) @ show_nat n @ ''.'' @ fs @ ep, True, [])"
proof -
  have e: "\<not> is_digit (CHR ''e'')" "\<not> is_digit (CHR ''.'')" by (simp_all add: is_digit_def)
  obtain c r where n: "show_nat n = c # r" by (cases "show_nat n") simp_all
  then have "c \<noteq> CHR ''-''" using show_nat_hd [of n] minus_no_digit by auto
  then have sg: "scan_sign ((if b then ''-'' else []) @ show_nat n @ ''.'' @ fs @ ep) = (if b then ''-'' else [], show_nat n @ ''.'' @ fs @ ep)"
    by (simp add: scan_sign_def n)
  have ip: "scan_int (show_nat n @ ''.'' @ fs @ ep) = Some (show_nat n, ''.'' @ fs @ ep)"
    using scan_int_end [OF scan_int_show_nat, of "''.'' @ fs @ ep" n] e by simp
  have "case ep of [] \<Rightarrow> True | c # _ \<Rightarrow> \<not> is_digit c" using assms(3) e by auto
  from digits_end [OF this, of fs] assms(1,2) have fp: "scan_frac (''.'' @ fs @ ep) = (''.'' @ fs, ep)"
    by (simp add: scan_frac_def takeWhile_all dropWhile_eq_Nil_conv)
  have ep: "scan_exp ep = (ep, [])"
  proof (cases "ep = []")
    case False
    then obtain ds where ds: "ep = CHR ''e'' # ds" "ds \<noteq> []" "\<forall>c \<in> set ds. is_digit c" using assms(3) by auto
    then obtain d ds' where "ds = d # ds'" "is_digit d" by (cases ds) auto
    moreover have "\<not> is_digit (CHR ''+'')" by (simp add: is_digit_def)
    ultimately have "d \<notin> {CHR ''+'', CHR ''-''}" using minus_no_digit by auto
    with ds \<open>ds = d # ds'\<close> show ?thesis by (simp add: scan_exp_def takeWhile_all dropWhile_eq_Nil_conv)
  qed (simp add: scan_exp_def)
  from scan_number_parts [OF sg ip fp ep] show ?thesis by simp
qed

lemma exact_text_ok: "floats_ok exact_text"
proof -
  have "scan_number (exact_repr x) = Some (exact_repr x, True, []) \<and> exact_float (exact_repr x) = Some x" for x
  proof (cases "py_round 6 x = x")
    case True
    define k where "k = nat (round_half_even (\<bar>x\<bar> * 10 ^ 6))"
    have r: "exact_repr x = (if x < 0 then ''-'' else []) @ show_nat (k div 10 ^ 6) @ ''.'' @ zfill 6 (show_nat (k mod 10 ^ 6)) @ []"
      using True by (simp add: exact_repr_def format_fixed_def k_def Let_def)
    have digits: "\<forall>c \<in> set (zfill 6 (show_nat (k mod 10 ^ 6))). is_digit c" using zfill_all_digits by blast
    have "scan_number (exact_repr x) = Some (exact_repr x, True, [])"
      unfolding r by (rule scan_fraction [OF _ digits]) (simp_all add: zfill_def)
    moreover have "\<not> is_digit (CHR ''e'')" by (simp add: is_digit_def)
    then have "CHR ''e'' \<notin> set (exact_repr x)" unfolding r using digits show_nat_all_digits by auto
    then have "exact_float (exact_repr x) = Some x"
      using True parse_format_fixed [of 6 x] by (simp add: exact_float_def exact_repr_def case_prod_unfold)
    ultimately show ?thesis by simp
  next
    case False
    obtain a b where q: "quotient_of x = (a, b)" by force
    have b: "0 < b" and x: "x = of_int a / of_int b" using quotient_of_denom_pos [OF q] quotient_of_div [OF q] by simp_all
    let ?sg = "if a < 0 then ''-'' else []"
    have r: "exact_repr x = ?sg @ show_nat (nat \<bar>a\<bar>) @ ''.'' @ ''0'' @ CHR ''e'' # show_nat (nat b)"
      using False by (simp add: exact_repr_def q)
    have "is_digit (CHR ''0'')" by (simp add: is_digit_def)
    then have "scan_number (exact_repr x) = Some (exact_repr x, True, [])"
      unfolding r using show_nat_all_digits by (intro scan_fraction) auto
    moreover have "exact_float (exact_repr x) = Some x"
    proof -
      obtain c u where n: "show_nat (nat \<bar>a\<bar>) = c # u" by (cases "show_nat (nat \<bar>a\<bar>)") simp_all
      then have "c \<noteq> CHR ''-''" using show_nat_hd [of "nat \<bar>a\<bar>"] minus_no_digit by auto
      then have sg: "scan_sign (exact_repr x) = (?sg, show_nat (nat \<bar>a\<bar>) @ ''.0e'' @ show_nat (nat b))"
        unfolding r by (simp add: scan_sign_def n)
      have "case ''.0e'' @ show_nat (nat b) of [] \<Rightarrow> True | c # _ \<Rightarrow> \<not> is_digit c" by (simp add: is_digit_def)
      from digits_end [OF this, of "show_nat (nat \<bar>a\<bar>)"]
      have "takeWhile is_digit (show_nat (nat \<bar>a\<bar>) @ ''.0e'' @ show_nat (nat b)) = show_nat (nat \<bar>a\<bar>)"
        "dropWhile is_digit (show_nat (nat \<bar>a\<bar>) @ ''.0e'' @ show_nat (nat b)) = ''.0e'' @ show_nat (nat b)"
        using show_nat_all_digits by (simp_all add: takeWhile_all dropWhile_eq_Nil_conv)
      moreover have "CHR ''e'' \<in> set (exact_repr x)" unfolding r by simp
      ultimately have "exact_float (exact_repr x) =
          Some ((if ?sg = [] then 1 else - 1) * of_nat (nat \<bar>a\<bar>) / of_nat (nat b))"
        unfolding exact_float_def sg by simp
      also have "(if ?sg = [] then 1 else - 1) * of_nat (nat \<bar>a\<bar>) / of_nat (nat b) = x" unfolding x using b by simp
      finally show ?thesis .
    qed
    ultimately show ?thesis by simp
  qed
  then show ?thesis by (simp add: floats_ok_def exact_text_def)
qed

end
