(* ===== verification/RedisStore.thy ===== *)
theory RedisStore
  imports Types PyJson
begin

text \<open>
  The optional Redis mirror of \<open>storage/redis_store.py\<close>. The \<open>redis\<close> package is not part of
  the sources: its client is an abstract state \<open>'r\<close> with the three calls the store makes,
  bundled in the record \<open>redis_env\<close> together with the text of floats. What the store relies on is the
  locale \<open>redis_hash\<close>: a value that was set is read back, other fields stay, and a float is read back
  from its text. Documents are the JSON texts of \<open>PyJson\<close>, so that every document with distinct keys
  comes back from the store as it was written.
\<close>

section \<open>The client\<close>

text \<open>A reply is \<open>bytes\<close>, or \<open>str\<close> when the client decodes responses.\<close>

datatype redis_value = RBytes string | RStr string

record 'r redis_env =
  re_from_url :: "string \<Rightarrow> 'r"
  re_hset :: "string \<Rightarrow> string \<Rightarrow> string \<Rightarrow> 'r \<Rightarrow> 'r result"
  re_hget :: "string \<Rightarrow> string \<Rightarrow> 'r \<Rightarrow> redis_value option result"
  re_floats :: float_text

definition re_dumps :: "'r redis_env \<Rightarrow> json \<Rightarrow> string" where
  "re_dumps env = dumps (re_floats env) None False"

definition re_loads :: "'r redis_env \<Rightarrow> string \<Rightarrow> json result" where
  "re_loads env = loads (re_floats env)"

definition re_repr :: "'r redis_env \<Rightarrow> json \<Rightarrow> string" where
  "re_repr env = py_repr (re_floats env)"

section \<open>The store\<close>

record 'r redis_store =
  rs_redis_url :: string
  rs_enabled :: bool
  rs_client :: "'r option"

text \<open>
  The constructor: \<open>env_url\<close> is \<open>os.getenv("NIMBUS_REDIS_URL", "")\<close> and \<open>installed\<close> says
  whether the import of the package succeeded.
\<close>

definition RedisDecisionStore ::
  "'r redis_env \<Rightarrow> string option \<Rightarrow> string \<Rightarrow> bool \<Rightarrow> 'r redis_store" where
  "RedisDecisionStore env redis_url env_url installed =
     (let url = (case redis_url of None \<Rightarrow> env_url | Some u \<Rightarrow> if u = [] then env_url else u);
          enabled = (url \<noteq> [] \<and> installed)
      in \<lparr>rs_redis_url = url, rs_enabled = enabled,
          rs_client = (if enabled then Some (re_from_url env url) else None)\<rparr>)"

definition redis_put ::
  "'r redis_env \<Rightarrow> string \<Rightarrow> string \<Rightarrow> json \<Rightarrow> 'r redis_store \<Rightarrow> 'r redis_store result" where
  "redis_put env name field payload s =
     (case rs_client s of None \<Rightarrow> Inr s
      | Some c \<Rightarrow>
          if \<not> rs_enabled s then Inr s
          else ebind (re_hset env name field (re_dumps env payload) c) (\<lambda>c'. Inr (s\<lparr>rs_client := Some c'\<rparr>)))"

definition write_decision ::
  "'r redis_env \<Rightarrow> (string, json) dict \<Rightarrow> 'r redis_store \<Rightarrow> 'r redis_store result" where
  "write_decision env result_dict s =
     (case dict_get (JDict []) result_dict ''request'' of
        JDict request \<Rightarrow>
          (case map_of request ''request_id'' of
             Some (JStr request_id) \<Rightarrow>
               redis_put env ''nimbusmesh:decisions'' request_id (JDict result_dict) s
           | _ \<Rightarrow> Inr s)
      | _ \<Rightarrow> Inr s)"

definition write_cache_affinity ::
  "'r redis_env \<Rightarrow> string \<Rightarrow> json \<Rightarrow> 'r redis_store \<Rightarrow> 'r redis_store result" where
  "write_cache_affinity env cache_key payload s =
     redis_put env ''nimbusmesh:cache_affinity'' cache_key payload s"

definition decode_reply :: "redis_value \<Rightarrow> string" where
  "decode_reply v = (case v of RBytes b \<Rightarrow> b | RStr t \<Rightarrow> t)"

definition fetch_cache_affinity ::
  "'r redis_env \<Rightarrow> string \<Rightarrow> 'r redis_store \<Rightarrow> json option result" where
  "fetch_cache_affinity env cache_key s =
     (case rs_client s of None \<Rightarrow> Inr None
      | Some c \<Rightarrow>
          if \<not> rs_enabled s then Inr None
          else ebind (re_hget env ''nimbusmesh:cache_affinity'' cache_key c) (\<lambda>v.
            case v of None \<Rightarrow> Inr None
            | Some r \<Rightarrow> ebind (re_loads env (decode_reply r)) (\<lambda>j. Inr (Some j))))"

text \<open>
  What a reader finds under a request in the hash of decisions. Nothing in the repository reads it; the
  theorems on what the store holds are stated with this function.
\<close>

definition read_decision :: "'r redis_env \<Rightarrow> string \<Rightarrow> 'r redis_store \<Rightarrow> json option result" where
  "read_decision env request_id s =
     (case rs_client s of None \<Rightarrow> Inr None
      | Some c \<Rightarrow>
          ebind (re_hget env ''nimbusmesh:decisions'' request_id c) (\<lambda>v.
            case v of None \<Rightarrow> Inr None
            | Some r \<Rightarrow> ebind (re_loads env (decode_reply r)) (\<lambda>j. Inr (Some j))))"

section \<open>The contract\<close>

locale redis_hash =
  fixes env :: "'r redis_env"
  assumes hset_total: "\<exists>c'. re_hset env name field v c = Inr c'"
    and hget_hset: "re_hset env name field v c = Inr c' \<Longrightarrow>
      \<exists>r. re_hget env name field c' = Inr (Some r) \<and> decode_reply r = v"
    and hget_other: "re_hset env name field v c = Inr c' \<Longrightarrow> (name', field') \<noteq> (name, field) \<Longrightarrow>
      re_hget env name' field' c' = re_hget env name' field' c"
    and float_literals: "floats_ok (re_floats env)"
begin

lemma document_read: "json_ok j \<Longrightarrow> re_loads env (re_dumps env j) = Inr j"
  using loads_dumps [OF float_literals, of j None False] by (simp add: re_loads_def re_dumps_def)

lemma put_total: "\<exists>s'. redis_put env name field j s = Inr s'"
proof (cases "rs_client s")
  case (Some c)
  obtain c' where "re_hset env name field (re_dumps env j) c = Inr c'" using hset_total by blast
  with Some show ?thesis by (simp add: redis_put_def)
qed (simp add: redis_put_def)

lemma write_decision_total: "\<exists>s'. write_decision env d s = Inr s'"
  using put_total by (auto simp: write_decision_def split: json.split option.split)

lemma fetch_after_write:
  assumes "rs_enabled s" and "rs_client s \<noteq> None" and "write_cache_affinity env k j s = Inr s'" and "json_ok j"
  shows "fetch_cache_affinity env k s' = Inr (Some j)"
  using assms(1-3) hget_hset document_read [OF assms(4)]
  by (fastforce simp: write_cache_affinity_def redis_put_def fetch_cache_affinity_def result_simps)

lemma fetch_after_other_write:
  assumes "write_cache_affinity env k j s = Inr s'" and "k' \<noteq> k"
  shows "fetch_cache_affinity env k' s' = fetch_cache_affinity env k' s"
  using assms hget_other [of "''nimbusmesh:cache_affinity''" k _ _ _ "''nimbusmesh:cache_affinity''" k']
  by (fastforce simp: write_cache_affinity_def redis_put_def fetch_cache_affinity_def result_simps
        split: option.splits if_splits)

lemma read_after_decision:
  assumes "rs_enabled s" and "rs_client s \<noteq> None" and "write_decision env d s = Inr s'" and "json_ok (JDict d)"
    and "dict_get (JDict []) d ''request'' = JDict q" and "map_of q ''request_id'' = Some (JStr i)"
  shows "read_decision env i' s' = (if i' = i then Inr (Some (JDict d)) else read_decision env i' s) \<and>
    rs_enabled s' \<and> rs_client s' \<noteq> None"
proof -
  obtain c c' where c: "rs_client s = Some c" "re_hset env ''nimbusmesh:decisions'' i (re_dumps env (JDict d)) c = Inr c'"
    and s': "s' = s\<lparr>rs_client := Some c'\<rparr>"
    using assms(1-3,5,6) by (auto simp: write_decision_def redis_put_def result_simps)
  have "read_decision env i s' = Inr (Some (JDict d))"
    using hget_hset [OF c(2)] document_read [OF assms(4)] by (auto simp: read_decision_def s' simp del: json_ok.simps)
  moreover have "i' \<noteq> i \<Longrightarrow> read_decision env i' s' = read_decision env i' s"
    using hget_other [OF c(2), of "''nimbusmesh:decisions''" i'] by (simp add: read_decision_def s' c(1))
  ultimately show ?thesis using assms(1) by (simp add: s')
qed

lemma read_after_affinity:
  assumes "write_cache_affinity env k j s = Inr s'"
  shows "read_decision env i s' = read_decision env i s"
  using assms hget_other [of "''nimbusmesh:cache_affinity''" k _ _ _ "''nimbusmesh:decisions''" i]
  by (fastforce simp: write_cache_affinity_def redis_put_def read_decision_def result_simps split: option.splits if_splits)

lemma fetch_after_decision:
  assumes "write_decision env d s = Inr s'"
  shows "fetch_cache_affinity env k s' = fetch_cache_affinity env k s"
proof -
  have "redis_put env ''nimbusmesh:decisions'' f j s = Inr s' \<Longrightarrow> ?thesis" for f j
    using hget_other [of "''nimbusmesh:decisions''" f _ _ _ "''nimbusmesh:cache_affinity''" k]
    by (fastforce simp: redis_put_def fetch_cache_affinity_def result_simps
          split: option.splits if_splits)
  with assms show ?thesis
    by (auto simp: write_decision_def split: json.splits option.splits)
qed

end

section \<open>A store without a client\<close>

text \<open>Without a URL or without the package every operation is the identity.\<close>

lemma redis_disabled:
  "\<not> rs_enabled s \<Longrightarrow> redis_put env name field j s = Inr s"
  "\<not> rs_enabled s \<Longrightarrow> write_cache_affinity env k j s = Inr s"
  "\<not> rs_enabled s \<Longrightarrow> write_decision env d s = Inr s"
  "\<not> rs_enabled s \<Longrightarrow> fetch_cache_affinity env k s = Inr None"
  by (auto simp: redis_put_def write_cache_affinity_def write_decision_def fetch_cache_affinity_def
        split: option.splits json.splits)

lemma redis_put_enabled: "redis_put env name field j s = Inr s' \<Longrightarrow> rs_enabled s' = rs_enabled s"
  by (auto simp: redis_put_def result_simps split: option.splits if_splits)

lemma constructor_consistent:
  "rs_enabled (RedisDecisionStore env u e i) \<longleftrightarrow> rs_client (RedisDecisionStore env u e i) \<noteq> None"
  by (simp add: RedisDecisionStore_def Let_def)

section \<open>An in-memory client\<close>

text \<open>A client that satisfies the contract: one hash table, and exact float literals.\<close>

type_synonym memory_client = "(string \<times> string, string) dict"

definition memory_redis :: "memory_client redis_env" where
  "memory_redis = \<lparr>re_from_url = (\<lambda>url. []),
     re_hset = (\<lambda>name field v c. Inr (AList.update (name, field) v c)),
     re_hget = (\<lambda>name field c. Inr (map_option RBytes (map_of c (name, field)))),
     re_floats = exact_text\<rparr>"

interpretation memory: redis_hash memory_redis
  by unfold_locales (auto simp: memory_redis_def decode_reply_def dict_simps exact_text_ok)

end
