(* ===== verification/CacheDirectory.thy ===== *)
theory CacheDirectory
  imports RedisStore Samples
begin

text \<open>
  The KV-cache directory of \<open>cache_directory/directory.py\<close>: for each cache key the list of
  places that hold the prefix, with the operations that score a placement, record a finished
  request, evict, trim and mirror the entries to Redis. An operation that mutates the directory
  returns the new one; one that can raise returns a result. The lemmas establish the directory
  invariant, the bounds and the meaning of a score, read-after-write, that a full directory loses its
  coldest entries, and the round trip through Redis.
\<close>

section \<open>State\<close>

record cache_entry =
  ce_key :: string
  ce_cluster_id :: string
  ce_pool_id :: string
  ce_size_tokens :: int
  ce_size_gb :: pyfloat
  ce_available_ts :: pyfloat
  ce_last_touched :: pyfloat
  ce_hit_count :: int

type_synonym buckets = "(string, cache_entry list) dict"

record 'r kv_cache_directory =
  kc_ttl_s :: pyfloat
  kc_max_entries :: int
  kc_entries :: buckets
  kc_redis_store :: "'r redis_store"

definition KVCacheDirectory :: "pyfloat \<Rightarrow> int \<Rightarrow> 'r redis_store \<Rightarrow> 'r kv_cache_directory" where
  "KVCacheDirectory ttl_s max_entries store =
     \<lparr>kc_ttl_s = ttl_s, kc_max_entries = max_entries, kc_entries = [], kc_redis_store = store\<rparr>"

section \<open>Operations\<close>

text \<open>\<open>_key\<close>; an absent signature is rendered as \<open>None\<close>.\<close>

definition cache_key :: "inference_request \<Rightarrow> string" where
  "cache_key r =
     rq_model_id r @ '':'' @ rq_tenant_id r @ '':'' @
     (case rq_prefix_signature r of None \<Rightarrow> ''None'' | Some s \<Rightarrow> s)"

definition evict_bucket :: "pyfloat \<Rightarrow> pyfloat \<Rightarrow> string \<times> cache_entry list \<Rightarrow> buckets \<Rightarrow> buckets" where
  "evict_bucket ttl_s now item entries =
     (case item of (key, bucket) \<Rightarrow>
        let survivors = filter (\<lambda>e. now - ce_last_touched e \<le> ttl_s) bucket
        in if survivors \<noteq> [] then AList.update key survivors entries else AList.delete key entries)"

definition evict_stale :: "pyfloat \<Rightarrow> 'r kv_cache_directory \<Rightarrow> 'r kv_cache_directory" where
  "evict_stale now d =
     d\<lparr>kc_entries := fold (evict_bucket (kc_ttl_s d) now) (kc_entries d) (kc_entries d)\<rparr>"

text \<open>\<open>_persist_to_redis\<close> and \<open>_hydrate_from_redis\<close>.\<close>

definition entry_to_json :: "cache_entry \<Rightarrow> json" where
  "entry_to_json e = JDict
     [(''cluster_id'', JStr (ce_cluster_id e)), (''pool_id'', JStr (ce_pool_id e)),
      (''size_tokens'', JInt (ce_size_tokens e)), (''size_gb'', JFloat (ce_size_gb e)),
      (''available_ts'', JFloat (ce_available_ts e)), (''last_touched'', JFloat (ce_last_touched e)),
      (''hit_count'', JInt (ce_hit_count e))]"

definition persist_to_redis ::
  "'r redis_env \<Rightarrow> string \<Rightarrow> 'r kv_cache_directory \<Rightarrow> 'r kv_cache_directory result" where
  "persist_to_redis env key d =
     (if \<not> rs_enabled (kc_redis_store d) then Inr d
      else ebind (write_cache_affinity env key
             (JDict [(''entries'', JList (map entry_to_json (dict_get [] (kc_entries d) key)))])
             (kc_redis_store d))
           (\<lambda>s. Inr (d\<lparr>kc_redis_store := s\<rparr>)))"

definition entry_from_json ::
  "'r redis_env \<Rightarrow> string \<Rightarrow> (string, json) dict \<Rightarrow> cache_entry result" where
  "entry_from_json env key item =
     (let get = (\<lambda>k v0. dict_get v0 item k)
      in ebind (json_int (get ''size_tokens'' (JInt 0))) (\<lambda>size_tokens.
         ebind (json_float (get ''size_gb'' (JFloat 0))) (\<lambda>size_gb.
         ebind (json_float (get ''available_ts'' (JFloat 0))) (\<lambda>available_ts.
         ebind (json_float (get ''last_touched'' (JFloat 0))) (\<lambda>last_touched.
         ebind (json_int (get ''hit_count'' (JInt 0))) (\<lambda>hit_count.
           Inr \<lparr>ce_key = key,
                ce_cluster_id = json_str (re_repr env) (get ''cluster_id'' (JStr [])),
                ce_pool_id = json_str (re_repr env) (get ''pool_id'' (JStr [])),
                ce_size_tokens = size_tokens, ce_size_gb = size_gb, ce_available_ts = available_ts,
                ce_last_touched = last_touched, ce_hit_count = hit_count\<rparr>))))))"

definition json_dicts :: "json list \<Rightarrow> (string, json) dict list" where
  "json_dicts items = List.map_filter (\<lambda>v. case v of JDict item \<Rightarrow> Some item | _ \<Rightarrow> None) items"

definition hydrate_from_redis ::
  "'r redis_env \<Rightarrow> inference_request \<Rightarrow> 'r kv_cache_directory \<Rightarrow> 'r kv_cache_directory result" where
  "hydrate_from_redis env request d =
     (if \<not> rs_enabled (kc_redis_store d) then Inr d
      else let key = cache_key request in
        ebind (fetch_cache_affinity env key (kc_redis_store d)) (\<lambda>payload.
          case payload of None \<Rightarrow> Inr d
          | Some p \<Rightarrow>
              if \<not> json_truthy p then Inr d
              else case p of
                  JDict doc \<Rightarrow>
                    (case dict_get (JList []) doc ''entries'' of
                       JList items \<Rightarrow>
                         ebind (emap (entry_from_json env key) (json_dicts items)) (\<lambda>hydrated.
                           Inr (if hydrated \<noteq> [] then d\<lparr>kc_entries := AList.update key hydrated (kc_entries d)\<rparr>
                                else d))
                     | _ \<Rightarrow> Inr d)
                | _ \<Rightarrow> Inl (AttributeError ''get'')))"

text \<open>\<open>score\<close>: the body of the loop over the entries of a bucket, then the method.\<close>

definition freshness :: "pyfloat \<Rightarrow> pyfloat \<Rightarrow> cache_entry \<Rightarrow> pyfloat" where
  "freshness ttl_s now e = max 0.1 (1 - (now - ce_last_touched e) / ttl_s)"

definition location_bonus :: "string \<Rightarrow> string \<Rightarrow> cache_entry \<Rightarrow> pyfloat" where
  "location_bonus cluster_id pool_id e =
     (if ce_cluster_id e = cluster_id \<and> ce_pool_id e = pool_id then 1
      else if ce_cluster_id e = cluster_id then 0.7
      else 0.35)"

definition hit_ratio :: "pyfloat \<Rightarrow> string \<Rightarrow> string \<Rightarrow> pyfloat \<Rightarrow> cache_entry \<Rightarrow> pyfloat" where
  "hit_ratio ttl_s cluster_id pool_id now e =
     min 0.95 (freshness ttl_s now e * location_bonus cluster_id pool_id e)"

definition score_entry ::
  "pyfloat \<Rightarrow> inference_request \<Rightarrow> string \<Rightarrow> string \<Rightarrow> pyfloat \<Rightarrow> cache_entry
    \<Rightarrow> pyfloat \<times> int \<Rightarrow> (pyfloat \<times> int) result" where
  "score_entry ttl_s request cluster_id pool_id now e best =
     (if now < ce_available_ts e then Inr best
      else if ttl_s = 0 then Inl ZeroDivisionError
      else let ratio = hit_ratio ttl_s cluster_id pool_id now e;
               saved_tokens = py_int (of_int (min (ce_size_tokens e) (rq_prompt_tokens request)) * ratio)
           in Inr (if fst best < ratio then (ratio, saved_tokens) else best))"

definition score ::
  "'r redis_env \<Rightarrow> inference_request \<Rightarrow> string \<Rightarrow> string \<Rightarrow> pyfloat \<Rightarrow> 'r kv_cache_directory
    \<Rightarrow> ('r kv_cache_directory \<times> pyfloat \<times> int) result" where
  "score env request cluster_id pool_id now d0 =
     (let d1 = evict_stale now d0 in
      ebind (if dict_get [] (kc_entries d1) (cache_key request) = []
             then hydrate_from_redis env request d1 else Inr d1) (\<lambda>d.
      ebind (efold (score_entry (kc_ttl_s d) request cluster_id pool_id now)
               (dict_get [] (kc_entries d) (cache_key request)) (0, 0)) (\<lambda>(best_ratio, best_saved_tokens).
        Inr (d, py_round 4 best_ratio, best_saved_tokens))))"

text \<open>
  \<open>_trim\<close>. The items are sorted as tuples. Python orders two tuples by the first position at which
  they differ and asks \<open><\<close> of the elements there; \<open>CacheEntry\<close> is a dataclass with \<open>==\<close> and without an
  order, so the comparison of two tuples that differ in the entry alone raises \<open>TypeError\<close>, and two
  equal tuples compare as not less. \<open>list.sort\<close> is a stable sort that sees its items only through
  \<open><\<close> and fails as soon as one comparison fails; it is modelled as a merge sort.
\<close>

type_synonym trim_item = "int \<times> pyfloat \<times> string \<times> cache_entry"

definition total_entries :: "buckets \<Rightarrow> int" where
  "total_entries entries = sum_list (map (\<lambda>b. int (length b)) (dict_values entries))"

definition trim_items :: "buckets \<Rightarrow> trim_item list" where
  "trim_items entries =
     concat (map (\<lambda>(key, bucket). map (\<lambda>e. (ce_hit_count e, ce_last_touched e, key, e)) bucket) entries)"

definition trim_key :: "trim_item \<Rightarrow> int \<times> pyfloat \<times> string" where
  "trim_key item = (case item of (hits, touched, key, _) \<Rightarrow> (hits, touched, key))"

definition tuple_less :: "trim_item \<Rightarrow> trim_item \<Rightarrow> bool result" where
  "tuple_less x y =
     (case (x, y) of ((hits, touched, key, e), (hits', touched', key', e')) \<Rightarrow>
        if hits \<noteq> hits' then Inr (hits < hits')
        else if touched \<noteq> touched' then Inr (touched < touched')
        else if key \<noteq> key' then Inr (key < key')
        else if e \<noteq> e' then Inl TypeError
        else Inr False)"

fun merge_items :: "trim_item list \<Rightarrow> trim_item list \<Rightarrow> trim_item list result" where
  "merge_items [] ys = Inr ys"
| "merge_items (x # xs) [] = Inr (x # xs)"
| "merge_items (x # xs) (y # ys) =
     ebind (tuple_less y x) (\<lambda>less.
       if less then ebind (merge_items (x # xs) ys) (\<lambda>zs. Inr (y # zs))
       else ebind (merge_items xs (y # ys)) (\<lambda>zs. Inr (x # zs)))"

fun sort_items :: "trim_item list \<Rightarrow> trim_item list result" where
  "sort_items [] = Inr []"
| "sort_items [x] = Inr [x]"
| "sort_items (x # y # items) =
     (let all = x # y # items; half = length all div 2 in
      ebind (sort_items (take half all)) (\<lambda>front.
      ebind (sort_items (drop half all)) (\<lambda>back. merge_items front back)))"

fun trim_loop :: "int \<Rightarrow> int \<Rightarrow> trim_item list \<Rightarrow> buckets \<Rightarrow> buckets" where
  "trim_loop max_entries n [] entries = entries"
| "trim_loop max_entries n ((hits, touched, key, victim) # items) entries =
     (if n \<le> max_entries then entries
      else let bucket = dict_get [] entries key;
               bucket' = remove1 victim bucket;
               n' = (if victim \<in> set bucket then n - 1 else n);
               entries' = (if bucket' = [] then AList.delete key entries
                           else AList.update key bucket' entries)
           in trim_loop max_entries n' items entries')"

definition trim :: "'r kv_cache_directory \<Rightarrow> 'r kv_cache_directory result" where
  "trim d =
     (if total_entries (kc_entries d) \<le> kc_max_entries d then Inr d
      else ebind (sort_items (trim_items (kc_entries d))) (\<lambda>items.
        Inr (d\<lparr>kc_entries :=
          trim_loop (kc_max_entries d) (total_entries (kc_entries d)) items (kc_entries d)\<rparr>)))"

text \<open>\<open>observe\<close>: the first entry of the same pool is updated, otherwise one is appended.\<close>

definition result_entry :: "request_result \<Rightarrow> cache_entry" where
  "result_entry r =
     \<lparr>ce_key = cache_key (rr_request r), ce_cluster_id = rd_cluster_id (rr_decision r),
      ce_pool_id = rd_pool_id (rr_decision r), ce_size_tokens = rq_prompt_tokens (rr_request r),
      ce_size_gb = rr_memory_gb r * 0.55, ce_available_ts = rr_completion_ts r,
      ce_last_touched = rr_completion_ts r,
      ce_hit_count = (if 0 < rr_cache_hit_ratio r then 1 else 0)\<rparr>"

definition touch_entry :: "request_result \<Rightarrow> cache_entry \<Rightarrow> cache_entry" where
  "touch_entry r e =
     e\<lparr>ce_size_tokens := max (ce_size_tokens e) (rq_prompt_tokens (rr_request r)),
       ce_size_gb := max (ce_size_gb e) (rr_memory_gb r * 0.55),
       ce_available_ts := rr_completion_ts r,
       ce_last_touched := rr_completion_ts r,
       ce_hit_count := ce_hit_count e + (if 0 < rr_cache_hit_ratio r then 1 else 0)\<rparr>"

definition same_place :: "request_result \<Rightarrow> cache_entry \<Rightarrow> bool" where
  "same_place r e \<longleftrightarrow>
     ce_cluster_id e = rd_cluster_id (rr_decision r) \<and> ce_pool_id e = rd_pool_id (rr_decision r)"

fun observe_bucket :: "request_result \<Rightarrow> cache_entry list \<Rightarrow> cache_entry list" where
  "observe_bucket r [] = [result_entry r]"
| "observe_bucket r (e # es) =
     (if same_place r e then touch_entry r e # es else e # observe_bucket r es)"

definition cap_bucket :: "cache_entry list \<Rightarrow> cache_entry list" where
  "cap_bucket bucket =
     (if 4 < length bucket then take 4 (sort_desc (\<lambda>e. (ce_hit_count e, ce_last_touched e)) bucket)
      else bucket)"

definition observe ::
  "'r redis_env \<Rightarrow> request_result \<Rightarrow> 'r kv_cache_directory \<Rightarrow> 'r kv_cache_directory result" where
  "observe env r d =
     (if \<not> rr_admitted r then Inr d
      else let key = cache_key (rr_request r);
               touched = dd_touch [] key (kc_entries d);
               bucket = cap_bucket (observe_bucket r (dict_get [] touched key))
           in ebind (persist_to_redis env key (d\<lparr>kc_entries := AList.update key bucket touched\<rparr>)) trim)"

definition reserved_gb ::
  "string \<Rightarrow> string \<Rightarrow> pyfloat \<Rightarrow> 'r kv_cache_directory \<Rightarrow> 'r kv_cache_directory \<times> pyfloat" where
  "reserved_gb cluster_id pool_id now d0 =
     (let d = evict_stale now d0
      in (d, fold (\<lambda>bucket total.
                fold (\<lambda>e total. if ce_cluster_id e = cluster_id \<and> ce_pool_id e = pool_id
                                then total + ce_size_gb e else total) bucket total)
              (dict_values (kc_entries d)) 0))"

definition offload_recommendation ::
  "string \<Rightarrow> string \<Rightarrow> pyfloat \<Rightarrow> pyfloat \<Rightarrow> 'r kv_cache_directory \<Rightarrow> 'r kv_cache_directory \<times> string" where
  "offload_recommendation cluster_id pool_id memory_pressure now d0 =
     (case reserved_gb cluster_id pool_id now d0 of (d, reserved) \<Rightarrow>
        (d, if 0.85 < memory_pressure \<and> 8 < reserved then ''offload-cold-cache''
            else if 0.7 < memory_pressure then ''replicate-hot-prefix-only''
            else ''retain''))"

definition cache_snapshot :: "pyfloat \<Rightarrow> 'r kv_cache_directory \<Rightarrow> 'r kv_cache_directory \<times> json" where
  "cache_snapshot now d0 =
     (let d = evict_stale now d0
      in (d, JDict [(''entries'', JDict (map (\<lambda>(key, bucket).
            (key, JList (map (\<lambda>e. entry_to_json (e\<lparr>ce_size_gb := py_round 4 (ce_size_gb e)\<rparr>)) bucket)))
            (kc_entries d)))]))"

section \<open>The directory as a bag of keyed entries\<close>

text \<open>
  The items \<open>_trim\<close> collects are the abstraction of the dictionary of buckets: every
  entry with its key. Storing a bucket exchanges the items of that key.
\<close>

definition bucket_items :: "string \<Rightarrow> cache_entry list \<Rightarrow> trim_item list" where
  "bucket_items key bucket = map (\<lambda>e. (ce_hit_count e, ce_last_touched e, key, e)) bucket"

lemma trim_items_Nil [simp]: "trim_items [] = []"
  and trim_items_Cons [simp]: "trim_items ((k, b) # es) = bucket_items k b @ trim_items es"
  and trim_items_append: "trim_items (es @ fs) = trim_items es @ trim_items fs"
  by (simp_all add: trim_items_def bucket_items_def)

lemma bucket_items_simps [simp]:
  "bucket_items k [] = []" "bucket_items k (e # b) = (ce_hit_count e, ce_last_touched e, k, e) # bucket_items k b"
  "length (bucket_items k b) = length b"
  by (simp_all add: bucket_items_def)

lemma total_entries_items: "total_entries es = int (length (trim_items es))"
  by (induction es) (auto simp: total_entries_def dict_values_def)

lemma trim_items_split:
  "dict_ok es \<Longrightarrow> mset (trim_items es) =
     mset (bucket_items k (dict_get [] es k)) + mset (trim_items (AList.delete k es))"
proof (induction es)
  case (Cons p es)
  obtain k' b' where p: "p = (k', b')" by force
  from Cons.prems have ok: "dict_ok es" and "k' \<notin> set (map fst es)" by (simp_all add: dict_ok_def p)
  with Cons.IH [OF ok] show ?case by (cases "k' = k") (auto simp: p dict_get_def delete_id)
qed (simp add: dict_get_def)

lemma trim_items_store:
  "dict_ok es \<Longrightarrow> mset (trim_items (AList.update k b es)) =
     mset (bucket_items k b) + mset (trim_items (AList.delete k es))"
  using trim_items_split [of "AList.update k b es" k]
  by (simp add: adict.invar_store dict_get_update delete_update_same)

lemma store_items_length:
  "dict_ok es \<Longrightarrow> length b \<le> length (dict_get [] es k) + 1 \<Longrightarrow>
     length (trim_items (AList.update k b es)) \<le> length (trim_items es) + 1"
  using arg_cong [OF trim_items_store [of es k b], of size] arg_cong [OF trim_items_split [of es k], of size]
  by simp

lemma trim_items_in_bucket:
  assumes "dict_ok es" and "(h, t, k, e) \<in> set (trim_items es)"
  shows "e \<in> set (dict_get [] es k) \<and> h = ce_hit_count e \<and> t = ce_last_touched e"
proof -
  from assms(2) obtain b where "(k, b) \<in> set es" and "e \<in> set b"
    and "h = ce_hit_count e" and "t = ce_last_touched e"
    by (auto simp: trim_items_def)
  with assms(1) show ?thesis by (simp add: dict_ok_def dict_get_def)
qed

section \<open>Trimming\<close>

lemma mset_bucket_remove1:
  "e \<in> set b \<Longrightarrow> mset (bucket_items k b) =
     add_mset (ce_hit_count e, ce_last_touched e, k, e) (mset (bucket_items k (remove1 e b)))"
  by (induction b) auto

lemma trim_loop_items:
  assumes "dict_ok es" and "mset items \<subseteq># mset (trim_items es)" and "n - m \<le> int (length items)"
  shows "mset (trim_items (trim_loop m n items es)) = mset (trim_items es) - mset (take (nat (n - m)) items)"
  using assms
proof (induction m n items es rule: trim_loop.induct)
  case (1 m n es)
  then show ?case by simp
next
  case (2 m n hits touched key victim items es)
  let ?i = "(hits, touched, key, victim)" and ?b = "dict_get [] es key"
  let ?es = "if remove1 victim ?b = [] then AList.delete key es else AList.update key (remove1 victim ?b) es"
  show ?case
  proof (cases "n \<le> m")
    case False
    have "?i \<in> set (trim_items es)"
      using "2.prems"(2) mset_subset_eqD [of "mset (?i # items)" "mset (trim_items es)" ?i] by simp
    note vic = trim_items_in_bucket [OF "2.prems"(1) this]
    have items: "mset (trim_items ?es) = mset (trim_items es) - {#?i#}"
      using vic mset_bucket_remove1 [of victim ?b key] trim_items_split [OF "2.prems"(1), of key]
      by (auto simp: trim_items_store "2.prems"(1))
    have ok: "dict_ok ?es" using "2.prems"(1) by (simp add: adict.invar_store adict.invar_remove)
    have sub: "mset items \<subseteq># mset (trim_items ?es)"
      using "2.prems"(2) unfolding items by (simp add: insert_subset_eq_iff)
    have num: "nat (n - m) = Suc (nat (n - 1 - m))" and len: "n - 1 - m \<le> int (length items)"
      using False "2.prems"(3) by simp_all
    have "trim_loop m n (?i # items) es = trim_loop m (n - 1) items ?es"
      using False vic by (simp add: Let_def)
    then show ?thesis
      using "2.IH" [OF False refl refl refl refl] ok sub len vic
      by (simp add: num items)
  qed simp
qed

text \<open>
  The result of \<open>_trim\<close> on a full directory: the items that remain are those behind the first
  \<open>total - max\<close> of the sorted order, so no remaining item is colder than a dropped one.
\<close>

lemma tuple_less_key:
  "tuple_less x y = (if trim_key x = trim_key y \<and> x \<noteq> y then Inl TypeError else Inr (trim_key x < trim_key y))"
  by (cases x; cases y) (auto simp: tuple_less_def trim_key_def)

lemma mset_merge_items: "merge_items xs ys = Inr zs \<Longrightarrow> mset zs = mset xs + mset ys"
  by (induction xs ys arbitrary: zs rule: merge_items.induct) (auto simp: result_simps split: if_splits)

lemma set_merge_items: "merge_items xs ys = Inr zs \<Longrightarrow> set zs = set xs \<union> set ys"
  by (drule mset_merge_items) (metis set_mset_mset set_mset_union)

lemma sorted_merge_items:
  assumes "merge_items xs ys = Inr zs" "sorted (map trim_key xs)" "sorted (map trim_key ys)"
  shows "sorted (map trim_key zs)"
  using assms
proof (induction xs ys arbitrary: zs rule: merge_items.induct)
  case (3 x xs y ys)
  from "3.prems"(1) consider
      (right) ws where "trim_key y < trim_key x" "merge_items (x # xs) ys = Inr ws" "zs = y # ws"
    | (left) ws where "trim_key x \<le> trim_key y" "merge_items xs (y # ys) = Inr ws" "zs = x # ws" "tuple_less y x = Inr False"
    by (fastforce simp: tuple_less_key result_simps split: if_splits)
  then show ?case
  proof cases
    case right
    then have "tuple_less y x = Inr True" by (auto simp: tuple_less_key)
    from "3.IH"(1) [OF this TrueI right(2)] "3.prems"(2,3) have "sorted (map trim_key ws)" by simp
    moreover have "trim_key y \<le> trim_key z" if "z \<in> set ws" for z
      using that right(1) "3.prems"(2,3) set_merge_items [OF right(2)] by fastforce
    ultimately show ?thesis using right(3) by simp
  next
    case left
    from "3.IH"(2) [OF left(4) _ left(2)] "3.prems"(2,3) have "sorted (map trim_key ws)" by simp
    moreover have "trim_key x \<le> trim_key z" if "z \<in> set ws" for z
      using that left(1) "3.prems"(2,3) set_merge_items [OF left(2)] by fastforce
    ultimately show ?thesis using left(3) by simp
  qed
qed simp_all

text \<open>
  A merge of sorted runs, each without a tie of different items, finds every such tie between them:
  an item that leaves one run has been compared with the head of the other.
\<close>

lemma inj_on_insert_head:
  assumes "inj_on f A" and "\<And>z. z \<in> A \<Longrightarrow> z = b \<or> f b \<noteq> f z"
  shows "inj_on f (insert b A)"
  using assms by (auto simp: inj_on_insert)

lemma merge_items_untied:
  assumes "merge_items xs ys = Inr zs" "sorted (map trim_key xs)" "sorted (map trim_key ys)"
    and "inj_on trim_key (set xs)" "inj_on trim_key (set ys)"
  shows "inj_on trim_key (set xs \<union> set ys)"
  using assms
proof (induction xs ys arbitrary: zs rule: merge_items.induct)
  case (3 x xs y ys)
  from "3.prems"(1) consider
      (right) ws where "trim_key y < trim_key x" "merge_items (x # xs) ys = Inr ws"
    | (left) ws where "trim_key x < trim_key y \<or> x = y" "merge_items xs (y # ys) = Inr ws" "tuple_less y x = Inr False"
    by (fastforce simp: tuple_less_key result_simps split: if_splits)
  then show ?case
  proof cases
    case right
    then have "tuple_less y x = Inr True" by (auto simp: tuple_less_key)
    from "3.IH"(1) [OF this TrueI right(2)] "3.prems"(2-5) have "inj_on trim_key (set (x # xs) \<union> set ys)" by simp
    moreover have "z = y \<or> trim_key y \<noteq> trim_key z" if "z \<in> set (x # xs) \<union> set ys" for z
      using that right(1) "3.prems"(2) inj_onD [OF "3.prems"(5), of y z] by fastforce
    ultimately have "inj_on trim_key (insert y (set (x # xs) \<union> set ys))" by (rule inj_on_insert_head)
    then show ?thesis by (rule inj_on_subset) auto
  next
    case left
    have "inj_on trim_key (set xs \<union> set (y # ys))"
      using "3.IH"(2) [OF left(3) _ left(2)] "3.prems"(2-5) by simp
    moreover have "z = x \<or> trim_key x \<noteq> trim_key z" if "z \<in> set xs \<union> set (y # ys)" for z
      using that left(1) "3.prems"(3) inj_onD [OF "3.prems"(4), of x z] inj_onD [OF "3.prems"(5), of y z] by fastforce
    ultimately have "inj_on trim_key (insert x (set xs \<union> set (y # ys)))" by (rule inj_on_insert_head)
    then show ?thesis by (rule inj_on_subset) auto
  qed
qed simp_all

lemma merge_items_Inr: "inj_on trim_key (set xs \<union> set ys) \<Longrightarrow> \<exists>zs. merge_items xs ys = Inr zs"
proof (induction xs ys rule: merge_items.induct)
  case (3 x xs y ys)
  have facts: "inj_on trim_key (set (x # xs) \<union> set ys)" "inj_on trim_key (set xs \<union> set (y # ys))"
    by (rule inj_on_subset [OF "3.prems"], force)+
  have eq: "x = y" if "trim_key x = trim_key y" using inj_onD [OF "3.prems" that] by simp
  show ?case
  proof (cases "tuple_less y x")
    case (Inl e)
    with eq show ?thesis by (auto simp: tuple_less_key split: if_splits)
  next
    case (Inr b)
    with "3.IH"(1) [OF Inr _ facts(1)] "3.IH"(2) [OF Inr _ facts(2)] show ?thesis by (cases b) auto
  qed
qed simp_all

lemma merge_items_Inl: "merge_items xs ys = Inl e \<Longrightarrow> e = TypeError"
  by (induction xs ys rule: merge_items.induct) (auto simp: ebind_eq_Inl tuple_less_key split: if_splits)

lemma sort_items_sorted:
  "sort_items items = Inr xs \<Longrightarrow> mset xs = mset items \<and> sorted (map trim_key xs) \<and> inj_on trim_key (set items)"
proof (induction items arbitrary: xs rule: sort_items.induct)
  case (3 x y items)
  define all half where all: "all = x # y # items" and "half = length all div 2"
  with "3.prems" obtain us vs where us: "sort_items (take half all) = Inr us"
    and vs: "sort_items (drop half all) = Inr vs" and xs: "merge_items us vs = Inr xs"
    by (auto simp: result_simps Let_def)
  note u = "3.IH"(1) [OF all half_def us] and v = "3.IH"(2) [OF all half_def us vs]
  have split: "set all = set us \<union> set vs"
    using u v by (metis append_take_drop_id mset_eq_setD set_append)
  have "mset xs = mset all"
    using mset_merge_items [OF xs] u v by (metis append_take_drop_id mset_append)
  moreover have "sorted (map trim_key xs)" by (rule sorted_merge_items [OF xs]) (use u v in blast)+
  moreover have "inj_on trim_key (set all)" unfolding split
    by (rule merge_items_untied [OF xs]) (use u v in \<open>auto dest: mset_eq_setD\<close>)
  ultimately show ?case by (simp add: all)
qed simp_all

lemma sort_items_Inl: "sort_items items = Inl e \<Longrightarrow> e = TypeError"
proof (induction items rule: sort_items.induct)
  case (3 x y items)
  then show ?case by (auto simp: Let_def ebind_eq_Inl dest: merge_items_Inl)
qed simp_all

lemma sort_items_untied: "inj_on trim_key (set items) \<Longrightarrow> \<exists>xs. sort_items items = Inr xs"
proof (induction items rule: sort_items.induct)
  case (3 x y items)
  define all half where all: "all = x # y # items" and "half = length all div 2"
  have sub: "set (take half all) \<subseteq> set all" "set (drop half all) \<subseteq> set all"
    by (simp_all add: set_take_subset set_drop_subset)
  from "3.IH"(1) [OF all half_def] sub "3.prems" obtain us where us: "sort_items (take half all) = Inr us"
    by (metis all inj_on_subset)
  from "3.IH"(2) [OF all half_def us] sub "3.prems" obtain vs where vs: "sort_items (drop half all) = Inr vs"
    by (metis all inj_on_subset)
  have "set us \<union> set vs = set all"
    using sort_items_sorted [OF us] sort_items_sorted [OF vs] by (metis append_take_drop_id mset_eq_setD set_append)
  with "3.prems" merge_items_Inr [of us vs] us vs show ?case
    by (auto simp: Let_def all half_def)
qed simp_all

text \<open>
  So the sort raises exactly when two different items are tied, and else returns the one order of
  the items by hit count, time and key, whatever comparisons it happens to make.
\<close>

lemma sort_items_eq:
  "sort_items items =
     (if inj_on trim_key (set items) then Inr (sort_key trim_key items) else Inl TypeError)"
proof (cases "sort_items items")
  case (Inl e)
  with sort_items_Inl [OF Inl] sort_items_untied [of items] show ?thesis by auto
next
  case (Inr xs)
  with sort_items_sorted [OF Inr] sort_key_inj_key_eq [of items xs trim_key] show ?thesis by simp
qed

lemma sort_items_Inr: "sort_items items = Inr xs \<Longrightarrow> xs = sort_key trim_key items"
  by (simp add: sort_items_eq split: if_splits)

lemma trim_drops_coldest:
  assumes ok: "dict_ok (kc_entries d)" and "0 \<le> kc_max_entries d" and trim: "trim d = Inr d'"
  shows "mset (trim_items (kc_entries d')) =
    mset (drop (length (trim_items (kc_entries d)) - nat (kc_max_entries d))
      (sort_key trim_key (trim_items (kc_entries d))))"
proof (cases "total_entries (kc_entries d) \<le> kc_max_entries d")
  case True
  with trim assms(2) show ?thesis by (simp add: trim_def total_entries_items nat_le_iff le_nat_iff)
next
  case False
  let ?items = "trim_items (kc_entries d)" and ?n = "total_entries (kc_entries d)"
  let ?s = "sort_key trim_key ?items"
  from False trim have d': "d' = d\<lparr>kc_entries := trim_loop (kc_max_entries d) ?n ?s (kc_entries d)\<rparr>"
    by (auto simp: trim_def result_simps dest: sort_items_Inr)
  have "nat (?n - kc_max_entries d) = length ?items - nat (kc_max_entries d)"
    using assms(2) by (simp add: total_entries_items nat_diff_distrib)
  moreover have "mset (trim_items (kc_entries d')) = mset ?items - mset (take (nat (?n - kc_max_entries d)) ?s)"
    unfolding d' using trim_loop_items [OF ok, of ?s ?n "kc_max_entries d"] assms(2)
    by (simp add: total_entries_items)
  moreover have "mset ?items = mset (take k ?s) + mset (drop k ?s)" for k
    by (metis append_take_drop_id mset_append mset_sort)
  ultimately show ?thesis by (metis add_diff_cancel_left')
qed

lemma trim_total:
  assumes "dict_ok (kc_entries d)" and "0 \<le> kc_max_entries d" and "trim d = Inr d'"
  shows "total_entries (kc_entries d') = min (total_entries (kc_entries d)) (kc_max_entries d)"
proof -
  have "length (trim_items (kc_entries d')) =
      length (trim_items (kc_entries d)) - (length (trim_items (kc_entries d)) - nat (kc_max_entries d))"
    using arg_cong [OF trim_drops_coldest [OF assms], of size] by simp
  with assms(2) show ?thesis by (simp add: total_entries_items min_def)
qed

section \<open>The directory invariant\<close>

definition entry_ok :: "string \<Rightarrow> cache_entry \<Rightarrow> bool" where
  "entry_ok k e \<longleftrightarrow> ce_key e = k \<and> 0 \<le> ce_size_tokens e \<and> 0 \<le> ce_size_gb e \<and> 0 \<le> ce_hit_count e \<and>
     ce_available_ts e = ce_last_touched e"

definition place :: "cache_entry \<Rightarrow> string \<times> string" where
  "place e = (ce_cluster_id e, ce_pool_id e)"

definition bucket_ok :: "string \<Rightarrow> cache_entry list \<Rightarrow> bool" where
  "bucket_ok k b \<longleftrightarrow> b \<noteq> [] \<and> length b \<le> 4 \<and> (\<forall>e \<in> set b. entry_ok k e) \<and> distinct (map place b)"

definition buckets_ok :: "buckets \<Rightarrow> bool" where
  "buckets_ok es \<longleftrightarrow> dict_ok es \<and> (\<forall>(k, b) \<in> set es. bucket_ok k b)"

lemma buckets_okD: "buckets_ok es \<Longrightarrow> dict_ok es"
  and buckets_ok_get: "buckets_ok es \<Longrightarrow> map_of es k = Some b \<Longrightarrow> bucket_ok k b"
  by (auto simp: buckets_ok_def dest: map_of_SomeD)

lemma buckets_ok_bucket: "buckets_ok es \<Longrightarrow> dict_get [] es k = [] \<or> bucket_ok k (dict_get [] es k)"
  by (cases "map_of es k") (auto simp: dict_get_def dest: buckets_ok_get)

lemma buckets_ok_entry: "buckets_ok es \<Longrightarrow> e \<in> set (dict_get [] es k) \<Longrightarrow> entry_ok k e"
  by (drule buckets_ok_bucket [where k = k]) (auto simp: bucket_ok_def)

lemma buckets_ok_store:
  assumes "buckets_ok es" and "bucket_ok k b"
  shows "buckets_ok (AList.update k b es)"
proof -
  have "set (AList.update k b es) \<subseteq> insert (k, b) (set es)" by (induction es) auto
  with assms show ?thesis by (auto simp: buckets_ok_def adict.invar_store)
qed

lemma buckets_ok_delete: "buckets_ok es \<Longrightarrow> buckets_ok (AList.delete k es)"
  using adict.invar_remove [of es k] by (auto simp: buckets_ok_def AList.delete_eq)

lemma bucket_ok_sub:
  "bucket_ok k b \<Longrightarrow> b' \<noteq> [] \<Longrightarrow> length b' \<le> length b \<Longrightarrow> set b' \<subseteq> set b \<Longrightarrow> distinct (map place b')
    \<Longrightarrow> bucket_ok k b'"
  by (auto simp: bucket_ok_def)

lemma bucket_ok_filter: "bucket_ok k b \<Longrightarrow> filter P b \<noteq> [] \<Longrightarrow> bucket_ok k (filter P b)"
  by (rule bucket_ok_sub) (auto simp: bucket_ok_def distinct_map_filter)

lemma bucket_ok_remove1: "bucket_ok k b \<Longrightarrow> remove1 e b \<noteq> [] \<Longrightarrow> bucket_ok k (remove1 e b)"
  by (rule bucket_ok_sub)
     (auto simp: bucket_ok_def length_remove1 distinct_map distinct_remove1
        dest: notin_set_remove1 inj_on_subset [OF _ set_remove1_subset])

text \<open>Eviction keeps, bucket by bucket, the entries touched within the time to live.\<close>

definition evicted :: "pyfloat \<Rightarrow> pyfloat \<Rightarrow> buckets \<Rightarrow> buckets" where
  "evicted ttl_s now es =
     filter (\<lambda>(k, b). b \<noteq> [])
       (map (\<lambda>(k, b). (k, filter (\<lambda>e. now - ce_last_touched e \<le> ttl_s) b)) es)"

lemma fold_evict_bucket:
  "dict_ok (ds @ es) \<Longrightarrow> fold (evict_bucket ttl_s now) es (ds @ es) = ds @ evicted ttl_s now es"
proof (induction es arbitrary: ds)
  case (Cons p es)
  obtain k b where p: "p = (k, b)" by force
  let ?s = "filter (\<lambda>e. now - ce_last_touched e \<le> ttl_s) b"
  from Cons.prems have nd: "k \<notin> set (map fst ds)" and ne: "k \<notin> set (map fst es)"
    and ok: "dict_ok (ds @ es)" and ok': "dict_ok ((ds @ [(k, ?s)]) @ es)"
    by (auto simp: dict_ok_def p)
  have "AList.update k ?s (ds @ (k, b) # es) = (ds @ [(k, ?s)]) @ es"
    using nd by (induction ds) auto
  moreover have "AList.delete k (ds @ (k, b) # es) = ds @ es"
  proof -
    have "AList.delete k (ds @ (k, b) # es) = AList.delete k ds @ AList.delete k es"
      by (simp add: AList.delete_eq)
    with nd ne show ?thesis by (simp add: delete_id)
  qed
  ultimately have "evict_bucket ttl_s now p (ds @ p # es) =
      (if ?s = [] then ds @ es else (ds @ [(k, ?s)]) @ es)"
    by (simp add: evict_bucket_def p Let_def)
  then show ?case
    using Cons.IH [OF ok] Cons.IH [OF ok'] by (simp add: evicted_def p)
qed (simp add: evicted_def)

lemma evict_stale_eq:
  "dict_ok (kc_entries d) \<Longrightarrow>
     evict_stale now d = d\<lparr>kc_entries := evicted (kc_ttl_s d) now (kc_entries d)\<rparr>"
  using fold_evict_bucket [of "[]"] by (simp add: evict_stale_def)

lemma evicted_get:
  "dict_ok es \<Longrightarrow> dict_get [] (evicted ttl_s now es) k =
     filter (\<lambda>e. now - ce_last_touched e \<le> ttl_s) (dict_get [] es k)"
proof (induction es)
  case (Cons p es)
  obtain k' b where p: "p = (k', b)" by force
  from Cons.prems have "dict_ok es" and "k' \<notin> dom (map_of es)"
    by (auto simp: dict_ok_def p dom_map_of_conv_image_fst)
  moreover from this(2) have "map_of (evicted ttl_s now es) k' = None"
    by (auto simp: evicted_def map_of_eq_None_iff dom_map_of_conv_image_fst image_iff)
  ultimately show ?case using Cons.IH by (auto simp: evicted_def p dict_get_def)
qed (simp add: evicted_def)

lemma buckets_ok_evicted: "buckets_ok es \<Longrightarrow> buckets_ok (evicted ttl_s now es)"
proof -
  have "distinct (map fst es) \<Longrightarrow> distinct (map fst (evicted ttl_s now es))"
    unfolding evicted_def by (intro distinct_map_filter) (simp add: comp_def case_prod_unfold)
  then show "buckets_ok es \<Longrightarrow> buckets_ok (evicted ttl_s now es)"
    by (auto simp: buckets_ok_def dict_ok_def evicted_def intro!: bucket_ok_filter)
qed

text \<open>Recording a result keeps the bucket well-formed, also when it overflows.\<close>

definition result_ok :: "request_result \<Rightarrow> bool" where
  "result_ok r \<longleftrightarrow> 0 \<le> rq_prompt_tokens (rr_request r) \<and> 0 \<le> rr_memory_gb r"

lemma place_result_entry: "place (result_entry r) = (rd_cluster_id (rr_decision r), rd_pool_id (rr_decision r))"
  and place_touch_entry [simp]: "place (touch_entry r e) = place e"
  and same_place_iff: "same_place r e \<longleftrightarrow> place e = place (result_entry r)"
  by (auto simp: place_def result_entry_def touch_entry_def same_place_def)

lemma entry_ok_result: "result_ok r \<Longrightarrow> entry_ok (cache_key (rr_request r)) (result_entry r)"
  and entry_ok_touch: "entry_ok k e \<Longrightarrow> entry_ok k (touch_entry r e)"
  by (auto simp: entry_ok_def result_entry_def result_ok_def touch_entry_def le_max_iff_disj)

lemma observe_bucket_places:
  "set (map place (observe_bucket r b)) = insert (place (result_entry r)) (set (map place b))"
  by (induction b) (auto simp: same_place_iff)

lemma observe_bucket_nonempty [simp]: "observe_bucket r b \<noteq> []"
  by (cases b) auto

lemma observe_bucket_length: "length (observe_bucket r b) \<le> length b + 1"
  by (induction b) auto

lemma observe_bucket_distinct: "distinct (map place b) \<Longrightarrow> distinct (map place (observe_bucket r b))"
proof (induction b)
  case (Cons e b)
  have "place e \<notin> set (map place (observe_bucket r b))" if "\<not> same_place r e"
    using Cons.prems that unfolding observe_bucket_places by (auto simp: same_place_iff)
  with Cons show ?case by simp
qed simp

lemma observe_bucket_entries:
  "result_ok r \<Longrightarrow> k = cache_key (rr_request r) \<Longrightarrow> \<forall>e \<in> set b. entry_ok k e \<Longrightarrow>
     \<forall>e \<in> set (observe_bucket r b). entry_ok k e"
  by (induction b) (auto simp: entry_ok_result entry_ok_touch)

lemma cap_bucket_sub: "set (cap_bucket b) \<subseteq> set b"
  using set_take_subset [of 4 "sort_desc (\<lambda>e. (ce_hit_count e, ce_last_touched e)) b"]
  by (auto simp: cap_bucket_def)

lemma cap_bucket_length: "length (cap_bucket b) \<le> 4"
  by (simp add: cap_bucket_def)

lemma cap_bucket_distinct: "distinct (map place b) \<Longrightarrow> distinct (map place (cap_bucket b))"
proof -
  have "distinct (map place (sort_desc (\<lambda>e. (ce_hit_count e, ce_last_touched e)) b)) \<longleftrightarrow> distinct (map place b)"
    by (intro mset_eq_imp_distinct_iff) simp
  then show "distinct (map place b) \<Longrightarrow> distinct (map place (cap_bucket b))"
    by (simp add: cap_bucket_def take_map [symmetric])
qed

lemma cap_bucket_nonempty [simp]: "cap_bucket b = [] \<longleftrightarrow> b = []"
proof -
  have "sort_desc f b = [] \<longleftrightarrow> b = []" for f :: "cache_entry \<Rightarrow> int \<times> pyfloat"
    by (simp flip: length_0_conv)
  then show ?thesis by (simp add: cap_bucket_def)
qed

lemma observed_bucket_ok:
  assumes "result_ok r" and "b = [] \<or> bucket_ok (cache_key (rr_request r)) b"
  shows "bucket_ok (cache_key (rr_request r)) (cap_bucket (observe_bucket r b))"
proof -
  have entries: "\<forall>e \<in> set b. entry_ok (cache_key (rr_request r)) e" and dist: "distinct (map place b)"
    using assms(2) by (auto simp: bucket_ok_def)
  have "\<forall>e \<in> set (cap_bucket (observe_bucket r b)). entry_ok (cache_key (rr_request r)) e"
    using observe_bucket_entries [OF assms(1) refl entries] cap_bucket_sub by fast
  with cap_bucket_distinct [OF observe_bucket_distinct [OF dist, of r]] show ?thesis
    by (simp add: bucket_ok_def cap_bucket_length)
qed

lemma buckets_ok_trim_loop: "buckets_ok es \<Longrightarrow> buckets_ok (trim_loop m n items es)"
proof (induction m n items es rule: trim_loop.induct)
  case (2 m n hits touched key victim items es)
  let ?b = "dict_get [] es key"
  have "buckets_ok (if remove1 victim ?b = [] then AList.delete key es
                    else AList.update key (remove1 victim ?b) es)"
    using "2.prems"
    by (auto simp: dict_get_def buckets_ok_delete split: option.splits
          intro!: buckets_ok_store bucket_ok_remove1 dest: buckets_ok_get)
  with "2.IH" "2.prems" show ?case by (simp add: Let_def)
qed simp

lemma buckets_ok_trim: "buckets_ok (kc_entries d) \<Longrightarrow> trim d = Inr d' \<Longrightarrow> buckets_ok (kc_entries d')"
  by (auto simp: trim_def result_simps buckets_ok_trim_loop split: if_splits)

section \<open>The Redis mirror\<close>

definition bucket_payload :: "cache_entry list \<Rightarrow> json" where
  "bucket_payload b = JDict [(''entries'', JList (map entry_to_json b))]"

lemma bucket_payload_ok: "json_ok (bucket_payload b)"
  by (simp add: bucket_payload_def entry_to_json_def dict_ok_def)

lemma entry_roundtrip:
  "ce_key e = k \<Longrightarrow> \<exists>item. entry_to_json e = JDict item \<and> entry_from_json env k item = Inr e"
  by (cases e) (simp add: entry_to_json_def entry_from_json_def dict_get_def json_int_def json_float_def
      json_str_def Let_def)

lemma bucket_roundtrip:
  assumes "\<forall>e \<in> set b. ce_key e = k"
  shows "emap (entry_from_json env k) (json_dicts (map entry_to_json b)) = Inr b"
  using assms
proof (induction b)
  case (Cons e b)
  then obtain item where "entry_to_json e = JDict item" and "entry_from_json env k item = Inr e"
    using entry_roundtrip [of e k env] by auto
  with Cons show ?case by (simp add: json_dicts_def List.map_filter_simps)
qed (simp add: json_dicts_def List.map_filter_simps)

text \<open>
  The mirror holds nothing but what the directory wrote: under every key either no value or the
  payload of a well-formed bucket of that key.
\<close>

definition mirror_ok :: "'r redis_env \<Rightarrow> 'r redis_store \<Rightarrow> bool" where
  "mirror_ok env s \<longleftrightarrow>
     (\<forall>k. fetch_cache_affinity env k s = Inr None \<or>
          (\<exists>b. bucket_ok k b \<and> fetch_cache_affinity env k s = Inr (Some (bucket_payload b))))"

definition directory_ok :: "'r redis_env \<Rightarrow> 'r kv_cache_directory \<Rightarrow> bool" where
  "directory_ok env d \<longleftrightarrow> buckets_ok (kc_entries d) \<and> mirror_ok env (kc_redis_store d)"

lemma directory_okD:
  "directory_ok env d \<Longrightarrow> buckets_ok (kc_entries d)" "directory_ok env d \<Longrightarrow> dict_ok (kc_entries d)"
  by (auto simp: directory_ok_def buckets_ok_def)

lemma mirror_ok_disabled: "\<not> rs_enabled s \<Longrightarrow> mirror_ok env s"
  by (simp add: mirror_ok_def redis_disabled)

text \<open>What a successful hydration finds is a bucket the directory had persisted.\<close>

lemma hydrate_cases:
  assumes "mirror_ok env (kc_redis_store d)" and "hydrate_from_redis env request d = Inr d'"
  shows "d' = d \<or> (\<exists>b. bucket_ok (cache_key request) b \<and>
      fetch_cache_affinity env (cache_key request) (kc_redis_store d) = Inr (Some (bucket_payload b)) \<and>
      d' = d\<lparr>kc_entries := AList.update (cache_key request) b (kc_entries d)\<rparr>)"
proof -
  let ?k = "cache_key request"
  from assms(1) consider "fetch_cache_affinity env ?k (kc_redis_store d) = Inr None"
    | b where "bucket_ok ?k b" "fetch_cache_affinity env ?k (kc_redis_store d) = Inr (Some (bucket_payload b))"
    unfolding mirror_ok_def by blast
  then show ?thesis
  proof cases
    case (2 b)
    then have "\<forall>e \<in> set b. ce_key e = ?k" by (simp add: bucket_ok_def entry_ok_def)
    with 2 assms(2) show ?thesis
      by (auto simp: hydrate_from_redis_def bucket_payload_def dict_get_def bucket_roundtrip split: if_splits)
  qed (use assms(2) in \<open>auto simp: hydrate_from_redis_def split: if_splits\<close>)
qed

lemma hydrate_total:
  assumes "mirror_ok env (kc_redis_store d)"
  shows "\<exists>d'. hydrate_from_redis env request d = Inr d'"
proof -
  let ?k = "cache_key request"
  from assms consider "fetch_cache_affinity env ?k (kc_redis_store d) = Inr None"
    | b where "bucket_ok ?k b" "fetch_cache_affinity env ?k (kc_redis_store d) = Inr (Some (bucket_payload b))"
    unfolding mirror_ok_def by blast
  then show ?thesis
  proof cases
    case (2 b)
    then have "\<forall>e \<in> set b. ce_key e = ?k" by (simp add: bucket_ok_def entry_ok_def)
    with 2 show ?thesis
      by (simp add: hydrate_from_redis_def bucket_payload_def dict_get_def bucket_roundtrip)
  qed (simp add: hydrate_from_redis_def)
qed

lemma hydrate_ok:
  "directory_ok env d \<Longrightarrow> hydrate_from_redis env request d = Inr d' \<Longrightarrow> directory_ok env d'"
  using hydrate_cases [of env d request d'] by (auto simp: directory_ok_def intro: buckets_ok_store)

lemma persist_ok:
  assumes "redis_hash env" and "directory_ok env d" and "map_of (kc_entries d) k \<noteq> None"
    and "persist_to_redis env k d = Inr d'"
  shows "directory_ok env d' \<and> kc_entries d' = kc_entries d \<and> kc_max_entries d' = kc_max_entries d \<and>
    kc_ttl_s d' = kc_ttl_s d"
proof (cases "rs_enabled (kc_redis_store d)")
  case True
  let ?s = "kc_redis_store d"
  from assms(3) obtain b where b: "map_of (kc_entries d) k = Some b" by auto
  then have bok: "bucket_ok k b" using assms(2) by (auto simp: directory_ok_def dest: buckets_ok_get)
  from True assms(4) b obtain s' where s': "write_cache_affinity env k (bucket_payload b) ?s = Inr s'"
    and d': "d' = d\<lparr>kc_redis_store := s'\<rparr>"
    by (auto simp: persist_to_redis_def result_simps dict_get_def bucket_payload_def)
  have "mirror_ok env s'"
  proof (cases "rs_client ?s")
    case None
    with s' assms(2) show ?thesis
      by (simp add: write_cache_affinity_def redis_put_def directory_ok_def)
  next
    case (Some c)
    have "fetch_cache_affinity env k' s' = (if k' = k then Inr (Some (bucket_payload b))
        else fetch_cache_affinity env k' ?s)" for k'
      using redis_hash.fetch_after_write [OF assms(1) True _ s' bucket_payload_ok] Some
        redis_hash.fetch_after_other_write [OF assms(1) s', of k'] by simp
    with assms(2) bok show ?thesis by (auto simp: mirror_ok_def directory_ok_def)
  qed
  with assms(2) d' show ?thesis by (simp add: directory_ok_def)
next
  case False
  with assms(2,4) show ?thesis by (simp add: persist_to_redis_def)
qed

section \<open>What a score means\<close>

text \<open>
  Every visible entry has a positive hit ratio, so the loop that starts from \<open>(0, 0)\<close> finds the
  first entry of greatest ratio: \<open>score_spec\<close> is the reference.
\<close>

definition saved_tokens :: "inference_request \<Rightarrow> pyfloat \<Rightarrow> cache_entry \<Rightarrow> int" where
  "saved_tokens request ratio e = py_int (of_int (min (ce_size_tokens e) (rq_prompt_tokens request)) * ratio)"

definition visible :: "pyfloat \<Rightarrow> cache_entry list \<Rightarrow> cache_entry list" where
  "visible now bucket = filter (\<lambda>e. ce_available_ts e \<le> now) bucket"

definition score_spec ::
  "pyfloat \<Rightarrow> inference_request \<Rightarrow> string \<Rightarrow> string \<Rightarrow> pyfloat \<Rightarrow> cache_entry list \<Rightarrow> pyfloat \<times> int" where
  "score_spec ttl_s request cluster_id pool_id now bucket =
     (let ratio = hit_ratio ttl_s cluster_id pool_id now
      in case max_by ratio (visible now bucket) of
           Inl _ \<Rightarrow> (0, 0)
         | Inr e \<Rightarrow> (ratio e, saved_tokens request (ratio e) e))"

lemma hit_ratio_pos: "0 < hit_ratio ttl_s c p now e"
  by (simp add: hit_ratio_def freshness_def location_bonus_def less_max_iff_disj)

lemma hit_ratio_le: "hit_ratio ttl_s c p now e \<le> 0.95"
  by (simp add: hit_ratio_def)

lemma efold_score_entry:
  assumes "ttl_s \<noteq> 0"
  shows "efold (score_entry ttl_s request c p now) bucket best =
    Inr (fold (\<lambda>e best. if fst best < hit_ratio ttl_s c p now e
                 then (hit_ratio ttl_s c p now e, saved_tokens request (hit_ratio ttl_s c p now e) e)
                 else best) (visible now bucket) best)"
proof (induction bucket arbitrary: best)
  case (Cons e bucket)
  then show ?case using assms
    by (cases "ce_available_ts e \<le> now") (simp_all add: visible_def score_entry_def saved_tokens_def Let_def)
qed (simp add: visible_def)

lemma fold_best:
  fixes ratio :: "'a \<Rightarrow> pyfloat" and saved :: "'a \<Rightarrow> int"
  shows "fold (\<lambda>e best. if fst best < ratio e then (ratio e, saved e) else best) es (ratio x, saved x) =
    (let m = fold (\<lambda>z best. if ratio best < ratio z then z else best) es x in (ratio m, saved m))"
  by (induction es arbitrary: x) (auto simp: Let_def)

lemma score_loop_spec:
  assumes "ttl_s \<noteq> 0"
  shows "efold (score_entry ttl_s request c p now) bucket (0, 0) =
    Inr (score_spec ttl_s request c p now bucket)"
proof (cases "visible now bucket")
  case Nil
  with assms show ?thesis by (simp add: efold_score_entry score_spec_def max_by_def)
next
  case (Cons e es)
  with assms show ?thesis
    using fold_best [of "hit_ratio ttl_s c p now"
        "\<lambda>e. saved_tokens request (hit_ratio ttl_s c p now e) e" es e]
    by (simp add: efold_score_entry score_spec_def max_by_def hit_ratio_pos Let_def)
qed

text \<open>The directory a score leaves behind, and the bucket it reads.\<close>

definition scored_directory ::
  "'r redis_env \<Rightarrow> inference_request \<Rightarrow> pyfloat \<Rightarrow> 'r kv_cache_directory \<Rightarrow> 'r kv_cache_directory result" where
  "scored_directory env request now d =
     (let d1 = evict_stale now d
      in if dict_get [] (kc_entries d1) (cache_key request) = []
         then hydrate_from_redis env request d1 else Inr d1)"

lemma score_eq:
  assumes "kc_ttl_s d \<noteq> 0" and "mirror_ok env (kc_redis_store d)"
  shows "\<exists>d'. scored_directory env request now d = Inr d' \<and> kc_ttl_s d' = kc_ttl_s d \<and>
    score env request c p now d =
      (let (ratio, saved) = score_spec (kc_ttl_s d) request c p now (dict_get [] (kc_entries d') (cache_key request))
       in Inr (d', py_round 4 ratio, saved))"
proof -
  have keep: "kc_ttl_s (evict_stale now d) = kc_ttl_s d"
    "kc_redis_store (evict_stale now d) = kc_redis_store d"
    by (simp_all add: evict_stale_def)
  obtain d2 where hyd: "hydrate_from_redis env request (evict_stale now d) = Inr d2"
    using hydrate_total [of env "evict_stale now d" request] assms(2) keep by auto
  then have "kc_ttl_s d2 = kc_ttl_s d"
    using hydrate_cases [OF _ hyd] assms(2) keep by auto
  with hyd assms(1) keep show ?thesis
    by (auto simp: score_def scored_directory_def Let_def score_loop_spec split: prod.splits)
qed

lemma scored_directory_ok:
  "directory_ok env d \<Longrightarrow> scored_directory env request now d = Inr d' \<Longrightarrow> directory_ok env d'"
proof -
  assume ok: "directory_ok env d" and d': "scored_directory env request now d = Inr d'"
  have "directory_ok env (evict_stale now d)"
    using ok by (simp add: directory_ok_def evict_stale_eq buckets_okD buckets_ok_evicted)
  with d' show ?thesis by (auto simp: scored_directory_def Let_def hydrate_ok split: if_splits)
qed

lemma score_Inr_directory:
  assumes "score env request c p now d = Inr (d', x)"
  shows "scored_directory env request now d = Inr d'"
  using assms by (auto simp: score_def scored_directory_def result_simps Let_def split: prod.splits if_splits)

lemma score_spec_bounds:
  assumes "\<forall>e \<in> set bucket. 0 \<le> ce_size_tokens e" and "0 \<le> rq_prompt_tokens request"
    and "score_spec ttl_s request c p now bucket = (ratio, saved)"
  shows "0 \<le> ratio \<and> ratio \<le> 0.95 \<and> 0 \<le> saved \<and> of_int saved \<le> 0.95 * (of_int (rq_prompt_tokens request) :: pyfloat)"
proof (cases "max_by (hit_ratio ttl_s c p now) (visible now bucket)")
  case (Inl err)
  with assms(2,3) show ?thesis by (auto simp: score_spec_def)
next
  case (Inr e)
  let ?r = "hit_ratio ttl_s c p now e" and ?t = "min (ce_size_tokens e) (rq_prompt_tokens request)"
  have ne: "visible now bucket \<noteq> []" using Inr by (auto simp: max_by_def)
  then have "e \<in> set bucket"
    using Inr min_by_in_set [of "\<lambda>x. - hit_ratio ttl_s c p now x" "visible now bucket" e]
    by (simp add: max_by_min_by visible_def)
  then have t: "0 \<le> ?t" using assms(1,2) by simp
  have r: "0 \<le> ?r" "?r \<le> 0.95" using hit_ratio_pos [of ttl_s c p now e] hit_ratio_le by auto
  have eq: "ratio = ?r" "saved = py_int (of_int ?t * ?r)"
    using assms(3) Inr by (auto simp: score_spec_def saved_tokens_def Let_def)
  have "of_int saved \<le> of_int ?t * ?r" unfolding eq using t r by (intro py_int_le) simp
  also have "\<dots> \<le> of_int (rq_prompt_tokens request) * 0.95"
    using t r assms(2) by (intro mult_mono) auto
  finally show ?thesis using eq r t by (simp add: py_int_nonneg)
qed

section \<open>Runs of the directory\<close>

text \<open>The states a directory goes through: any interleaving of its operations.\<close>

inductive cache_run :: "'r redis_env \<Rightarrow> 'r kv_cache_directory \<Rightarrow> 'r kv_cache_directory \<Rightarrow> bool"
  for env d0 where
  start: "cache_run env d0 d0"
| observe: "cache_run env d0 d \<Longrightarrow> result_ok r \<Longrightarrow> observe env r d = Inr d' \<Longrightarrow> cache_run env d0 d'"
| score: "cache_run env d0 d \<Longrightarrow> score env request c p now d = Inr (d', x) \<Longrightarrow> cache_run env d0 d'"
| reserved: "cache_run env d0 d \<Longrightarrow> cache_run env d0 (fst (reserved_gb c p now d))"
| offload: "cache_run env d0 d \<Longrightarrow> cache_run env d0 (fst (offload_recommendation c p pressure now d))"
| snapshot: "cache_run env d0 d \<Longrightarrow> cache_run env d0 (fst (cache_snapshot now d))"

lemma touch_update: "AList.update k v (dd_touch v0 k es) = AList.update k v es"
proof -
  have "k \<notin> set (map fst es) \<Longrightarrow> AList.update k v (AList.update k v0 es) = AList.update k v es"
    by (induction es) auto
  then show ?thesis by (auto simp: dd_touch_def map_of_eq_None_iff)
qed

text \<open>An admitted result: the directory before \<open>_trim\<close>.\<close>

lemma observe_steps:
  assumes "redis_hash env" and "directory_ok env d" and "result_ok r" and "rr_admitted r"
    and "observe env r d = Inr d'"
  obtains d1 where "directory_ok env d1" and "trim d1 = Inr d'" and "kc_max_entries d1 = kc_max_entries d"
    and "kc_ttl_s d1 = kc_ttl_s d"
    and "kc_entries d1 = AList.update (cache_key (rr_request r))
      (cap_bucket (observe_bucket r (dict_get [] (kc_entries d) (cache_key (rr_request r))))) (kc_entries d)"
proof -
  let ?k = "cache_key (rr_request r)"
  let ?b = "cap_bucket (observe_bucket r (dict_get [] (kc_entries d) ?k))"
  let ?d = "d\<lparr>kc_entries := AList.update ?k ?b (kc_entries d)\<rparr>"
  have "dict_get [] (kc_entries d) ?k = [] \<or> bucket_ok ?k (dict_get [] (kc_entries d) ?k)"
    by (rule buckets_ok_bucket [OF directory_okD(1) [OF assms(2)]])
  then have "bucket_ok ?k ?b" by (rule observed_bucket_ok [OF assms(3)])
  then have ok: "directory_ok env ?d"
    using assms(2) by (simp add: directory_ok_def buckets_ok_store)
  from assms(4,5) obtain d1 where per: "persist_to_redis env ?k ?d = Inr d1" and tr: "trim d1 = Inr d'"
    by (auto simp: observe_def Let_def touch_update result_simps)
  have "map_of (kc_entries ?d) ?k \<noteq> None" by (simp add: dict_simps)
  note keep = persist_ok [OF assms(1) ok this per]
  show ?thesis by (rule that [OF _ tr]) (use keep in simp_all)
qed

lemma observe_ok:
  assumes "redis_hash env" and "directory_ok env d" and "result_ok r" and "observe env r d = Inr d'"
  shows "directory_ok env d'"
proof (cases "rr_admitted r")
  case True
  then obtain d1 where "directory_ok env d1" and "trim d1 = Inr d'"
    using observe_steps [OF assms(1-3) _ assms(4)] by blast
  moreover from this(2) have "kc_redis_store d' = kc_redis_store d1"
    by (auto simp: trim_def result_simps split: if_splits)
  ultimately show ?thesis by (auto simp: directory_ok_def intro: buckets_ok_trim)
next
  case False
  with assms(2,4) show ?thesis by (simp add: observe_def)
qed

lemma evict_ok: "directory_ok env d \<Longrightarrow> directory_ok env (evict_stale now d)"
  by (simp add: directory_ok_def evict_stale_eq buckets_okD buckets_ok_evicted)

lemma cache_run_ok:
  assumes "redis_hash env" and "directory_ok env d0" and "cache_run env d0 d"
  shows "directory_ok env d"
  using assms(3)
proof induction
  case (score d request c p now d' x)
  then show ?case using scored_directory_ok score_Inr_directory by blast
qed (use assms(1,2) in \<open>auto intro: observe_ok evict_ok simp: reserved_gb_def offload_recommendation_def
      cache_snapshot_def Let_def case_prod_unfold\<close>)

lemma fresh_directory_ok: "mirror_ok env store \<Longrightarrow> directory_ok env (KVCacheDirectory ttl_s m store)"
  by (simp add: directory_ok_def KVCacheDirectory_def buckets_ok_def)

text \<open>
  C10: whatever sequence of observations, scores, reservations and snapshots a directory has
  served, its keys are distinct, no bucket is empty or longer than four, every entry sits under its
  own key with non-negative sizes, and no two entries of a bucket name the same pool; the same
  holds of every bucket its Redis mirror can return.
\<close>

theorem directory_invariant:
  assumes "redis_hash env" and "\<forall>k. fetch_cache_affinity env k store = Inr None"
    and "cache_run env (KVCacheDirectory ttl_s max_entries store) d"
  shows "buckets_ok (kc_entries d) \<and> mirror_ok env (kc_redis_store d)"
  using cache_run_ok [OF assms(1) fresh_directory_ok assms(3)] assms(2)
  by (simp add: mirror_ok_def directory_ok_def)

text \<open>A mirror at its first use, and the directory after one observed request.\<close>

definition demo_store :: "memory_client redis_store" where
  "demo_store = RedisDecisionStore memory_redis (Some ''redis://cache'') [] True"

definition demo_directory :: "memory_client kv_cache_directory" where
  "demo_directory = KVCacheDirectory 180 20000 demo_store"

definition demo_entry :: cache_entry where
  "demo_entry = result_entry demo_result"

lemma demo_store_simps:
  "rs_enabled demo_store" "rs_client demo_store = Some []" "fetch_cache_affinity memory_redis k demo_store = Inr None"
  by (simp_all add: demo_store_def RedisDecisionStore_def memory_redis_def fetch_cache_affinity_def Let_def)

lemma demo_observed:
  "\<exists>d. observe memory_redis demo_result demo_directory = Inr d \<and> cache_run memory_redis demo_directory d \<and>
     kc_entries d = [(cache_key demo_request, [demo_entry])] \<and> rs_enabled (kc_redis_store d) \<and>
     kc_ttl_s d = 180 \<and> kc_max_entries d = 20000"
proof -
  let ?k = "cache_key demo_request"
  let ?d = "demo_directory\<lparr>kc_entries := [(?k, [demo_entry])]\<rparr>"
  have req: "rr_request demo_result = demo_request" and adm: "rr_admitted demo_result"
    by (simp_all add: demo_result_def)
  obtain s' where s': "write_cache_affinity memory_redis ?k (bucket_payload [demo_entry]) demo_store = Inr s'"
    unfolding write_cache_affinity_def using memory.put_total by blast
  have en: "rs_enabled s'"
    using redis_put_enabled [OF s' [unfolded write_cache_affinity_def]] demo_store_simps(1) by simp
  have "observe memory_redis demo_result demo_directory = Inr (?d\<lparr>kc_redis_store := s'\<rparr>)"
    using s' by (simp add: observe_def adm req Let_def demo_directory_def KVCacheDirectory_def dd_touch_def
        dict_get_def cap_bucket_def persist_to_redis_def demo_store_simps bucket_payload_def trim_def
        total_entries_def dict_values_def flip: demo_entry_def)
  moreover from this have "cache_run memory_redis demo_directory (?d\<lparr>kc_redis_store := s'\<rparr>)"
    by (intro cache_run.observe [OF cache_run.start, of demo_result])
       (simp_all add: result_ok_def demo_result_defs)
  ultimately show ?thesis using en by (simp add: demo_directory_def KVCacheDirectory_def)
qed

theorem directory_invariant_witness:
  "\<exists>d. observe memory_redis demo_result demo_directory = Inr d \<and> buckets_ok (kc_entries d) \<and>
     mirror_ok memory_redis (kc_redis_store d)"
proof -
  obtain d where "observe memory_redis demo_result demo_directory = Inr d"
    and "cache_run memory_redis (KVCacheDirectory 180 20000 demo_store) d"
    using demo_observed by (auto simp: demo_directory_def)
  with directory_invariant [OF memory.redis_hash_axioms _ this(2)] show ?thesis
    by (simp add: demo_store_simps)
qed

lemma observe_entries:
  assumes "redis_hash env" and "directory_ok env d" and "result_ok r" and "rr_admitted r"
    and "0 \<le> kc_max_entries d" and "observe env r d = Inr d'"
  shows "total_entries (kc_entries d') \<le> kc_max_entries d \<and>
    total_entries (kc_entries d') \<le> total_entries (kc_entries d) + 1"
proof -
  let ?k = "cache_key (rr_request r)"
  let ?b = "dict_get [] (kc_entries d) ?k"
  obtain d1 where ok: "directory_ok env d1" and tr: "trim d1 = Inr d'"
    and m: "kc_max_entries d1 = kc_max_entries d"
    and es: "kc_entries d1 = AList.update ?k (cap_bucket (observe_bucket r ?b)) (kc_entries d)"
    using observe_steps [OF assms(1-4,6)] by blast
  have len: "length (cap_bucket (observe_bucket r ?b)) \<le> length ?b + 1"
    using observe_bucket_length [of r ?b] by (simp add: cap_bucket_def)
  have dok: "dict_ok (kc_entries d)" by (rule directory_okD(2) [OF assms(2)])
  have "length (trim_items (kc_entries d1)) \<le> length (trim_items (kc_entries d)) + 1"
    unfolding es by (rule store_items_length [OF dok len])
  moreover have "total_entries (kc_entries d') = min (total_entries (kc_entries d1)) (kc_max_entries d)"
    using trim_total [OF directory_okD(2) [OF ok] _ tr] assms(5) m by simp
  ultimately show ?thesis by (simp add: total_entries_items)
qed

section \<open>Room in the directory and its mirror\<close>

text \<open>
  Hydration brings entries back that eviction or a restart had removed, so the directory alone does not
  say how far it can grow. Together with its mirror it has room for \<open>n\<close> entries if there is a multiset
  of at most \<open>n\<close> keys that covers every bucket of the directory and every bucket of the mirror. Eviction
  and scoring keep within that room, and an observed result takes one more place.
\<close>

definition room :: "'r redis_env \<Rightarrow> nat \<Rightarrow> 'r kv_cache_directory \<Rightarrow> bool" where
  "room env n d \<longleftrightarrow> (\<exists>M. size M \<le> n \<and> (\<forall>k. length (dict_get [] (kc_entries d) k) \<le> count M k) \<and>
     (\<forall>k b. fetch_cache_affinity env k (kc_redis_store d) = Inr (Some (bucket_payload b)) \<longrightarrow> length b \<le> count M k))"

lemma bucket_payload_length: "bucket_payload b = bucket_payload b' \<Longrightarrow> length b = length b'"
  unfolding bucket_payload_def by (auto dest: map_eq_imp_length_eq)

lemma room_mono: "room env n d \<Longrightarrow> n \<le> n' \<Longrightarrow> room env n' d"
  unfolding room_def by (meson le_trans)

text \<open>A directory starts with the room its mirror takes, none if nothing was ever mirrored.\<close>

definition mirror_room :: "'r redis_env \<Rightarrow> nat \<Rightarrow> 'r redis_store \<Rightarrow> bool" where
  "mirror_room env n s \<longleftrightarrow> mirror_ok env s \<and> room env n (KVCacheDirectory 0 0 s)"

lemma room_fresh: "room env n (KVCacheDirectory ttl_s m s) = room env n (KVCacheDirectory 0 0 s)"
  by (simp add: room_def KVCacheDirectory_def)

lemma room_empty: "\<forall>k. fetch_cache_affinity env k s = Inr None \<Longrightarrow> room env n (KVCacheDirectory ttl_s m s)"
  by (auto simp: room_def KVCacheDirectory_def intro!: exI [of _ "{#}"])

lemma mirror_room_empty: "\<forall>k. fetch_cache_affinity env k s = Inr None \<Longrightarrow> mirror_room env n s"
  by (simp add: mirror_room_def room_empty mirror_ok_def)

lemma mirror_room_disabled: "\<not> rs_enabled s \<Longrightarrow> mirror_room env n s"
  by (simp add: mirror_room_empty redis_disabled)

lemma mirror_room_left: "directory_ok env d \<Longrightarrow> room env n d \<Longrightarrow> mirror_room env n (kc_redis_store d)"
  by (auto simp: mirror_room_def directory_ok_def room_def KVCacheDirectory_def)

text \<open>Buckets that do not grow keep within the room, whatever else the operation does.\<close>

lemma room_shrink:
  assumes "room env n d" and "kc_redis_store d' = kc_redis_store d"
    and "\<And>k. length (dict_get [] (kc_entries d') k) \<le> length (dict_get [] (kc_entries d) k)"
  shows "room env n d'"
  using assms unfolding room_def by (metis order_trans)

definition item_key :: "trim_item \<Rightarrow> string" where
  "item_key item = fst (snd (snd item))"

lemma key_count: "dict_ok es \<Longrightarrow> count (mset (map item_key (trim_items es))) k = length (dict_get [] es k)"
proof (induction es)
  case (Cons p es)
  obtain k' b where p: "p = (k', b)" by force
  have "count (mset (map item_key (bucket_items k' b))) k = (if k = k' then length b else 0)"
    by (induction b) (auto simp: item_key_def)
  moreover have "dict_ok es" "k' \<notin> fst ` set es" using Cons.prems by (auto simp: p dict_ok_def)
  ultimately show ?case using Cons.IH by (auto simp: p dict_get_def map_of_eq_None_iff [symmetric] simp del: mset_map)
qed simp

lemma room_total:
  assumes "dict_ok (kc_entries d)" and "room env n d"
  shows "total_entries (kc_entries d) \<le> int n"
proof -
  obtain M where M: "size M \<le> n" "\<And>k. length (dict_get [] (kc_entries d) k) \<le> count M k"
    using assms(2) unfolding room_def by blast
  have "mset (map item_key (trim_items (kc_entries d))) \<subseteq># M"
    using M(2) by (simp add: subseteq_mset_def key_count [OF assms(1)] del: mset_map)
  from size_mset_mono [OF this] M(1) show ?thesis by (simp add: total_entries_items)
qed

lemma room_evict: "dict_ok (kc_entries d) \<Longrightarrow> room env n d \<Longrightarrow> room env n (evict_stale now d)"
  by (rule room_shrink) (simp_all add: evict_stale_eq evicted_get, rule length_filter_le)

lemma room_hydrate:
  assumes "mirror_ok env (kc_redis_store d)" and "hydrate_from_redis env request d = Inr d'" and "room env n d"
  shows "room env n d' \<and> kc_redis_store d' = kc_redis_store d"
  using hydrate_cases [OF assms(1,2)]
proof (elim disjE exE conjE)
  fix b assume b: "fetch_cache_affinity env (cache_key request) (kc_redis_store d) = Inr (Some (bucket_payload b))"
    and d': "d' = d\<lparr>kc_entries := AList.update (cache_key request) b (kc_entries d)\<rparr>"
  obtain M where M: "size M \<le> n" "\<forall>k. length (dict_get [] (kc_entries d) k) \<le> count M k"
    "\<forall>k b. fetch_cache_affinity env k (kc_redis_store d) = Inr (Some (bucket_payload b)) \<longrightarrow> length b \<le> count M k"
    using assms(3) unfolding room_def by blast
  then have "\<forall>k. length (dict_get [] (kc_entries d') k) \<le> count M k" using b by (simp add: d' dict_get_update)
  with M show ?thesis unfolding room_def d' by auto
qed (use assms(3) in simp)

lemma room_score:
  assumes "score env request c p now d = Inr (d', x)" and "directory_ok env d"
  shows "kc_redis_store d' = kc_redis_store d" "room env n d \<Longrightarrow> room env n d'"
proof -
  have "mirror_ok env (kc_redis_store (evict_stale now d))" "kc_redis_store (evict_stale now d) = kc_redis_store d"
    using assms(2) by (simp_all add: directory_ok_def evict_stale_def)
  moreover have "d' = evict_stale now d \<or> hydrate_from_redis env request (evict_stale now d) = Inr d'"
    using score_Inr_directory [OF assms(1)] by (auto simp: scored_directory_def Let_def split: if_splits)
  ultimately show "kc_redis_store d' = kc_redis_store d" "room env n d \<Longrightarrow> room env n d'"
    using room_hydrate room_evict [OF directory_okD(2) [OF assms(2)], of env n now] hydrate_cases by fastforce+
qed

lemma trim_shrinks:
  "trim d = Inr d' \<Longrightarrow> kc_redis_store d' = kc_redis_store d \<and>
     length (dict_get [] (kc_entries d') k) \<le> length (dict_get [] (kc_entries d) k)"
proof -
  have "length (dict_get [] (trim_loop m n items es) k) \<le> length (dict_get [] es k)" for m n items es
  proof (induction m n items es rule: trim_loop.induct)
    case (2 m n hits touched key victim items es)
    let ?es = "if remove1 victim (dict_get [] es key) = [] then AList.delete key es
                    else AList.update key (remove1 victim (dict_get [] es key)) es"
    have "length (dict_get [] ?es k) \<le> length (dict_get [] es k)"
      by (auto simp: dict_get_def dict_simps length_remove1 split: option.split)
    with "2.IH" [OF _ refl refl refl refl] show ?case by (auto simp: Let_def intro: order_trans)
  qed simp
  then show "trim d = Inr d' \<Longrightarrow> ?thesis" by (auto simp: trim_def result_simps split: if_splits)
qed

lemma persist_total:
  assumes "redis_hash env"
  shows "\<exists>d'. persist_to_redis env k d = Inr d'"
proof -
  obtain s where "write_cache_affinity env k (bucket_payload (dict_get [] (kc_entries d) k)) (kc_redis_store d) = Inr s"
    using redis_hash.put_total [OF assms] unfolding write_cache_affinity_def by blast
  then show ?thesis by (simp add: persist_to_redis_def bucket_payload_def)
qed

lemma persist_mirror:
  assumes "redis_hash env" and "persist_to_redis env key d = Inr d'"
    and "fetch_cache_affinity env k (kc_redis_store d') = Inr (Some v)"
  shows "k = key \<and> v = bucket_payload (dict_get [] (kc_entries d) key) \<or>
    fetch_cache_affinity env k (kc_redis_store d) = Inr (Some v)"
proof (cases "rs_enabled (kc_redis_store d)")
  case True
  then obtain s where s: "write_cache_affinity env key (bucket_payload (dict_get [] (kc_entries d) key)) (kc_redis_store d) = Inr s"
    and d': "kc_redis_store d' = s"
    using assms(2) by (auto simp: persist_to_redis_def bucket_payload_def result_simps)
  show ?thesis
  proof (cases "rs_client (kc_redis_store d)")
    case None
    with s d' assms(3) show ?thesis by (simp add: write_cache_affinity_def redis_put_def)
  next
    case (Some c)
    with redis_hash.fetch_after_write [OF assms(1) True _ s bucket_payload_ok]
      redis_hash.fetch_after_other_write [OF assms(1) s, of k] d' assms(3) show ?thesis by (cases "k = key") auto
  qed
qed (use assms(2,3) in \<open>simp add: persist_to_redis_def\<close>)

lemma room_observe:
  assumes "redis_hash env" and "observe env r d = Inr d'" and "room env n d"
  shows "room env (Suc n) d'"
proof (cases "rr_admitted r")
  case True
  let ?k = "cache_key (rr_request r)"
  let ?b = "cap_bucket (observe_bucket r (dict_get [] (kc_entries d) ?k))"
  let ?d = "d\<lparr>kc_entries := AList.update ?k ?b (kc_entries d)\<rparr>"
  obtain d1 where per: "persist_to_redis env ?k ?d = Inr d1" and tr: "trim d1 = Inr d'"
    using assms(2) True by (auto simp: observe_def Let_def touch_update result_simps)
  have d1: "kc_entries d1 = kc_entries ?d" using per by (auto simp: persist_to_redis_def result_simps split: if_splits)
  obtain M where M: "size M \<le> n" "\<forall>k. length (dict_get [] (kc_entries d) k) \<le> count M k"
    "\<forall>k b. fetch_cache_affinity env k (kc_redis_store d) = Inr (Some (bucket_payload b)) \<longrightarrow> length b \<le> count M k"
    using assms(3) unfolding room_def by blast
  have b: "length ?b \<le> Suc (count M ?k)"
    using observe_bucket_length [of r "dict_get [] (kc_entries d) ?k"] M(2) [rule_format, of ?k]
    by (simp add: cap_bucket_def)
  have "length (dict_get [] (kc_entries d1) k) \<le> count (add_mset ?k M) k" for k
    using b M(2) [rule_format, of k] by (auto simp: d1 dict_get_update)
  moreover have "length c \<le> count (add_mset ?k M) k"
    if "fetch_cache_affinity env k (kc_redis_store d1) = Inr (Some (bucket_payload c))" for k c
    using persist_mirror [OF assms(1) per that] M(3) [rule_format, of k c] b
    by (auto simp: dict_get_update dest: bucket_payload_length)
  ultimately have "room env (Suc n) d1" using M(1) unfolding room_def by (intro exI [of _ "add_mset ?k M"]) auto
  then show ?thesis by (rule room_shrink) (use trim_shrinks [OF tr] in auto)
qed (use assms(2,3) in \<open>auto simp: observe_def intro: room_mono\<close>)

text \<open>Below its limit the directory observes any result, mirrored or not: trimming has nothing to compare.\<close>

lemma observe_total:
  assumes "redis_hash env" and "directory_ok env d" and "total_entries (kc_entries d) < kc_max_entries d"
  shows "\<exists>d'. observe env r d = Inr d'"
proof (cases "rr_admitted r")
  case True
  let ?k = "cache_key (rr_request r)"
  let ?b = "cap_bucket (observe_bucket r (dict_get [] (kc_entries d) ?k))"
  let ?d = "d\<lparr>kc_entries := AList.update ?k ?b (kc_entries d)\<rparr>"
  obtain d1 where per: "persist_to_redis env ?k ?d = Inr d1"
    using persist_total [OF assms(1)] by blast
  then have d1: "kc_entries d1 = kc_entries ?d" "kc_max_entries d1 = kc_max_entries d"
    by (auto simp: persist_to_redis_def result_simps split: if_splits)
  have "length ?b \<le> length (dict_get [] (kc_entries d) ?k) + 1"
    using observe_bucket_length [of r "dict_get [] (kc_entries d) ?k"] by (simp add: cap_bucket_def)
  from store_items_length [OF directory_okD(2) [OF assms(2)] this] assms(3) d1
  have "trim d1 = Inr d1" by (simp add: trim_def total_entries_items)
  with True per show ?thesis by (simp add: observe_def Let_def touch_update)
qed (simp add: observe_def)

text \<open>
  once a result has been observed the directory holds at most \<open>max_entries\<close> entries, and at
  most one more than before.
\<close>

theorem observe_capacity:
  assumes "redis_hash env" and "directory_ok env d" and "result_ok r" and "rr_admitted r"
    and "0 \<le> kc_max_entries d" and "observe env r d = Inr d'"
  shows "total_entries (kc_entries d') \<le> kc_max_entries d \<and>
    total_entries (kc_entries d') \<le> total_entries (kc_entries d) + 1"
  by (rule observe_entries [OF assms])

theorem observe_capacity_witness:
  "\<exists>d. observe memory_redis demo_result demo_directory = Inr d \<and>
     total_entries (kc_entries d) \<le> 20000 \<and> total_entries (kc_entries d) \<le> 0 + 1"
proof -
  obtain d where d: "observe memory_redis demo_result demo_directory = Inr d"
    using demo_observed by auto
  have "directory_ok memory_redis demo_directory"
    unfolding demo_directory_def by (rule fresh_directory_ok) (simp add: mirror_ok_def demo_store_simps)
  from observe_capacity [OF memory.redis_hash_axioms this _ _ _ d] d show ?thesis
    by (simp add: result_ok_def demo_result_defs demo_directory_def KVCacheDirectory_def total_entries_def
        dict_values_def)
qed

text \<open>
  C24: when \<open>_trim\<close> succeeds, the entries that stay are exactly the hottest \<open>max_entries\<close> of the
  directory in the order of hit count, then time of the last touch, then key.
\<close>

theorem trim_keeps_hottest:
  assumes "dict_ok (kc_entries d)" and "0 \<le> kc_max_entries d" and "trim d = Inr d'"
  shows "mset (trim_items (kc_entries d')) =
    mset (drop (length (trim_items (kc_entries d)) - nat (kc_max_entries d))
      (sort_key trim_key (trim_items (kc_entries d))))"
  by (rule trim_drops_coldest [OF assms])

text \<open>Two entries under one key, the first hit more often, in a directory for one entry.\<close>

definition hot_entry :: cache_entry where
  "hot_entry = demo_entry\<lparr>ce_pool_id := ''h100-spare'', ce_hit_count := 3\<rparr>"

definition crowded :: "cache_entry list \<Rightarrow> memory_client kv_cache_directory" where
  "crowded b = (KVCacheDirectory 180 1 (RedisDecisionStore memory_redis None [] False))
     \<lparr>kc_entries := (if b = [] then [] else [(''k'', b)])\<rparr>"

theorem trim_keeps_hottest_witness:
  "\<exists>d'. trim (crowded [hot_entry, demo_entry]) = Inr d' \<and>
     mset (trim_items (kc_entries d')) = {#(3, 2, ''k'', hot_entry)#}"
proof -
  have sort: "sort_items (trim_items (kc_entries (crowded [hot_entry, demo_entry]))) =
      Inr [(0, 2, ''k'', demo_entry), (3, 2, ''k'', hot_entry)]"
    by (simp add: crowded_def KVCacheDirectory_def hot_entry_def demo_entry_def result_entry_def
        demo_result_defs trim_items_def tuple_less_def)
  then obtain d' where d': "trim (crowded [hot_entry, demo_entry]) = Inr d'"
    by (fastforce simp: trim_def)
  moreover have "sort_key trim_key (trim_items (kc_entries (crowded [hot_entry, demo_entry]))) =
      [(0, 2, ''k'', demo_entry), (3, 2, ''k'', hot_entry)]"
    using sort_items_Inr [OF sort] by simp
  ultimately show ?thesis
    using trim_keeps_hottest [OF _ _ d'] by (simp add: crowded_def KVCacheDirectory_def dict_ok_def)
qed

text \<open>
  C25: the sort inside \<open>_trim\<close> raises \<open>TypeError\<close> exactly when the directory is over its limit
  and two different entries agree on hit count, time and key; the code never defines an order
  on \<open>CacheEntry\<close>.
\<close>

theorem trim_type_error:
  "trim d = Inl TypeError \<longleftrightarrow>
     kc_max_entries d < total_entries (kc_entries d) \<and>
     (\<exists>x \<in> set (trim_items (kc_entries d)). \<exists>y \<in> set (trim_items (kc_entries d)).
        trim_key x = trim_key y \<and> x \<noteq> y)"
  by (auto simp: trim_def sort_items_eq inj_on_def not_le split: if_splits)

text \<open>Such a directory arises from two requests of one prefix that finish together on two pools.\<close>

lemma trim_type_error_reached:
  "ebind (observe memory_redis demo_result (crowded [])) (observe memory_redis
     (demo_result\<lparr>rr_decision := demo_decision\<lparr>rd_pool_id := ''h100-spare''\<rparr>\<rparr>)) = Inl TypeError"
  by (simp add: observe_def crowded_def KVCacheDirectory_def RedisDecisionStore_def demo_result_defs
      cache_key_def Let_def dd_touch_def dict_get_def persist_to_redis_def trim_def total_entries_def
      dict_values_def cap_bucket_def same_place_def result_entry_def tuple_less_def trim_items_def)

theorem trim_type_error_witness:
  "trim (crowded [demo_entry, demo_entry\<lparr>ce_pool_id := ''h100-spare''\<rparr>]) = Inl TypeError"
  using trim_type_error [of "crowded [demo_entry, demo_entry\<lparr>ce_pool_id := ''h100-spare''\<rparr>]"]
  by (simp add: crowded_def KVCacheDirectory_def demo_entry_def result_entry_def demo_result_defs
      total_entries_def dict_values_def trim_items_def trim_key_def)

section \<open>Scores of a well-formed directory\<close>

definition fresh_bucket :: "inference_request \<Rightarrow> pyfloat \<Rightarrow> 'r kv_cache_directory \<Rightarrow> cache_entry list" where
  "fresh_bucket request now d =
     filter (\<lambda>e. now - ce_last_touched e \<le> kc_ttl_s d) (dict_get [] (kc_entries d) (cache_key request))"

lemma score_is_best:
  assumes "dict_ok (kc_entries d)" and "kc_ttl_s d \<noteq> 0"
    and "fresh_bucket request now d \<noteq> [] \<or> \<not> rs_enabled (kc_redis_store d)"
  shows "score env request c p now d =
    (let (ratio, saved) = score_spec (kc_ttl_s d) request c p now (fresh_bucket request now d)
     in Inr (evict_stale now d, py_round 4 ratio, saved))"
proof -
  have b: "dict_get [] (kc_entries (evict_stale now d)) (cache_key request) = fresh_bucket request now d"
    using assms(1) by (simp add: evict_stale_eq evicted_get fresh_bucket_def)
  have hyd: "\<not> rs_enabled (kc_redis_store d) \<Longrightarrow>
      hydrate_from_redis env request (evict_stale now d) = Inr (evict_stale now d)"
    by (simp add: hydrate_from_redis_def evict_stale_def)
  have t: "kc_ttl_s (evict_stale now d) = kc_ttl_s d" by (simp add: evict_stale_def)
  have "score env request c p now d = ebind (efold (score_entry (kc_ttl_s d) request c p now)
      (fresh_bucket request now d) (0, 0)) (\<lambda>(x, n). Inr (evict_stale now d, py_round 4 x, n))"
    using assms(3) hyd by (auto simp: score_def Let_def b t)
  then show ?thesis by (simp add: score_loop_spec [OF assms(2)] case_prod_unfold Let_def)
qed

text \<open>
  C11: on a bucket that still has entries (or with the mirror off) the scoring loop returns what
  the reference does: the first finished entry of greatest hit ratio, its ratio rounded to four
  digits and the prompt tokens it saves; \<open>(0, 0)\<close> when no entry is finished.
\<close>

theorem score_equivalence:
  assumes "dict_ok (kc_entries d)" and "kc_ttl_s d \<noteq> 0"
    and "fresh_bucket request now d \<noteq> [] \<or> \<not> rs_enabled (kc_redis_store d)"
  shows "score env request c p now d =
    (let (ratio, saved) = score_spec (kc_ttl_s d) request c p now (fresh_bucket request now d)
     in Inr (evict_stale now d, py_round 4 ratio, saved))"
  by (rule score_is_best [OF assms])

lemma score_within_bounds:
  assumes "directory_ok env d" and "kc_ttl_s d \<noteq> 0" and "0 \<le> rq_prompt_tokens request"
  shows "\<exists>d' ratio saved. score env request c p now d = Inr (d', ratio, saved) \<and>
    0 \<le> ratio \<and> ratio \<le> 0.95 \<and> 0 \<le> saved \<and> of_int saved \<le> 0.95 * (of_int (rq_prompt_tokens request) :: pyfloat)"
proof -
  obtain d' where d': "scored_directory env request now d = Inr d'"
    and sc: "score env request c p now d =
      (let (ratio, saved) = score_spec (kc_ttl_s d) request c p now (dict_get [] (kc_entries d') (cache_key request))
       in Inr (d', py_round 4 ratio, saved))"
    using score_eq [OF assms(2), of env request now c p] assms(1) unfolding directory_ok_def by blast
  let ?b = "dict_get [] (kc_entries d') (cache_key request)"
  obtain ratio saved where rs: "score_spec (kc_ttl_s d) request c p now ?b = (ratio, saved)" by force
  have "\<forall>e \<in> set ?b. 0 \<le> ce_size_tokens e"
    using buckets_ok_entry [OF directory_okD(1) [OF scored_directory_ok [OF assms(1) d']]]
    by (auto simp: entry_ok_def)
  note bounds = score_spec_bounds [OF this assms(3) rs]
  have "py_round 4 ratio \<le> 0.95"
    using bounds by (intro py_round_le_fixed [where k = 9500]) auto
  with bounds sc rs show ?thesis by (simp add: py_round_nonneg)
qed

theorem score_equivalence_witness:
  "score memory_redis demo_request ''centralus-h100'' ''h100-main'' 3
      ((crowded [])\<lparr>kc_entries := [(cache_key demo_request, [hot_entry, demo_entry])]\<rparr>) =
     Inr (evict_stale 3 ((crowded [])\<lparr>kc_entries := [(cache_key demo_request, [hot_entry, demo_entry])]\<rparr>), 0.95, 950)"
  using score_equivalence [of "(crowded [])\<lparr>kc_entries := [(cache_key demo_request, [hot_entry, demo_entry])]\<rparr>"
      demo_request 3 memory_redis "''centralus-h100''" "''h100-main''"]
  by (simp add: crowded_def KVCacheDirectory_def RedisDecisionStore_def fresh_bucket_def score_spec_def
      visible_def max_by_def dict_get_def hot_entry_def demo_entry_def result_entry_def demo_result_defs
      dict_ok_def hit_ratio_def freshness_def location_bonus_def saved_tokens_def py_int_def py_round_def
      round_half_even_of_int [of 9500, simplified])

text \<open>
  C13: every score lies between 0 and 0.95, and the tokens it claims to save are never negative
  and never more than 95 percent of the prompt; scoring a well-formed directory does not fail.
\<close>

theorem score_bounds:
  assumes "directory_ok env d" and "kc_ttl_s d \<noteq> 0" and "0 \<le> rq_prompt_tokens request"
  shows "\<exists>d' ratio saved. score env request c p now d = Inr (d', ratio, saved) \<and>
    0 \<le> ratio \<and> ratio \<le> 0.95 \<and> 0 \<le> saved \<and> of_int saved \<le> 0.95 * (of_int (rq_prompt_tokens request) :: pyfloat)"
  by (rule score_within_bounds [OF assms])

lemma demo_directory_ok: "directory_ok memory_redis demo_directory"
  unfolding demo_directory_def by (rule fresh_directory_ok) (simp add: mirror_ok_def demo_store_simps)

theorem score_bounds_witness:
  "\<exists>d' ratio saved. score memory_redis demo_request ''eastus-bw'' ''bw-premium'' 3 demo_directory =
       Inr (d', ratio, saved) \<and> 0 \<le> ratio \<and> ratio \<le> 0.95 \<and> 0 \<le> saved \<and> saved \<le> 950"
  using score_bounds [OF demo_directory_ok, of demo_request "''eastus-bw''" "''bw-premium''" 3]
  by (simp add: demo_directory_def KVCacheDirectory_def demo_request_def)

text \<open>A freshly finished entry of the asked pool outranks every entry elsewhere.\<close>

lemma hit_ratio_elsewhere:
  assumes "0 < ttl_s" and "ce_available_ts e \<le> now" and "ce_available_ts e = ce_last_touched e"
    and "place e \<noteq> (c, p)"
  shows "hit_ratio ttl_s c p now e \<le> 0.7"
proof -
  have "freshness ttl_s now e \<le> 1" using assms(1-3) by (simp add: freshness_def)
  moreover have "location_bonus c p e \<le> 0.7" "0 \<le> location_bonus c p e"
    using assms(4) by (auto simp: location_bonus_def place_def)
  moreover have "0 \<le> freshness ttl_s now e" by (simp add: freshness_def le_max_iff_disj)
  ultimately have "freshness ttl_s now e * location_bonus c p e \<le> 1 * 0.7" by (intro mult_mono) auto
  then show ?thesis by (simp add: hit_ratio_def)
qed

lemma hit_ratio_home:
  assumes "0 < ttl_s" and "place e = (c, p)" and "now - ce_last_touched e \<le> 0.05 * ttl_s"
  shows "hit_ratio ttl_s c p now e = 0.95"
proof -
  have "(now - ce_last_touched e) / ttl_s \<le> 0.05" using assms(1,3) by (simp add: pos_divide_le_eq)
  then have "0.95 \<le> freshness ttl_s now e" by (simp add: freshness_def le_max_iff_disj)
  with assms(2) show ?thesis by (simp add: hit_ratio_def location_bonus_def place_def)
qed

lemma score_spec_home:
  assumes "0 < ttl_s" and "bucket_ok k bucket" and e: "e \<in> set bucket" and home: "place e = (c, p)"
    and "ce_last_touched e \<le> now" and "now - ce_last_touched e \<le> 0.05 * ttl_s"
  shows "score_spec ttl_s request c p now bucket = (0.95, saved_tokens request 0.95 e)"
proof -
  let ?r = "hit_ratio ttl_s c p now"
  have ok: "\<forall>e \<in> set bucket. ce_available_ts e = ce_last_touched e"
    using assms(2) by (simp add: bucket_ok_def entry_ok_def)
  then have vis: "e \<in> set (visible now bucket)" using assms(3,5) by (simp add: visible_def)
  then have ne: "visible now bucket \<noteq> []" by auto
  obtain m where m: "max_by ?r (visible now bucket) = Inr m"
    using ne min_by_Inr [of "visible now bucket" "\<lambda>x. - ?r x"] by (auto simp: max_by_min_by)
  then have min: "min_by (\<lambda>x. - ?r x) (visible now bucket) = Inr m" using ne by (simp add: max_by_min_by)
  have re: "?r e = 0.95" by (rule hit_ratio_home [OF assms(1,4,6)])
  have "?r e \<le> ?r m" using min_by_le [OF min vis] by simp
  moreover have mv: "m \<in> set bucket" "ce_available_ts m \<le> now"
    using min_by_in_set [OF min] by (auto simp: visible_def)
  ultimately have "place m = (c, p)"
    using hit_ratio_elsewhere [OF assms(1) mv(2)] ok re by fastforce
  then have "m = e" using assms(2) mv(1) e home by (auto simp: bucket_ok_def distinct_map inj_on_def)
  with m show ?thesis by (simp only: score_spec_def Let_def sum.case re)
qed

text \<open>The entry an observed result leaves in its bucket.\<close>

lemma observe_bucket_entry:
  "\<exists>e \<in> set (observe_bucket r b). place e = place (result_entry r) \<and> ce_available_ts e = rr_completion_ts r \<and>
     ce_last_touched e = rr_completion_ts r \<and> rq_prompt_tokens (rr_request r) \<le> ce_size_tokens e"
proof (induction b)
  case Nil
  show ?case by (simp add: result_entry_def)
next
  case (Cons e b)
  show ?case
  proof (cases "same_place r e")
    case True
    then have "place (touch_entry r e) = place (result_entry r)" by (simp add: same_place_iff)
    with True show ?thesis by (simp add: touch_entry_def)
  qed (use Cons in auto)
qed

lemma read_after_write:
  assumes "redis_hash env" and "directory_ok env d" and "result_ok r" and "rr_admitted r"
    and room: "length (dict_get [] (kc_entries d) (cache_key (rr_request r))) < 4"
      "total_entries (kc_entries d) < kc_max_entries d"
    and ttl: "0 < kc_ttl_s d" and obs: "observe env r d = Inr d'"
    and now: "rr_completion_ts r \<le> now" "now - rr_completion_ts r \<le> 0.05 * kc_ttl_s d"
  shows "\<exists>d''. score env (rr_request r) (rd_cluster_id (rr_decision r)) (rd_pool_id (rr_decision r)) now d' =
    Inr (d'', 0.95, py_int (of_int (rq_prompt_tokens (rr_request r)) * 0.95))"
proof -
  let ?k = "cache_key (rr_request r)" and ?c = "rd_cluster_id (rr_decision r)" and ?p = "rd_pool_id (rr_decision r)"
  let ?b = "dict_get [] (kc_entries d) ?k"
  have dok: "dict_ok (kc_entries d)" by (rule directory_okD(2) [OF assms(2)])
  obtain d1 where ok1: "directory_ok env d1" and tr: "trim d1 = Inr d'"
    and m: "kc_max_entries d1 = kc_max_entries d" and t1: "kc_ttl_s d1 = kc_ttl_s d"
    and es: "kc_entries d1 = AList.update ?k (cap_bucket (observe_bucket r ?b)) (kc_entries d)"
    using observe_steps [OF assms(1-4) obs] by blast
  have len: "length (observe_bucket r ?b) \<le> length ?b + 1" by (rule observe_bucket_length)
  then have cap: "cap_bucket (observe_bucket r ?b) = observe_bucket r ?b"
    using room(1) by (simp add: cap_bucket_def)
  have "length (trim_items (kc_entries d1)) \<le> length (trim_items (kc_entries d)) + 1"
    unfolding es cap by (rule store_items_length [OF dok len])
  then have d': "d' = d1" using tr room(2) m by (simp add: trim_def total_entries_items)
  obtain e where e: "e \<in> set (observe_bucket r ?b)" and home: "place e = (?c, ?p)"
    and at: "ce_available_ts e = rr_completion_ts r" "ce_last_touched e = rr_completion_ts r"
    and size: "rq_prompt_tokens (rr_request r) \<le> ce_size_tokens e"
    using observe_bucket_entry [of r ?b] by (auto simp: place_result_entry)
  have ok: "dict_ok (kc_entries d1)" by (rule directory_okD(2) [OF ok1])
  have fb: "fresh_bucket (rr_request r) now d1 =
      filter (\<lambda>e. now - ce_last_touched e \<le> kc_ttl_s d) (observe_bucket r ?b)"
    by (simp add: fresh_bucket_def t1 es cap dict_get_update)
  have ef: "e \<in> set (fresh_bucket (rr_request r) now d1)" using e at now ttl by (simp add: fb)
  have "bucket_ok ?k (fresh_bucket (rr_request r) now d1)"
    using buckets_ok_bucket [OF directory_okD(1) [OF ok1], of ?k] ef
    by (auto simp: fresh_bucket_def filter_empty_conv intro!: bucket_ok_filter)
  from score_spec_home [OF ttl this ef home] at now
  have "score_spec (kc_ttl_s d) (rr_request r) ?c ?p now (fresh_bucket (rr_request r) now d1) =
      (0.95, saved_tokens (rr_request r) 0.95 e)" by simp
  moreover have "py_round 4 0.95 = 0.95" by (rule py_round_fixed [where k = 9500]) simp
  moreover have "saved_tokens (rr_request r) 0.95 e = py_int (of_int (rq_prompt_tokens (rr_request r)) * 0.95)"
    using size by (simp add: saved_tokens_def min_def)
  moreover have "fresh_bucket (rr_request r) now d1 \<noteq> []" using ef by auto
  ultimately show ?thesis
    using score_is_best [OF ok, of "rr_request r" now env ?c ?p] ttl t1 d' by simp
qed

text \<open>
  C12: read after write: once an admitted request has been observed (with room in its bucket and
  in the directory), scoring the same prefix on the same pool from its completion on, within a
  twentieth of the time to live, reports the greatest possible ratio 0.95 and saves 95 percent of
  the prompt tokens.
\<close>

theorem observe_then_score:
  assumes "redis_hash env" and "directory_ok env d" and "result_ok r" and "rr_admitted r"
    and "length (dict_get [] (kc_entries d) (cache_key (rr_request r))) < 4"
    and "total_entries (kc_entries d) < kc_max_entries d"
    and "0 < kc_ttl_s d" and "observe env r d = Inr d'"
    and "rr_completion_ts r \<le> now" and "now - rr_completion_ts r \<le> 0.05 * kc_ttl_s d"
  shows "\<exists>d''. score env (rr_request r) (rd_cluster_id (rr_decision r)) (rd_pool_id (rr_decision r)) now d' =
    Inr (d'', 0.95, py_int (of_int (rq_prompt_tokens (rr_request r)) * 0.95))"
  by (rule read_after_write [OF assms])

theorem observe_then_score_witness:
  "\<exists>d d'. observe memory_redis demo_result demo_directory = Inr d \<and>
     score memory_redis demo_request ''centralus-h100'' ''h100-main'' 5 d = Inr (d', 0.95, 950)"
proof -
  obtain d where d: "observe memory_redis demo_result demo_directory = Inr d"
    using demo_observed by auto
  have "py_int 950 = 950" using py_int_of_int [of 950] by simp
  with observe_then_score [OF memory.redis_hash_axioms demo_directory_ok _ _ _ _ _ d, of 5] d show ?thesis
    by (simp add: result_ok_def demo_result_defs demo_directory_def KVCacheDirectory_def total_entries_def
        dict_values_def)
qed

text \<open>
  An entry is invisible until the request that wrote it has completed: with nothing else in the
  bucket, the score before the completion is zero.
\<close>

lemma score_spec_unfinished:
  "\<forall>e \<in> set bucket. now < ce_available_ts e \<Longrightarrow> score_spec ttl_s request c p now bucket = (0, 0)"
  by (simp add: score_spec_def visible_def max_by_def not_le [symmetric] Let_def)

lemma unfinished_invisible:
  assumes "dict_ok (kc_entries d)" and "kc_ttl_s d \<noteq> 0" and "\<not> rs_enabled (kc_redis_store d)"
    and "\<forall>e \<in> set (dict_get [] (kc_entries d) (cache_key request)). now < ce_available_ts e"
  shows "score env request c p now d = Inr (evict_stale now d, 0, 0)"
proof -
  have "\<forall>e \<in> set (fresh_bucket request now d). now < ce_available_ts e"
    using assms(4) by (simp add: fresh_bucket_def)
  with score_is_best [OF assms(1,2), of request now env c p] assms(3) show ?thesis
    by (simp add: score_spec_unfinished)
qed

text \<open>
  C27: restart: a directory that has lost its entries recovers the bucket of a key from the Redis
  mirror exactly as the last observation of that key persisted it, entry by entry.
\<close>

theorem persist_hydrate_roundtrip:
  assumes "redis_hash env" and "rs_enabled (kc_redis_store d)" and "rs_client (kc_redis_store d) \<noteq> None"
    and "map_of (kc_entries d) (cache_key request) = Some bucket" and "bucket_ok (cache_key request) bucket"
    and "persist_to_redis env (cache_key request) d = Inr d'"
  shows "hydrate_from_redis env request (KVCacheDirectory ttl_s max_entries (kc_redis_store d')) =
    Inr ((KVCacheDirectory ttl_s max_entries (kc_redis_store d'))\<lparr>kc_entries := [(cache_key request, bucket)]\<rparr>)"
proof -
  let ?k = "cache_key request"
  from assms(2,4,6) obtain s' where
    s': "write_cache_affinity env ?k (bucket_payload bucket) (kc_redis_store d) = Inr s'"
    and d': "kc_redis_store d' = s'"
    by (auto simp: persist_to_redis_def result_simps dict_get_def bucket_payload_def)
  have "fetch_cache_affinity env ?k s' = Inr (Some (bucket_payload bucket))"
    by (rule redis_hash.fetch_after_write [OF assms(1-3) s' bucket_payload_ok])
  moreover have "rs_enabled s'"
    using redis_put_enabled [OF s' [unfolded write_cache_affinity_def]] assms(2) by simp
  moreover have "\<forall>e \<in> set bucket. ce_key e = ?k" and "bucket \<noteq> []"
    using assms(5) by (auto simp: bucket_ok_def entry_ok_def)
  ultimately show ?thesis
    by (simp add: hydrate_from_redis_def KVCacheDirectory_def d' bucket_payload_def dict_get_def bucket_roundtrip)
qed

theorem persist_hydrate_roundtrip_witness:
  "\<exists>d'. persist_to_redis memory_redis (cache_key demo_request)
       (demo_directory\<lparr>kc_entries := [(cache_key demo_request, [demo_entry])]\<rparr>) = Inr d' \<and>
     hydrate_from_redis memory_redis demo_request (KVCacheDirectory 180 20000 (kc_redis_store d')) =
       Inr ((KVCacheDirectory 180 20000 (kc_redis_store d'))
         \<lparr>kc_entries := [(cache_key demo_request, [demo_entry])]\<rparr>)"
proof -
  let ?d = "demo_directory\<lparr>kc_entries := [(cache_key demo_request, [demo_entry])]\<rparr>"
  obtain s' where "write_cache_affinity memory_redis (cache_key demo_request)
      (bucket_payload [demo_entry]) demo_store = Inr s'"
    unfolding write_cache_affinity_def using memory.put_total by blast
  then obtain d' where d': "persist_to_redis memory_redis (cache_key demo_request) ?d = Inr d'"
    by (simp add: persist_to_redis_def demo_directory_def KVCacheDirectory_def demo_store_simps dict_get_def
        bucket_payload_def)
  have "bucket_ok (cache_key demo_request) [demo_entry]"
    by (simp add: bucket_ok_def entry_ok_def demo_entry_def result_entry_def demo_result_defs)
  with persist_hydrate_roundtrip [OF memory.redis_hash_axioms _ _ _ _ d'] d' show ?thesis
    by (simp add: demo_directory_def KVCacheDirectory_def demo_store_simps)
qed

text \<open>Entries past their time to live still have the least freshness 0.1.\<close>

lemma hit_ratio_stale:
  assumes "0 < ttl_s" and "ttl_s < now - ce_last_touched e"
  shows "0.035 \<le> hit_ratio ttl_s c p now e \<and> hit_ratio ttl_s c p now e \<le> 0.1"
proof -
  have "1 < (now - ce_last_touched e) / ttl_s" using assms by (simp add: less_divide_eq)
  then have "freshness ttl_s now e = 0.1" unfolding freshness_def by (intro max_absorb1) linarith
  then show ?thesis by (simp add: hit_ratio_def location_bonus_def)
qed

lemma score_spec_stale:
  assumes "0 < ttl_s" and "bucket_ok k b" and "\<forall>e \<in> set b. ttl_s < now - ce_last_touched e"
  shows "\<exists>ratio saved. score_spec ttl_s request c p now b = (ratio, saved) \<and> 0.035 \<le> ratio \<and> ratio \<le> 0.1"
proof -
  have "\<forall>e \<in> set b. ce_available_ts e \<le> now" using assms by (fastforce simp: bucket_ok_def entry_ok_def)
  then have vis: "visible now b = b" by (simp add: visible_def filter_id_conv)
  have "b \<noteq> []" using assms(2) by (simp add: bucket_ok_def)
  then obtain m where m: "max_by (hit_ratio ttl_s c p now) b = Inr m" "m \<in> set b"
    using min_by_Inr [of b "\<lambda>x. - hit_ratio ttl_s c p now x"] by (auto simp: max_by_min_by dest: min_by_in_set)
  with hit_ratio_stale [OF assms(1), of now m c p] assms(3) vis show ?thesis by (simp add: score_spec_def Let_def)
qed

text \<open>
  C26: a stale prefix comes back: when every entry of a key is older than the time to live, a directory
  without a mirror evicts them and scores zero, but a mirrored one evicts them, hydrates the same stale
  entries from Redis, keeps them, and reports a hit ratio between 0.035 and 0.1.
\<close>

theorem stale_prefix_rescored:
  assumes "directory_ok env d" and "0 < kc_ttl_s d" and "rs_enabled (kc_redis_store d)" and "\<not> rs_enabled off"
    and "fetch_cache_affinity env (cache_key request) (kc_redis_store d) = Inr (Some (bucket_payload b))"
    and "bucket_ok (cache_key request) b"
    and "\<forall>e \<in> set (dict_get [] (kc_entries d) (cache_key request) @ b). kc_ttl_s d < now - ce_last_touched e"
  shows "(\<exists>d' ratio saved. score env request c p now d = Inr (d', ratio, saved) \<and> 0.035 \<le> ratio \<and> ratio \<le> 0.1 \<and>
      dict_get [] (kc_entries d') (cache_key request) = b) \<and>
    score env request c p now (d\<lparr>kc_redis_store := off\<rparr>) = Inr (evict_stale now (d\<lparr>kc_redis_store := off\<rparr>), 0, 0)"
proof
  let ?k = "cache_key request" and ?d1 = "evict_stale now d"
  have ttl: "kc_ttl_s d \<noteq> 0" using assms(2) by simp
  have gone: "fresh_bucket request now d = []" using assms(7) by (auto simp: fresh_bucket_def filter_empty_conv not_le)
  have d1: "dict_get [] (kc_entries ?d1) ?k = []"
    using gone directory_okD(2) [OF assms(1)] by (simp add: evict_stale_eq evicted_get fresh_bucket_def)
  have keys: "\<forall>e \<in> set b. ce_key e = ?k" and ne: "b \<noteq> []"
    using assms(6) by (simp_all add: bucket_ok_def entry_ok_def)
  have hyd: "hydrate_from_redis env request ?d1 = Inr (?d1\<lparr>kc_entries := AList.update ?k b (kc_entries ?d1)\<rparr>)"
    using assms(3,5) ne bucket_roundtrip [OF keys, of env]
    by (simp add: hydrate_from_redis_def evict_stale_def bucket_payload_def dict_get_def)
  obtain ratio saved where sp: "score_spec (kc_ttl_s d) request c p now b = (ratio, saved)" "0.035 \<le> ratio" "ratio \<le> 0.1"
    using score_spec_stale [OF assms(2,6)] assms(7) by fastforce
  have "score env request c p now d = Inr (?d1\<lparr>kc_entries := AList.update ?k b (kc_entries ?d1)\<rparr>, py_round 4 ratio, saved)"
    using d1 hyd ttl sp(1) by (simp add: score_def score_loop_spec dict_get_update) (simp add: evict_stale_def score_loop_spec)
  moreover have "0.035 \<le> py_round 4 ratio" "py_round 4 ratio \<le> 0.1"
    using sp(2,3) py_round_ge_fixed [of "0.035" ratio 4 350] py_round_le_fixed [of ratio "0.1" 4 1000] by simp_all
  ultimately show "\<exists>d' ratio saved. score env request c p now d = Inr (d', ratio, saved) \<and> 0.035 \<le> ratio \<and> ratio \<le> 0.1 \<and>
      dict_get [] (kc_entries d') ?k = b" by (simp add: dict_get_update)
  have "score_spec (kc_ttl_s d) request c p now [] = (0, 0)" by (simp add: score_spec_def visible_def max_by_def)
  then show "score env request c p now (d\<lparr>kc_redis_store := off\<rparr>) = Inr (evict_stale now (d\<lparr>kc_redis_store := off\<rparr>), 0, 0)"
    using score_is_best [of "d\<lparr>kc_redis_store := off\<rparr>" request now env c p] directory_okD(2) [OF assms(1)] ttl gone assms(4)
    by (simp add: fresh_bucket_def)
qed

theorem stale_prefix_rescored_witness:
  "\<exists>d' ratio saved s. write_cache_affinity memory_redis (cache_key demo_request) (bucket_payload [demo_entry]) demo_store = Inr s \<and>
     score memory_redis demo_request ''centralus-h100'' ''h100-main'' 1000 (KVCacheDirectory 180 20000 s) = Inr (d', ratio, saved) \<and>
     0.035 \<le> ratio \<and> dict_get [] (kc_entries d') (cache_key demo_request) = [demo_entry]"
proof -
  let ?k = "cache_key demo_request"
  obtain s where s: "write_cache_affinity memory_redis ?k (bucket_payload [demo_entry]) demo_store = Inr s"
    unfolding write_cache_affinity_def using memory.put_total by blast
  have en: "rs_enabled s" using redis_put_enabled [OF s [unfolded write_cache_affinity_def]] by (simp add: demo_store_simps)
  have ok: "bucket_ok ?k [demo_entry]"
    by (simp add: bucket_ok_def entry_ok_def demo_entry_def result_entry_def demo_result_defs)
  have fetch: "fetch_cache_affinity memory_redis k s = (if k = ?k then Inr (Some (bucket_payload [demo_entry])) else Inr None)" for k
    using memory.fetch_after_write [OF _ _ s bucket_payload_ok] memory.fetch_after_other_write [OF s, of k]
    by (simp add: demo_store_simps)
  then have "mirror_ok memory_redis s" using ok by (auto simp: mirror_ok_def)
  from stale_prefix_rescored [OF fresh_directory_ok [OF this, of 180 20000], of "RedisDecisionStore memory_redis None [] False"
      demo_request "[demo_entry]" 1000 "''centralus-h100''" "''h100-main''"] en fetch ok s show ?thesis
    by (auto simp: KVCacheDirectory_def RedisDecisionStore_def demo_entry_def result_entry_def demo_result_defs)
qed

text \<open>
  The cache keys of two requests agree only if model, tenant and signature agree, provided
  models and tenants contain no colon: entries are never shared across tenants.
\<close>

theorem cache_key_isolates_tenants:
  assumes "CHR '':'' \<notin> set (rq_model_id r)" and "CHR '':'' \<notin> set (rq_model_id r')"
    and "CHR '':'' \<notin> set (rq_tenant_id r)" and "CHR '':'' \<notin> set (rq_tenant_id r')"
    and "rq_prefix_signature r = Some s" and "rq_prefix_signature r' = Some s'"
  shows "cache_key r = cache_key r' \<longleftrightarrow>
    rq_model_id r = rq_model_id r' \<and> rq_tenant_id r = rq_tenant_id r' \<and> s = s'"
  using assms by (simp add: cache_key_def sep_inject)

theorem cache_key_isolates_tenants_witness:
  "cache_key demo_request \<noteq> cache_key (demo_request\<lparr>rq_tenant_id := ''search''\<rparr>)"
  using cache_key_isolates_tenants [of demo_request "demo_request\<lparr>rq_tenant_id := ''search''\<rparr>" "''sig''" "''sig''"]
  by (simp add: demo_request_def)

end
