(* ===== verification/Backends.thy ===== *)
theory Backends
  imports Samples
begin

text \<open>
  The serving back ends of \<open>serving_backends/\<close>: the latency models of the mock, vLLM and Triton
  adapters and \<open>invoke\<close>. The three calls \<open>HTTPBackendMixin.post_json\<close> makes to the \<open>httpx\<close> package
  are the parameter \<open>http_client\<close>. What routing and scheduling rely on is the locale
  \<open>latency_model\<close>, interpreted on the dispatch over the three adapters.
\<close>

datatype backend = MockBackend | VLLMBackend | TritonBackend

fun backend_name :: "backend \<Rightarrow> string" where
  "backend_name MockBackend = ''mock''"
| "backend_name VLLMBackend = ''vllm''"
| "backend_name TritonBackend = ''triton''"

fun latency_factor :: "backend \<Rightarrow> pyfloat" where
  "latency_factor MockBackend = 1"
| "latency_factor VLLMBackend = 0.94"
| "latency_factor TritonBackend = 0.9"

type_synonym latency_estimate =
  "inference_request \<Rightarrow> pool_runtime \<Rightarrow> pyfloat \<Rightarrow> pyfloat \<Rightarrow> pyfloat \<Rightarrow> pyfloat \<Rightarrow> pyfloat \<times> pyfloat"

definition mock_estimate_latency_ms :: latency_estimate where
  "mock_estimate_latency_ms request pool cache_hit_ratio topology_affinity network_cost congestion_score =
     (let effective_prompt = max 1 (of_int (rq_prompt_tokens request) * (1 - cache_hit_ratio * 0.8));
          prefill_ms = (effective_prompt / max (pr_prefill_tps pool) 1) * 1000;
          decode_ms = (of_int (rq_generation_tokens request) / max (pr_decode_tps pool) 1) * 1000;
          topology_multiplier = max 0.72 (1.10 - topology_affinity * 0.22);
          congestion_multiplier = 1 + congestion_score * 0.35;
          network_penalty_ms = network_cost * (5 + of_int (rq_prompt_tokens request) / 4096)
      in (py_round 4 (prefill_ms * topology_multiplier * congestion_multiplier + network_penalty_ms),
          py_round 4 (decode_ms * congestion_multiplier)))"

definition vllm_estimate_latency_ms :: latency_estimate where
  "vllm_estimate_latency_ms request pool cache_hit_ratio topology_affinity network_cost congestion_score =
     (let prompt = max 1 (of_int (rq_prompt_tokens request) * (1 - cache_hit_ratio * 0.82));
          prefill_ms = (prompt / max (pr_prefill_tps pool * 1.08) 1) * 1000;
          decode_ms = (of_int (rq_generation_tokens request) / max (pr_decode_tps pool * 1.06) 1) * 1000;
          multiplier = (1 + congestion_score * 0.28) * max 0.74 (1.08 - topology_affinity * 0.18)
      in (py_round 4 (prefill_ms * multiplier + network_cost * 4), py_round 4 (decode_ms * multiplier)))"

definition triton_estimate_latency_ms :: latency_estimate where
  "triton_estimate_latency_ms request pool cache_hit_ratio topology_affinity network_cost congestion_score =
     (let prompt = max 1 (of_int (rq_prompt_tokens request) * (1 - cache_hit_ratio * 0.75));
          prefill_ms = (prompt / max (pr_prefill_tps pool * 1.12) 1) * 1000;
          decode_ms = (of_int (rq_generation_tokens request) / max (pr_decode_tps pool * 1.03) 1) * 1000;
          multiplier = (1 + congestion_score * 0.24) * max 0.70 (1.05 - topology_affinity * 0.2)
      in (py_round 4 (prefill_ms * multiplier + network_cost * 3.5), py_round 4 (decode_ms * multiplier)))"

text \<open>The abstract method \<open>BackendAdapter.estimate_latency_ms\<close>: dispatch on the adapter.\<close>

fun estimate_latency_ms :: "backend \<Rightarrow> latency_estimate" where
  "estimate_latency_ms MockBackend = mock_estimate_latency_ms"
| "estimate_latency_ms VLLMBackend = vllm_estimate_latency_ms"
| "estimate_latency_ms TritonBackend = triton_estimate_latency_ms"

text \<open>
  \<open>HTTPBackendMixin.post_json\<close> and \<open>invoke\<close>. The client posts a document with a time-out, a response is
  checked for an error status and decoded; each of the three may raise.
\<close>

record 'h http_client =
  hc_post :: "pyfloat \<Rightarrow> string \<Rightarrow> json \<Rightarrow> 'h result"
  hc_raise_for_status :: "'h \<Rightarrow> unit result"
  hc_json :: "'h \<Rightarrow> json result"

definition post_json :: "'h http_client \<Rightarrow> string \<Rightarrow> json \<Rightarrow> pyfloat \<Rightarrow> json result" where
  "post_json client endpoint payload timeout_s =
     ebind (hc_post client timeout_s endpoint payload) (\<lambda>response.
     ebind (hc_raise_for_status client response) (\<lambda>_. hc_json client response))"

definition mock_invoke :: "string \<Rightarrow> json \<Rightarrow> pyfloat \<Rightarrow> json result" where
  "mock_invoke endpoint payload timeout_s =
     Inr (JDict [(''backend'', JStr (backend_name MockBackend)), (''endpoint'', JStr endpoint),
       (''payload'', payload), (''timeout_s'', JFloat timeout_s)])"

definition vllm_invoke :: "'h http_client \<Rightarrow> string \<Rightarrow> json \<Rightarrow> pyfloat \<Rightarrow> json result" where
  "vllm_invoke client endpoint payload timeout_s = post_json client endpoint payload timeout_s"

definition triton_invoke :: "'h http_client \<Rightarrow> string \<Rightarrow> json \<Rightarrow> pyfloat \<Rightarrow> json result" where
  "triton_invoke client endpoint payload timeout_s = post_json client endpoint payload timeout_s"

fun backend_invoke :: "'h http_client \<Rightarrow> backend \<Rightarrow> string \<Rightarrow> json \<Rightarrow> pyfloat \<Rightarrow> json result" where
  "backend_invoke client MockBackend = mock_invoke"
| "backend_invoke client VLLMBackend = vllm_invoke client"
| "backend_invoke client TritonBackend = triton_invoke client"

text \<open>
  A live back end returns a document only if the endpoint answered without an error status and with that
  document; the mock answers whatever the network does.
\<close>

lemma backend_invoke_answer:
  "backend_invoke client b endpoint payload timeout_s = Inr doc \<longleftrightarrow>
     (if b = MockBackend then mock_invoke endpoint payload timeout_s = Inr doc
      else \<exists>response. hc_post client timeout_s endpoint payload = Inr response \<and>
        hc_raise_for_status client response = Inr () \<and> hc_json client response = Inr doc)"
  by (cases b) (auto simp: vllm_invoke_def triton_invoke_def post_json_def result_simps)

lemma backend_invoke_refused:
  assumes "b \<noteq> MockBackend" and "hc_post client timeout_s endpoint payload = Inr response"
    and "hc_raise_for_status client response = Inl e"
  shows "backend_invoke client b endpoint payload timeout_s = Inl e"
  using assms by (cases b) (simp_all add: vllm_invoke_def triton_invoke_def post_json_def)

section \<open>The contract of a latency model\<close>

text \<open>
  Latencies are not negative, a better cache hit or a better topology affinity never makes the
  prefill slower, more congestion or network cost never makes a request faster, and the cache has
  no influence on decoding.
\<close>

locale latency_model =
  fixes est :: latency_estimate
  assumes nonneg: "0 \<le> rq_prompt_tokens r \<Longrightarrow> 0 \<le> rq_generation_tokens r \<Longrightarrow> 0 \<le> n \<Longrightarrow> 0 \<le> g \<Longrightarrow>
      0 \<le> fst (est r p h a n g) \<and> 0 \<le> snd (est r p h a n g)"
    and mono: "0 \<le> rq_prompt_tokens r \<Longrightarrow> 0 \<le> rq_generation_tokens r \<Longrightarrow> 0 \<le> g \<Longrightarrow>
      h' \<le> h \<Longrightarrow> n \<le> n' \<Longrightarrow> g \<le> g' \<Longrightarrow> fst (est r p h a n g) \<le> fst (est r p h' a n' g')"
    and decode_mono: "0 \<le> rq_generation_tokens r \<Longrightarrow> g \<le> g' \<Longrightarrow> snd (est r p h a n g) \<le> snd (est r p h' a n' g')"
begin

text \<open>The latency the scheduler charges: prefill plus decode.\<close>

definition service_ms :: "inference_request \<Rightarrow> pool_runtime \<Rightarrow> pyfloat \<Rightarrow> pyfloat \<Rightarrow> pyfloat \<Rightarrow> pyfloat \<Rightarrow> pyfloat" where
  "service_ms r p h a n g = fst (est r p h a n g) + snd (est r p h a n g)"

lemma service_nonneg:
  "0 \<le> rq_prompt_tokens r \<Longrightarrow> 0 \<le> rq_generation_tokens r \<Longrightarrow> 0 \<le> n \<Longrightarrow> 0 \<le> g \<Longrightarrow> 0 \<le> service_ms r p h a n g"
  using nonneg [of r n g p h a] by (simp add: service_ms_def)

lemma service_mono:
  assumes "0 \<le> rq_prompt_tokens r" and "0 \<le> rq_generation_tokens r" and "0 \<le> g"
    and "h' \<le> h" and "n \<le> n'" and "g \<le> g'"
  shows "service_ms r p h a n g \<le> service_ms r p h' a n' g'"
  unfolding service_ms_def by (intro add_mono mono decode_mono assms)

lemma decode_independent:
  assumes "0 \<le> rq_generation_tokens r"
  shows "snd (est r p h a n g) = snd (est r p h' a n' g)"
  using decode_mono [OF assms order_refl] by (intro antisym) auto

end

text \<open>All three adapters have one shape; the monotonicity of that shape is proved once.\<close>

lemma prefill_shape_mono:
  fixes h :: rat
  assumes "0 \<le> t" and "0 \<le> k" and "0 \<le> m" and "0 \<le> c" and "0 \<le> g" and "0 \<le> w"
    and "h' \<le> h" and "n \<le> n'" and "g \<le> g'" and "0 < d"
  shows "py_round 4 ((max 1 (t * (1 - h * k)) / d) * 1000 * ((1 + g * c) * m) + n * w)
    \<le> py_round 4 ((max 1 (t * (1 - h' * k)) / d) * 1000 * ((1 + g' * c) * m) + n' * w)"
proof -
  have "t * (1 - h * k) \<le> t * (1 - h' * k)" using assms by (intro mult_left_mono diff_left_mono mult_right_mono)
  then have prefill: "max 1 (t * (1 - h * k)) / d * 1000 \<le> max 1 (t * (1 - h' * k)) / d * 1000"
    using assms(10) by (intro mult_right_mono divide_right_mono max.mono) auto
  have mult: "(1 + g * c) * m \<le> (1 + g' * c) * m" using assms by (intro mult_right_mono add_mono) auto
  have net: "n * w \<le> n' * w" using assms by (intro mult_right_mono)
  show ?thesis
    by (rule py_round_mono [OF add_mono [OF mult_mono [OF prefill mult] net]])
       (use assms in \<open>auto simp: le_max_iff_disj\<close>)
qed

lemma decode_shape_mono:
  fixes g :: rat
  assumes "0 \<le> t" and "0 < d" and "0 \<le> c" and "0 \<le> m" and "g \<le> g'"
  shows "py_round 4 (t / d * 1000 * ((1 + g * c) * m)) \<le> py_round 4 (t / d * 1000 * ((1 + g' * c) * m))"
  using assms by (intro py_round_mono mult_left_mono mult_right_mono add_left_mono) auto

lemma prefill_shape_nonneg:
  fixes h :: rat
  assumes "0 \<le> m" and "0 \<le> c" and "0 \<le> g" and "0 \<le> w" and "0 \<le> n" and "0 < d"
  shows "0 \<le> py_round 4 ((max 1 (t * (1 - h * k)) / d) * 1000 * ((1 + g * c) * m) + n * w)"
  using assms by (intro py_round_nonneg add_nonneg_nonneg mult_nonneg_nonneg divide_nonneg_nonneg)
    (auto simp: le_max_iff_disj)

lemma decode_shape_nonneg:
  fixes g :: rat
  assumes "0 \<le> t" and "0 < d" and "0 \<le> c" and "0 \<le> m" and "0 \<le> g"
  shows "0 \<le> py_round 4 (t / d * 1000 * ((1 + g * c) * m))"
  using assms by (intro py_round_nonneg mult_nonneg_nonneg divide_nonneg_nonneg) auto

text \<open>The three adapters as instances of the shape.\<close>

lemma mock_shape:
  "mock_estimate_latency_ms r p h a n g =
     (py_round 4 ((max 1 (of_int (rq_prompt_tokens r) * (1 - h * 0.8)) / max (pr_prefill_tps p) 1) * 1000 *
        ((1 + g * 0.35) * max 0.72 (1.10 - a * 0.22)) + n * (5 + of_int (rq_prompt_tokens r) / 4096)),
      py_round 4 (of_int (rq_generation_tokens r) / max (pr_decode_tps p) 1 * 1000 * ((1 + g * 0.35) * 1)))"
  unfolding mock_estimate_latency_ms_def Let_def by (simp only: ac_simps mult_1_right mult_1_left)

lemma vllm_shape:
  "vllm_estimate_latency_ms r p h a n g =
     (py_round 4 ((max 1 (of_int (rq_prompt_tokens r) * (1 - h * 0.82)) / max (pr_prefill_tps p * 1.08) 1) * 1000 *
        ((1 + g * 0.28) * max 0.74 (1.08 - a * 0.18)) + n * 4),
      py_round 4 (of_int (rq_generation_tokens r) / max (pr_decode_tps p * 1.06) 1 * 1000 *
        ((1 + g * 0.28) * max 0.74 (1.08 - a * 0.18))))"
  unfolding vllm_estimate_latency_ms_def Let_def by (rule refl)

lemma triton_shape:
  "triton_estimate_latency_ms r p h a n g =
     (py_round 4 ((max 1 (of_int (rq_prompt_tokens r) * (1 - h * 0.75)) / max (pr_prefill_tps p * 1.12) 1) * 1000 *
        ((1 + g * 0.24) * max 0.70 (1.05 - a * 0.2)) + n * 3.5),
      py_round 4 (of_int (rq_generation_tokens r) / max (pr_decode_tps p * 1.03) 1 * 1000 *
        ((1 + g * 0.24) * max 0.70 (1.05 - a * 0.2))))"
  unfolding triton_estimate_latency_ms_def Let_def by (rule refl)

lemmas backend_shapes = mock_shape vllm_shape triton_shape

interpretation backend: latency_model "estimate_latency_ms b" for b
proof unfold_locales
  fix r :: inference_request and n n' g g' h h' a :: pyfloat and p :: pool_runtime
  show "0 \<le> rq_prompt_tokens r \<Longrightarrow> 0 \<le> rq_generation_tokens r \<Longrightarrow> 0 \<le> n \<Longrightarrow> 0 \<le> g \<Longrightarrow>
      0 \<le> fst (estimate_latency_ms b r p h a n g) \<and> 0 \<le> snd (estimate_latency_ms b r p h a n g)"
    by (cases b; simp only: estimate_latency_ms.simps backend_shapes fst_conv snd_conv;
        intro conjI prefill_shape_nonneg decode_shape_nonneg; simp add: le_max_iff_disj less_max_iff_disj)
  show "0 \<le> rq_prompt_tokens r \<Longrightarrow> 0 \<le> rq_generation_tokens r \<Longrightarrow> 0 \<le> g \<Longrightarrow> h' \<le> h \<Longrightarrow> n \<le> n' \<Longrightarrow>
      g \<le> g' \<Longrightarrow> fst (estimate_latency_ms b r p h a n g) \<le> fst (estimate_latency_ms b r p h' a n' g')"
    by (cases b; simp only: estimate_latency_ms.simps backend_shapes fst_conv;
        intro prefill_shape_mono; simp add: le_max_iff_disj less_max_iff_disj)
  show "0 \<le> rq_generation_tokens r \<Longrightarrow> g \<le> g' \<Longrightarrow>
      snd (estimate_latency_ms b r p h a n g) \<le> snd (estimate_latency_ms b r p h' a n' g')"
    by (cases b; simp only: estimate_latency_ms.simps backend_shapes snd_conv;
        intro decode_shape_mono; simp add: le_max_iff_disj less_max_iff_disj)
qed

section \<open>Properties\<close>

text \<open>
  On every back end a placement with a better cache hit, a cheaper route and less congestion
  is never estimated slower, and the estimate is never negative.
\<close>

theorem latency_monotone:
  assumes "0 \<le> rq_prompt_tokens r" and "0 \<le> rq_generation_tokens r" and "0 \<le> g" and "0 \<le> n"
    and "h' \<le> h" and "n \<le> n'" and "g \<le> g'"
  shows "0 \<le> fst (estimate_latency_ms b r p h a n g) + snd (estimate_latency_ms b r p h a n g) \<and>
    fst (estimate_latency_ms b r p h a n g) + snd (estimate_latency_ms b r p h a n g)
      \<le> fst (estimate_latency_ms b r p h' a n' g') + snd (estimate_latency_ms b r p h' a n' g')"
  using backend.service_nonneg [OF assms(1,2,4,3)] backend.service_mono [OF assms(1-3,5-7)]
  by (simp add: backend.service_ms_def)

theorem latency_monotone_witness:
  "fst (estimate_latency_ms MockBackend demo_request demo_pool 0.95 0.92 1.1 0.1) +
     snd (estimate_latency_ms MockBackend demo_request demo_pool 0.95 0.92 1.1 0.1)
   \<le> fst (estimate_latency_ms MockBackend demo_request demo_pool 0 0.92 1.5 0.2) +
     snd (estimate_latency_ms MockBackend demo_request demo_pool 0 0.92 1.5 0.2)"
  using latency_monotone [of demo_request "0.1" "1.1" 0 "0.95" "1.5" "0.2" MockBackend demo_pool "0.92"]
  by (simp add: demo_request_def)

end
