(* ===== verification/LocalScheduler.thy ===== *)
theory LocalScheduler
  imports CacheDirectory Backends Policies
begin

text \<open>
  \<open>cluster_scheduler/local_scheduler.py\<close>: the scheduler that books a routed request on the
  earliest slot of its pool, charges memory, cost and energy, and reports the result to the cache
  directory. \<open>place_request\<close> returns the mutated pool and directory with the result. The lemmas
  relate the reported times and show that the bookings of a slot never overlap.
\<close>

section \<open>The operation\<close>

definition earliest_slot :: "pool_runtime \<Rightarrow> nat result" where
  "earliest_slot p =
     min_by (\<lambda>i. pr_slot_available_at p ! i) [0..<length (pr_slot_available_at p)]"

definition place_request ::
  "'r redis_env \<Rightarrow> inference_request \<Rightarrow> candidate_placement \<Rightarrow> routing_decision \<Rightarrow> backend \<Rightarrow> pyfloat
    \<Rightarrow> pool_runtime \<times> 'r kv_cache_directory
    \<Rightarrow> (pool_runtime \<times> 'r kv_cache_directory \<times> request_result) result" where
  "place_request env request candidate decision backend now state =
     (case state of (pool, cache) \<Rightarrow>
      ebind (earliest_slot pool) (\<lambda>slot_index.
        let slot_ts = pr_slot_available_at pool ! slot_index;
            actual_start_ts = max now slot_ts;
            queue_delay_ms = max 0 (actual_start_ts - now) * 1000;
            (prefill_ms, decode_ms) = estimate_latency_ms backend request pool
              (cp_expected_cache_hit_ratio candidate) (cp_topology_affinity candidate)
              (cp_network_cost candidate) (cp_congestion_score candidate);
            memory_gb = estimate_request_memory_gb (rq_prompt_tokens request) (rq_generation_tokens request)
              (rq_model_id request) (cp_expected_cache_saved_tokens candidate);
            completion_ts = actual_start_ts + (prefill_ms + decode_ms) / 1000;
            pool' = pool\<lparr>pr_slot_available_at := (pr_slot_available_at pool)[slot_index := completion_ts],
                      pr_inflight_memory := pr_inflight_memory pool @ [(completion_ts, memory_gb)],
                      pr_active_memory_gb := pr_active_memory_gb pool + memory_gb,
                      pr_decision_count := pr_decision_count pool + 1\<rparr>;
            total_latency_ms = queue_delay_ms + prefill_ms + decode_ms;
            cost_usd = pr_cost_per_1m_tokens pool * (of_int (total_tokens request) / 1000000);
            energy_proxy = pr_energy_proxy pool * (of_int (total_tokens request) / 1000);
            sla_met = (total_latency_ms \<le> rq_max_latency_ms request);
            result = \<lparr>rr_request = request, rr_decision = decision, rr_admitted = True,
              rr_actual_start_ts = actual_start_ts, rr_completion_ts = completion_ts,
              rr_queue_delay_ms = py_round 4 queue_delay_ms, rr_prefill_latency_ms = py_round 4 prefill_ms,
              rr_decode_latency_ms = py_round 4 decode_ms, rr_total_latency_ms = py_round 4 total_latency_ms,
              rr_cache_hit_ratio = cp_expected_cache_hit_ratio candidate,
              rr_cache_saved_tokens = cp_expected_cache_saved_tokens candidate,
              rr_memory_gb = py_round 4 memory_gb, rr_cost_usd = py_round 6 cost_usd,
              rr_energy_proxy = py_round 4 energy_proxy, rr_network_cost = py_round 4 (cp_network_cost candidate),
              rr_sla_met = sla_met, rr_rejection_reason = None\<rparr>
        in ebind (observe env result cache) (\<lambda>cache'. Inr (pool', cache', result))))"

section \<open>What a booking does\<close>

text \<open>
  The booking as a relation on the pool alone: slot \<open>i\<close> was the first of the earliest slots, the
  request starts when both it and the slot are there, and ends after its service time.
\<close>

definition booked :: "pool_runtime \<Rightarrow> pyfloat \<Rightarrow> nat \<Rightarrow> pyfloat \<Rightarrow> pyfloat \<Rightarrow> pyfloat \<Rightarrow> pool_runtime \<Rightarrow> bool" where
  "booked p now i start finish mem p' \<longleftrightarrow>
     i < length (pr_slot_available_at p) \<and>
     (\<forall>ts \<in> set (pr_slot_available_at p). pr_slot_available_at p ! i \<le> ts) \<and>
     start = max now (pr_slot_available_at p ! i) \<and> start \<le> finish \<and>
     p' = p\<lparr>pr_slot_available_at := (pr_slot_available_at p)[i := finish],
            pr_inflight_memory := pr_inflight_memory p @ [(finish, mem)],
            pr_active_memory_gb := pr_active_memory_gb p + mem,
            pr_decision_count := pr_decision_count p + 1\<rparr>"

definition placement_ok :: "inference_request \<Rightarrow> candidate_placement \<Rightarrow> bool" where
  "placement_ok r c \<longleftrightarrow> 0 \<le> rq_prompt_tokens r \<and> 0 \<le> rq_generation_tokens r \<and>
     0 \<le> cp_network_cost c \<and> 0 \<le> cp_congestion_score c"

lemma earliest_slot_least:
  "earliest_slot p = Inr i \<Longrightarrow> i < length (pr_slot_available_at p) \<and>
     (\<forall>ts \<in> set (pr_slot_available_at p). pr_slot_available_at p ! i \<le> ts)"
  unfolding earliest_slot_def
  using min_by_in_set [of "\<lambda>i. pr_slot_available_at p ! i" "[0..<length (pr_slot_available_at p)]" i]
    min_by_le [of "\<lambda>i. pr_slot_available_at p ! i" "[0..<length (pr_slot_available_at p)]" i]
  by (auto simp: in_set_conv_nth)

lemma place_request_booked:
  assumes "place_request env r c dec b now (p, d) = Inr (p', d', res)" and "placement_ok r c"
  shows "\<exists>i. booked p now i (rr_actual_start_ts res) (rr_completion_ts res)
      (estimate_request_memory_gb (rq_prompt_tokens r) (rq_generation_tokens r) (rq_model_id r)
         (cp_expected_cache_saved_tokens c)) p'"
proof -
  obtain i where i: "earliest_slot p = Inr i"
    using assms(1) by (auto simp: place_request_def result_simps)
  let ?e = "estimate_latency_ms b r p (cp_expected_cache_hit_ratio c) (cp_topology_affinity c)
    (cp_network_cost c) (cp_congestion_score c)"
  have "0 \<le> fst ?e \<and> 0 \<le> snd ?e" using assms(2) by (intro backend.nonneg) (auto simp: placement_ok_def)
  with assms(1) i earliest_slot_least [OF i] show ?thesis
    by (auto simp: place_request_def booked_def result_simps Let_def case_prod_unfold intro!: exI [of _ i])
qed

lemma place_request_observed:
  "place_request env r c dec b now (p, d) = Inr (p', d', res) \<Longrightarrow> observe env res d = Inr d'"
  by (auto simp: place_request_def result_simps Let_def case_prod_unfold)

text \<open>The result is about the request and the decision it was called with.\<close>

lemma place_request_fields:
  assumes "place_request env r c dec b now (p, d) = Inr (p', d', res)"
  shows "rr_request res = r" "rr_decision res = dec" "rr_admitted res"
    "rr_cache_hit_ratio res = cp_expected_cache_hit_ratio c" "rr_rejection_reason res = None"
    "rr_cache_saved_tokens res = cp_expected_cache_saved_tokens c" "0 \<le> rr_memory_gb res"
  using assms py_round_nonneg [OF less_imp_le [OF memory_estimate_pos]]
  by (auto simp: place_request_def result_simps Let_def case_prod_unfold)

text \<open>
  The reported times agree: the unrounded total latency is the time from now to completion, so
  the SLA flag compares exactly that time with the bound.
\<close>

lemma place_request_times:
  assumes "place_request env r c dec b now (p, d) = Inr (p', d', res)"
  shows "now \<le> rr_actual_start_ts res"
    and "rr_queue_delay_ms res = py_round 4 ((rr_actual_start_ts res - now) * 1000)"
    and "rr_total_latency_ms res = py_round 4 ((rr_completion_ts res - now) * 1000)"
    and "rr_sla_met res \<longleftrightarrow> (rr_completion_ts res - now) * 1000 \<le> rq_max_latency_ms r"
  using assms
  by (auto simp: place_request_def result_simps Let_def case_prod_unfold max_def algebra_simps add_divide_distrib
      split: if_splits)

section \<open>Bookings of a pool over time\<close>

text \<open>
  The life of a pool: requests are placed at arbitrary times, and in between anything may happen
  to it that leaves its slots alone (refreshing memory, congestion, counters). The history lists
  the slot, start and completion of every placement.
\<close>

inductive pool_run ::
  "'r redis_env \<Rightarrow> pool_runtime \<Rightarrow> pool_runtime \<Rightarrow> (nat \<times> pyfloat \<times> pyfloat) list \<Rightarrow> bool"
  for env p0 where
  start: "pool_run env p0 p0 []"
| placed: "pool_run env p0 p hs \<Longrightarrow> earliest_slot p = Inr i \<Longrightarrow>
    place_request env r c dec b now (p, d) = Inr (p', d', res) \<Longrightarrow> placement_ok r c \<Longrightarrow>
    pool_run env p0 p' (hs @ [(i, rr_actual_start_ts res, rr_completion_ts res)])"
| other: "pool_run env p0 p hs \<Longrightarrow> pr_slot_available_at p' = pr_slot_available_at p \<Longrightarrow> pool_run env p0 p' hs"

definition slots_free_after :: "pool_runtime \<Rightarrow> (nat \<times> pyfloat \<times> pyfloat) list \<Rightarrow> bool" where
  "slots_free_after p hs \<longleftrightarrow>
     (\<forall>(i, s, f) \<in> set hs. i < length (pr_slot_available_at p) \<and> s \<le> f \<and> f \<le> pr_slot_available_at p ! i)"

definition disjoint_bookings :: "(nat \<times> pyfloat \<times> pyfloat) list \<Rightarrow> bool" where
  "disjoint_bookings hs \<longleftrightarrow> sorted_wrt (\<lambda>(i, s, f) (i', s', f'). i = i' \<longrightarrow> f \<le> s') hs"

lemma place_request_slot:
  assumes "earliest_slot p = Inr i" and "place_request env r c dec b now (p, d) = Inr (p', d', res)"
    and "placement_ok r c"
  shows "i < length (pr_slot_available_at p) \<and> pr_slot_available_at p ! i \<le> rr_actual_start_ts res \<and>
    rr_actual_start_ts res \<le> rr_completion_ts res \<and>
    pr_slot_available_at p' = (pr_slot_available_at p)[i := rr_completion_ts res]"
proof -
  let ?e = "estimate_latency_ms b r p (cp_expected_cache_hit_ratio c) (cp_topology_affinity c)
    (cp_network_cost c) (cp_congestion_score c)"
  have "0 \<le> fst ?e \<and> 0 \<le> snd ?e" using assms(3) by (intro backend.nonneg) (auto simp: placement_ok_def)
  with assms(1,2) earliest_slot_least [OF assms(1)] show ?thesis
    by (auto simp: place_request_def result_simps Let_def case_prod_unfold)
qed

lemma slots_free_after_placed:
  assumes "slots_free_after p hs" and "i < length (pr_slot_available_at p)"
    and "pr_slot_available_at p ! i \<le> s" and "s \<le> f"
    and "pr_slot_available_at p' = (pr_slot_available_at p)[i := f]"
  shows "slots_free_after p' (hs @ [(i, s, f)])"
proof -
  have "pr_slot_available_at p ! j \<le> (pr_slot_available_at p)[i := f] ! j" for j
    using assms(2-4) by (cases "j = i") auto
  then show ?thesis using assms by (fastforce simp: slots_free_after_def intro: order_trans)
qed

lemma pool_run_invariant:
  "pool_run env p0 p hs \<Longrightarrow> length (pr_slot_available_at p) = length (pr_slot_available_at p0) \<and>
     slots_free_after p hs \<and> disjoint_bookings hs"
proof (induction rule: pool_run.induct)
  case start
  show ?case by (simp add: slots_free_after_def disjoint_bookings_def)
next
  case (placed p hs i r c dec b now d p' d' res)
  note slot = place_request_slot [OF placed.hyps(2-4)]
  from slot have "slots_free_after p' (hs @ [(i, rr_actual_start_ts res, rr_completion_ts res)])"
    using placed.IH by (intro slots_free_after_placed) auto
  moreover have "disjoint_bookings (hs @ [(i, rr_actual_start_ts res, rr_completion_ts res)])"
    using placed.IH slot by (fastforce simp: disjoint_bookings_def sorted_wrt_append slots_free_after_def)
  ultimately show ?case using placed.IH slot by simp
next
  case (other p hs p')
  then have "slots_free_after p' hs = slots_free_after p hs" by (simp add: slots_free_after_def)
  with other show ?case by simp
qed

definition running :: "pyfloat \<Rightarrow> (nat \<times> pyfloat \<times> pyfloat) list \<Rightarrow> nat set" where
  "running t hs = {a. a < length hs \<and> fst (snd (hs ! a)) \<le> t \<and> t < snd (snd (hs ! a))}"

lemma running_slots_distinct:
  assumes "disjoint_bookings hs"
  shows "inj_on (\<lambda>a. fst (hs ! a)) (running t hs)"
proof (rule linorder_inj_onI)
  fix a b assume "a < b" and a: "a \<in> running t hs" and b: "b \<in> running t hs"
  moreover from b have "b < length hs" by (simp add: running_def)
  ultimately have "fst (hs ! a) = fst (hs ! b) \<longrightarrow> snd (snd (hs ! a)) \<le> fst (snd (hs ! b))"
    using assms by (auto simp: disjoint_bookings_def sorted_wrt_iff_nth_less case_prod_unfold)
  with a b show "fst (hs ! a) \<noteq> fst (hs ! b)" by (auto simp: running_def)
qed auto

lemma pool_run_concurrency:
  assumes "pool_run env p0 p hs"
  shows "card (running t hs) \<le> length (pr_slot_available_at p0)"
proof -
  note inv = pool_run_invariant [OF assms]
  have "(\<lambda>a. fst (hs ! a)) ` running t hs \<subseteq> {..<length (pr_slot_available_at p0)}"
    using inv by (fastforce simp: running_def slots_free_after_def dest: nth_mem)
  then have "card ((\<lambda>a. fst (hs ! a)) ` running t hs) \<le> length (pr_slot_available_at p0)"
    using card_mono [of "{..<length (pr_slot_available_at p0)}"] by fastforce
  then show ?thesis using card_image [OF running_slots_distinct] inv by metis
qed

text \<open>
  C14: however requests are placed on a pool, two bookings of the same slot never overlap, and at
  no time are more requests running on the pool than it has slots.
\<close>

theorem slots_exclusive:
  assumes "pool_run env p0 p hs"
  shows "sorted_wrt (\<lambda>(i, s, f) (i', s', f'). i = i' \<longrightarrow> f \<le> s') hs \<and>
    card {a. a < length hs \<and> fst (snd (hs ! a)) \<le> t \<and> t < snd (snd (hs ! a))}
      \<le> length (pr_slot_available_at p0)"
  using pool_run_invariant [OF assms] pool_run_concurrency [OF assms, of t]
  by (simp add: running_def disjoint_bookings_def)

text \<open>
  C19: a placed request starts no earlier than it arrived and than its slot is free, its reported
  queue delay and total latency are the (rounded) times from arrival to start and to completion,
  and the SLA flag says whether the time to completion is within the request's bound.
\<close>

theorem placement_times:
  assumes "place_request env r c dec b now (p, d) = Inr (p', d', res)" and "placement_ok r c"
  shows "now \<le> rr_actual_start_ts res \<and> rr_actual_start_ts res \<le> rr_completion_ts res \<and>
    rr_queue_delay_ms res = py_round 4 ((rr_actual_start_ts res - now) * 1000) \<and>
    rr_total_latency_ms res = py_round 4 ((rr_completion_ts res - now) * 1000) \<and>
    (rr_sla_met res \<longleftrightarrow> (rr_completion_ts res - now) * 1000 \<le> rq_max_latency_ms r)"
  using place_request_times [OF assms(1)] place_request_booked [OF assms] by (auto simp: booked_def)

text \<open>
  C20: memory accounting: a pool whose active memory is the sum of its in-flight requests keeps it so
  through a placement, and a later refresh releases exactly the requests that have completed.
\<close>

theorem placement_memory:
  assumes "place_request env r c dec b now (p, d) = Inr (p', d', res)" and "placement_ok r c"
    and "pr_active_memory_gb p = sum_list (map snd (pr_inflight_memory p))"
  shows "pr_active_memory_gb p' = sum_list (map snd (pr_inflight_memory p')) \<and>
    pr_active_memory_gb (pool_refresh later p') =
      sum_list (map snd (filter (\<lambda>x. later < fst x) (pr_inflight_memory p))) +
      (if later < rr_completion_ts res
       then estimate_request_memory_gb (rq_prompt_tokens r) (rq_generation_tokens r) (rq_model_id r)
              (cp_expected_cache_saved_tokens c) else 0)"
  using place_request_booked [OF assms(1,2)] assms(3) by (auto simp: booked_def pool_refresh_eq)

section \<open>Examples\<close>

lemma demo_placed:
  "\<exists>p' d' res. place_request memory_redis demo_request (demo_candidate ''h100-main'' 0 True) demo_decision
     MockBackend 1 (demo_pool, crowded []) = Inr (p', d', res)"
proof -
  have "earliest_slot demo_pool = Inr 0" by (simp add: earliest_slot_def demo_pool_def min_by_def upt_conv_Cons)
  moreover have "\<exists>d'. observe memory_redis res (crowded []) = Inr d'" for res
    by (simp add: observe_def crowded_def KVCacheDirectory_def RedisDecisionStore_def Let_def dd_touch_def
        dict_get_def persist_to_redis_def trim_def total_entries_def dict_values_def cap_bucket_def)
  ultimately show ?thesis by (auto simp: place_request_def Let_def case_prod_unfold result_simps)
qed

lemma demo_placement_ok: "placement_ok demo_request (demo_candidate ''h100-main'' 0 True)"
  by (simp add: placement_ok_def demo_request_def demo_candidate_def)

theorem slots_exclusive_witness:
  "\<exists>p h. pool_run memory_redis demo_pool p [h] \<and> card {a. a < length [h] \<and> fst (snd ([h] ! a)) \<le> 1 \<and> 1 < snd (snd ([h] ! a))} \<le> 2"
proof -
  obtain p' d' res where placed: "place_request memory_redis demo_request (demo_candidate ''h100-main'' 0 True)
      demo_decision MockBackend 1 (demo_pool, crowded []) = Inr (p', d', res)"
    using demo_placed by blast
  have "earliest_slot demo_pool = Inr 0" by (simp add: earliest_slot_def demo_pool_def min_by_def upt_conv_Cons)
  from pool_run.placed [OF pool_run.start this placed demo_placement_ok]
  have "pool_run memory_redis demo_pool p' [(0, rr_actual_start_ts res, rr_completion_ts res)]" by simp
  moreover have "length (pr_slot_available_at demo_pool) = 2" by (simp add: demo_pool_def)
  ultimately show ?thesis
    using slots_exclusive [of memory_redis demo_pool p' "[(0, rr_actual_start_ts res, rr_completion_ts res)]" 1]
    by (intro exI conjI) simp_all
qed

theorem placement_times_witness:
  "\<exists>p' d' res. place_request memory_redis demo_request (demo_candidate ''h100-main'' 0 True) demo_decision
     MockBackend 1 (demo_pool, crowded []) = Inr (p', d', res) \<and> 1 \<le> rr_actual_start_ts res \<and>
     rr_total_latency_ms res = py_round 4 ((rr_completion_ts res - 1) * 1000)"
  using demo_placed placement_times [OF _ demo_placement_ok] by blast

theorem placement_memory_witness:
  "\<exists>p' d' res. place_request memory_redis demo_request (demo_candidate ''h100-main'' 0 True) demo_decision
     MockBackend 1 (demo_pool, crowded []) = Inr (p', d', res) \<and>
     pr_active_memory_gb p' = sum_list (map snd (pr_inflight_memory p'))"
proof -
  have "pr_active_memory_gb demo_pool = sum_list (map snd (pr_inflight_memory demo_pool))"
    by (simp add: demo_pool_def)
  note mem = this
  obtain p' d' res where placed: "place_request memory_redis demo_request (demo_candidate ''h100-main'' 0 True)
      demo_decision MockBackend 1 (demo_pool, crowded []) = Inr (p', d', res)"
    using demo_placed by blast
  from placement_memory [OF this demo_placement_ok mem] placed show ?thesis by blast
qed

end
