(* ===== verification/ControlPlane.thy ===== *)
theory ControlPlane
  imports TopologyService RemoteSchedulers LocalScheduler
begin

text \<open>
  \<open>control_plane/service.py\<close>: the object that owns every other component, builds the placement
  candidates of a request, routes it and executes it. Its state is the record \<open>control_plane\<close>;
  what its constructor reads from outside the sources (files, Redis, GPU, gRPC, the C++ library,
  which optional packages are installed) is the record \<open>platform\<close>. A method that mutates the
  object returns the new one. The lemmas show that a well-formed control plane stays so, that
  routing and execution do not fail, and which requests are admitted.
\<close>

section \<open>State and construction\<close>

record 'r platform =
  pf_files :: "string \<Rightarrow> string option"
  pf_redis :: "'r redis_env"
  pf_redis_store :: "'r redis_store"
  pf_gpu :: "gpu_kernels option"
  pf_grpc :: grpc_stub
  pf_cpp :: "cpp_function option"
  pf_sb3_installed :: bool
  pf_pyg_installed :: bool

record 'r control_plane =
  nm_config :: experiment_config
  nm_topology :: topology_service
  nm_cache_directory :: "'r kv_cache_directory"
  nm_backends :: "(string, backend) dict"
  nm_clusters :: "(string, cluster_runtime) dict"
  nm_tenant_stats :: "(string, tenant_stats) dict"
  nm_tenant_weights :: "(string, pyfloat) dict"
  nm_policy :: policy

definition policy_registry :: "'r platform \<Rightarrow> (string, policy) dict" where
  "policy_registry pf =
     [(''round_robin'', RoundRobinPolicy 0), (''least_queue'', LeastQueuePolicy),
      (''topology_greedy'', TopologyGreedyPolicy), (''cache_aware'', CacheAwarePolicy),
      (''multi_objective'', MultiObjectivePolicy), (''contextual_bandit'', ContextualBanditPolicy 18 [] []),
      (''sb3_placeholder'', SB3Policy (pf_sb3_installed pf)), (''spread'', FailureAwareSpreadPolicy []),
      (''gnn_placeholder'', GNNPlaceholderPolicy), (''pyg_placeholder'', PyGGNNPolicy (pf_pyg_installed pf))]"

definition build_policy :: "'r platform \<Rightarrow> string \<Rightarrow> policy result" where
  "build_policy pf name =
     dict_item (policy_registry pf) name (ValueError (''Unknown policy: '' @ name))"

definition pool_from_spec :: "cluster_spec \<Rightarrow> pool_spec \<Rightarrow> pool_runtime" where
  "pool_from_spec cl p = pool_post_init
     \<lparr>pr_cluster_id = cs_cluster_id cl, pr_zone = cs_zone cl, pr_pool_id = ps_pool_id p,
      pr_backend_name = ps_backend_name p, pr_accelerator_type = ps_accelerator_type p,
      pr_supported_models = ps_supported_models p, pr_prefill_tps = ps_prefill_tps p,
      pr_decode_tps = ps_decode_tps p, pr_memory_gb = ps_memory_gb p, pr_gpu_count = ps_gpu_count p,
      pr_parallel_slots = ps_parallel_slots p, pr_cost_per_1m_tokens = ps_cost_per_1m_tokens p,
      pr_energy_proxy = ps_energy_proxy p, pr_topology_tier = ps_topology_tier p, pr_premium = ps_premium p,
      pr_queue_limit = ps_queue_limit p, pr_congestion_score = 0, pr_slot_available_at = [],
      pr_active_memory_gb = 0, pr_cache_reserved_gb = 0, pr_decision_count = 0, pr_completed_count = 0,
      pr_inflight_memory = []\<rparr>"

definition cluster_from_spec :: "cluster_spec \<Rightarrow> cluster_runtime" where
  "cluster_from_spec cl =
     \<lparr>cr_cluster_id = cs_cluster_id cl, cr_zone = cs_zone cl, cr_ingress_cost = cs_ingress_cost cl,
      cr_network_costs = cs_network_costs cl, cr_base_congestion = cs_base_congestion cl,
      cr_failure_windows = cs_failure_windows cl, cr_congestion_windows = cs_congestion_windows cl,
      cr_pools = fold (\<lambda>p. AList.update (ps_pool_id p) (pool_from_spec cl p)) (cs_pools cl) []\<rparr>"

definition build_runtime_clusters :: "experiment_config \<Rightarrow> (string, cluster_runtime) dict" where
  "build_runtime_clusters config =
     fold (\<lambda>cl. AList.update (cs_cluster_id cl) (cluster_from_spec cl)) (ec_clusters config) []"

definition NimbusMeshControlPlane :: "'r platform \<Rightarrow> experiment_config \<Rightarrow> 'r control_plane result" where
  "NimbusMeshControlPlane pf config =
     ebind (build_from_config (pf_files pf) config) (\<lambda>topology.
     ebind (build_policy pf (ec_policy config)) (\<lambda>policy.
       Inr \<lparr>nm_config = config, nm_topology = topology,
            nm_cache_directory = KVCacheDirectory 180 20000 (pf_redis_store pf),
            nm_backends = [(''mock'', MockBackend), (''vllm'', VLLMBackend), (''triton'', TritonBackend)],
            nm_clusters = build_runtime_clusters config, nm_tenant_stats = [],
            nm_tenant_weights = wc_tenant_weights (ec_workload config), nm_policy = policy\<rparr>))"

section \<open>Refreshing\<close>

fun refresh_pools ::
  "string \<Rightarrow> pyfloat \<Rightarrow> pyfloat \<Rightarrow> (string, pool_runtime) dict \<Rightarrow> 'r kv_cache_directory
    \<Rightarrow> (string, pool_runtime) dict \<times> 'r kv_cache_directory" where
  "refresh_pools cid cluster_congestion now [] d = ([], d)"
| "refresh_pools cid cluster_congestion now ((k, p) # ps) d =
     (let p1 = pool_refresh now (p\<lparr>pr_congestion_score := cluster_congestion\<rparr>);
          (d1, reserved) = reserved_gb cid (pr_pool_id p) now d;
          (ps', d2) = refresh_pools cid cluster_congestion now ps d1
      in ((k, p1\<lparr>pr_cache_reserved_gb := reserved\<rparr>) # ps', d2))"

fun refresh_clusters ::
  "pyfloat \<Rightarrow> (string, cluster_runtime) dict \<Rightarrow> 'r kv_cache_directory
    \<Rightarrow> (string, cluster_runtime) dict \<times> 'r kv_cache_directory" where
  "refresh_clusters now [] d = ([], d)"
| "refresh_clusters now ((k, c) # cs) d =
     (let (ps, d1) = refresh_pools (cr_cluster_id c) (effective_congestion c now) now (cr_pools c) d;
          (cs', d2) = refresh_clusters now cs d1
      in ((k, c\<lparr>cr_pools := ps\<rparr>) # cs', d2))"

definition refresh :: "pyfloat \<Rightarrow> 'r control_plane \<Rightarrow> 'r control_plane" where
  "refresh now cp =
     (let (cs, d) = refresh_clusters now (nm_clusters cp) (nm_cache_directory cp)
      in cp\<lparr>nm_clusters := cs, nm_cache_directory := d\<rparr>)"

section \<open>Tenants\<close>

definition tenant_update ::
  "string \<Rightarrow> (tenant_stats \<Rightarrow> tenant_stats) \<Rightarrow> (string, tenant_stats) dict \<Rightarrow> (string, tenant_stats) dict" where
  "tenant_update tenant_id f stats = AList.update tenant_id (f (dict_get TenantStats stats tenant_id)) stats"

definition note_submission :: "inference_request \<Rightarrow> 'r control_plane \<Rightarrow> 'r control_plane" where
  "note_submission request cp =
     cp\<lparr>nm_tenant_stats :=
       tenant_update (rq_tenant_id request) (\<lambda>s. s\<lparr>ts_submitted := ts_submitted s + 1\<rparr>) (nm_tenant_stats cp)\<rparr>"

definition total_completed :: "(string, tenant_stats) dict \<Rightarrow> int" where
  "total_completed stats = sum_list (map ts_completed (dict_values stats))"

definition fairness_penalty :: "string \<Rightarrow> 'r control_plane \<Rightarrow> 'r control_plane \<times> pyfloat" where
  "fairness_penalty tenant_id cp =
     (let done = total_completed (nm_tenant_stats cp)
      in if done = 0 then (cp, 0)
         else let stats = dd_touch TenantStats tenant_id (nm_tenant_stats cp);
                  actual_share = of_int (ts_completed (dict_get TenantStats stats tenant_id)) / of_int done;
                  expected_share = dict_get 1 (nm_tenant_weights cp) tenant_id /
                    max (1 / 10 ^ 9) (sum_list (dict_values (nm_tenant_weights cp)))
              in (cp\<lparr>nm_tenant_stats := stats\<rparr>,
                  max 0 (actual_share - expected_share) * ec_fairness_strength (nm_config cp)))"

section \<open>Candidates\<close>

definition rejection ::
  "inference_request \<Rightarrow> pyfloat \<Rightarrow> cluster_runtime \<Rightarrow> pool_runtime \<Rightarrow> pyfloat \<Rightarrow> string option" where
  "rejection request now cluster pool needed_memory =
     (let model_supported = (pr_supported_models pool = [] \<or> rq_model_id request \<in> set (pr_supported_models pool))
      in if unavailable cluster now then Some ''cluster-unavailable''
         else if \<not> model_supported then Some ''unsupported-model''
         else if pr_queue_limit pool \<le> inflight_count pool now then Some ''queue-limit''
         else if memory_headroom_gb pool < needed_memory then Some ''memory-pressure''
         else None)"

text \<open>
  The body of the inner loop of \<open>build_candidates\<close>. A route cost of infinity is outside the float
  model and stops it with an error; on a topology built from the configuration every route cost
  is finite.
\<close>

definition build_candidate ::
  "'r platform \<Rightarrow> inference_request \<Rightarrow> pyfloat \<Rightarrow> cluster_runtime \<Rightarrow> pool_runtime \<Rightarrow> 'r control_plane
    \<Rightarrow> ('r control_plane \<times> candidate_placement) result" where
  "build_candidate pf request now cluster pool cp =
     (let memory_headroom = memory_headroom_gb pool in
      ebind (score (pf_redis pf) request (cr_cluster_id cluster) (pr_pool_id pool) now (nm_cache_directory cp))
        (\<lambda>(d, cache_hit_ratio, cache_saved_tokens).
      let cp1 = cp\<lparr>nm_cache_directory := d\<rparr>;
          needed_memory = estimate_request_memory_gb (rq_prompt_tokens request) (rq_generation_tokens request)
            (rq_model_id request) cache_saved_tokens;
          rejection_reason = rejection request now cluster pool needed_memory
      in ebind (pool_affinity (nm_topology cp) (cr_cluster_id cluster) (pr_pool_id pool) (rq_prompt_tokens request))
        (\<lambda>topology_affinity.
         ebind (route_cost (nm_topology cp) (cr_cluster_id cluster) (pr_pool_id pool)) (\<lambda>route.
         case route of None \<Rightarrow> Inl (RuntimeError ''infinite route cost'')
         | Some cost \<Rightarrow>
         let network_cost = cr_ingress_cost cluster + cost in
         ebind (dict_item (nm_backends cp) (pr_backend_name pool) (KeyError (pr_backend_name pool))) (\<lambda>backend.
         let (projected_prefill_ms, projected_decode_ms) = estimate_latency_ms backend request pool
               cache_hit_ratio topology_affinity network_cost (pr_congestion_score pool);
             (cp2, penalty) = fairness_penalty (rq_tenant_id request) cp1
         in ebind (queue_delay_ms pool now) (\<lambda>queue_delay.
            let score_breakdown =
                  [(''queue_delay_ms'', py_round 4 queue_delay), (''cache_hit_ratio'', cache_hit_ratio),
                   (''topology_affinity'', topology_affinity), (''network_cost'', py_round 4 network_cost),
                   (''congestion_score'', py_round 4 (pr_congestion_score pool)),
                   (''memory_headroom_gb'', py_round 4 memory_headroom),
                   (''fairness_penalty'', py_round 4 penalty)]
            in Inr (cp2,
              \<lparr>cp_cluster_id = cr_cluster_id cluster, cp_pool_id = pr_pool_id pool,
               cp_backend_name = pr_backend_name pool, cp_accelerator_type = pr_accelerator_type pool,
               cp_queue_delay_ms = py_round 4 queue_delay, cp_projected_prefill_ms = projected_prefill_ms,
               cp_projected_decode_ms = projected_decode_ms, cp_expected_cache_hit_ratio = cache_hit_ratio,
               cp_expected_cache_saved_tokens = cache_saved_tokens, cp_topology_affinity = topology_affinity,
               cp_network_cost = py_round 4 network_cost,
               cp_congestion_score = py_round 4 (pr_congestion_score pool),
               cp_memory_headroom_gb = py_round 4 memory_headroom,
               cp_accelerator_cost_per_1m_tokens = pr_cost_per_1m_tokens pool, cp_fairness_penalty = penalty,
               cp_premium = pr_premium pool, cp_available = (rejection_reason = None),
               cp_rejection_reason = rejection_reason, cp_score_breakdown = score_breakdown\<rparr>)))))))"

text \<open>The pairs of cluster and pool the two nested loops visit, in order.\<close>

definition placements :: "'r control_plane \<Rightarrow> (cluster_runtime \<times> pool_runtime) list" where
  "placements cp = concat (map (\<lambda>c. map (Pair c) (dict_values (cr_pools c))) (dict_values (nm_clusters cp)))"

fun build_each ::
  "'r platform \<Rightarrow> inference_request \<Rightarrow> pyfloat \<Rightarrow> (cluster_runtime \<times> pool_runtime) list \<Rightarrow> 'r control_plane
    \<Rightarrow> ('r control_plane \<times> candidate_placement list) result" where
  "build_each pf request now [] cp = Inr (cp, [])"
| "build_each pf request now ((c, p) # rest) cp =
     ebind (build_candidate pf request now c p cp) (\<lambda>(cp1, candidate).
     ebind (build_each pf request now rest cp1) (\<lambda>(cp2, candidates). Inr (cp2, candidate # candidates)))"

definition build_candidates ::
  "'r platform \<Rightarrow> inference_request \<Rightarrow> pyfloat \<Rightarrow> 'r control_plane
    \<Rightarrow> ('r control_plane \<times> candidate_placement list) result" where
  "build_candidates pf request now cp =
     ebind (build_each pf request now (placements cp) cp) (\<lambda>(cp', candidates).
       Inr (cp', enrich_candidates (pf_gpu pf) candidates))"

section \<open>Routing and execution\<close>

definition choose_candidate_for ::
  "'r platform \<Rightarrow> inference_request \<Rightarrow> candidate_placement list \<Rightarrow> policy \<Rightarrow> (policy \<times> candidate_placement) result" where
  "choose_candidate_for pf request candidates policy =
     ebind (grpc_choose (pf_grpc pf) request candidates) (\<lambda>grpc_index.
       case grpc_index of
         Some i \<Rightarrow> Inr (policy, candidates ! nat i)
       | None \<Rightarrow>
           (case cpp_choose (pf_cpp pf) request candidates of
              Some i \<Rightarrow> Inr (policy, candidates ! nat i)
            | None \<Rightarrow> policy_choose policy request candidates))"

definition route ::
  "'r platform \<Rightarrow> inference_request \<Rightarrow> pyfloat \<Rightarrow> 'r control_plane
    \<Rightarrow> ('r control_plane \<times> candidate_placement \<times> routing_decision) result" where
  "route pf request now cp =
     ebind (build_candidates pf request now cp) (\<lambda>(cp1, candidates).
     ebind (choose_candidate_for pf request candidates (nm_policy cp1)) (\<lambda>(policy, choice).
       Inr (cp1\<lparr>nm_policy := policy\<rparr>, choice,
         \<lparr>rd_request_id = rq_request_id request, rd_policy_name = policy_name policy,
          rd_cluster_id = cp_cluster_id choice, rd_pool_id = cp_pool_id choice,
          rd_backend_name = cp_backend_name choice,
          rd_estimated_latency_ms = py_round 4 (estimated_total_latency_ms choice),
          rd_estimated_queue_delay_ms = py_round 4 (cp_queue_delay_ms choice),
          rd_estimated_cache_hit_ratio = cp_expected_cache_hit_ratio choice,
          rd_topology_affinity = cp_topology_affinity choice, rd_network_cost = cp_network_cost choice,
          rd_accelerator_cost_per_1m_tokens = cp_accelerator_cost_per_1m_tokens choice,
          rd_fairness_penalty = cp_fairness_penalty choice,
          rd_score_breakdown = cp_score_breakdown choice\<rparr>)))"

definition rejected_result ::
  "inference_request \<Rightarrow> candidate_placement \<Rightarrow> routing_decision \<Rightarrow> pyfloat \<Rightarrow> request_result" where
  "rejected_result request candidate decision now =
     \<lparr>rr_request = request, rr_decision = decision, rr_admitted = False, rr_actual_start_ts = now,
      rr_completion_ts = now, rr_queue_delay_ms = 0, rr_prefill_latency_ms = 0, rr_decode_latency_ms = 0,
      rr_total_latency_ms = 0, rr_cache_hit_ratio = 0, rr_cache_saved_tokens = 0, rr_memory_gb = 0,
      rr_cost_usd = 0, rr_energy_proxy = 0, rr_network_cost = cp_network_cost candidate, rr_sla_met = False,
      rr_rejection_reason = cp_rejection_reason candidate\<rparr>"

text \<open>Storing a mutated pool back where \<open>self.clusters[cid].pools[pid]\<close> holds it.\<close>

definition store_pool ::
  "string \<Rightarrow> string \<Rightarrow> pool_runtime \<Rightarrow> (string, cluster_runtime) dict \<Rightarrow> (string, cluster_runtime) dict" where
  "store_pool cid pid p cs =
     map (\<lambda>(k, c). if k = cid
                     then (k, c\<lparr>cr_pools := map (\<lambda>(k', p'). if k' = pid then (k', p) else (k', p')) (cr_pools c)\<rparr>)
                     else (k, c)) cs"

definition credit_tenant :: "request_result \<Rightarrow> tenant_stats \<Rightarrow> tenant_stats" where
  "credit_tenant result s =
     s\<lparr>ts_completed := ts_completed s + 1,
       ts_total_latency_ms := ts_total_latency_ms s + rr_total_latency_ms result,
       ts_sla_misses := ts_sla_misses s + (if rr_sla_met result then 0 else 1)\<rparr>"

definition execute ::
  "'r platform \<Rightarrow> inference_request \<Rightarrow> pyfloat \<Rightarrow> 'r control_plane \<Rightarrow> ('r control_plane \<times> request_result) result" where
  "execute pf request now cp =
     ebind (route pf request now cp) (\<lambda>(cp1, candidate, decision).
     ebind (dict_item (nm_clusters cp1) (cp_cluster_id candidate) (KeyError (cp_cluster_id candidate))) (\<lambda>cluster.
     ebind (dict_item (cr_pools cluster) (cp_pool_id candidate) (KeyError (cp_pool_id candidate))) (\<lambda>pool.
     ebind (dict_item (nm_backends cp1) (cp_backend_name candidate) (KeyError (cp_backend_name candidate))) (\<lambda>backend.
       if \<not> cp_available candidate then Inr (cp1, rejected_result request candidate decision now)
       else ebind (place_request (pf_redis pf) request candidate decision backend now
              (pool, nm_cache_directory cp1)) (\<lambda>(pool1, d, result).
         let pool2 = pool1\<lparr>pr_completed_count := pr_completed_count pool1 + 1\<rparr>
         in Inr (cp1\<lparr>nm_cache_directory := d,
                     nm_clusters := store_pool (cp_cluster_id candidate) (cp_pool_id candidate) pool2 (nm_clusters cp1),
                     nm_tenant_stats := tenant_update (rq_tenant_id request) (credit_tenant result) (nm_tenant_stats cp1),
                     nm_policy := observe_result (nm_policy cp1) result\<rparr>, result))))))"

text \<open>The two snapshots the HTTP API exposes.\<close>

definition topology_snapshot :: "'r control_plane \<Rightarrow> json" where
  "topology_snapshot cp = snapshot (nm_topology cp)"

definition plane_cache_snapshot :: "pyfloat \<Rightarrow> 'r control_plane \<Rightarrow> 'r control_plane \<times> json" where
  "plane_cache_snapshot now cp =
     (case cache_snapshot now (nm_cache_directory cp) of (d, j) \<Rightarrow> (cp\<lparr>nm_cache_directory := d\<rparr>, j))"

section \<open>The invariant of the control plane\<close>

text \<open>
  Static well-formedness of the configuration: distinct identifiers without colons, at least one
  pool, every pool with a slot and a known back end, and no negative cost or congestion.
\<close>

definition config_ok :: "experiment_config \<Rightarrow> bool" where
  "config_ok config \<longleftrightarrow> ids_ok config \<and>
     (\<exists>cl \<in> set (ec_clusters config). cs_pools cl \<noteq> []) \<and>
     (\<forall>cl \<in> set (ec_clusters config).
        0 \<le> cs_ingress_cost cl \<and> 0 \<le> cs_base_congestion cl \<and>
        (\<forall>(s, e, m) \<in> set (cs_congestion_windows cl). 0 \<le> m) \<and>
        (\<forall>p \<in> set (cs_pools cl). 0 < ps_parallel_slots p \<and> ps_backend_name p \<in> {''mock'', ''vllm'', ''triton''}))"

text \<open>
  How a pool and a cluster at run time relate to their specification: the immutable fields are as
  configured, the pool keeps its number of slots, active memory is the sum over the requests in
  flight, and congestion is not negative.
\<close>

definition pool_ok :: "cluster_spec \<Rightarrow> pool_spec \<Rightarrow> pool_runtime \<Rightarrow> bool" where
  "pool_ok cl ps p \<longleftrightarrow>
     p = (pool_from_spec cl ps)\<lparr>pr_congestion_score := pr_congestion_score p,
            pr_slot_available_at := pr_slot_available_at p, pr_active_memory_gb := pr_active_memory_gb p,
            pr_cache_reserved_gb := pr_cache_reserved_gb p, pr_decision_count := pr_decision_count p,
            pr_completed_count := pr_completed_count p, pr_inflight_memory := pr_inflight_memory p\<rparr> \<and>
     length (pr_slot_available_at p) = nat (ps_parallel_slots ps) \<and>
     pr_active_memory_gb p = sum_list (map snd (pr_inflight_memory p)) \<and>
     (\<forall>x \<in> set (pr_inflight_memory p). 0 < snd x) \<and> 0 \<le> pr_congestion_score p"

definition cluster_ok :: "cluster_spec \<Rightarrow> cluster_runtime \<Rightarrow> bool" where
  "cluster_ok cl c \<longleftrightarrow>
     c = (cluster_from_spec cl)\<lparr>cr_pools := cr_pools c\<rparr> \<and>
     list_all2 (\<lambda>ps kp. fst kp = ps_pool_id ps \<and> pool_ok cl ps (snd kp)) (cs_pools cl) (cr_pools c)"

definition clusters_ok :: "experiment_config \<Rightarrow> (string, cluster_runtime) dict \<Rightarrow> bool" where
  "clusters_ok config cs \<longleftrightarrow>
     list_all2 (\<lambda>cl kc. fst kc = cs_cluster_id cl \<and> cluster_ok cl (snd kc)) (ec_clusters config) cs"

definition plane_ok :: "'r platform \<Rightarrow> 'r control_plane \<Rightarrow> bool" where
  "plane_ok pf cp \<longleftrightarrow>
     config_ok (nm_config cp) \<and> build_from_config (pf_files pf) (nm_config cp) = Inr (nm_topology cp) \<and>
     directory_ok (pf_redis pf) (nm_cache_directory cp) \<and> kc_ttl_s (nm_cache_directory cp) = 180 \<and>
     kc_max_entries (nm_cache_directory cp) = 20000 \<and>
     nm_backends cp = [(''mock'', MockBackend), (''vllm'', VLLMBackend), (''triton'', TritonBackend)] \<and>
     clusters_ok (nm_config cp) (nm_clusters cp) \<and> dict_ok (nm_tenant_stats cp)"

section \<open>Looking up clusters and pools\<close>

lemma list_all2_keys: "list_all2 (\<lambda>x kv. fst kv = f x \<and> P x (snd kv)) xs kvs \<Longrightarrow> map fst kvs = map f xs"
  by (induction rule: list_all2_induct) auto

lemma list_all2_left: "list_all2 P xs ys \<Longrightarrow> x \<in> set xs \<Longrightarrow> \<exists>y \<in> set ys. P x y"
  and list_all2_right: "list_all2 P xs ys \<Longrightarrow> y \<in> set ys \<Longrightarrow> \<exists>x \<in> set xs. P x y"
  by (induction rule: list_all2_induct) auto

lemma list_all2_lookup:
  assumes "list_all2 (\<lambda>x kv. fst kv = f x \<and> P x (snd kv)) xs kvs" and "distinct (map f xs)"
    and "v \<in> set (map snd kvs)"
  shows "\<exists>x \<in> set xs. P x v \<and> map_of kvs (f x) = Some v"
proof -
  from assms(3) obtain k where kv: "(k, v) \<in> set kvs" by auto
  then obtain x where x: "x \<in> set xs" "k = f x" "P x v"
    using assms(1) by (fastforce simp: list_all2_iff in_set_zip in_set_conv_nth)
  have "distinct (map fst kvs)" using assms(2) by (simp only: list_all2_keys [OF assms(1)])
  with kv x show ?thesis by auto
qed

lemma config_okD:
  assumes "config_ok config"
  shows "ids_ok config" "distinct (map cs_cluster_id (ec_clusters config))"
    and "cl \<in> set (ec_clusters config) \<Longrightarrow> distinct (map ps_pool_id (cs_pools cl))"
    and "cl \<in> set (ec_clusters config) \<Longrightarrow> 0 \<le> cs_ingress_cost cl"
    and "cl \<in> set (ec_clusters config) \<Longrightarrow> p \<in> set (cs_pools cl) \<Longrightarrow> 0 < ps_parallel_slots p"
    and "cl \<in> set (ec_clusters config) \<Longrightarrow> p \<in> set (cs_pools cl) \<Longrightarrow>
      ps_backend_name p \<in> {''mock'', ''vllm'', ''triton''}"
  using assms by (auto simp: config_ok_def ids_ok_def)

lemma placements_elem:
  assumes "config_ok config" and "clusters_ok config (nm_clusters cp)" and "(c, p) \<in> set (placements cp)"
  obtains cl ps where "cl \<in> set (ec_clusters config)" and "ps \<in> set (cs_pools cl)"
    and "cluster_ok cl c" and "pool_ok cl ps p"
    and "map_of (nm_clusters cp) (cs_cluster_id cl) = Some c" and "map_of (cr_pools c) (ps_pool_id ps) = Some p"
proof -
  from assms(3) have c: "c \<in> set (map snd (nm_clusters cp))" and p: "p \<in> set (map snd (cr_pools c))"
    by (auto simp: placements_def dict_values_def)
  obtain cl where cl: "cl \<in> set (ec_clusters config)" and cok: "cluster_ok cl c"
    and "map_of (nm_clusters cp) (cs_cluster_id cl) = Some c"
    using list_all2_lookup [OF assms(2) [unfolded clusters_ok_def] config_okD(2) [OF assms(1)] c] by blast
  moreover obtain ps where "ps \<in> set (cs_pools cl)" and "pool_ok cl ps p"
    and "map_of (cr_pools c) (ps_pool_id ps) = Some p"
    using list_all2_lookup [OF _ config_okD(3) [OF assms(1) cl] p] cok unfolding cluster_ok_def by blast
  ultimately show ?thesis using that by blast
qed

lemma cluster_ok_fields:
  assumes "cluster_ok cl c"
  shows "cr_cluster_id c = cs_cluster_id cl" "cr_ingress_cost c = cs_ingress_cost cl"
    "cr_base_congestion c = cs_base_congestion cl" "cr_failure_windows c = cs_failure_windows cl"
    "cr_congestion_windows c = cs_congestion_windows cl"
proof -
  have c: "c = (cluster_from_spec cl)\<lparr>cr_pools := cr_pools c\<rparr>" using assms by (simp add: cluster_ok_def)
  show "cr_cluster_id c = cs_cluster_id cl" "cr_ingress_cost c = cs_ingress_cost cl"
    "cr_base_congestion c = cs_base_congestion cl" "cr_failure_windows c = cs_failure_windows cl"
    "cr_congestion_windows c = cs_congestion_windows cl"
    by (subst c, simp add: cluster_from_spec_def)+
qed

lemma pool_ok_fields:
  assumes "pool_ok cl ps p"
  shows "pr_pool_id p = ps_pool_id ps" "pr_backend_name p = ps_backend_name ps"
    "pr_queue_limit p = ps_queue_limit ps" "pr_supported_models p = ps_supported_models ps"
    "pr_memory_gb p = ps_memory_gb ps" "length (pr_slot_available_at p) = nat (ps_parallel_slots ps)"
    "0 \<le> pr_congestion_score p"
proof -
  have p: "p = (pool_from_spec cl ps)\<lparr>pr_congestion_score := pr_congestion_score p,
            pr_slot_available_at := pr_slot_available_at p, pr_active_memory_gb := pr_active_memory_gb p,
            pr_cache_reserved_gb := pr_cache_reserved_gb p, pr_decision_count := pr_decision_count p,
            pr_completed_count := pr_completed_count p, pr_inflight_memory := pr_inflight_memory p\<rparr>"
    using assms unfolding pool_ok_def by (rule conjunct1)
  show "pr_pool_id p = ps_pool_id ps" "pr_backend_name p = ps_backend_name ps"
    "pr_queue_limit p = ps_queue_limit ps" "pr_supported_models p = ps_supported_models ps"
    "pr_memory_gb p = ps_memory_gb ps"
    by (subst p, simp add: pool_from_spec_def pool_post_init_def)+
  show "length (pr_slot_available_at p) = nat (ps_parallel_slots ps)" "0 \<le> pr_congestion_score p"
    using assms by (simp_all add: pool_ok_def)
qed

section \<open>Building a candidate\<close>

lemma pool_affinity_linked: "pool_linked cl p t \<Longrightarrow>
    \<exists>a. pool_affinity t (cs_cluster_id cl) (ps_pool_id p) n = Inr a"
  by (auto simp: pool_linked_def pool_affinity_def dict_item_def Let_def)

lemma route_cost_nonneg_built:
  assumes "build_from_config fs config = Inr t" and "ids_ok config"
    and "cl \<in> set (ec_clusters config)" and "p \<in> set (cs_pools cl)"
  shows "\<exists>x. route_cost t (cs_cluster_id cl) (ps_pool_id p) = Inr (Some x) \<and> 0 \<le> x"
proof -
  have "0 \<le> dict_get 1 (tp_cluster_probe_cost_factor t) (cs_cluster_id cl)"
    using build_ok(1) [OF assms(1)] by (fastforce simp: topology_ok_def dict_get_def split: option.splits)
  then show ?thesis
    using route_cost_built [OF assms] by (simp add: internal_cost_def py_round_nonneg le_max_iff_disj)
qed

text \<open>What a candidate for the pool \<open>p\<close> of the cluster \<open>c\<close> says.\<close>

definition candidate_ok ::
  "inference_request \<Rightarrow> pyfloat \<Rightarrow> cluster_runtime \<Rightarrow> pool_runtime \<Rightarrow> candidate_placement \<Rightarrow> bool" where
  "candidate_ok r now c p cand \<longleftrightarrow>
     cp_cluster_id cand = cr_cluster_id c \<and> cp_pool_id cand = pr_pool_id p \<and>
     cp_backend_name cand = pr_backend_name p \<and>
     cp_rejection_reason cand = rejection r now c p
       (estimate_request_memory_gb (rq_prompt_tokens r) (rq_generation_tokens r) (rq_model_id r)
          (cp_expected_cache_saved_tokens cand)) \<and>
     (cp_available cand \<longleftrightarrow> cp_rejection_reason cand = None) \<and>
     0 \<le> cp_expected_cache_hit_ratio cand \<and> cp_expected_cache_hit_ratio cand \<le> 0.95 \<and>
     0 \<le> cp_expected_cache_saved_tokens cand \<and>
     of_int (cp_expected_cache_saved_tokens cand) \<le> 0.95 * (of_int (rq_prompt_tokens r) :: pyfloat) \<and>
     0.1 \<le> cp_topology_affinity cand \<and> cp_topology_affinity cand \<le> 1 \<and>
     0 \<le> cp_network_cost cand \<and> 0 \<le> cp_congestion_score cand \<and> 0 \<le> cp_queue_delay_ms cand"

lemma candidate_ok_available:
  "candidate_ok r now c p cand \<Longrightarrow> cp_available cand \<longleftrightarrow>
     rejection r now c p (estimate_request_memory_gb (rq_prompt_tokens r) (rq_generation_tokens r) (rq_model_id r)
       (cp_expected_cache_saved_tokens cand)) = None"
  unfolding candidate_ok_def by metis

text \<open>
  The part of the control plane that building candidates leaves alone; on the way the directory does not
  write to its mirror and takes no more room.
\<close>

definition cache_shrinks :: "'r redis_env \<Rightarrow> 'r kv_cache_directory \<Rightarrow> 'r kv_cache_directory \<Rightarrow> bool" where
  "cache_shrinks env d d' \<longleftrightarrow> kc_redis_store d' = kc_redis_store d \<and> (\<forall>n. room env n d \<longrightarrow> room env n d')"

definition same_plane :: "'r platform \<Rightarrow> 'r control_plane \<Rightarrow> 'r control_plane \<Rightarrow> bool" where
  "same_plane pf cp cp' \<longleftrightarrow>
     nm_config cp' = nm_config cp \<and> nm_topology cp' = nm_topology cp \<and> nm_backends cp' = nm_backends cp \<and>
     nm_clusters cp' = nm_clusters cp \<and> nm_tenant_weights cp' = nm_tenant_weights cp \<and>
     nm_policy cp' = nm_policy cp \<and> cache_shrinks (pf_redis pf) (nm_cache_directory cp) (nm_cache_directory cp') \<and>
     (\<forall>t. dict_get TenantStats (nm_tenant_stats cp') t = dict_get TenantStats (nm_tenant_stats cp) t)"

lemma same_plane_refl [simp]: "same_plane pf cp cp"
  and same_plane_trans: "same_plane pf cp cp' \<Longrightarrow> same_plane pf cp' cp'' \<Longrightarrow> same_plane pf cp cp''"
  by (auto simp add: same_plane_def cache_shrinks_def)

lemma fairness_penalty_same: "fairness_penalty t cp = (cp', x) \<Longrightarrow>
    same_plane pf cp cp' \<and> nm_cache_directory cp' = nm_cache_directory cp \<and>
    (dict_ok (nm_tenant_stats cp) \<longrightarrow> dict_ok (nm_tenant_stats cp'))"
  by (auto simp: fairness_penalty_def same_plane_def cache_shrinks_def Let_def dict_ok_touch split: if_splits)

lemma score_keeps:
  assumes "score env request c p now d = Inr (d', x)" and "directory_ok env d"
  shows "kc_ttl_s d' = kc_ttl_s d \<and> kc_max_entries d' = kc_max_entries d"
proof -
  have mirror: "mirror_ok env (kc_redis_store (evict_stale now d))"
    using assms(2) by (simp add: directory_ok_def evict_stale_def)
  have "d' = evict_stale now d \<or> hydrate_from_redis env request (evict_stale now d) = Inr d'"
    using score_Inr_directory [OF assms(1)] by (auto simp: scored_directory_def Let_def split: if_splits)
  then show ?thesis using hydrate_cases [OF mirror] by (fastforce simp: evict_stale_def)
qed

lemma evict_shrinks: "dict_ok (kc_entries d) \<Longrightarrow> cache_shrinks env d (evict_stale now d)"
  by (simp add: cache_shrinks_def room_evict) (simp add: evict_stale_def)

lemma score_shrinks:
  assumes "score env request c p now d = Inr (d', x)" and "directory_ok env d"
  shows "cache_shrinks env d d'"
  using room_score [OF assms] by (simp add: cache_shrinks_def)

lemma request_okD:
  "request_ok r \<Longrightarrow> 0 < rq_prompt_tokens r" "request_ok r \<Longrightarrow> 0 < rq_generation_tokens r"
  "request_ok r \<Longrightarrow> map_of SLA_PRIORITY (rq_sla_class r) \<noteq> None"
  by (auto simp: request_ok_def)

lemma plane_okD:
  assumes "plane_ok pf cp"
  shows "config_ok (nm_config cp)" "build_from_config (pf_files pf) (nm_config cp) = Inr (nm_topology cp)"
    "directory_ok (pf_redis pf) (nm_cache_directory cp)" "kc_ttl_s (nm_cache_directory cp) = 180"
    "kc_max_entries (nm_cache_directory cp) = 20000"
    "nm_backends cp = [(''mock'', MockBackend), (''vllm'', VLLMBackend), (''triton'', TritonBackend)]"
    "clusters_ok (nm_config cp) (nm_clusters cp)" "dict_ok (nm_tenant_stats cp)"
  using assms by (simp_all add: plane_ok_def)

lemma plane_ok_same:
  assumes "plane_ok pf cp" and "same_plane pf cp cp'" and "directory_ok (pf_redis pf) (nm_cache_directory cp')"
    and "kc_ttl_s (nm_cache_directory cp') = 180" and "kc_max_entries (nm_cache_directory cp') = 20000"
    and "dict_ok (nm_tenant_stats cp')"
  shows "plane_ok pf cp'"
  using assms by (simp add: plane_ok_def same_plane_def)

lemma backend_lookup:
  assumes "plane_ok pf cp" and "name \<in> {''mock'', ''vllm'', ''triton''}"
  shows "\<exists>b. dict_item (nm_backends cp) name e = Inr b"
  using assms by (auto simp: plane_okD(6) dict_item_def)

lemma build_candidate_ok:
  assumes ok: "plane_ok pf cp" and r: "request_ok r" and cp: "(c, p) \<in> set (placements cp)"
  shows "\<exists>cp' cand. build_candidate pf r now c p cp = Inr (cp', cand) \<and> plane_ok pf cp' \<and> same_plane pf cp cp' \<and>
    candidate_ok r now c p cand"
proof -
  note [simp] = request_okD(1,2) [OF r]
  obtain cl ps where cl: "cl \<in> set (ec_clusters (nm_config cp))" and ps: "ps \<in> set (cs_pools cl)"
    and cok: "cluster_ok cl c" and pok: "pool_ok cl ps p"
    using placements_elem [OF plane_okD(1,7) [OF ok] cp] by blast
  note ids = cluster_ok_fields(1,2) [OF cok] pool_ok_fields(1,2) [OF pok]
  obtain d ratio saved where sc: "score (pf_redis pf) r (cs_cluster_id cl) (ps_pool_id ps) now (nm_cache_directory cp)
      = Inr (d, ratio, saved)"
    and bounds: "0 \<le> ratio" "ratio \<le> 0.95" "0 \<le> saved" "of_int saved \<le> 0.95 * (of_int (rq_prompt_tokens r) :: pyfloat)"
    using score_within_bounds [OF plane_okD(3) [OF ok], of r "cs_cluster_id cl" "ps_pool_id ps" now]
      plane_okD(4) [OF ok] by (auto simp: less_imp_le)
  have dok: "directory_ok (pf_redis pf) d"
    by (rule scored_directory_ok [OF plane_okD(3) [OF ok] score_Inr_directory [OF sc]])
  note dk = score_keeps [OF sc plane_okD(3) [OF ok]]
  obtain a where a: "pool_affinity (nm_topology cp) (cs_cluster_id cl) (ps_pool_id ps) (rq_prompt_tokens r) = Inr a"
    using pool_affinity_linked [OF build_ok(2) [OF plane_okD(2) [OF ok] cl ps]] by blast
  have ab: "0.1 \<le> a \<and> a \<le> 1"
    by (rule affinity_bounds [OF build_ok(1) [OF plane_okD(2) [OF ok]] _ a]) simp
  obtain x where x: "route_cost (nm_topology cp) (cs_cluster_id cl) (ps_pool_id ps) = Inr (Some x)" "0 \<le> x"
    using route_cost_nonneg_built [OF plane_okD(2) [OF ok] config_okD(1) [OF plane_okD(1) [OF ok]] cl ps] by blast
  obtain b where b: "dict_item (nm_backends cp) (ps_backend_name ps) (KeyError (ps_backend_name ps)) = Inr b"
    using backend_lookup [OF ok config_okD(6) [OF plane_okD(1) [OF ok] cl ps]] by blast
  obtain q where q: "queue_delay_ms p now = Inr q"
    using queue_delay_ms_Inr [of p] pool_ok_fields(6) [OF pok] config_okD(5) [OF plane_okD(1) [OF ok] cl ps]
    by (metis length_greater_0_conv zero_less_nat_eq)
  obtain cp' pen where fp: "fairness_penalty (rq_tenant_id r) (cp\<lparr>nm_cache_directory := d\<rparr>) = (cp', pen)"
    by force
  note fs = fairness_penalty_same [OF fp]
  have sp: "same_plane pf cp cp'"
    using fs score_shrinks [OF sc plane_okD(3) [OF ok]] by (simp add: same_plane_def)
  have "plane_ok pf cp'"
    using fs dok dk plane_okD(4,5,8) [OF ok] by (intro plane_ok_same [OF ok sp]) simp_all
  moreover have "0 \<le> cs_ingress_cost cl" by (rule config_okD(4) [OF plane_okD(1) [OF ok] cl])
  ultimately show ?thesis
    using sp bounds ab x(2) pool_ok_fields(7) [OF pok] queue_delay_nonneg [OF q]
    by (simp add: build_candidate_def ids sc a x(1) b q fp Let_def case_prod_unfold candidate_ok_def py_round_nonneg)
qed

lemma build_each_ok:
  assumes "plane_ok pf cp" and "request_ok r" and "set pairs \<subseteq> set (placements cp)"
  shows "\<exists>cp' cands. build_each pf r now pairs cp = Inr (cp', cands) \<and> plane_ok pf cp' \<and> same_plane pf cp cp' \<and>
    list_all2 (\<lambda>(c, p) cand. candidate_ok r now c p cand) pairs cands"
  using assms(1,3)
proof (induction pairs arbitrary: cp)
  case (Cons cp0 pairs)
  obtain c p where pair: "cp0 = (c, p)" by force
  with Cons.prems obtain cp1 cand where 1: "build_candidate pf r now c p cp = Inr (cp1, cand)" "plane_ok pf cp1"
    "same_plane pf cp cp1" "candidate_ok r now c p cand"
    using build_candidate_ok [OF Cons.prems(1) assms(2), of c p now] by auto
  have "placements cp1 = placements cp" using 1(3) by (simp add: placements_def same_plane_def)
  with Cons.prems(2) have sub: "set pairs \<subseteq> set (placements cp1)" by simp
  obtain cp2 cands where 2: "build_each pf r now pairs cp1 = Inr (cp2, cands)" "plane_ok pf cp2"
    "same_plane pf cp1 cp2" "list_all2 (\<lambda>(c, p) cand. candidate_ok r now c p cand) pairs cands"
    using Cons.IH [OF 1(2) sub] by blast
  have "same_plane pf cp cp2" by (rule same_plane_trans [OF 1(3) 2(3)])
  with 1 2 pair show ?case by simp
qed simp

lemma candidate_ok_breakdown [simp]:
  "candidate_ok r now c p (cp_score_breakdown_update (\<lambda>_. b) cand) = candidate_ok r now c p cand"
  by (simp add: candidate_ok_def)

lemma enrich_candidate_ok:
  assumes "list_all2 (\<lambda>(c, p) cand. candidate_ok r now c p cand) pairs cands"
  shows "list_all2 (\<lambda>(c, p) cand. candidate_ok r now c p cand) pairs (enrich_candidates gpu cands)"
proof -
  have "map (\<lambda>cand c p. candidate_ok r now c p cand) (enrich_candidates gpu cands) =
      map (\<lambda>cand c p. candidate_ok r now c p cand) cands"
    by (rule enrich_fields) simp
  then have "\<forall>i < length cands. \<forall>c p. candidate_ok r now c p (enrich_candidates gpu cands ! i) =
      candidate_ok r now c p (cands ! i)"
    by (auto simp: list_eq_iff_nth_eq fun_eq_iff)
  with assms show ?thesis by (auto simp: list_all2_conv_all_nth case_prod_unfold)
qed

lemma build_candidates_ok:
  assumes "plane_ok pf cp" and "request_ok r"
  shows "\<exists>cp' cands. build_candidates pf r now cp = Inr (cp', cands) \<and> plane_ok pf cp' \<and> same_plane pf cp cp' \<and>
    list_all2 (\<lambda>(c, p) cand. candidate_ok r now c p cand) (placements cp) cands"
  using build_each_ok [OF assms subset_refl, of now]
  by (auto simp: build_candidates_def intro: enrich_candidate_ok)

text \<open>The score breakdown of every candidate is a dictionary.\<close>

lemma annotate_all_breakdown:
  "\<forall>c \<in> set cs. dict_ok (cp_score_breakdown c) \<Longrightarrow> \<forall>c \<in> set (annotate_all cs bs ts ls). dict_ok (cp_score_breakdown c)"
  by (induction cs bs ts ls rule: annotate_all.induct) (simp_all add: annotate_def adict.invar_store)

lemma build_each_breakdown:
  "build_each pf r now ps cp = Inr (cp', cands) \<Longrightarrow> \<forall>c \<in> set cands. dict_ok (cp_score_breakdown c)"
proof (induction pf r now ps cp arbitrary: cands cp' rule: build_each.induct)
  case (2 pf r now c p rest cp)
  from "2.prems" obtain cp1 cand cands' where b: "build_candidate pf r now c p cp = Inr (cp1, cand)"
    and rest: "build_each pf r now rest cp1 = Inr (cp', cands')" and cands: "cands = cand # cands'"
    by (auto simp: result_simps)
  have "dict_ok (cp_score_breakdown cand)"
    using b by (auto simp: build_candidate_def Let_def case_prod_unfold result_simps dict_ok_def split: option.splits)
  with "2.IH" [OF b refl rest] cands show ?case by simp
qed simp

lemma build_candidates_breakdown:
  assumes "build_candidates pf r now cp = Inr (cp', cands)" and "c \<in> set cands"
  shows "dict_ok (cp_score_breakdown c)"
  using assms build_each_breakdown annotate_all_breakdown
  by (fastforce simp: build_candidates_def enrich_candidates_def Let_def result_simps split: option.splits)

text \<open>A control plane of a well-formed configuration has somewhere to place a request.\<close>

lemma placements_nonempty:
  assumes "plane_ok pf cp"
  shows "placements cp \<noteq> []"
proof -
  obtain cl ps where cl: "cl \<in> set (ec_clusters (nm_config cp))" and ps: "ps \<in> set (cs_pools cl)"
    using plane_okD(1) [OF assms] unfolding config_ok_def by (metis list.set_intros(1) neq_Nil_conv)
  then obtain c where "c \<in> set (dict_values (nm_clusters cp))" and c: "cluster_ok cl c"
    using list_all2_left [OF plane_okD(7) [OF assms, unfolded clusters_ok_def] cl] by (auto simp: dict_values_def)
  moreover obtain p where "p \<in> set (dict_values (cr_pools c))"
    using list_all2_left [OF conjunct2 [OF iffD1 [OF cluster_ok_def c]] ps] by (auto simp: dict_values_def)
  ultimately have "(c, p) \<in> set (placements cp)" by (auto simp: placements_def)
  then show ?thesis by auto
qed

section \<open>Routing\<close>

text \<open>
  The schedulers a platform may bring: none, or the ones of this repository.
\<close>

definition platform_ok :: "'r platform \<Rightarrow> bool" where
  "platform_ok pf \<longleftrightarrow> redis_hash (pf_redis pf) \<and>
     (pf_grpc pf = None \<or> pf_grpc pf = local_stub) \<and> (pf_cpp pf = None \<or> pf_cpp pf = Some choose_candidate)"

lemma grpc_choose_total: "stub = None \<or> stub = local_stub \<Longrightarrow> \<exists>i. grpc_choose stub r cs = Inr i"
  by (auto simp: grpc_choose_def local_stub_def)

lemma choose_candidate_for_ok:
  assumes "platform_ok pf" and "cs \<noteq> []" and "request_ok r"
  shows "\<exists>pol c. choose_candidate_for pf r cs policy = Inr (pol, c) \<and> c \<in> set cs \<and>
    (cp_available c \<longleftrightarrow> (\<exists>c' \<in> set cs. cp_available c'))"
proof -
  obtain gi where gi: "grpc_choose (pf_grpc pf) r cs = Inr gi"
    using grpc_choose_total [of "pf_grpc pf" r cs] assms(1) unfolding platform_ok_def by blast
  show ?thesis
  proof (cases gi)
    case (Some i)
    with gi assms(1) have "grpc_choose local_stub r cs = Inr (Some i)"
      by (auto simp: platform_ok_def grpc_choose_def)
    with grpc.chosen_member grpc.chosen_available_iff gi Some show ?thesis
      by (auto simp: choose_candidate_for_def)
  next
    case None
    show ?thesis
    proof (cases "cpp_choose (pf_cpp pf) r cs")
      case (Some i)
      with assms(1) have "(Inr (cpp_choose (Some choose_candidate) r cs) :: int option result) = Inr (Some i)"
        by (auto simp: platform_ok_def cpp_choose_def)
      with cpp.chosen_member cpp.chosen_available_iff gi None Some show ?thesis
        by (auto simp: choose_candidate_for_def)
    next
      case none: None
      obtain pol c where "policy_choose policy r cs = Inr (pol, c)"
        using policies.total [OF assms(2) request_okD(3) [OF assms(3)]] by blast
      with policies.member [OF this] policies.rejects_only_if_forced [OF this] gi None none show ?thesis
        by (simp add: choose_candidate_for_def)
    qed
  qed
qed

text \<open>
  A request that reaches a well-formed control plane is routed: to a candidate of one of the pools,
  available if any is.
\<close>

definition routed ::
  "'r platform \<Rightarrow> inference_request \<Rightarrow> pyfloat \<Rightarrow> 'r control_plane \<Rightarrow> candidate_placement list
    \<Rightarrow> cluster_runtime \<Rightarrow> pool_runtime \<Rightarrow> 'r control_plane \<Rightarrow> candidate_placement \<Rightarrow> routing_decision \<Rightarrow> bool" where
  "routed pf r now cp cands c p cp2 cand dec \<longleftrightarrow>
     (\<exists>cp1. build_candidates pf r now cp = Inr (cp1, cands) \<and> same_plane pf cp cp1 \<and>
        cp2 = cp1\<lparr>nm_policy := nm_policy cp2\<rparr>) \<and>
     list_all2 (\<lambda>(c, p) cand. candidate_ok r now c p cand) (placements cp) cands \<and>
     route pf r now cp = Inr (cp2, cand, dec) \<and> plane_ok pf cp2 \<and>
     rd_cluster_id dec = cp_cluster_id cand \<and> rd_pool_id dec = cp_pool_id cand \<and>
     (c, p) \<in> set (placements cp) \<and> candidate_ok r now c p cand \<and>
     (cp_available cand \<longleftrightarrow> (\<exists>c' \<in> set cands. cp_available c'))"

lemma route_ok:
  assumes "platform_ok pf" and "plane_ok pf cp" and "request_ok r"
  shows "\<exists>cands c p cp2 cand dec. routed pf r now cp cands c p cp2 cand dec"
proof -
  obtain cp1 cands where b: "build_candidates pf r now cp = Inr (cp1, cands)" and ok1: "plane_ok pf cp1"
    and same: "same_plane pf cp cp1" and all: "list_all2 (\<lambda>(c, p) cand. candidate_ok r now c p cand) (placements cp) cands"
    using build_candidates_ok [OF assms(2,3)] by blast
  have "cands \<noteq> []" using all placements_nonempty [OF assms(2)] by auto
  then obtain pol cand where ch: "choose_candidate_for pf r cands (nm_policy cp1) = Inr (pol, cand)"
    and mem: "cand \<in> set cands" and av: "cp_available cand \<longleftrightarrow> (\<exists>c' \<in> set cands. cp_available c')"
    using choose_candidate_for_ok [OF assms(1) _ assms(3)] by blast
  obtain dec where "route pf r now cp = Inr (cp1\<lparr>nm_policy := pol\<rparr>, cand, dec)"
    and "rd_cluster_id dec = cp_cluster_id cand" "rd_pool_id dec = cp_pool_id cand"
    using b ch by (simp add: route_def)
  moreover have "plane_ok pf (cp1\<lparr>nm_policy := pol\<rparr>)" using ok1 by (simp add: plane_ok_def)
  moreover obtain c p where "(c, p) \<in> set (placements cp)" and "candidate_ok r now c p cand"
    using list_all2_right [OF all mem] by auto
  ultimately have "routed pf r now cp cands c p (cp1\<lparr>nm_policy := pol\<rparr>) cand dec"
    unfolding routed_def using b same all av by auto
  then show ?thesis by blast
qed

lemma route_breakdown:
  assumes "platform_ok pf" and "plane_ok pf cp" and "request_ok r" and "route pf r now cp = Inr (cp2, cand, dec)"
  shows "dict_ok (rd_score_breakdown dec)"
proof -
  obtain cp1 cands where b: "build_candidates pf r now cp = Inr (cp1, cands)"
    and all: "list_all2 (\<lambda>(c, p) cand. candidate_ok r now c p cand) (placements cp) cands"
    using build_candidates_ok [OF assms(2,3)] by blast
  have "cands \<noteq> []" using all placements_nonempty [OF assms(2)] by auto
  then obtain pol c where ch: "choose_candidate_for pf r cands (nm_policy cp1) = Inr (pol, c)" and "c \<in> set cands"
    using choose_candidate_for_ok [OF assms(1) _ assms(3)] by blast
  with build_candidates_breakdown [OF b] b assms(4) show ?thesis by (auto simp: route_def)
qed

lemma routedD:
  assumes "routed pf r now cp cands c p cp2 cand dec"
  shows "route pf r now cp = Inr (cp2, cand, dec)" "plane_ok pf cp2" "candidate_ok r now c p cand"
    "(c, p) \<in> set (placements cp)" "nm_clusters cp2 = nm_clusters cp" "nm_config cp2 = nm_config cp"
    "rd_cluster_id dec = cp_cluster_id cand" "rd_pool_id dec = cp_pool_id cand"
    "cp_available cand \<longleftrightarrow> (\<exists>c' \<in> set cands. cp_available c')"
    "list_all2 (\<lambda>(c, p) cand. candidate_ok r now c p cand) (placements cp) cands"
    "dict_get TenantStats (nm_tenant_stats cp2) t = dict_get TenantStats (nm_tenant_stats cp) t"
    "cache_shrinks (pf_redis pf) (nm_cache_directory cp) (nm_cache_directory cp2)"
proof -
  obtain cp1 where same: "same_plane pf cp cp1" and cp2: "cp2 = cp1\<lparr>nm_policy := nm_policy cp2\<rparr>"
    using assms by (auto simp: routed_def)
  have "nm_clusters cp2 = nm_clusters cp1" "nm_config cp2 = nm_config cp1"
    "nm_tenant_stats cp2 = nm_tenant_stats cp1" "nm_cache_directory cp2 = nm_cache_directory cp1"
    by (subst cp2, simp)+
  with same show "nm_clusters cp2 = nm_clusters cp" "nm_config cp2 = nm_config cp"
    "dict_get TenantStats (nm_tenant_stats cp2) t = dict_get TenantStats (nm_tenant_stats cp) t"
    "cache_shrinks (pf_redis pf) (nm_cache_directory cp) (nm_cache_directory cp2)"
    by (simp_all add: same_plane_def)
qed (use assms in \<open>simp_all add: routed_def\<close>)

section \<open>Execution\<close>

lemma observe_keeps:
  "observe env r d = Inr d' \<Longrightarrow> kc_ttl_s d' = kc_ttl_s d \<and> kc_max_entries d' = kc_max_entries d"
  by (auto simp: observe_def persist_to_redis_def trim_def result_simps Let_def split: if_splits)

lemma observe_store:
  assumes "observe env r d = Inr d'" and "\<not> rs_enabled (kc_redis_store d)"
  shows "kc_redis_store d' = kc_redis_store d"
  using assms by (auto simp: observe_def persist_to_redis_def trim_def result_simps Let_def split: if_splits)

text \<open>Storing back a pool that agrees with its specification.\<close>

lemma list_all2_store:
  assumes "list_all2 (\<lambda>x kv. fst kv = f x \<and> P x (snd kv)) xs kvs"
    and "\<And>x v. x \<in> set xs \<Longrightarrow> f x = k \<Longrightarrow> P x v \<Longrightarrow> P x (g v)"
  shows "list_all2 (\<lambda>x kv. fst kv = f x \<and> P x (snd kv)) xs (map (\<lambda>(k', v). if k' = k then (k', g v) else (k', v)) kvs)"
  using assms by (induction rule: list_all2_induct) auto

lemma store_pool_eq:
  "store_pool cid pid p cs =
     map (\<lambda>(k, c). if k = cid
        then (k, c\<lparr>cr_pools := map (\<lambda>(k', p'). if k' = pid then (k', (\<lambda>_. p) p') else (k', p')) (cr_pools c)\<rparr>)
        else (k, c)) cs"
  by (simp add: store_pool_def)

lemma clusters_ok_store:
  assumes "config_ok config" and "clusters_ok config cs" and "cl \<in> set (ec_clusters config)"
    and "ps \<in> set (cs_pools cl)" and "pool_ok cl ps p"
  shows "clusters_ok config (store_pool (cs_cluster_id cl) (ps_pool_id ps) p cs)"
  unfolding clusters_ok_def store_pool_eq
proof (rule list_all2_store [OF assms(2) [unfolded clusters_ok_def]])
  fix cl' c assume cl': "cl' \<in> set (ec_clusters config)" "cs_cluster_id cl' = cs_cluster_id cl" and c: "cluster_ok cl' c"
  then have [simp]: "cl' = cl"
    using assms(3) config_okD(2) [OF assms(1)] by (auto simp: distinct_map inj_on_def)
  have "list_all2 (\<lambda>ps kp. fst kp = ps_pool_id ps \<and> pool_ok cl ps (snd kp)) (cs_pools cl)
      (map (\<lambda>(k', p'). if k' = ps_pool_id ps then (k', (\<lambda>_. p) p') else (k', p')) (cr_pools c))"
  proof (rule list_all2_store)
    show "list_all2 (\<lambda>ps kp. fst kp = ps_pool_id ps \<and> pool_ok cl ps (snd kp)) (cs_pools cl) (cr_pools c)"
      using c by (simp add: cluster_ok_def)
    fix ps' p' assume "ps' \<in> set (cs_pools cl)" and "ps_pool_id ps' = ps_pool_id ps"
    then have "ps' = ps"
      using assms(4) config_okD(3) [OF assms(1,3)] by (auto simp: distinct_map inj_on_def)
    then show "pool_ok cl ps' p" using assms(5) by simp
  qed
  moreover have "c = (cluster_from_spec cl)\<lparr>cr_pools := cr_pools c\<rparr>" using c by (simp add: cluster_ok_def)
  ultimately show "cluster_ok cl' (c\<lparr>cr_pools := map (\<lambda>(k', p'). if k' = ps_pool_id ps
      then (k', (\<lambda>_. p) p') else (k', p')) (cr_pools c)\<rparr>)"
    unfolding cluster_ok_def by (metis (no_types, lifting) \<open>cl' = cl\<close> cluster_runtime.select_convs(8)
        cluster_runtime.update_convs(8) cluster_runtime.surjective)
qed

lemma pool_ok_placed:
  assumes "pool_ok cl ps p" and "place_request env r c dec b now (p, d) = Inr (p', d', res)" and "placement_ok r c"
  shows "pool_ok cl ps (p'\<lparr>pr_completed_count := n\<rparr>)"
proof -
  obtain i f m where p': "p' = p\<lparr>pr_slot_available_at := (pr_slot_available_at p)[i := f],
            pr_inflight_memory := pr_inflight_memory p @ [(f, m)],
            pr_active_memory_gb := pr_active_memory_gb p + m,
            pr_decision_count := pr_decision_count p + 1\<rparr>" and m: "0 < m"
    using place_request_booked [OF assms(2,3)] memory_estimate_pos by (auto simp: booked_def)
  have p: "p = (pool_from_spec cl ps)\<lparr>pr_congestion_score := pr_congestion_score p,
            pr_slot_available_at := pr_slot_available_at p, pr_active_memory_gb := pr_active_memory_gb p,
            pr_cache_reserved_gb := pr_cache_reserved_gb p, pr_decision_count := pr_decision_count p,
            pr_completed_count := pr_completed_count p, pr_inflight_memory := pr_inflight_memory p\<rparr>"
    using assms(1) unfolding pool_ok_def by (rule conjunct1)
  show ?thesis
    unfolding pool_ok_def p' using assms(1) m
    by (intro conjI) (subst p, simp, auto simp: pool_ok_def)
qed

text \<open>A control plane whose cache directory and mirror leave room for another entry.\<close>

definition calm :: "'r platform \<Rightarrow> 'r control_plane \<Rightarrow> bool" where
  "calm pf cp \<longleftrightarrow> (\<exists>n < 20000. room (pf_redis pf) n (nm_cache_directory cp))"

text \<open>Placing the request on the pool a candidate names succeeds.\<close>

lemma place_request_total:
  assumes "pr_slot_available_at p \<noteq> []" and "\<And>res. result_ok res \<Longrightarrow> \<exists>d'. observe env res d = Inr d'"
    and "0 \<le> rq_prompt_tokens r"
  shows "\<exists>p' d' res. place_request env r c dec b now (p, d) = Inr (p', d', res)"
proof -
  obtain i where i: "earliest_slot p = Inr i"
    using min_by_Inr [of "[0..<length (pr_slot_available_at p)]"] assms(1) by (auto simp: earliest_slot_def)
  have "\<exists>d'. observe env res d = Inr d'" if "rr_request res = r" and "0 \<le> rr_memory_gb res" for res
    using assms(2,3) that by (simp add: result_ok_def)
  then show ?thesis
    by (simp add: place_request_def i Let_def case_prod_unfold py_round_nonneg less_imp_le [OF memory_estimate_pos]
        result_simps)
qed

lemma candidate_placement_ok: "candidate_ok r now c p cand \<Longrightarrow> request_ok r \<Longrightarrow> placement_ok r cand"
  by (simp add: candidate_ok_def placement_ok_def request_okD less_imp_le)

text \<open>The lookups \<open>execute\<close> makes for the chosen candidate.\<close>

lemma chosen_lookup:
  assumes "plane_ok pf cp" and "(c, p) \<in> set (placements cp)" and "candidate_ok r now c p cand"
  obtains cl ps be where "cl \<in> set (ec_clusters (nm_config cp))" "ps \<in> set (cs_pools cl)" "pool_ok cl ps p"
    "cp_cluster_id cand = cs_cluster_id cl" "cp_pool_id cand = ps_pool_id ps"
    "map_of (nm_clusters cp) (cp_cluster_id cand) = Some c" "map_of (cr_pools c) (cp_pool_id cand) = Some p"
    "map_of (nm_backends cp) (cp_backend_name cand) = Some be" "pr_slot_available_at p \<noteq> []"
proof -
  obtain cl ps where cl: "cl \<in> set (ec_clusters (nm_config cp))" and ps: "ps \<in> set (cs_pools cl)"
    and cok: "cluster_ok cl c" and pok: "pool_ok cl ps p"
    and look: "map_of (nm_clusters cp) (cs_cluster_id cl) = Some c" "map_of (cr_pools c) (ps_pool_id ps) = Some p"
    using placements_elem [OF plane_okD(1,7) [OF assms(1)] assms(2)] by blast
  have ids: "cp_cluster_id cand = cs_cluster_id cl" "cp_pool_id cand = ps_pool_id ps"
    "cp_backend_name cand = ps_backend_name ps"
    using assms(3) cluster_ok_fields(1) [OF cok] pool_ok_fields(1,2) [OF pok] by (simp_all add: candidate_ok_def)
  obtain be where "map_of (nm_backends cp) (ps_backend_name ps) = Some be"
    using backend_lookup [OF assms(1) config_okD(6) [OF plane_okD(1) [OF assms(1)] cl ps], of IndexError]
    by (cases "map_of (nm_backends cp) (ps_backend_name ps)") (auto simp: dict_item_def)
  moreover have "pr_slot_available_at p \<noteq> []"
    using pool_ok_fields(6) [OF pok] config_okD(5) [OF plane_okD(1) [OF assms(1)] cl ps] by auto
  ultimately show ?thesis using that [OF cl ps pok ids(1,2)] look ids by simp
qed

lemma execute_rejects:
  assumes "routed pf r now cp cands c p cp2 cand dec" and "plane_ok pf cp" and "\<not> cp_available cand"
  shows "execute pf r now cp = Inr (cp2, rejected_result r cand dec now)"
proof -
  note rt = routedD [OF assms(1)]
  have pl: "(c, p) \<in> set (placements cp2)" using rt(4,5) by (simp add: placements_def)
  obtain cl ps be where "map_of (nm_clusters cp2) (cp_cluster_id cand) = Some c"
    "map_of (cr_pools c) (cp_pool_id cand) = Some p" "map_of (nm_backends cp2) (cp_backend_name cand) = Some be"
    using chosen_lookup [OF rt(2) pl rt(3)] by metis
  with rt(1) assms(3) show ?thesis by (simp add: execute_def dict_item_def)
qed

text \<open>The control plane after an admitted request.\<close>

definition admitted_plane ::
  "inference_request \<Rightarrow> candidate_placement \<Rightarrow> 'r control_plane \<Rightarrow> pool_runtime \<times> 'r kv_cache_directory \<times> request_result
    \<Rightarrow> 'r control_plane \<times> request_result" where
  "admitted_plane r cand cp2 placed =
     (case placed of (p', d', res) \<Rightarrow>
       (cp2\<lparr>nm_cache_directory := d',
          nm_clusters := store_pool (cp_cluster_id cand) (cp_pool_id cand)
            (p'\<lparr>pr_completed_count := pr_completed_count p' + 1\<rparr>) (nm_clusters cp2),
          nm_tenant_stats := tenant_update (rq_tenant_id r) (credit_tenant res) (nm_tenant_stats cp2),
          nm_policy := observe_result (nm_policy cp2) res\<rparr>, res))"

lemma execute_admits_eq:
  assumes rt: "routed pf r now cp cands c p cp2 cand dec" and av: "cp_available cand"
  shows "\<exists>be. execute pf r now cp =
    ebind (place_request (pf_redis pf) r cand dec be now (p, nm_cache_directory cp2))
      (\<lambda>x. Inr (admitted_plane r cand cp2 x))"
proof -
  note rtD = routedD [OF rt]
  have pl2: "(c, p) \<in> set (placements cp2)" using rtD(4,5) by (simp add: placements_def)
  obtain cl ps be where "map_of (nm_clusters cp2) (cp_cluster_id cand) = Some c"
    "map_of (cr_pools c) (cp_pool_id cand) = Some p" "map_of (nm_backends cp2) (cp_backend_name cand) = Some be"
    using chosen_lookup [OF rtD(2) pl2 rtD(3)] by metis
  with rtD(1) av show ?thesis
    by (intro exI [of _ be]) (simp add: execute_def dict_item_def Let_def admitted_plane_def case_prod_unfold)
qed

lemma execute_admitted_placed:
  assumes rt: "routed pf r now cp cands c p cp2 cand dec" and av: "cp_available cand"
    and ex: "execute pf r now cp = Inr (cp', res)"
  shows "\<exists>be p' d'. place_request (pf_redis pf) r cand dec be now (p, nm_cache_directory cp2) = Inr (p', d', res) \<and>
    admitted_plane r cand cp2 (p', d', res) = (cp', res)"
proof -
  obtain be where eq: "execute pf r now cp =
      ebind (place_request (pf_redis pf) r cand dec be now (p, nm_cache_directory cp2))
        (\<lambda>x. Inr (admitted_plane r cand cp2 x))"
    using execute_admits_eq [OF rt av] by blast
  then obtain p' d' res' where
    "place_request (pf_redis pf) r cand dec be now (p, nm_cache_directory cp2) = Inr (p', d', res')"
    and cp': "admitted_plane r cand cp2 (p', d', res') = (cp', res)"
    using ex unfolding eq ebind_eq_Inr by auto
  moreover from cp' have "res' = res" by (simp add: admitted_plane_def)
  ultimately show ?thesis by auto
qed

lemma execute_admitted:
  assumes pf: "platform_ok pf" and rt: "routed pf r now cp cands c p cp2 cand dec" and r: "request_ok r"
    and av: "cp_available cand" and ex: "execute pf r now cp = Inr (cp', res)"
  shows "plane_ok pf cp' \<and> rr_request res = r \<and> rr_decision res = dec \<and> rr_admitted res \<and>
    nm_tenant_stats cp' = tenant_update (rq_tenant_id r) (credit_tenant res) (nm_tenant_stats cp2)"
proof -
  note rtD = routedD [OF rt]
  have pl2: "(c, p) \<in> set (placements cp2)" using rtD(4,5) by (simp add: placements_def)
  obtain cl ps where cl: "cl \<in> set (ec_clusters (nm_config cp2))" and ps: "ps \<in> set (cs_pools cl)"
    and pok: "pool_ok cl ps p" and ids: "cp_cluster_id cand = cs_cluster_id cl" "cp_pool_id cand = ps_pool_id ps"
    using chosen_lookup [OF rtD(2) pl2 rtD(3)] by metis
  obtain be p' d' where
    pl: "place_request (pf_redis pf) r cand dec be now (p, nm_cache_directory cp2) = Inr (p', d', res)"
    and cp': "admitted_plane r cand cp2 (p', d', res) = (cp', res)"
    using execute_admitted_placed [OF rt av ex] by blast
  have rok: "result_ok res"
    using place_request_fields [OF pl] request_okD(1) [OF r] by (simp add: result_ok_def)
  have "directory_ok (pf_redis pf) d'"
    using observe_ok [OF _ plane_okD(3) [OF rtD(2)] rok place_request_observed [OF pl]] pf
    by (simp add: platform_ok_def)
  moreover have "clusters_ok (nm_config cp2) (nm_clusters cp')"
    using clusters_ok_store [OF plane_okD(1,7) [OF rtD(2)] cl ps
        pool_ok_placed [OF pok pl candidate_placement_ok [OF rtD(3) r]]] cp'
    by (auto simp: admitted_plane_def ids)
  ultimately show ?thesis
    using observe_keeps [OF place_request_observed [OF pl]] rtD(2) place_request_fields [OF pl] cp'
    by (auto simp: plane_ok_def tenant_update_def adict.invar_store admitted_plane_def)
qed

lemma execute_admits:
  assumes pf: "platform_ok pf" and rt: "routed pf r now cp cands c p cp2 cand dec" and r: "request_ok r"
    and calm: "calm pf cp" and av: "cp_available cand"
  shows "\<exists>cp' res. execute pf r now cp = Inr (cp', res)"
proof -
  note rtD = routedD [OF rt]
  have pl2: "(c, p) \<in> set (placements cp2)" using rtD(4,5) by (simp add: placements_def)
  have slots: "pr_slot_available_at p \<noteq> []" using chosen_lookup [OF rtD(2) pl2 rtD(3)] by metis
  obtain n where "n < 20000" and n: "room (pf_redis pf) n (nm_cache_directory cp2)"
    using rtD(12) calm by (auto simp: calm_def cache_shrinks_def)
  then have "total_entries (kc_entries (nm_cache_directory cp2)) < 20000"
    using room_total [OF directory_okD(2) [OF plane_okD(3) [OF rtD(2)]] n] by simp
  then have obs: "\<exists>d'. observe (pf_redis pf) res (nm_cache_directory cp2) = Inr d'" for res
    using observe_total [OF _ plane_okD(3) [OF rtD(2)]] plane_okD(5) [OF rtD(2)] pf by (simp add: platform_ok_def)
  obtain be where eq: "execute pf r now cp =
      ebind (place_request (pf_redis pf) r cand dec be now (p, nm_cache_directory cp2))
        (\<lambda>x. Inr (admitted_plane r cand cp2 x))"
    using execute_admits_eq [OF rt av] by blast
  obtain x where "place_request (pf_redis pf) r cand dec be now (p, nm_cache_directory cp2) = Inr x"
    using place_request_total [OF slots obs] request_okD(1) [OF r] by (meson less_imp_le)
  with eq show ?thesis by (cases "admitted_plane r cand cp2 x") simp
qed

section \<open>Construction, refresh and accounting\<close>

lemma pool_from_spec_ok: "0 < ps_parallel_slots ps \<Longrightarrow> pool_ok cl ps (pool_from_spec cl ps)"
  by (simp add: pool_ok_def pool_from_spec_def pool_post_init_def)

lemma build_runtime_ok:
  assumes "config_ok config"
  shows "clusters_ok config (build_runtime_clusters config)"
proof -
  have "build_runtime_clusters config = map (\<lambda>cl. (cs_cluster_id cl, cluster_from_spec cl)) (ec_clusters config)"
    using fold_update_distinct [OF config_okD(2) [OF assms], of "[]"] by (simp add: build_runtime_clusters_def)
  moreover have "cluster_ok cl (cluster_from_spec cl)" if cl: "cl \<in> set (ec_clusters config)" for cl
  proof -
    have "cr_pools (cluster_from_spec cl) = map (\<lambda>p. (ps_pool_id p, pool_from_spec cl p)) (cs_pools cl)"
      using fold_update_distinct [OF config_okD(3) [OF assms cl], of "[]"] by (simp add: cluster_from_spec_def)
    then show ?thesis
      using config_okD(5) [OF assms cl]
      by (auto simp: cluster_ok_def list_all2_conv_all_nth intro!: pool_from_spec_ok)
  qed
  ultimately show ?thesis by (auto simp: clusters_ok_def list_all2_conv_all_nth)
qed

lemma construct_ok:
  assumes "config_ok config" and "mirror_ok (pf_redis pf) (pf_redis_store pf)"
    and "NimbusMeshControlPlane pf config = Inr cp"
  shows "plane_ok pf cp"
  using assms fresh_directory_ok [OF assms(2)] build_runtime_ok [OF assms(1)]
  by (auto simp: NimbusMeshControlPlane_def result_simps plane_ok_def KVCacheDirectory_def)

lemma pool_ok_refresh:
  assumes "pool_ok cl ps p" and "0 \<le> g"
  shows "pool_ok cl ps ((pool_refresh now (p\<lparr>pr_congestion_score := g\<rparr>))\<lparr>pr_cache_reserved_gb := x\<rparr>)"
proof -
  have p: "p = (pool_from_spec cl ps)\<lparr>pr_congestion_score := pr_congestion_score p,
            pr_slot_available_at := pr_slot_available_at p, pr_active_memory_gb := pr_active_memory_gb p,
            pr_cache_reserved_gb := pr_cache_reserved_gb p, pr_decision_count := pr_decision_count p,
            pr_completed_count := pr_completed_count p, pr_inflight_memory := pr_inflight_memory p\<rparr>"
    using assms(1) unfolding pool_ok_def by (rule conjunct1)
  show ?thesis
    unfolding pool_ok_def pool_refresh_eq using assms
    by (intro conjI) (subst p, simp, auto simp: pool_ok_def)
qed

lemma refresh_pools_ok:
  assumes "list_all2 (\<lambda>ps kp. fst kp = ps_pool_id ps \<and> pool_ok cl ps (snd kp)) specs ps" and "0 \<le> g"
    and "directory_ok env d" and "refresh_pools cid g now ps d = (ps', d')"
  shows "list_all2 (\<lambda>ps kp. fst kp = ps_pool_id ps \<and> pool_ok cl ps (snd kp)) specs ps' \<and> directory_ok env d' \<and>
    kc_ttl_s d' = kc_ttl_s d \<and> kc_max_entries d' = kc_max_entries d \<and> cache_shrinks env d d'"
  using assms
proof (induction specs ps arbitrary: d ps' d' rule: list_all2_induct)
  case Nil
  then show ?case by (simp add: cache_shrinks_def)
next
  case (Cons spec specs kp ps)
  obtain k p where kp: "kp = (k, p)" by force
  obtain d1 reserved where d1: "reserved_gb cid (pr_pool_id p) now d = (d1, reserved)" by force
  then have d1e: "d1 = evict_stale now d" by (simp add: reserved_gb_def Let_def)
  have ok1: "directory_ok env d1" unfolding d1e by (rule evict_ok [OF Cons.prems(2)])
  obtain ps2 d2 where rest: "refresh_pools cid g now ps d1 = (ps2, d2)" by force
  have keep: "kc_ttl_s d1 = kc_ttl_s d" "kc_max_entries d1 = kc_max_entries d" "cache_shrinks env d d1"
    using evict_shrinks [OF directory_okD(2) [OF Cons.prems(2)]] by (simp_all add: d1e evict_stale_def)
  from Cons.IH [OF Cons.prems(1) ok1 rest] keep
  have "list_all2 (\<lambda>ps kp. fst kp = ps_pool_id ps \<and> pool_ok cl ps (snd kp)) specs ps2 \<and> directory_ok env d2 \<and>
    kc_ttl_s d2 = kc_ttl_s d \<and> kc_max_entries d2 = kc_max_entries d \<and> cache_shrinks env d d2"
    by (auto simp: cache_shrinks_def)
  with Cons.hyps(1) Cons.prems(1,3) kp d1 rest show ?case by (auto simp: pool_ok_refresh)
qed

lemma refresh_clusters_ok:
  assumes "list_all2 (\<lambda>cl kc. fst kc = cs_cluster_id cl \<and> cluster_ok cl (snd kc)) specs cs"
    and "\<forall>cl \<in> set specs. 0 \<le> cs_base_congestion cl \<and> (\<forall>(s, e, m) \<in> set (cs_congestion_windows cl). 0 \<le> m)"
    and "directory_ok env d" and "refresh_clusters now cs d = (cs', d')"
  shows "list_all2 (\<lambda>cl kc. fst kc = cs_cluster_id cl \<and> cluster_ok cl (snd kc)) specs cs' \<and> directory_ok env d' \<and>
    kc_ttl_s d' = kc_ttl_s d \<and> kc_max_entries d' = kc_max_entries d \<and> cache_shrinks env d d'"
  using assms
proof (induction specs cs arbitrary: d cs' d' rule: list_all2_induct)
  case Nil
  then show ?case by (simp add: cache_shrinks_def)
next
  case (Cons cl specs kc cs)
  obtain k c where kc: "kc = (k, c)" by force
  with Cons.hyps(1) have cok: "cluster_ok cl c" by simp
  obtain ps d1 where p1: "refresh_pools (cr_cluster_id c) (effective_congestion c now) now (cr_pools c) d = (ps, d1)"
    by force
  have g: "0 \<le> effective_congestion c now"
    using Cons.prems(1) cluster_ok_fields [OF cok] by (intro effective_congestion_nonneg) auto
  have pools: "list_all2 (\<lambda>ps kp. fst kp = ps_pool_id ps \<and> pool_ok cl ps (snd kp)) (cs_pools cl) (cr_pools c)"
    using cok by (simp add: cluster_ok_def)
  note ok1 = refresh_pools_ok [OF pools g Cons.prems(2) p1]
  obtain cs2 d2 where rest: "refresh_clusters now cs d1 = (cs2, d2)" by force
  have "c = (cluster_from_spec cl)\<lparr>cr_pools := cr_pools c\<rparr>" using cok by (simp add: cluster_ok_def)
  then have "c\<lparr>cr_pools := ps\<rparr> = (cluster_from_spec cl)\<lparr>cr_pools := ps\<rparr>"
    by (metis (no_types, lifting) cluster_runtime.surjective cluster_runtime.update_convs(8))
  with ok1 have "cluster_ok cl (c\<lparr>cr_pools := ps\<rparr>)" by (simp add: cluster_ok_def)
  with Cons.IH [OF _ _ rest] Cons.prems(1,3) Cons.hyps(1) ok1 kc p1 rest show ?case
    by (auto simp: cache_shrinks_def)
qed

lemma refresh_ok:
  assumes "plane_ok pf cp"
  shows "plane_ok pf (refresh now cp)"
proof -
  obtain cs d where r: "refresh_clusters now (nm_clusters cp) (nm_cache_directory cp) = (cs, d)" by force
  have "\<forall>cl \<in> set (ec_clusters (nm_config cp)).
      0 \<le> cs_base_congestion cl \<and> (\<forall>(s, e, m) \<in> set (cs_congestion_windows cl). 0 \<le> m)"
    using plane_okD(1) [OF assms] by (simp add: config_ok_def)
  from refresh_clusters_ok [OF plane_okD(7) [OF assms, unfolded clusters_ok_def] this plane_okD(3) [OF assms] r] assms r
  show ?thesis by (simp add: plane_ok_def refresh_def clusters_ok_def)
qed

lemma note_submission_ok: "plane_ok pf cp \<Longrightarrow> plane_ok pf (note_submission r cp)"
  by (simp add: plane_ok_def note_submission_def tenant_update_def adict.invar_store)

lemma execute_admitted_iff:
  assumes "platform_ok pf" and "routed pf r now cp cands c p cp2 cand dec" and "plane_ok pf cp" and "request_ok r"
    and "execute pf r now cp = Inr (cp', res)"
  shows "rr_admitted res \<longleftrightarrow> cp_available cand"
proof (cases "cp_available cand")
  case True
  then show ?thesis using execute_admitted [OF assms(1,2,4) True assms(5)] by simp
next
  case False
  then have "res = rejected_result r cand dec now" using execute_rejects [OF assms(2,3) False] assms(5) by simp
  with False show ?thesis by (simp add: rejected_result_def)
qed

lemma execute_ok:
  assumes "platform_ok pf" and "plane_ok pf cp" and "request_ok r" and "execute pf r now cp = Inr (cp', res)"
  shows "plane_ok pf cp'"
proof -
  obtain cands c p cp2 cand dec where rt: "routed pf r now cp cands c p cp2 cand dec"
    using route_ok [OF assms(1-3)] by blast
  show ?thesis
  proof (cases "cp_available cand")
    case True
    then show ?thesis using execute_admitted [OF assms(1) rt assms(3) True assms(4)] by blast
  next
    case False
    with execute_rejects [OF rt assms(2)] assms(4) routedD(2) [OF rt] show ?thesis by simp
  qed
qed

section \<open>How the cache directory grows\<close>

text \<open>
  A request takes at most one more place in the cache directory and its mirror, and nothing else takes
  any. A mirror that is switched off stays as it is.
\<close>

definition plane_room :: "'r platform \<Rightarrow> nat \<Rightarrow> 'r control_plane \<Rightarrow> bool" where
  "plane_room pf n cp \<longleftrightarrow> room (pf_redis pf) n (nm_cache_directory cp)"

definition untouched :: "'r redis_store \<Rightarrow> 'r control_plane \<Rightarrow> bool" where
  "untouched store cp \<longleftrightarrow> (\<not> rs_enabled store \<longrightarrow> kc_redis_store (nm_cache_directory cp) = store)"

lemma calm_room: "plane_room pf n cp \<Longrightarrow> n < 20000 \<Longrightarrow> calm pf cp"
  by (auto simp: calm_def plane_room_def)

lemma refresh_room:
  assumes "plane_ok pf cp"
  shows "plane_room pf n cp \<Longrightarrow> plane_room pf n (refresh now cp)" "untouched store cp \<Longrightarrow> untouched store (refresh now cp)"
proof -
  obtain cs d where r: "refresh_clusters now (nm_clusters cp) (nm_cache_directory cp) = (cs, d)" by force
  have "\<forall>cl \<in> set (ec_clusters (nm_config cp)).
      0 \<le> cs_base_congestion cl \<and> (\<forall>(s, e, m) \<in> set (cs_congestion_windows cl). 0 \<le> m)"
    using plane_okD(1) [OF assms] by (simp add: config_ok_def)
  from refresh_clusters_ok [OF plane_okD(7) [OF assms, unfolded clusters_ok_def] this plane_okD(3) [OF assms] r]
  have "cache_shrinks (pf_redis pf) (nm_cache_directory cp) d" by blast
  with r show "plane_room pf n cp \<Longrightarrow> plane_room pf n (refresh now cp)" "untouched store cp \<Longrightarrow> untouched store (refresh now cp)"
    by (simp_all add: refresh_def cache_shrinks_def untouched_def plane_room_def)
qed

lemma note_submission_room [simp]:
  "plane_room pf n (note_submission r cp) = plane_room pf n cp" "untouched store (note_submission r cp) = untouched store cp"
  by (simp_all add: note_submission_def untouched_def plane_room_def)

lemma execute_room:
  assumes "platform_ok pf" and "plane_ok pf cp" and "request_ok r" and "execute pf r now cp = Inr (cp', res)"
  shows "plane_room pf n cp \<Longrightarrow> plane_room pf (Suc n) cp'" "untouched store cp \<Longrightarrow> untouched store cp'"
proof -
  obtain cands c p cp2 cand dec where rt: "routed pf r now cp cands c p cp2 cand dec"
    using route_ok [OF assms(1-3)] by blast
  note rtD = routedD [OF rt]
  have cp2: "plane_room pf n cp \<Longrightarrow> plane_room pf n cp2" "untouched store cp \<Longrightarrow> untouched store cp2"
    using rtD(12) by (auto simp: cache_shrinks_def untouched_def plane_room_def)
  have "(plane_room pf n cp2 \<longrightarrow> plane_room pf (Suc n) cp') \<and> (untouched store cp2 \<longrightarrow> untouched store cp')"
  proof (cases "cp_available cand")
    case True
    obtain be p' d' where
      pl: "place_request (pf_redis pf) r cand dec be now (p, nm_cache_directory cp2) = Inr (p', d', res)"
      and cp': "admitted_plane r cand cp2 (p', d', res) = (cp', res)"
      using execute_admitted_placed [OF rt True assms(4)] by blast
    have "room (pf_redis pf) n (nm_cache_directory cp2) \<Longrightarrow> room (pf_redis pf) (Suc n) d'"
      using room_observe [OF _ place_request_observed [OF pl]] assms(1) by (simp add: platform_ok_def)
    with cp' observe_store [OF place_request_observed [OF pl]] show ?thesis
      by (auto simp: admitted_plane_def untouched_def plane_room_def)
  next
    case False
    with execute_rejects [OF rt assms(2)] assms(4) show ?thesis by (auto simp: plane_room_def intro: room_mono)
  qed
  with cp2 show "plane_room pf n cp \<Longrightarrow> plane_room pf (Suc n) cp'" "untouched store cp \<Longrightarrow> untouched store cp'" by blast+
qed

text \<open>Serving requests never changes which policy decides.\<close>

definition deciding :: "'r control_plane \<Rightarrow> string" where
  "deciding cp = policy_name (nm_policy cp)"

lemma fairness_penalty_policy [simp]: "nm_policy (fst (fairness_penalty t cp)) = nm_policy cp"
  by (simp add: fairness_penalty_def Let_def)

lemma build_each_policy: "build_each pf r now ps cp = Inr (cp', cands) \<Longrightarrow> nm_policy cp' = nm_policy cp"
proof (induction ps arbitrary: cp cands)
  case (Cons x ps)
  obtain c p where x: "x = (c, p)" by force
  with Cons.prems obtain cp1 cand cands' where b: "build_candidate pf r now c p cp = Inr (cp1, cand)"
    and "build_each pf r now ps cp1 = Inr (cp', cands')" by (auto simp: result_simps)
  from Cons.IH [OF this(2)] have "nm_policy cp' = nm_policy cp1" .
  also have "\<dots> = nm_policy cp"
    using b by (auto simp: build_candidate_def result_simps Let_def case_prod_unfold split: option.splits)
  finally show ?case .
qed simp

lemma route_deciding: "route pf r now cp = Inr (cp', cand, dec) \<Longrightarrow> deciding cp' = deciding cp \<and> rd_policy_name dec = deciding cp"
  by (auto simp: route_def build_candidates_def choose_candidate_for_def deciding_def result_simps
      dest!: build_each_policy policy_choose_name split: option.splits)

lemma execute_deciding: "execute pf r now cp = Inr (cp', res) \<Longrightarrow> deciding cp' = deciding cp"
  by (auto simp: execute_def result_simps Let_def deciding_def dest!: route_deciding split: if_splits)

lemma refresh_deciding [simp]: "deciding (refresh now cp) = deciding cp" "deciding (note_submission r cp) = deciding cp"
  by (simp_all add: deciding_def refresh_def note_submission_def case_prod_unfold Let_def)

lemma construct_deciding: "NimbusMeshControlPlane pf config = Inr cp \<Longrightarrow> deciding cp = ec_policy config"
  by (auto simp: NimbusMeshControlPlane_def deciding_def result_simps build_policy_def policy_registry_def dict_item_def
      split: if_splits)

text \<open>The states a control plane goes through while it serves valid requests.\<close>

inductive plane_run :: "'r platform \<Rightarrow> experiment_config \<Rightarrow> 'r control_plane \<Rightarrow> bool" for pf config where
  construct: "NimbusMeshControlPlane pf config = Inr cp \<Longrightarrow> plane_run pf config cp"
| refresh: "plane_run pf config cp \<Longrightarrow> plane_run pf config (refresh now cp)"
| submit: "plane_run pf config cp \<Longrightarrow> plane_run pf config (note_submission r cp)"
| execute: "plane_run pf config cp \<Longrightarrow> request_ok r \<Longrightarrow> execute pf r now cp = Inr (cp', res) \<Longrightarrow> plane_run pf config cp'"
| route: "plane_run pf config cp \<Longrightarrow> request_ok r \<Longrightarrow> route pf r now cp = Inr (cp', cand, dec) \<Longrightarrow> plane_run pf config cp'"
| snapshot: "plane_run pf config cp \<Longrightarrow> plane_run pf config (fst (plane_cache_snapshot now cp))"

lemma routed_ok:
  assumes "platform_ok pf" and "plane_ok pf cp" and "request_ok r" and "route pf r now cp = Inr (cp', cand, dec)"
  shows "plane_ok pf cp'" "nm_clusters cp' = nm_clusters cp" "nm_config cp' = nm_config cp"
    "dict_get TenantStats (nm_tenant_stats cp') t = dict_get TenantStats (nm_tenant_stats cp) t"
    "cache_shrinks (pf_redis pf) (nm_cache_directory cp) (nm_cache_directory cp')"
proof -
  obtain cands c p cp2 cand2 dec2 where rt: "routed pf r now cp cands c p cp2 cand2 dec2"
    using route_ok [OF assms(1-3)] by blast
  note routedD [OF rt]
  moreover from this(1) assms(4) have "cp2 = cp'" by simp
  ultimately show "plane_ok pf cp'" "nm_clusters cp' = nm_clusters cp" "nm_config cp' = nm_config cp"
    "dict_get TenantStats (nm_tenant_stats cp') t = dict_get TenantStats (nm_tenant_stats cp) t"
    "cache_shrinks (pf_redis pf) (nm_cache_directory cp) (nm_cache_directory cp')"
    by simp_all
qed

lemma cache_snapshot_plane_ok: "plane_ok pf cp \<Longrightarrow> plane_ok pf (fst (plane_cache_snapshot now cp))"
  using evict_ok [of "pf_redis pf" "nm_cache_directory cp" now]
  by (simp add: plane_ok_def plane_cache_snapshot_def cache_snapshot_def Let_def evict_stale_def)

lemma plane_run_ok:
  assumes "platform_ok pf" and "mirror_ok (pf_redis pf) (pf_redis_store pf)" and "config_ok config"
    and "plane_run pf config cp"
  shows "plane_ok pf cp"
  using assms(4)
proof induction
  case (construct cp)
  then show ?case by (rule construct_ok [OF assms(3,2)])
next
  case (execute cp r now cp' res)
  then show ?case using execute_ok [OF assms(1)] by blast
next
  case (route cp r now cp' cand dec)
  then show ?case using routed_ok(1) [OF assms(1)] by blast
qed (simp_all add: refresh_ok note_submission_ok cache_snapshot_plane_ok)

section \<open>Properties\<close>

text \<open>
  C4: the control plane of a well-formed configuration keeps its invariant through any sequence
  of refreshes, submissions, routed and executed requests and cache snapshots: every pool agrees
  with its specification, keeps its slots and charges exactly the memory of its requests in flight,
  and the cache directory is well-formed.
\<close>

theorem plane_invariant:
  assumes "platform_ok pf" and "mirror_ok (pf_redis pf) (pf_redis_store pf)" and "config_ok config"
    and "plane_run pf config cp"
  shows "clusters_ok (nm_config cp) (nm_clusters cp) \<and> directory_ok (pf_redis pf) (nm_cache_directory cp) \<and>
    build_from_config (pf_files pf) (nm_config cp) = Inr (nm_topology cp)"
  using plane_run_ok [OF assms] by (simp add: plane_okD)

lemma execute_returns:
  assumes "platform_ok pf" and "plane_ok pf cp" and "request_ok r" and "calm pf cp"
  shows "\<exists>cp' res. execute pf r now cp = Inr (cp', res) \<and> plane_ok pf cp' \<and> rr_request res = r"
proof -
  obtain cands c p cp2 cand dec where rt: "routed pf r now cp cands c p cp2 cand dec"
    using route_ok [OF assms(1-3)] by blast
  show ?thesis
  proof (cases "cp_available cand")
    case True
    with execute_admits [OF assms(1) rt assms(3,4)] execute_admitted [OF assms(1) rt assms(3)] show ?thesis by blast
  next
    case False
    with execute_rejects [OF rt assms(2)] routedD(2) [OF rt] show ?thesis by (simp add: rejected_result_def)
  qed
qed

lemma execute_breakdown:
  assumes "platform_ok pf" and "plane_ok pf cp" and "request_ok r" and "execute pf r now cp = Inr (cp', res)"
  shows "dict_ok (rd_score_breakdown (rr_decision res))"
proof -
  from assms(4) obtain cp1 cand dec where rt: "route pf r now cp = Inr (cp1, cand, dec)" and "rr_decision res = dec"
    by (auto simp: execute_def result_simps rejected_result_def split: if_splits dest!: place_request_fields(2))
  with route_breakdown [OF assms(1-3) rt] show ?thesis by simp
qed

text \<open>
  C5: executing a valid request on a well-formed control plane returns a result for that request
  and raises nothing, with or without a Redis mirror, as long as the cache directory and its mirror
  together leave room below the directory's limit.
\<close>

theorem execute_total:
  assumes "platform_ok pf" and "plane_ok pf cp" and "request_ok r" and "calm pf cp"
  shows "\<exists>cp' res. execute pf r now cp = Inr (cp', res) \<and> plane_ok pf cp' \<and> rr_request res = r"
  by (rule execute_returns [OF assms])

lemma admitted_pool:
  assumes "platform_ok pf" and "plane_ok pf cp" and "request_ok r"
    and "execute pf r now cp = Inr (cp', res)" and "rr_admitted res"
  shows "\<exists>(c, p) \<in> set (placements cp).
    rd_cluster_id (rr_decision res) = cr_cluster_id c \<and> rd_pool_id (rr_decision res) = pr_pool_id p \<and>
    \<not> unavailable c now \<and> (pr_supported_models p = [] \<or> rq_model_id r \<in> set (pr_supported_models p)) \<and>
    inflight_count p now < pr_queue_limit p \<and>
    estimate_request_memory_gb (rq_prompt_tokens r) (rq_generation_tokens r) (rq_model_id r)
      (rr_cache_saved_tokens res) \<le> memory_headroom_gb p \<and>
    of_int (rr_cache_saved_tokens res) \<le> 0.95 * (of_int (rq_prompt_tokens r) :: pyfloat)"
proof -
  obtain cands c p cp2 cand dec where rt: "routed pf r now cp cands c p cp2 cand dec"
    using route_ok [OF assms(1-3)] by blast
  note rtD = routedD [OF rt]
  have av: "cp_available cand"
    using execute_admitted_iff [OF assms(1) rt assms(2-4)] assms(5) by simp
  have saved: "rr_cache_saved_tokens res = cp_expected_cache_saved_tokens cand" and dec: "rr_decision res = dec"
    using execute_admitted_placed [OF rt av assms(4)] by (auto dest: place_request_fields)
  have "rejection r now c p (estimate_request_memory_gb (rq_prompt_tokens r) (rq_generation_tokens r)
      (rq_model_id r) (rr_cache_saved_tokens res)) = None"
    unfolding saved using candidate_ok_available [OF rtD(3)] av by blast
  with rtD(3,4,7,8) dec show ?thesis
    by (intro bexI [of _ "(c, p)"])
       (auto simp: rejection_def candidate_ok_def Let_def saved split: if_splits)
qed

text \<open>
  C1: a request is admitted only to a pool that can take it: the pool's cluster is not in a
  failure window, it serves the model, its queue is below its limit and its memory headroom covers
  what the request needs after the cache hit, which saves at most 95 percent of the prompt.
\<close>

theorem admitted_safely:
  assumes "platform_ok pf" and "plane_ok pf cp" and "request_ok r"
    and "execute pf r now cp = Inr (cp', res)" and "rr_admitted res"
  shows "\<exists>(c, p) \<in> set (placements cp).
    rd_cluster_id (rr_decision res) = cr_cluster_id c \<and> rd_pool_id (rr_decision res) = pr_pool_id p \<and>
    \<not> unavailable c now \<and> (pr_supported_models p = [] \<or> rq_model_id r \<in> set (pr_supported_models p)) \<and>
    inflight_count p now < pr_queue_limit p \<and>
    estimate_request_memory_gb (rq_prompt_tokens r) (rq_generation_tokens r) (rq_model_id r)
      (rr_cache_saved_tokens res) \<le> memory_headroom_gb p \<and>
    of_int (rr_cache_saved_tokens res) \<le> 0.95 * (of_int (rq_prompt_tokens r) :: pyfloat)"
  by (rule admitted_pool [OF assms])

text \<open>A larger memory need never turns a rejection into an acceptance.\<close>

lemma rejection_antimono:
  "needed \<le> needed' \<Longrightarrow> rejection r now c p needed' = None \<Longrightarrow> rejection r now c p needed = None"
  by (auto simp: rejection_def Let_def split: if_splits)

lemma admitted_when_possible:
  assumes "platform_ok pf" and "plane_ok pf cp" and "request_ok r"
    and "(c, p) \<in> set (placements cp)"
    and "rejection r now c p (estimate_request_memory_gb (rq_prompt_tokens r) (rq_generation_tokens r) (rq_model_id r) 0) = None"
    and "execute pf r now cp = Inr (cp', res)"
  shows "rr_admitted res"
proof -
  obtain cands c0 p0 cp2 cand dec where rt: "routed pf r now cp cands c0 p0 cp2 cand dec"
    using route_ok [OF assms(1-3)] by blast
  note rtD = routedD [OF rt]
  obtain cand' where mem: "cand' \<in> set cands" and ok: "candidate_ok r now c p cand'"
    using list_all2_left [OF rtD(10) assms(4)] by auto
  have "0 \<le> cp_expected_cache_saved_tokens cand'" using ok by (simp add: candidate_ok_def)
  then have "rejection r now c p (estimate_request_memory_gb (rq_prompt_tokens r) (rq_generation_tokens r)
      (rq_model_id r) (cp_expected_cache_saved_tokens cand')) = None"
    by (rule rejection_antimono [OF memory_estimate_antimono assms(5)])
  then have "cp_available cand'" using candidate_ok_available [OF ok] by blast
  with mem rtD(9) have "cp_available cand" by blast
  then show ?thesis using execute_admitted_iff [OF assms(1) rt assms(2,3,6)] by simp
qed

text \<open>
  C2: no request is turned away without need: if some pool is in a cluster that is up, serves the
  model, has queue room and headroom for the whole request (cache savings not counted), the
  request is admitted, whichever policy or external scheduler decides.
\<close>

theorem admitted_if_possible:
  assumes "platform_ok pf" and "plane_ok pf cp" and "request_ok r"
    and "(c, p) \<in> set (placements cp)"
    and "rejection r now c p (estimate_request_memory_gb (rq_prompt_tokens r) (rq_generation_tokens r) (rq_model_id r) 0) = None"
    and "execute pf r now cp = Inr (cp', res)"
  shows "rr_admitted res"
  by (rule admitted_when_possible [OF assms])

text \<open>
  C23: a rejected request changes no pool and no tenant's completions, carries a reason, and means
  that every pool would have refused the request in full.
\<close>

theorem rejection_is_complete:
  assumes "platform_ok pf" and "plane_ok pf cp" and "request_ok r"
    and "execute pf r now cp = Inr (cp', res)" and "\<not> rr_admitted res"
  shows "nm_clusters cp' = nm_clusters cp \<and> rr_rejection_reason res \<noteq> None \<and>
    dict_get TenantStats (nm_tenant_stats cp') t = dict_get TenantStats (nm_tenant_stats cp) t \<and>
    (\<forall>(c, p) \<in> set (placements cp). rejection r now c p
       (estimate_request_memory_gb (rq_prompt_tokens r) (rq_generation_tokens r) (rq_model_id r) 0) \<noteq> None)"
proof -
  obtain cands c0 p0 cp2 cand dec where rt: "routed pf r now cp cands c0 p0 cp2 cand dec"
    using route_ok [OF assms(1-3)] by blast
  note rtD = routedD [OF rt]
  have na: "\<not> cp_available cand" using execute_admitted_iff [OF assms(1) rt assms(2-4)] assms(5) by simp
  have eq: "cp' = cp2" "res = rejected_result r cand dec now"
    using execute_rejects [OF rt assms(2) na] assms(4) by simp_all
  have reason: "rr_rejection_reason res \<noteq> None"
  proof -
    have "cp_rejection_reason cand \<noteq> None" using rtD(3) na unfolding candidate_ok_def by metis
    then show ?thesis by (simp add: eq rejected_result_def)
  qed
  have "rejection r now c p (estimate_request_memory_gb (rq_prompt_tokens r) (rq_generation_tokens r)
      (rq_model_id r) 0) \<noteq> None" if cp: "(c, p) \<in> set (placements cp)" for c p
  proof
    assume none: "rejection r now c p (estimate_request_memory_gb (rq_prompt_tokens r) (rq_generation_tokens r)
      (rq_model_id r) 0) = None"
    obtain cand' where mem: "cand' \<in> set cands" and ok: "candidate_ok r now c p cand'"
      using list_all2_left [OF rtD(10) cp] by auto
    have "0 \<le> cp_expected_cache_saved_tokens cand'" using ok by (simp add: candidate_ok_def)
    from rejection_antimono [OF memory_estimate_antimono [OF this] none] candidate_ok_available [OF ok]
    have "cp_available cand'" by blast
    with mem rtD(9) na show False by blast
  qed
  with reason rtD(5,11) show ?thesis by (auto simp: eq)
qed

text \<open>
  Tenant accounting: executing a request adds one completion to its tenant exactly when it is
  admitted, a miss exactly when it also missed its SLA, and touches no other tenant.
\<close>

theorem tenant_accounting:
  assumes "platform_ok pf" and "plane_ok pf cp" and "request_ok r" and "execute pf r now cp = Inr (cp', res)"
  shows "dict_get TenantStats (nm_tenant_stats cp') t =
    (if t = rq_tenant_id r \<and> rr_admitted res then credit_tenant res (dict_get TenantStats (nm_tenant_stats cp) t)
     else dict_get TenantStats (nm_tenant_stats cp) t)"
proof -
  obtain cands c0 p0 cp2 cand dec where rt: "routed pf r now cp cands c0 p0 cp2 cand dec"
    using route_ok [OF assms(1-3)] by blast
  note rtD = routedD [OF rt]
  note iff = execute_admitted_iff [OF assms(1) rt assms(2-4)]
  show ?thesis
  proof (cases "cp_available cand")
    case True
    then show ?thesis
      using execute_admitted [OF assms(1) rt assms(3) True assms(4)] rtD(11) iff
      by (simp add: tenant_update_def dict_get_update)
  next
    case False
    then show ?thesis using execute_rejects [OF rt assms(2) False] assms(4) rtD(11) iff by simp
  qed
qed

text \<open>
  A policy name outside the registry is refused with a \<open>ValueError\<close>; every registered name
  builds the policy of that name.
\<close>

theorem build_policy_registry:
  "case build_policy pf name of
     Inl e \<Rightarrow> name \<notin> set (dict_keys (policy_registry pf)) \<and> e = ValueError (''Unknown policy: '' @ name)
   | Inr p \<Rightarrow> (name, p) \<in> set (policy_registry pf) \<and> policy_name p = name"
proof -
  have names: "p \<in> set (policy_registry pf) \<Longrightarrow> policy_name (snd p) = fst p" for p
    by (auto simp: policy_registry_def)
  show ?thesis
  proof (cases "map_of (policy_registry pf) name")
    case None
    then have "name \<notin> set (dict_keys (policy_registry pf))" by (simp add: adict.keys_lookup domIff)
    with None show ?thesis by (simp add: build_policy_def dict_item_def)
  next
    case (Some p)
    with map_of_SomeD [OF this] names [of "(name, p)"] show ?thesis by (simp add: build_policy_def dict_item_def)
  qed
qed

lemma completed_le_total:
  assumes "\<forall>s \<in> set (dict_values stats). 0 \<le> ts_completed s"
  shows "ts_completed (dict_get TenantStats stats t) \<le> total_completed stats" "0 \<le> total_completed stats"
proof -
  show "0 \<le> total_completed stats" using assms by (auto simp: total_completed_def intro!: sum_list_nonneg)
  show "ts_completed (dict_get TenantStats stats t) \<le> total_completed stats"
  proof (cases "map_of stats t")
    case None
    with \<open>0 \<le> total_completed stats\<close> show ?thesis by (simp add: dict_get_def TenantStats_def)
  next
    case (Some s)
    then have "s \<in> set (dict_values stats)" by (auto simp: dict_values_def dest: map_of_SomeD intro: rev_image_eqI)
    then have "ts_completed s \<in> set (map ts_completed (dict_values stats))" by simp
    then have "ts_completed s \<le> sum_list (map ts_completed (dict_values stats))"
      by (rule member_le_sum_list) (use assms in auto)
    with Some show ?thesis by (simp add: dict_get_def total_completed_def)
  qed
qed

text \<open>
  The fairness penalty of a tenant lies between 0 and the configured strength, and is zero
  exactly when the tenant's share of the completions does not exceed its share of the weights.
\<close>

theorem fairness_penalty_bounds:
  assumes "\<forall>s \<in> set (dict_values (nm_tenant_stats cp)). 0 \<le> ts_completed s"
    and "\<forall>w \<in> set (dict_values (nm_tenant_weights cp)). 0 \<le> w" and "0 < ec_fairness_strength (nm_config cp)"
    and "fairness_penalty t cp = (cp', x)"
  shows "0 \<le> x \<and> x \<le> ec_fairness_strength (nm_config cp) \<and>
    (x = 0 \<longleftrightarrow> total_completed (nm_tenant_stats cp) = 0 \<or>
       of_int (ts_completed (dict_get TenantStats (nm_tenant_stats cp) t)) / of_int (total_completed (nm_tenant_stats cp))
       \<le> dict_get 1 (nm_tenant_weights cp) t / max (1 / 10 ^ 9) (sum_list (dict_values (nm_tenant_weights cp))))"
proof (cases "total_completed (nm_tenant_stats cp) = 0")
  case True
  with assms(3,4) show ?thesis by (simp add: fairness_penalty_def)
next
  case False
  define a :: pyfloat where "a = of_int (ts_completed (dict_get TenantStats (nm_tenant_stats cp) t)) /
    of_int (total_completed (nm_tenant_stats cp))"
  define e where "e = dict_get 1 (nm_tenant_weights cp) t / max (1 / 10 ^ 9) (sum_list (dict_values (nm_tenant_weights cp)))"
  have x: "x = max 0 (a - e) * ec_fairness_strength (nm_config cp)"
    using assms(4) False by (simp add: fairness_penalty_def Let_def a_def e_def)
  have "0 < total_completed (nm_tenant_stats cp)"
    using completed_le_total(2) [OF assms(1)] False by simp
  then have "a \<le> 1"
    unfolding a_def using completed_le_total(1) [OF assms(1), of t] by (simp add: divide_le_eq_1)
  moreover have "0 \<le> dict_get 1 (nm_tenant_weights cp) t"
    using assms(2) by (cases "map_of (nm_tenant_weights cp) t")
      (auto simp: dict_get_def dict_values_def dest!: map_of_SomeD)
  then have "0 \<le> e" unfolding e_def by (intro divide_nonneg_nonneg) (auto simp: le_max_iff_disj)
  ultimately have m: "max 0 (a - e) \<le> 1" by simp
  have "x \<le> 1 * ec_fairness_strength (nm_config cp)"
    unfolding x using m assms(3) by (intro mult_right_mono) auto
  with False assms(3) show ?thesis unfolding x a_def [symmetric] e_def [symmetric] by (auto simp: max_def)
qed

text \<open>
  When a pool's queue limit exceeds its number of slots the check against the limit never
  fires: the queue it measures counts busy slots, which are at most the slots there are.
\<close>

theorem queue_limit_unreachable:
  assumes "pool_ok cl ps p" and "int (length (pr_slot_available_at p)) < ps_queue_limit ps"
  shows "rejection r now c p needed \<noteq> Some ''queue-limit''"
proof -
  have "inflight_count p now < pr_queue_limit p"
    using inflight_count_le_slots [of p now] assms(2) pool_ok_fields(3) [OF assms(1)] by simp
  then show ?thesis by (auto simp: rejection_def Let_def)
qed

section \<open>Examples\<close>

definition demo_platform :: "memory_client platform" where
  "demo_platform = \<lparr>pf_files = no_files, pf_redis = memory_redis,
     pf_redis_store = RedisDecisionStore memory_redis None [] False, pf_gpu = None, pf_grpc = None, pf_cpp = None,
     pf_sb3_installed = False, pf_pyg_installed = False\<rparr>"

definition demo_plane :: "memory_client control_plane" where
  "demo_plane = \<lparr>nm_config = demo_config, nm_topology = demo_topology,
     nm_cache_directory = KVCacheDirectory 180 20000 (RedisDecisionStore memory_redis None [] False),
     nm_backends = [(''mock'', MockBackend), (''vllm'', VLLMBackend), (''triton'', TritonBackend)],
     nm_clusters = build_runtime_clusters demo_config, nm_tenant_stats = [],
     nm_tenant_weights = wc_tenant_weights (ec_workload demo_config), nm_policy = MultiObjectivePolicy\<rparr>"

lemma demo_constructed: "NimbusMeshControlPlane demo_platform demo_config = Inr demo_plane"
  using demo_builds
  by (simp add: NimbusMeshControlPlane_def demo_platform_def demo_plane_def build_policy_def policy_registry_def
      dict_item_def) (simp add: demo_config_def)

lemma demo_platform_ok: "platform_ok demo_platform"
  by (simp add: platform_ok_def demo_platform_def memory.redis_hash_axioms)

lemma demo_mirror_ok: "mirror_ok (pf_redis demo_platform) (pf_redis_store demo_platform)"
  by (rule mirror_ok_disabled) (simp add: demo_platform_def RedisDecisionStore_def)

lemma demo_config_ok: "config_ok demo_config"
  using demo_ids_ok by (simp add: config_ok_def demo_defs)

lemma demo_plane_ok: "plane_ok demo_platform demo_plane"
  by (rule construct_ok [OF demo_config_ok demo_mirror_ok demo_constructed])

lemma demo_calm: "calm demo_platform demo_plane"
  using room_empty [of memory_redis "RedisDecisionStore memory_redis None [] False" 0 180 20000]
  by (auto simp: calm_def demo_plane_def demo_platform_def RedisDecisionStore_def redis_disabled intro!: exI [of _ 0])

lemma demo_executes: "request_ok r \<Longrightarrow> \<exists>cp res. execute demo_platform r 1 demo_plane = Inr (cp, res)"
  using execute_returns [OF demo_platform_ok demo_plane_ok _ demo_calm] by blast

theorem plane_invariant_witness:
  "\<exists>cp res. execute demo_platform demo_request 1 demo_plane = Inr (cp, res) \<and>
     clusters_ok (nm_config cp) (nm_clusters cp)"
proof -
  obtain cp res where ex: "execute demo_platform demo_request 1 demo_plane = Inr (cp, res)"
    using demo_executes [OF demo_request_ok] by blast
  have "plane_run demo_platform demo_config cp"
    by (rule plane_run.execute [OF plane_run.construct [OF demo_constructed] demo_request_ok ex])
  from plane_invariant [OF demo_platform_ok demo_mirror_ok demo_config_ok this] ex show ?thesis by blast
qed

theorem execute_total_witness:
  "\<exists>cp res. execute demo_platform demo_request 1 demo_plane = Inr (cp, res) \<and> plane_ok demo_platform cp"
  using execute_total [OF demo_platform_ok demo_plane_ok demo_request_ok demo_calm] by blast

definition demo_h100 :: cluster_runtime where
  "demo_h100 = cluster_from_spec demo_h100_cluster"

lemma demo_pool_from_spec: "pool_from_spec demo_h100_cluster demo_h100_pool = demo_pool"
  by (simp add: pool_from_spec_def pool_post_init_def demo_pool_def demo_defs numeral_2_eq_2)

lemma demo_clusters:
  "nm_clusters demo_plane = [(''eastus-bw'', cluster_from_spec demo_bw_cluster), (''centralus-h100'', demo_h100)]"
  "dict_values (cr_pools demo_h100) = [demo_pool]"
  "dict_values (cr_pools (cluster_from_spec demo_bw_cluster)) = [pool_from_spec demo_bw_cluster demo_bw_pool]"
proof -
  show "nm_clusters demo_plane = [(''eastus-bw'', cluster_from_spec demo_bw_cluster), (''centralus-h100'', demo_h100)]"
  proof -
    have "ec_clusters demo_config = [demo_bw_cluster, demo_h100_cluster]" by (simp add: demo_config_def)
    moreover have "cs_cluster_id demo_bw_cluster = ''eastus-bw''" "cs_cluster_id demo_h100_cluster = ''centralus-h100''"
      by (simp_all add: demo_bw_cluster_def demo_h100_cluster_def)
    ultimately show ?thesis by (simp add: demo_plane_def build_runtime_clusters_def demo_h100_def)
  qed
  have "cs_pools demo_h100_cluster = [demo_h100_pool]" by (simp add: demo_h100_cluster_def)
  then show "dict_values (cr_pools demo_h100) = [demo_pool]"
    by (simp add: demo_h100_def cluster_from_spec_def dict_values_def demo_pool_from_spec)
  have "cs_pools demo_bw_cluster = [demo_bw_pool]" by (simp add: demo_bw_cluster_def)
  then show "dict_values (cr_pools (cluster_from_spec demo_bw_cluster)) = [pool_from_spec demo_bw_cluster demo_bw_pool]"
    by (simp add: cluster_from_spec_def dict_values_def)
qed

lemma demo_placements:
  "placements demo_plane =
     [(cluster_from_spec demo_bw_cluster, pool_from_spec demo_bw_cluster demo_bw_pool), (demo_h100, demo_pool)]"
proof -
  have "dict_values (nm_clusters demo_plane) = [cluster_from_spec demo_bw_cluster, demo_h100]"
    by (simp add: demo_clusters(1) dict_values_def)
  then show ?thesis by (simp add: placements_def demo_clusters(2,3))
qed

lemma demo_h100_accepts:
  "rejection demo_request 1 demo_h100 demo_pool
     (estimate_request_memory_gb (rq_prompt_tokens demo_request) (rq_generation_tokens demo_request)
        (rq_model_id demo_request) 0) = None"
  by (simp add: rejection_def Let_def unavailable_def demo_h100_def cluster_from_spec_def demo_h100_cluster_def
      demo_pool_def inflight_count_def memory_headroom_gb_def estimate_request_memory_gb_def demo_request_def
      model_scale_def MODEL_SCALE_HINTS_def dict_get_def)

lemma demo_admitted:
  "\<exists>cp res. execute demo_platform demo_request 1 demo_plane = Inr (cp, res) \<and> rr_admitted res"
proof -
  obtain cp res where ex: "execute demo_platform demo_request 1 demo_plane = Inr (cp, res)"
    using demo_executes [OF demo_request_ok] by blast
  have "(demo_h100, demo_pool) \<in> set (placements demo_plane)" by (simp add: demo_placements)
  from admitted_when_possible [OF demo_platform_ok demo_plane_ok demo_request_ok this demo_h100_accepts ex] ex
  show ?thesis by blast
qed

theorem admitted_safely_witness:
  "\<exists>cp res. execute demo_platform demo_request 1 demo_plane = Inr (cp, res) \<and> rr_admitted res \<and>
     (\<exists>(c, p) \<in> set (placements demo_plane). rd_cluster_id (rr_decision res) = cr_cluster_id c \<and> \<not> unavailable c 1)"
proof -
  obtain cp res where ex: "execute demo_platform demo_request 1 demo_plane = Inr (cp, res)" and adm: "rr_admitted res"
    using demo_admitted by blast
  from admitted_safely [OF demo_platform_ok demo_plane_ok demo_request_ok ex adm] ex adm show ?thesis by blast
qed

theorem admitted_if_possible_witness:
  "\<exists>cp res. execute demo_platform demo_request 1 demo_plane = Inr (cp, res) \<and> rr_admitted res"
proof -
  obtain cp res where ex: "execute demo_platform demo_request 1 demo_plane = Inr (cp, res)"
    using demo_executes [OF demo_request_ok] by blast
  have "(demo_h100, demo_pool) \<in> set (placements demo_plane)" by (simp add: demo_placements)
  from admitted_if_possible [OF demo_platform_ok demo_plane_ok demo_request_ok this demo_h100_accepts ex] ex
  show ?thesis by blast
qed

text \<open>A request whose generation fits no pool, for a model the premium pool does not serve.\<close>

definition demo_huge :: inference_request where
  "demo_huge = demo_request\<lparr>rq_generation_tokens := 10000000\<rparr>"

lemma demo_huge_ok: "request_ok demo_huge"
  by (simp add: demo_huge_def request_ok_def demo_request_def SLA_PRIORITY_def)

lemma demo_huge_rejected:
  assumes "execute demo_platform demo_huge 1 demo_plane = Inr (cp, res)"
  shows "\<not> rr_admitted res"
proof
  assume "rr_admitted res"
  from admitted_pool [OF demo_platform_ok demo_plane_ok demo_huge_ok assms this] obtain c p where
    cp: "(c, p) \<in> set (placements demo_plane)"
    and sup: "pr_supported_models p = [] \<or> rq_model_id demo_huge \<in> set (pr_supported_models p)"
    and mem: "estimate_request_memory_gb 1000 10000000 ''llama-3-8b'' (rr_cache_saved_tokens res) \<le> memory_headroom_gb p"
    and saved: "of_int (rr_cache_saved_tokens res) \<le> 0.95 * (1000 :: pyfloat)"
    by (auto simp: demo_huge_def demo_request_def)
  from sup cp have p: "p = demo_pool"
    by (auto simp: demo_placements demo_huge_def demo_request_def pool_from_spec_def pool_post_init_def demo_defs)
  have "rr_cache_saved_tokens res \<le> 950" using saved by simp
  then have "estimate_request_memory_gb 1000 10000000 ''llama-3-8b'' 950 \<le> memory_headroom_gb p"
    by (rule order_trans [OF memory_estimate_antimono mem])
  then show False
    by (simp add: p memory_headroom_gb_def demo_pool_def estimate_request_memory_gb_def model_scale_def
        MODEL_SCALE_HINTS_def dict_get_def)
qed

theorem rejection_is_complete_witness:
  "\<exists>cp res. execute demo_platform demo_huge 1 demo_plane = Inr (cp, res) \<and>
     nm_clusters cp = nm_clusters demo_plane \<and> rr_rejection_reason res \<noteq> None"
proof -
  obtain cp res where ex: "execute demo_platform demo_huge 1 demo_plane = Inr (cp, res)"
    using demo_executes [OF demo_huge_ok] by blast
  from rejection_is_complete [OF demo_platform_ok demo_plane_ok demo_huge_ok ex demo_huge_rejected [OF ex]] ex
  show ?thesis by blast
qed

theorem tenant_accounting_witness:
  "\<exists>cp res. execute demo_platform demo_request 1 demo_plane = Inr (cp, res) \<and>
     ts_completed (dict_get TenantStats (nm_tenant_stats cp) ''copilot'') = 1 \<and>
     ts_completed (dict_get TenantStats (nm_tenant_stats cp) ''search'') = 0"
proof -
  obtain cp res where ex: "execute demo_platform demo_request 1 demo_plane = Inr (cp, res)" and adm: "rr_admitted res"
    using demo_admitted by blast
  have "nm_tenant_stats demo_plane = []" and "rq_tenant_id demo_request = ''copilot''"
    by (simp_all add: demo_plane_def demo_request_def)
  with tenant_accounting [OF demo_platform_ok demo_plane_ok demo_request_ok ex] ex adm show ?thesis
    by (auto simp: credit_tenant_def TenantStats_def)
qed

theorem fairness_penalty_bounds_witness:
  "0 \<le> snd (fairness_penalty ''copilot'' (demo_plane\<lparr>nm_tenant_stats := [(''copilot'', TenantStats\<lparr>ts_completed := 3\<rparr>)]\<rparr>)) \<and>
   snd (fairness_penalty ''copilot'' (demo_plane\<lparr>nm_tenant_stats := [(''copilot'', TenantStats\<lparr>ts_completed := 3\<rparr>)]\<rparr>)) \<le> 0.35"
proof -
  let ?cp = "demo_plane\<lparr>nm_tenant_stats := [(''copilot'', TenantStats\<lparr>ts_completed := 3\<rparr>)]\<rparr>"
  obtain cp' x where fp: "fairness_penalty ''copilot'' ?cp = (cp', x)" by force
  from fairness_penalty_bounds [OF _ _ _ fp] fp show ?thesis
    by (simp add: dict_values_def demo_plane_def demo_config_def demo_workload_def)
qed

theorem queue_limit_unreachable_witness:
  "rejection demo_request 1 demo_h100 demo_pool 1 \<noteq> Some ''queue-limit''"
proof -
  have "pool_ok demo_h100_cluster demo_h100_pool demo_pool"
    unfolding demo_pool_from_spec [symmetric] by (rule pool_from_spec_ok) (simp add: demo_h100_pool_def)
  then show ?thesis
    by (rule queue_limit_unreachable) (simp add: demo_pool_def demo_h100_pool_def)
qed

end
