(* ===== verification/Workload.thy ===== *)
theory Workload
  imports Samples Csv
begin

text \<open>
  The workload generator of \<open>workload_gen/generator.py\<close>. Its random source is an abstract state
  \<open>'g\<close>: the record \<open>rng\<close> names the primitive draws of \<open>random.Random\<close> (seeding, \<open>random()\<close>, an
  index below a bound, and the exponential, normal and log-normal variates, which need
  logarithms); \<open>uniform\<close>, \<open>choice\<close> and \<open>choices\<close> are written out on top of them, \<open>choices\<close> with
  the binary search of the \<open>bisect\<close> module. A trace is read with \<open>csv.DictReader\<close> from the text of
  its file; a row that ends before its \<open>request_id\<close> column, which the code would give the identifier
  \<open>None\<close>, is refused. The lemmas show that a generated workload is what
  the control plane expects: valid requests, as many as configured, in order of arrival.
\<close>

section \<open>Draws\<close>

record 'g rng =
  rg_seed :: "int \<Rightarrow> 'g"
  rg_random :: "'g \<Rightarrow> pyfloat \<times> 'g"
  rg_below :: "int \<Rightarrow> 'g \<Rightarrow> int \<times> 'g"
  rg_expovariate :: "pyfloat \<Rightarrow> 'g \<Rightarrow> pyfloat \<times> 'g"
  rg_gauss :: "pyfloat \<Rightarrow> pyfloat \<Rightarrow> 'g \<Rightarrow> pyfloat \<times> 'g"
  rg_lognormal :: "pyfloat \<Rightarrow> pyfloat \<Rightarrow> 'g \<Rightarrow> pyfloat \<times> 'g"

text \<open>\<open>rg_lognormal rng m s\<close> stands for \<open>lognormvariate(math.log(m), s)\<close>.\<close>

definition rng_uniform :: "'g rng \<Rightarrow> pyfloat \<Rightarrow> pyfloat \<Rightarrow> 'g \<Rightarrow> pyfloat \<times> 'g" where
  "rng_uniform rng a b g = (case rg_random rng g of (u, g') \<Rightarrow> (a + (b - a) * u, g'))"

definition rng_choice :: "'g rng \<Rightarrow> 'a list \<Rightarrow> 'g \<Rightarrow> ('a \<times> 'g) result" where
  "rng_choice rng xs g =
     (if xs = [] then Inl IndexError
      else case rg_below rng (int (length xs)) g of (i, g') \<Rightarrow> ebind (py_item xs i) (\<lambda>x. Inr (x, g')))"

text \<open>\<open>bisect.bisect_right(a, x, lo, hi)\<close>.\<close>

function bisect_right :: "pyfloat list \<Rightarrow> pyfloat \<Rightarrow> nat \<Rightarrow> nat \<Rightarrow> nat" where
  "bisect_right a x lo hi =
     (if lo < hi
      then let mid = (lo + hi) div 2 in if x < a ! mid then bisect_right a x lo mid else bisect_right a x (mid + 1) hi
      else lo)"
  by pat_completeness auto
termination
  by (relation "measure (\<lambda>(a, x, lo, hi). hi - lo)") auto

declare bisect_right.simps [simp del]

text \<open>\<open>itertools.accumulate\<close>.\<close>

fun accumulate :: "pyfloat \<Rightarrow> pyfloat list \<Rightarrow> pyfloat list" where
  "accumulate s [] = []"
| "accumulate s (w # ws) = (s + w) # accumulate (s + w) ws"

definition weighted_choice :: "'g rng \<Rightarrow> (string, pyfloat) dict \<Rightarrow> 'g \<Rightarrow> (string \<times> 'g) result" where
  "weighted_choice rng weights g =
     (let population = dict_keys weights;
          cum_weights = accumulate 0 (dict_values weights)
      in if cum_weights = [] then Inl IndexError
         else if last cum_weights \<le> 0 then Inl (ValueError ''Total of weights must be greater than zero'')
         else case rg_random rng g of (u, g') \<Rightarrow>
           Inr (population ! bisect_right cum_weights (u * last cum_weights) 0 (length population - 1), g'))"

section \<open>WorkloadGenerator\<close>

record 'g workload_env =
  we_rng :: "'g rng"
  we_hash :: "string \<Rightarrow> string"
  we_files :: "string \<Rightarrow> string option"

type_synonym sessions = "(string \<times> string, string list) dict"

definition sample_tokens :: "'g rng \<Rightarrow> distribution_config \<Rightarrow> 'g \<Rightarrow> int \<times> 'g" where
  "sample_tokens rng distribution g =
     (let (value, g') =
            (if dc_distribution distribution = ''uniform'' then rng_uniform rng (of_int (dc_min distribution)) (of_int (dc_max distribution)) g
             else if dc_distribution distribution = ''normal''
             then rg_gauss rng (dc_mean distribution) (dc_sigma distribution * dc_mean distribution) g
             else rg_lognormal rng (max 1 (dc_mean distribution)) (dc_sigma distribution) g)
      in (py_int (max (of_int (dc_min distribution)) (min (of_int (dc_max distribution)) value)), g'))"

definition pick_session ::
  "'g rng \<Rightarrow> workload_config \<Rightarrow> string \<Rightarrow> string \<Rightarrow> 'g \<times> sessions \<Rightarrow> (string \<times> 'g \<times> sessions) result" where
  "pick_session rng config tenant_id model_id state =
     (case state of (g, sessions0) \<Rightarrow>
      let key = (tenant_id, model_id);
          sessions = dd_touch [] key sessions0;
          known = dict_get [] sessions key;
          (reuse, g1) = (if known = [] then (False, g)
                         else case rg_random rng g of (u, g') \<Rightarrow> (u < wc_session_reuse_probability config, g'))
      in if reuse then ebind (rng_choice rng known g1) (\<lambda>(s, g2). Inr (s, g2, sessions))
         else let session_id = tenant_id @ ''-'' @ model_id @ ''-'' @ zfill 4 (show_nat (length known))
              in Inr (session_id, g1, AList.update key (known @ [session_id]) sessions))"

definition burst_windows :: "pyfloat \<Rightarrow> (pyfloat \<times> pyfloat) list" where
  "burst_windows duration =
     [(duration * 0.2, duration * 0.3), (duration * 0.55, duration * 0.65), (duration * 0.8, duration * 0.9)]"

fun bursty_arrivals :: "'g rng \<Rightarrow> workload_config \<Rightarrow> nat \<Rightarrow> 'g \<Rightarrow> (pyfloat list \<times> 'g) result" where
  "bursty_arrivals rng config 0 g = Inr ([], g)"
| "bursty_arrivals rng config (Suc n) g =
     (case rg_random rng g of (u, g1) \<Rightarrow>
      ebind (if u < min 0.75 (0.35 * wc_burst_factor config)
             then ebind (rng_choice rng (burst_windows (wc_duration_s config)) g1)
                    (\<lambda>((start, finish), g2). Inr (rng_uniform rng start finish g2))
             else Inr (rng_uniform rng 0 (wc_duration_s config) g1)) (\<lambda>(t, g2).
      ebind (bursty_arrivals rng config n g2) (\<lambda>(ts, g3). Inr (t # ts, g3))))"

fun poisson_arrivals :: "'g rng \<Rightarrow> pyfloat \<Rightarrow> pyfloat \<Rightarrow> nat \<Rightarrow> pyfloat \<Rightarrow> 'g \<Rightarrow> pyfloat list \<times> 'g" where
  "poisson_arrivals rng rate duration 0 now g = ([], g)"
| "poisson_arrivals rng rate duration (Suc n) now g =
     (let (gap, g1) = rg_expovariate rng rate g;
          (ts, g2) = poisson_arrivals rng rate duration n (now + gap) g1
      in (min duration (now + gap) # ts, g2))"

definition generate_arrivals :: "'g rng \<Rightarrow> workload_config \<Rightarrow> 'g \<Rightarrow> (pyfloat list \<times> 'g) result" where
  "generate_arrivals rng config g =
     (let request_count = wc_request_count config; duration = wc_duration_s config
      in if wc_arrival_pattern config = ''uniform''
         then Inr (map (\<lambda>i. of_nat i * (duration / of_int (max 1 request_count))) [0..<nat request_count], g)
         else if wc_arrival_pattern config = ''bursty''
         then ebind (bursty_arrivals rng config (nat request_count) g) (\<lambda>(ts, g'). Inr (sort ts, g'))
         else Inr (poisson_arrivals rng (of_int request_count / max duration (1 / 10 ^ 9)) duration (nat request_count) 0 g))"

definition SLA_LATENCY :: "(string, pyfloat) dict" where
  "SLA_LATENCY = [(''realtime'', 900), (''interactive'', 1800), (''best_effort'', 4200)]"

text \<open>The salt \<open>f"{prompt_tokens // 256}:{generation_tokens // 128}"\<close>.\<close>

definition token_salt :: "int \<Rightarrow> int \<Rightarrow> string" where
  "token_salt prompt_tokens generation_tokens =
     show_int (prompt_tokens div 256) @ '':'' @ show_int (generation_tokens div 128)"

text \<open>One iteration of the loop of \<open>generate_requests\<close>.\<close>

definition generate_request ::
  "'g workload_env \<Rightarrow> workload_config \<Rightarrow> int \<Rightarrow> nat \<Rightarrow> pyfloat \<Rightarrow> 'g \<times> sessions
    \<Rightarrow> (inference_request \<times> 'g \<times> sessions) result" where
  "generate_request env config seed index arrival_ts state =
     (case state of (g0, sessions0) \<Rightarrow>
      let rng = we_rng env in
      ebind (weighted_choice rng (wc_tenant_weights config) g0) (\<lambda>(tenant_id, g1).
      ebind (weighted_choice rng (wc_model_mix config) g1) (\<lambda>(model_id, g2).
      ebind (weighted_choice rng (wc_sla_mix config) g2) (\<lambda>(sla_class, g3).
      ebind (pick_session rng config tenant_id model_id (g3, sessions0)) (\<lambda>(session_id, g4, sessions).
      let (prompt_tokens, g5) = sample_tokens rng (wc_prompt_tokens config) g4;
          (generation_tokens, g6) = sample_tokens rng (wc_generation_tokens config) g5;
          (u, g7) = rg_random rng g6;
          prefix_signature =
            (if u < wc_cache_hostility config
             then stable_prefix_signature (we_hash env) tenant_id model_id None (''hostile-'' @ show_nat index)
             else stable_prefix_signature (we_hash env) tenant_id model_id (Some session_id)
                    (token_salt prompt_tokens generation_tokens))
      in ebind (dict_item SLA_LATENCY sla_class (KeyError sla_class)) (\<lambda>max_latency_ms.
         ebind (InferenceRequest (we_hash env) (''req-'' @ zfill 6 (show_nat index)) tenant_id model_id
                  prompt_tokens generation_tokens (py_round 4 arrival_ts) sla_class (Some session_id)
                  (Some prefix_signature) max_latency_ms [(''seed'', JInt seed)]) (\<lambda>request.
         Inr (request, g7, sessions))))))))"

fun generate_each ::
  "'g workload_env \<Rightarrow> workload_config \<Rightarrow> int \<Rightarrow> nat \<Rightarrow> pyfloat list \<Rightarrow> 'g \<times> sessions
    \<Rightarrow> (inference_request list \<times> 'g \<times> sessions) result" where
  "generate_each env config seed index [] state = Inr ([], state)"
| "generate_each env config seed index (t # ts) state =
     ebind (generate_request env config seed index t state) (\<lambda>(request, state1).
     ebind (generate_each env config seed (Suc index) ts state1) (\<lambda>(requests, state2).
       Inr (request # requests, state2)))"

section \<open>Replaying a trace\<close>

definition TRACE_COLUMNS :: "string list" where
  "TRACE_COLUMNS = [''timestamp'', ''request_id'', ''prompt_length'', ''expected_output_length'', ''tenant_id'',
     ''priority_class'']"

text \<open>\<open>repr\<close> of a list of plain identifiers.\<close>

fun show_quoted :: "string list \<Rightarrow> string" where
  "show_quoted [] = []"
| "show_quoted [s] = [CHR 0x27] @ s @ [CHR 0x27]"
| "show_quoted (s # t # ss) = [CHR 0x27] @ s @ [CHR 0x27] @ '', '' @ show_quoted (t # ss)"

definition show_strings :: "string list \<Rightarrow> string" where
  "show_strings ss = ''['' @ show_quoted ss @ '']''"

text \<open>\<open>xs[:n]\<close>.\<close>

definition py_prefix :: "int \<Rightarrow> 'a list \<Rightarrow> 'a list" where
  "py_prefix n xs = take (nat (if n < 0 then n + int (length xs) else n)) xs"

text \<open>\<open>row.get(k, d) or d\<close>.\<close>

definition row_or :: "csv_row \<Rightarrow> string \<Rightarrow> string \<Rightarrow> string" where
  "row_or row k d = (case dict_get (Some d) row k of None \<Rightarrow> d | Some v \<Rightarrow> if v = [] then d else v)"

text \<open>\<open>float(row[k])\<close>.\<close>

definition cell_float :: "string option \<Rightarrow> pyfloat result" where
  "cell_float v =
     (case v of None \<Rightarrow> Inl TypeError
      | Some s \<Rightarrow> (case parse_float s of None \<Rightarrow> Inl (ValueError s) | Some x \<Rightarrow> Inr x))"

definition row_float :: "csv_row \<Rightarrow> string \<Rightarrow> pyfloat result" where
  "row_float row k = ebind (dict_item row k (KeyError k)) cell_float"

definition trace_request ::
  "'g workload_env \<Rightarrow> workload_config \<Rightarrow> int \<Rightarrow> string \<Rightarrow> pyfloat \<Rightarrow> nat \<Rightarrow> csv_row \<Rightarrow> 'g \<times> sessions
    \<Rightarrow> (inference_request \<times> 'g \<times> sessions) result" where
  "trace_request env config seed path first_ts index row state =
     ebind (row_float row ''timestamp'') (\<lambda>raw_ts.
     ebind (row_float row ''prompt_length'') (\<lambda>prompt_length.
     ebind (row_float row ''expected_output_length'') (\<lambda>output_length.
     ebind (dict_item row ''tenant_id'' (KeyError ''tenant_id'')) (\<lambda>tenant.
     let arrival_ts = max 0 ((raw_ts - first_ts) / max (1 / 10 ^ 9) (wc_trace_replay_speed config));
         prompt_tokens = max 1 (py_int prompt_length);
         generation_tokens = max 1 (py_int output_length);
         tenant_id = (case tenant of None \<Rightarrow> ''tenant-unknown'' | Some t \<Rightarrow> if t = [] then ''tenant-unknown'' else t);
         sla_class = row_or row ''priority_class'' (wc_trace_default_sla config);
         model_id = row_or row ''model_id'' (wc_trace_default_model config);
         given = row_or row ''session_id'' []
     in ebind (if given = [] then pick_session (we_rng env) config tenant_id model_id state else Inr (given, state))
          (\<lambda>(session_id, state').
        ebind (case dict_get (Some (''trace-'' @ zfill 6 (show_nat index))) row ''request_id'' of
                 None \<Rightarrow> Inl TypeError | Some request_id \<Rightarrow> Inr request_id) (\<lambda>request_id.
        ebind (InferenceRequest (we_hash env) request_id tenant_id model_id prompt_tokens generation_tokens (py_round 4 arrival_ts)
                 (if sla_class \<in> {''realtime'', ''interactive'', ''best_effort''} then sla_class else ''interactive'')
                 (Some session_id)
                 (Some (stable_prefix_signature (we_hash env) tenant_id model_id (Some session_id)
                    (token_salt prompt_tokens generation_tokens)))
                 (dict_get 1800 SLA_LATENCY sla_class)
                 [(''seed'', JInt seed), (''source'', JStr path)]) (\<lambda>request.
          Inr (request, state'))))))))"

fun trace_each ::
  "'g workload_env \<Rightarrow> workload_config \<Rightarrow> int \<Rightarrow> string \<Rightarrow> pyfloat \<Rightarrow> nat \<Rightarrow> csv_row list \<Rightarrow> 'g \<times> sessions
    \<Rightarrow> (inference_request list \<times> 'g \<times> sessions) result" where
  "trace_each env config seed path first_ts index [] state = Inr ([], state)"
| "trace_each env config seed path first_ts index (row # rows) state =
     ebind (trace_request env config seed path first_ts index row state) (\<lambda>(request, state1).
     ebind (trace_each env config seed path first_ts (Suc index) rows state1) (\<lambda>(requests, state2).
       Inr (request # requests, state2)))"

definition generate_requests_from_trace ::
  "'g workload_env \<Rightarrow> workload_config \<Rightarrow> int \<Rightarrow> string \<Rightarrow> 'g \<times> sessions
    \<Rightarrow> (inference_request list \<times> 'g \<times> sessions) result" where
  "generate_requests_from_trace env config seed path state =
     (case we_files env path of None \<Rightarrow> Inl (FileNotFoundError (''Trace file not found: '' @ path))
      | Some content \<Rightarrow>
          let (fieldnames, all_rows) = DictReader content; missing = filter (\<lambda>c. c \<notin> set fieldnames) TRACE_COLUMNS in
          if missing \<noteq> [] then Inl (ValueError (''Trace file is missing required columns: '' @ show_strings (sort missing)))
          else let rows = (case wc_trace_limit config of None \<Rightarrow> all_rows | Some n \<Rightarrow> py_prefix n all_rows)
               in ebind (case rows of [] \<Rightarrow> Inr 0 | row # _ \<Rightarrow> row_float row ''timestamp'') (\<lambda>first_ts.
                  ebind (trace_each env config seed path first_ts 0 rows state) (\<lambda>(requests, state').
                    Inr (if 0 < wc_request_count config \<and> wc_request_count config < int (length requests)
                         then py_prefix (wc_request_count config) requests else requests, state'))))"

definition generate_requests ::
  "'g workload_env \<Rightarrow> workload_config \<Rightarrow> int \<Rightarrow> (inference_request list \<times> 'g \<times> sessions) result" where
  "generate_requests env config seed =
     (let state = (rg_seed (we_rng env) seed, [])
      in case wc_trace_path config of
           Some (c # path) \<Rightarrow> generate_requests_from_trace env config seed (c # path) state
         | _ \<Rightarrow>
             ebind (generate_arrivals (we_rng env) config (fst state)) (\<lambda>(arrivals, g).
               generate_each env config seed 0 arrivals (g, snd state)))"

section \<open>What the draws promise\<close>

text \<open>
  The documented ranges of the primitive draws: \<open>random()\<close> is in \<open>[0, 1)\<close>, an index is below its
  bound, and an exponential variate of positive rate is not negative.
\<close>

definition rng_ok :: "'g rng \<Rightarrow> bool" where
  "rng_ok rng \<longleftrightarrow>
     (\<forall>g. 0 \<le> fst (rg_random rng g) \<and> fst (rg_random rng g) < 1) \<and>
     (\<forall>n g. 0 < n \<longrightarrow> 0 \<le> fst (rg_below rng n g) \<and> fst (rg_below rng n g) < n) \<and>
     (\<forall>rate g. 0 < rate \<longrightarrow> 0 \<le> fst (rg_expovariate rng rate g))"

lemma rng_okD:
  assumes "rng_ok rng"
  shows "rg_random rng g = (u, g') \<Longrightarrow> 0 \<le> u \<and> u < 1"
    and "0 < n \<Longrightarrow> rg_below rng n g = (i, g') \<Longrightarrow> 0 \<le> i \<and> i < n"
    and "0 < rate \<Longrightarrow> rg_expovariate rng rate g = (x, g') \<Longrightarrow> 0 \<le> x"
  using assms unfolding rng_ok_def by (metis fst_conv)+

lemma rng_uniform_range:
  assumes "rng_ok rng" and "a \<le> b"
  shows "\<exists>x g'. rng_uniform rng a b g = (x, g') \<and> a \<le> x \<and> x \<le> b"
proof -
  obtain u g' where u: "rg_random rng g = (u, g')" by force
  then have "0 \<le> u" "u \<le> 1" using rng_okD(1) [OF assms(1)] by (auto simp: less_imp_le)
  then have "0 \<le> (b - a) * u" "(b - a) * u \<le> b - a"
    using assms(2) mult_left_mono [of u 1 "b - a"] by simp_all
  with u show ?thesis by (simp add: rng_uniform_def)
qed

lemma rng_choice_member:
  assumes "rng_ok rng" and "xs \<noteq> []"
  shows "\<exists>x g'. rng_choice rng xs g = Inr (x, g') \<and> x \<in> set xs"
proof -
  obtain i g' where i: "rg_below rng (int (length xs)) g = (i, g')" by force
  then have "0 \<le> i" "i < int (length xs)" using rng_okD(2) [OF assms(1), of "int (length xs)"] assms(2) by auto
  with i assms(2) show ?thesis by (auto simp: rng_choice_def)
qed

section \<open>Weighted choice\<close>

lemma bisect_right_bounds: "lo \<le> hi \<Longrightarrow> lo \<le> bisect_right a x lo hi \<and> bisect_right a x lo hi \<le> hi"
proof (induction a x lo hi rule: bisect_right.induct)
  case (1 a x lo hi)
  define mid where "mid = (lo + hi) div 2"
  show ?case
  proof (cases "lo < hi")
    case True
    then have mid: "lo \<le> mid" "mid < hi" by (auto simp: mid_def)
    have "x < a ! mid \<Longrightarrow> lo \<le> bisect_right a x lo mid \<and> bisect_right a x lo mid \<le> mid"
      and "\<not> x < a ! mid \<Longrightarrow> mid + 1 \<le> bisect_right a x (mid + 1) hi \<and> bisect_right a x (mid + 1) hi \<le> hi"
      using "1.IH" [OF True mid_def] mid by auto
    with True mid show ?thesis by (subst (1 2) bisect_right.simps) (auto simp: mid_def [symmetric] Let_def)
  qed (use "1.prems" in \<open>simp add: bisect_right.simps\<close>)
qed

text \<open>On a sorted list the search returns the insertion point to the right of equal elements.\<close>

lemma bisect_right_correct:
  assumes "sorted a" and "lo \<le> hi" and "hi \<le> length a"
    and "\<forall>i < lo. a ! i \<le> x" and "\<forall>i < length a. hi \<le> i \<longrightarrow> x < a ! i"
  shows "(\<forall>i < bisect_right a x lo hi. a ! i \<le> x) \<and>
    (\<forall>i < length a. bisect_right a x lo hi \<le> i \<longrightarrow> x < a ! i)"
  using assms
proof (induction a x lo hi rule: bisect_right.induct)
  case (1 a x lo hi)
  define mid where "mid = (lo + hi) div 2"
  show ?case
  proof (cases "lo < hi")
    case True
    then have mid: "lo \<le> mid" "mid < hi" by (auto simp: mid_def)
    show ?thesis
    proof (cases "x < a ! mid")
      case left: True
      have "\<forall>i < length a. mid \<le> i \<longrightarrow> x < a ! i"
        using left sorted_nth_mono [OF "1.prems"(1), of mid] by (meson less_le_trans)
      with "1.IH"(1) [OF True mid_def left] "1.prems" mid True left show ?thesis
        by (simp add: bisect_right.simps [of a x lo hi] mid_def [symmetric] Let_def)
    next
      case right: False
      have "\<forall>i < mid + 1. a ! i \<le> x"
      proof (intro allI impI)
        fix i assume "i < mid + 1"
        then have "a ! i \<le> a ! mid" using sorted_nth_mono [OF "1.prems"(1), of i mid] mid "1.prems"(3) by simp
        with right show "a ! i \<le> x" by simp
      qed
      with "1.IH"(2) [OF True mid_def right] "1.prems" mid True right show ?thesis
        by (simp add: bisect_right.simps [of a x lo hi] mid_def [symmetric] Let_def)
    qed
  qed (use "1.prems" in \<open>auto simp: bisect_right.simps\<close>)
qed

lemma accumulate_length [simp]: "length (accumulate s ws) = length ws"
  by (induction ws arbitrary: s) simp_all

lemma accumulate_nth: "i < length ws \<Longrightarrow> accumulate s ws ! i = s + sum_list (take (Suc i) ws)"
proof (induction ws arbitrary: s i)
  case (Cons w ws)
  then show ?case by (cases i) (simp_all add: add.assoc)
qed simp

lemma accumulate_sorted: "\<forall>w \<in> set ws. 0 \<le> w \<Longrightarrow> sorted (accumulate s ws) \<and> (\<forall>y \<in> set (accumulate s ws). s \<le> y)"
proof (induction ws arbitrary: s)
  case (Cons w ws)
  from Cons.IH [of "s + w"] Cons.prems show ?case by (auto intro: order_trans [of s "s + w"])
qed simp

lemma accumulate_last: "ws \<noteq> [] \<Longrightarrow> last (accumulate s ws) = s + sum_list ws"
proof (induction ws arbitrary: s)
  case (Cons w ws)
  show ?case
  proof (cases "ws = []")
    case False
    then have "accumulate (s + w) ws \<noteq> []" by (cases ws) simp_all
    with Cons.IH [OF False, of "s + w"] show ?thesis by simp
  qed simp
qed simp

text \<open>Weights a draw can be made with: none negative, and not all zero.\<close>

definition weights_ok :: "(string, pyfloat) dict \<Rightarrow> bool" where
  "weights_ok weights \<longleftrightarrow> (\<forall>w \<in> set (dict_values weights). 0 \<le> w) \<and> 0 < sum_list (dict_values weights)"

text \<open>A weighted choice returns a key, and never one of weight zero.\<close>

lemma weighted_choice_positive:
  assumes "rng_ok rng" and "weights_ok weights"
  shows "\<exists>k w g'. weighted_choice rng weights g = Inr (k, g') \<and> (k, w) \<in> set weights \<and> 0 < w"
proof -
  let ?ws = "dict_values weights"
  define cum where "cum = accumulate 0 ?ws"
  have ne: "?ws \<noteq> []" using assms(2) by (auto simp: weights_ok_def)
  have total: "last cum = sum_list ?ws" "0 < last cum"
    using assms(2) accumulate_last [OF ne, of 0] by (simp_all add: cum_def weights_ok_def)
  obtain u g' where u: "rg_random rng g = (u, g')" by force
  define x where "x = u * last cum"
  have "0 \<le> u" "u < 1" using rng_okD(1) [OF assms(1) u] by simp_all
  then have x: "0 \<le> x" "x < last cum" using total(2) by (simp_all add: x_def)
  define n where "n = length ?ws - 1"
  define i where "i = bisect_right cum x 0 n"
  have len: "length cum = Suc n" "length weights = Suc n"
    using ne by (auto simp: cum_def n_def dict_values_def neq_Nil_conv)
  have srt: "sorted cum" using accumulate_sorted [of ?ws 0] assms(2) by (simp add: cum_def weights_ok_def)
  have "\<forall>i < length cum. n \<le> i \<longrightarrow> x < cum ! i"
    using x(2) len by (metis diff_Suc_1 last_conv_nth le_antisym less_Suc_eq_le list.size(3) nat.distinct(1))
  from bisect_right_correct [OF srt _ _ _ this, of 0] len
  have i: "\<forall>j < i. cum ! j \<le> x" "\<forall>j < length cum. i \<le> j \<longrightarrow> x < cum ! j" by (simp_all add: i_def)
  have "i \<le> n" using bisect_right_bounds [of 0 n cum x] by (simp add: i_def)
  then have il: "i < length ?ws" using len by (simp add: dict_values_def)
  have "0 < ?ws ! i"
  proof (cases i)
    case 0
    with i(2) len x(1) il show ?thesis by (force simp: cum_def accumulate_nth take_Suc_conv_app_nth)
  next
    case (Suc j)
    have "cum ! j \<le> x" using i(1) Suc by simp
    also have "x < cum ! i" using i(2) len \<open>i \<le> n\<close> by simp
    finally have "cum ! j < cum ! i" .
    then show ?thesis using Suc il by (simp add: cum_def accumulate_nth take_Suc_conv_app_nth)
  qed
  moreover have "weights ! i \<in> set weights" using il by (simp add: dict_values_def)
  moreover have "weights ! i = (dict_keys weights ! i, ?ws ! i)"
    using il by (simp add: dict_values_def dict_keys_def)
  moreover have "weighted_choice rng weights g = Inr (dict_keys weights ! i, g')"
  proof -
    have "cum \<noteq> []" and "\<not> last cum \<le> 0" using len(1) total(2) by auto
    then have "weighted_choice rng weights g = Inr (dict_keys weights ! bisect_right cum x 0 (length (dict_keys weights) - 1), g')"
      unfolding weighted_choice_def Let_def cum_def [symmetric] u x_def by simp
    then show ?thesis by (simp add: i_def n_def dict_keys_def dict_values_def)
  qed
  ultimately show ?thesis by metis
qed

section \<open>Tokens, sessions and arrivals\<close>

lemma sample_tokens_range:
  assumes "dc_min distribution \<le> dc_max distribution"
  shows "\<exists>k g'. sample_tokens rng distribution g = (k, g') \<and> dc_min distribution \<le> k \<and> k \<le> dc_max distribution"
proof -
  have "dc_min distribution \<le> py_int (max (of_int (dc_min distribution)) (min (of_int (dc_max distribution)) x)) \<and>
      py_int (max (of_int (dc_min distribution)) (min (of_int (dc_max distribution)) x)) \<le> dc_max distribution" for x
    using py_int_mono [of "of_int (dc_min distribution)"
        "max (of_int (dc_min distribution)) (min (of_int (dc_max distribution)) x)"]
      py_int_mono [of "max (of_int (dc_min distribution)) (min (of_int (dc_max distribution)) x)"
        "of_int (dc_max distribution)"] assms
    by simp
  then show ?thesis by (simp add: sample_tokens_def split_beta Let_def)
qed

lemma pick_session_total:
  assumes "rng_ok rng"
  shows "\<exists>s g' ss. pick_session rng config t m state = Inr (s, g', ss)"
proof -
  obtain g ss0 where st: "state = (g, ss0)" by force
  let ?known = "dict_get [] (dd_touch [] (t, m) ss0) (t, m)"
  show ?thesis
  proof (cases "?known = []")
    case False
    obtain u g1 where u: "rg_random rng g = (u, g1)" by force
    obtain x g2 where "rng_choice rng ?known g1 = Inr (x, g2)" using rng_choice_member [OF assms False] by blast
    with False u show ?thesis by (simp add: pick_session_def st Let_def)
  qed (simp add: pick_session_def st Let_def)
qed

lemma bursty_arrivals_ok:
  assumes "rng_ok rng" and "0 \<le> wc_duration_s config"
  shows "\<exists>ts g'. bursty_arrivals rng config n g = Inr (ts, g') \<and> length ts = n \<and>
    (\<forall>t \<in> set ts. 0 \<le> t \<and> t \<le> wc_duration_s config)"
proof (induction n arbitrary: g)
  case (Suc n)
  obtain u g1 where u: "rg_random rng g = (u, g1)" by force
  let ?d = "wc_duration_s config"
  have "\<exists>t g2. (if u < min 0.75 (0.35 * wc_burst_factor config)
      then ebind (rng_choice rng (burst_windows ?d) g1) (\<lambda>((start, finish), g2). Inr (rng_uniform rng start finish g2))
      else Inr (rng_uniform rng 0 ?d g1)) = Inr (t, g2) \<and> 0 \<le> t \<and> t \<le> ?d"
  proof (cases "u < min 0.75 (0.35 * wc_burst_factor config)")
    case True
    have "burst_windows ?d \<noteq> []" by (simp add: burst_windows_def)
    then obtain a b g2 where ab: "rng_choice rng (burst_windows ?d) g1 = Inr ((a, b), g2)" "(a, b) \<in> set (burst_windows ?d)"
      using rng_choice_member [OF assms(1)] by (metis surj_pair)
    then have w: "0 \<le> a" "a \<le> b" "b \<le> ?d" using assms(2) by (auto simp: burst_windows_def)
    obtain x g3 where "rng_uniform rng a b g2 = (x, g3)" "a \<le> x" "x \<le> b"
      using rng_uniform_range [OF assms(1) w(2)] by blast
    with True ab(1) w show ?thesis by auto
  next
    case False
    with rng_uniform_range [OF assms, of g1] show ?thesis by auto
  qed
  then obtain t g2 where t: "(if u < min 0.75 (0.35 * wc_burst_factor config)
      then ebind (rng_choice rng (burst_windows ?d) g1) (\<lambda>((start, finish), g2). Inr (rng_uniform rng start finish g2))
      else Inr (rng_uniform rng 0 ?d g1)) = Inr (t, g2)" "0 \<le> t" "t \<le> ?d" by blast
  from Suc.IH [of g2] t show ?case by (auto simp: u)
qed simp

lemma poisson_arrivals_ok:
  assumes "rng_ok rng" and "0 \<le> duration" and "0 < rate" and "0 \<le> now"
  shows "\<exists>ts g'. poisson_arrivals rng rate duration n now g = (ts, g') \<and> length ts = n \<and> sorted ts \<and>
    (\<forall>t \<in> set ts. min duration now \<le> t \<and> t \<le> duration)"
  using assms(4)
proof (induction n arbitrary: now g)
  case (Suc n)
  obtain gap g1 where gap: "rg_expovariate rng rate g = (gap, g1)" by force
  have "0 \<le> gap" by (rule rng_okD(3) [OF assms(1,3) gap])
  with Suc.prems have "0 \<le> now + gap" by simp
  from Suc.IH [OF this, of g1] obtain ts g' where
    "poisson_arrivals rng rate duration n (now + gap) g1 = (ts, g')" "length ts = n" "sorted ts"
    and b: "\<forall>t \<in> set ts. min duration (now + gap) \<le> t \<and> t \<le> duration" by blast
  moreover have "\<forall>t \<in> set ts. min duration now \<le> t" using b \<open>0 \<le> gap\<close> by (fastforce simp: min_def split: if_splits)
  ultimately show ?case using gap \<open>0 \<le> gap\<close> by (auto simp: min_le_iff_disj)
qed simp

lemma generate_arrivals_ok:
  assumes "rng_ok rng" and "0 \<le> wc_duration_s config"
  shows "\<exists>ts g'. generate_arrivals rng config g = Inr (ts, g') \<and> length ts = nat (wc_request_count config) \<and>
    sorted ts \<and> (\<forall>t \<in> set ts. 0 \<le> t \<and> t \<le> wc_duration_s config)"
proof -
  let ?d = "wc_duration_s config" and ?n = "wc_request_count config"
  consider (uniform) "wc_arrival_pattern config = ''uniform''" | (bursty) "wc_arrival_pattern config = ''bursty''"
    | (poisson) "wc_arrival_pattern config \<noteq> ''uniform''" "wc_arrival_pattern config \<noteq> ''bursty''" by blast
  then show ?thesis
  proof cases
    case uniform
    let ?ts = "map (\<lambda>i. of_nat i * (?d / of_int (max 1 ?n))) [0..<nat ?n] :: pyfloat list"
    have step: "0 \<le> ?d / of_int (max 1 ?n)" using assms(2) by (simp add: max_def)
    have "i \<le> j \<Longrightarrow> of_nat i * (?d / of_int (max 1 ?n)) \<le> of_nat j * (?d / of_int (max 1 ?n))" for i j
      using step by (intro mult_right_mono) simp_all
    then have "sorted ?ts" unfolding sorted_map by (auto simp: sorted_wrt_iff_nth_less)
    moreover have "\<forall>t \<in> set ?ts. 0 \<le> t \<and> t \<le> ?d"
    proof
      fix t assume "t \<in> set ?ts"
      then obtain i where i: "i < nat ?n" "t = of_nat i * (?d / of_int (max 1 ?n))" by auto
      then have "int i \<le> max 1 ?n" by linarith
      then have "(of_int (int i) :: pyfloat) \<le> of_int (max 1 ?n)" by (simp only: of_int_le_iff)
      from mult_right_mono [OF this step] i(2) have "t \<le> ?d" by (simp add: max_def)
      moreover have "0 \<le> t" unfolding i(2) using step by (intro mult_nonneg_nonneg) simp_all
      ultimately show "0 \<le> t \<and> t \<le> ?d" by simp
    qed
    moreover have "generate_arrivals rng config g = Inr (?ts, g)"
      using uniform by (simp only: generate_arrivals_def Let_def if_True refl)
    moreover have "length ?ts = nat ?n" by simp
    ultimately show ?thesis by blast
  next
    case bursty
    with bursty_arrivals_ok [OF assms, of "nat ?n" g] show ?thesis by (auto simp: generate_arrivals_def)
  next
    case poisson
    show ?thesis
    proof (cases "0 < ?n")
      case True
      then have "0 < of_int ?n / max ?d (1 / 10 ^ 9)" by (simp add: less_max_iff_disj)
      from poisson_arrivals_ok [OF assms this order_refl, of "nat ?n" g] poisson assms(2) show ?thesis
        by (auto simp: generate_arrivals_def)
    next
      case False
      with poisson show ?thesis by (simp add: generate_arrivals_def)
    qed
  qed
qed

section \<open>Requests\<close>

text \<open>What a synthetic workload configuration has to satisfy.\<close>

definition distribution_ok :: "distribution_config \<Rightarrow> bool" where
  "distribution_ok dc \<longleftrightarrow> 1 \<le> dc_min dc \<and> dc_min dc \<le> dc_max dc"

definition workload_ok :: "workload_config \<Rightarrow> bool" where
  "workload_ok config \<longleftrightarrow>
     (wc_trace_path config = None \<or> wc_trace_path config = Some []) \<and> 0 \<le> wc_duration_s config \<and>
     distribution_ok (wc_prompt_tokens config) \<and> distribution_ok (wc_generation_tokens config) \<and>
     weights_ok (wc_tenant_weights config) \<and> weights_ok (wc_model_mix config) \<and> weights_ok (wc_sla_mix config) \<and>
     set (dict_keys (wc_sla_mix config)) \<subseteq> {''realtime'', ''interactive'', ''best_effort''}"

definition generated :: "workload_config \<Rightarrow> nat \<Rightarrow> pyfloat \<Rightarrow> inference_request \<Rightarrow> bool" where
  "generated config index t r \<longleftrightarrow> request_ok r \<and> rq_request_id r = ''req-'' @ zfill 6 (show_nat index) \<and>
     rq_arrival_ts r = py_round 4 t \<and>
     dc_min (wc_prompt_tokens config) \<le> rq_prompt_tokens r \<and> rq_prompt_tokens r \<le> dc_max (wc_prompt_tokens config) \<and>
     dc_min (wc_generation_tokens config) \<le> rq_generation_tokens r \<and>
     rq_generation_tokens r \<le> dc_max (wc_generation_tokens config) \<and>
     rq_tenant_id r \<in> set (dict_keys (wc_tenant_weights config)) \<and> rq_model_id r \<in> set (dict_keys (wc_model_mix config))"

lemma key_member: "(k, w) \<in> set d \<Longrightarrow> k \<in> set (dict_keys d)"
  by (force simp: dict_keys_def)

lemma constructed_request:
  assumes "sla \<in> {''realtime'', ''interactive'', ''best_effort''}" and "0 < p" and "0 < g" and "0 \<le> ts" and "0 < m"
  shows "InferenceRequest H i t mo p g ts sla s (Some sig) m meta =
    Inr \<lparr>rq_request_id = i, rq_tenant_id = t, rq_model_id = mo, rq_prompt_tokens = p, rq_generation_tokens = g,
        rq_arrival_ts = ts, rq_sla_class = sla, rq_session_id = s, rq_prefix_signature = Some sig,
        rq_max_latency_ms = m, rq_metadata = meta\<rparr>"
proof -
  have "map_of SLA_PRIORITY sla \<noteq> None" using assms(1) sla_classes by blast
  with assms(2-5) show ?thesis by (auto simp: InferenceRequest_def request_post_init_def normalize_sla_class_def)
qed

lemma generate_request_ok:
  assumes "rng_ok (we_rng env)" and "workload_ok config" and "0 \<le> t"
  shows "\<exists>r state'. generate_request env config seed index t state = Inr (r, state') \<and> generated config index t r"
proof -
  let ?rng = "we_rng env"
  note wok = assms(2) [unfolded workload_ok_def distribution_ok_def]
  obtain g0 ss0 where st: "state = (g0, ss0)" by force
  obtain tenant w1 g1 where c1: "weighted_choice ?rng (wc_tenant_weights config) g0 = Inr (tenant, g1)"
    "(tenant, w1) \<in> set (wc_tenant_weights config)"
    using weighted_choice_positive [OF assms(1), of "wc_tenant_weights config" g0] wok by blast
  obtain model w2 g2 where c2: "weighted_choice ?rng (wc_model_mix config) g1 = Inr (model, g2)"
    "(model, w2) \<in> set (wc_model_mix config)"
    using weighted_choice_positive [OF assms(1), of "wc_model_mix config" g1] wok by blast
  obtain sla w3 g3 where c3: "weighted_choice ?rng (wc_sla_mix config) g2 = Inr (sla, g3)"
    "(sla, w3) \<in> set (wc_sla_mix config)"
    using weighted_choice_positive [OF assms(1), of "wc_sla_mix config" g2] wok by blast
  obtain session g4 ss where c4: "pick_session ?rng config tenant model (g3, ss0) = Inr (session, g4, ss)"
    using pick_session_total [OF assms(1)] by blast
  obtain p g5 where c5: "sample_tokens ?rng (wc_prompt_tokens config) g4 = (p, g5)"
    "dc_min (wc_prompt_tokens config) \<le> p" "p \<le> dc_max (wc_prompt_tokens config)"
    using sample_tokens_range [of "wc_prompt_tokens config" ?rng g4] wok by blast
  obtain q g6 where c6: "sample_tokens ?rng (wc_generation_tokens config) g5 = (q, g6)"
    "dc_min (wc_generation_tokens config) \<le> q" "q \<le> dc_max (wc_generation_tokens config)"
    using sample_tokens_range [of "wc_generation_tokens config" ?rng g5] wok by blast
  obtain u g7 where c7: "rg_random ?rng g6 = (u, g7)" by force
  have sla: "sla \<in> {''realtime'', ''interactive'', ''best_effort''}" using wok key_member [OF c3(2)] by blast
  then obtain m where m: "dict_item SLA_LATENCY sla (KeyError sla) = Inr m" "0 < m"
    by (auto simp: SLA_LATENCY_def dict_item_def)
  have pos: "0 < p" "0 < q" using c5(2) c6(2) wok by linarith+
  note ctor = constructed_request [OF sla pos py_round_nonneg [OF assms(3), of 4] m(2)]
  have ok: "request_ok \<lparr>rq_request_id = i, rq_tenant_id = tenant, rq_model_id = model, rq_prompt_tokens = p,
      rq_generation_tokens = q, rq_arrival_ts = py_round 4 t, rq_sla_class = sla, rq_session_id = s,
      rq_prefix_signature = Some sig, rq_max_latency_ms = m, rq_metadata = meta\<rparr>" for i s sig meta
    using sla [folded sla_classes] pos m(2) py_round_nonneg [OF assms(3), of 4] by (simp add: request_ok_def)
  show ?thesis
    unfolding generate_request_def st prod.case Let_def c1(1) c2(1) c3(1) c4 c5(1) c6(1) c7 ebind_Inr m(1) ctor
    using ok c5 c6 key_member [OF c1(2)] key_member [OF c2(2)]
    by (simp add: generated_def)
qed

lemma generate_each_ok:
  assumes "rng_ok (we_rng env)" and "workload_ok config" and "\<forall>t \<in> set ts. 0 \<le> t"
  shows "\<exists>rs state'. generate_each env config seed index ts state = Inr (rs, state') \<and> length rs = length ts \<and>
    (\<forall>i < length ts. generated config (index + i) (ts ! i) (rs ! i))"
  using assms(3)
proof (induction ts arbitrary: index state)
  case (Cons t ts)
  obtain r state1 where r: "generate_request env config seed index t state = Inr (r, state1)" "generated config index t r"
    using generate_request_ok [OF assms(1,2), of t seed index state] Cons.prems by (metis list.set_intros(1))
  obtain rs state2 where rs: "generate_each env config seed (Suc index) ts state1 = Inr (rs, state2)"
    "length rs = length ts" "\<forall>i < length ts. generated config (Suc index + i) (ts ! i) (rs ! i)"
    using Cons.IH [of "Suc index" state1] Cons.prems by auto
  have "generated config (index + i) ((t # ts) ! i) ((r # rs) ! i)" if "i < Suc (length ts)" for i
    using that r(2) rs(3) by (cases i) auto
  with r rs show ?case by auto
qed simp

text \<open>Zero padding does not identify numbers.\<close>

lemma padded_inject [simp]: "zfill w (show_nat m) = zfill w (show_nat n) \<longleftrightarrow> m = n"
  by (metis read_nat_zfill read_show_nat)

lemma generated_workload:
  assumes "rng_ok (we_rng env)" and "workload_ok config"
  shows "\<exists>requests state. generate_requests env config seed = Inr (requests, state) \<and>
    length requests = nat (wc_request_count config) \<and> distinct (map rq_request_id requests) \<and>
    sorted (map rq_arrival_ts requests) \<and>
    (\<forall>r \<in> set requests. request_ok r \<and> rq_arrival_ts r \<le> py_round 4 (wc_duration_s config) \<and>
       dc_min (wc_prompt_tokens config) \<le> rq_prompt_tokens r \<and> rq_prompt_tokens r \<le> dc_max (wc_prompt_tokens config) \<and>
       dc_min (wc_generation_tokens config) \<le> rq_generation_tokens r \<and>
       rq_generation_tokens r \<le> dc_max (wc_generation_tokens config))"
proof -
  have d: "0 \<le> wc_duration_s config" using assms(2) by (simp add: workload_ok_def)
  let ?g = "rg_seed (we_rng env) seed"
  obtain ts g where ts: "generate_arrivals (we_rng env) config ?g = Inr (ts, g)"
    "length ts = nat (wc_request_count config)" "sorted ts" "\<forall>t \<in> set ts. 0 \<le> t \<and> t \<le> wc_duration_s config"
    using generate_arrivals_ok [OF assms(1) d] by blast
  obtain rs state where rs: "generate_each env config seed 0 ts (g, []) = Inr (rs, state)" "length rs = length ts"
    "\<forall>i < length ts. generated config i (ts ! i) (rs ! i)"
    using generate_each_ok [OF assms, of ts seed 0 "(g, [])"] ts(4) by auto
  have ids: "map rq_request_id rs = map (\<lambda>i. ''req-'' @ zfill 6 (show_nat i)) [0..<length ts]"
    and arr: "map rq_arrival_ts rs = map (py_round 4) ts"
    using rs(2,3) by (auto intro!: nth_equalityI simp: generated_def)
  have "distinct (map rq_request_id rs)" unfolding ids by (simp add: distinct_map inj_on_def)
  moreover have "sorted (map rq_arrival_ts rs)"
    unfolding arr sorted_map by (rule sorted_wrt_mono_rel [OF _ ts(3)]) (simp add: py_round_mono)
  moreover have "request_ok r \<and> rq_arrival_ts r \<le> py_round 4 (wc_duration_s config) \<and>
       dc_min (wc_prompt_tokens config) \<le> rq_prompt_tokens r \<and> rq_prompt_tokens r \<le> dc_max (wc_prompt_tokens config) \<and>
       dc_min (wc_generation_tokens config) \<le> rq_generation_tokens r \<and>
       rq_generation_tokens r \<le> dc_max (wc_generation_tokens config)" if "r \<in> set rs" for r
  proof -
    from that rs(2) obtain i where i: "i < length ts" "r = rs ! i" by (auto simp: in_set_conv_nth)
    then have "py_round 4 (ts ! i) \<le> py_round 4 (wc_duration_s config)" using ts(4) by (simp add: py_round_mono)
    with rs(3) i show ?thesis by (simp add: generated_def)
  qed
  moreover have "generate_requests env config seed = Inr (rs, state)"
  proof -
    have "wc_trace_path config = None \<or> wc_trace_path config = Some []" using assms(2) by (simp add: workload_ok_def)
    then show ?thesis using ts(1) rs(1) by (elim disjE) (simp_all add: generate_requests_def)
  qed
  moreover have "length rs = nat (wc_request_count config)" using rs(2) ts(2) by simp
  ultimately show ?thesis by blast
qed

text \<open>The metadata of every request: the seed, and for a replayed one the file.\<close>

definition seeded_request :: "int \<Rightarrow> inference_request \<Rightarrow> bool" where
  "seeded_request seed r \<longleftrightarrow> rq_metadata r = [(''seed'', JInt seed)] \<or>
     (\<exists>path. rq_metadata r = [(''seed'', JInt seed), (''source'', JStr path)])"

lemma constructed_valid:
  "InferenceRequest H i t mo p g ts sla s sig m meta = Inr r \<Longrightarrow> rq_metadata r = meta \<and> request_ok r"
  by (rule conjI, force simp: InferenceRequest_def request_post_init_def result_simps Let_def split: if_splits)
    (auto simp: InferenceRequest_def dest: request_post_init_ok)

lemma generate_request_seeded: "generate_request env config seed index t state = Inr (r, state') \<Longrightarrow> seeded_request seed r \<and> request_ok r"
  by (auto simp: generate_request_def result_simps Let_def seeded_request_def case_prod_unfold dest!: constructed_valid)

lemma trace_request_seeded: "trace_request env config seed path first_ts index row state = Inr (r, state') \<Longrightarrow> seeded_request seed r \<and> request_ok r"
  by (auto simp: trace_request_def result_simps Let_def seeded_request_def dest!: constructed_valid)

lemma generate_each_seeded:
  "generate_each env config seed index ts state = Inr (rs, state') \<Longrightarrow> \<forall>r \<in> set rs. seeded_request seed r \<and> request_ok r"
  by (induction ts arbitrary: index state rs) (auto simp: result_simps dest: generate_request_seeded)

lemma trace_each_seeded:
  "trace_each env config seed path first_ts index rows state = Inr (rs, state') \<Longrightarrow> \<forall>r \<in> set rs. seeded_request seed r \<and> request_ok r"
  by (induction rows arbitrary: index state rs) (auto simp: result_simps dest: trace_request_seeded)

text \<open>Every request that is generated or replayed has passed the validation of its constructor.\<close>

lemma requests_constructed:
  assumes "generate_requests env config seed = Inr (requests, state)"
  shows "\<forall>r \<in> set requests. seeded_request seed r \<and> request_ok r"
proof -
  have "\<forall>r \<in> set requests. seeded_request seed r \<and> request_ok r"
    if trace: "generate_requests_from_trace env config seed path st = Inr (requests, state)" for path st
  proof -
    obtain first_ts rows rs where "trace_each env config seed path first_ts 0 rows st = Inr (rs, state)"
      and "set requests \<subseteq> set rs"
      using trace by (auto simp: generate_requests_from_trace_def result_simps Let_def case_prod_unfold py_prefix_def
          split: option.splits if_splits dest: in_set_takeD)
    then show ?thesis using trace_each_seeded by blast
  qed
  with assms show ?thesis
    by (auto simp: generate_requests_def Let_def result_simps split: option.splits list.splits dest: generate_each_seeded)
qed

lemmas requests_seeded = requests_constructed [THEN ball_conj_distrib [THEN iffD1], THEN conjunct1]
lemmas requests_valid = requests_constructed [THEN ball_conj_distrib [THEN iffD1], THEN conjunct2]

text \<open>
  C36: the synthetic workload of a sensible configuration is always generated, for every seed and
  arrival pattern: it has exactly the configured number of requests, with distinct identifiers, in
  order of arrival and within the duration (rounded as the requests are), every request passes
  validation, and its token counts respect the configured limits.
\<close>

theorem workload_well_formed:
  assumes "rng_ok (we_rng env)" and "workload_ok config"
  shows "\<exists>requests state. generate_requests env config seed = Inr (requests, state) \<and>
    length requests = nat (wc_request_count config) \<and> distinct (map rq_request_id requests) \<and>
    sorted (map rq_arrival_ts requests) \<and>
    (\<forall>r \<in> set requests. request_ok r \<and> rq_arrival_ts r \<le> py_round 4 (wc_duration_s config) \<and>
       dc_min (wc_prompt_tokens config) \<le> rq_prompt_tokens r \<and> rq_prompt_tokens r \<le> dc_max (wc_prompt_tokens config) \<and>
       dc_min (wc_generation_tokens config) \<le> rq_generation_tokens r \<and>
       rq_generation_tokens r \<le> dc_max (wc_generation_tokens config))"
  by (rule generated_workload [OF assms])

text \<open>A linear congruential generator that satisfies the ranges, for the examples.\<close>

definition lcg_next :: "int \<Rightarrow> int" where
  "lcg_next g = (1103515245 * g + 12345) mod 2147483648"

definition lcg_unit :: "int \<Rightarrow> pyfloat \<times> int" where
  "lcg_unit g = (of_int (g mod 2147483648) / 2147483648, lcg_next g)"

definition lcg_rng :: "int rng" where
  "lcg_rng = \<lparr>rg_seed = (\<lambda>k. k), rg_random = lcg_unit,
     rg_below = (\<lambda>n g. (g mod n, lcg_next g)),
     rg_expovariate = (\<lambda>rate g. case lcg_unit g of (u, g') \<Rightarrow> (u / rate, g')),
     rg_gauss = (\<lambda>mu sigma g. case lcg_unit g of (u, g') \<Rightarrow> (mu + sigma * (2 * u - 1), g')),
     rg_lognormal = (\<lambda>m sigma g. case lcg_unit g of (u, g') \<Rightarrow> (m * (1 + sigma * u), g'))\<rparr>"

lemma lcg_rng_ok: "rng_ok lcg_rng"
  by (simp add: rng_ok_def lcg_rng_def lcg_unit_def)

definition demo_workload_env :: "int workload_env" where
  "demo_workload_env = \<lparr>we_rng = lcg_rng, we_hash = (\<lambda>s. s), we_files = no_files\<rparr>"

lemma demo_workload_ok: "workload_ok demo_workload"
  by (simp add: workload_ok_def distribution_ok_def weights_ok_def demo_workload_def demo_distribution_def
      dict_values_def dict_keys_def)

theorem workload_well_formed_witness:
  "\<exists>requests state. generate_requests demo_workload_env demo_workload 7 = Inr (requests, state) \<and>
     length requests = 4 \<and> distinct (map rq_request_id requests)"
  using workload_well_formed [of demo_workload_env demo_workload 7] lcg_rng_ok demo_workload_ok
  by (auto simp: demo_workload_env_def) (simp add: demo_workload_def)

section \<open>Traces\<close>

text \<open>The request a row of a trace gives: valid, and arriving at the row's scaled offset.\<close>

definition replayed :: "workload_config \<Rightarrow> pyfloat \<Rightarrow> csv_row \<Rightarrow> inference_request \<Rightarrow> bool" where
  "replayed config first_ts row r \<longleftrightarrow> request_ok r \<and>
     (\<exists>ts. row_float row ''timestamp'' = Inr ts \<and>
        rq_arrival_ts r = py_round 4 (max 0 ((ts - first_ts) / max (1 / 10 ^ 9) (wc_trace_replay_speed config))))"

lemma replayedI:
  assumes "row_float row ''timestamp'' = Inr ts"
    and "InferenceRequest H i t mo p g (py_round 4 (max 0 ((ts - first_ts) / max (1 / 10 ^ 9) (wc_trace_replay_speed config))))
      sla s sig m mt = Inr r"
  shows "replayed config first_ts row r"
proof -
  note init = assms(2) [unfolded InferenceRequest_def]
  have "rq_arrival_ts r = py_round 4 (max 0 ((ts - first_ts) / max (1 / 10 ^ 9) (wc_trace_replay_speed config)))"
    by (subst request_post_init_fields [OF init]) simp
  with request_post_init_ok [OF init] assms(1) show ?thesis by (simp add: replayed_def)
qed

lemma trace_request_replayed:
  assumes "trace_request env config seed path first_ts index row state = Inr (r, state')"
  shows "replayed config first_ts row r"
  using assms unfolding trace_request_def Let_def ebind_eq_Inr split_beta
  by (elim exE conjE) (simp only: sum.inject prod.inject, elim conjE, hypsubst, erule (1) replayedI)

lemma trace_each_replayed:
  "trace_each env config seed path first_ts index rows state = Inr (rs, state') \<Longrightarrow>
     list_all2 (replayed config first_ts) rows rs"
  by (induction rows arbitrary: index state rs)
     (auto simp: result_simps dest: trace_request_replayed)

definition limited_rows :: "workload_config \<Rightarrow> 'a list \<Rightarrow> 'a list" where
  "limited_rows config rows = (case wc_trace_limit config of None \<Rightarrow> rows | Some n \<Rightarrow> py_prefix n rows)"

lemma trace_replay_rows:
  assumes "we_files env path = Some content" and "DictReader content = (fieldnames, rows)"
    and "generate_requests_from_trace env config seed path state = Inr (rs, state')"
  shows "set TRACE_COLUMNS \<subseteq> set fieldnames \<and> (\<exists>first_ts rs'. list_all2 (replayed config first_ts) (limited_rows config rows) rs' \<and>
    rs = (if 0 < wc_request_count config then take (nat (wc_request_count config)) rs' else rs') \<and>
    (rs' = [] \<or> row_float (hd (limited_rows config rows)) ''timestamp'' = Inr first_ts))"
proof -
  let ?rows = "limited_rows config rows"
  have cols: "filter (\<lambda>c. c \<notin> set fieldnames) TRACE_COLUMNS = []"
    using assms by (auto simp: generate_requests_from_trace_def Let_def split: if_splits)
  then obtain first_ts rs' where f: "(case ?rows of [] \<Rightarrow> Inr 0 | row # _ \<Rightarrow> row_float row ''timestamp'') = Inr first_ts"
    and e: "trace_each env config seed path first_ts 0 ?rows state = Inr (rs', state')"
    and rs: "rs = (if 0 < wc_request_count config \<and> wc_request_count config < int (length rs')
      then py_prefix (wc_request_count config) rs' else rs')"
    using assms by (auto simp: generate_requests_from_trace_def limited_rows_def [symmetric] Let_def result_simps)
  have "rs = (if 0 < wc_request_count config then take (nat (wc_request_count config)) rs' else rs')"
    by (simp add: rs py_prefix_def)
  moreover have "rs' = [] \<or> row_float (hd ?rows) ''timestamp'' = Inr first_ts"
    using f e by (cases ?rows) auto
  moreover have "set TRACE_COLUMNS \<subseteq> set fieldnames" using cols by (auto simp: filter_empty_conv)
  ultimately show ?thesis using trace_each_replayed [OF e] by blast
qed

text \<open>
  a trace that is replayed has all required columns and gives, up to the two configured limits,
  one request per row in the order of the file: each passes validation and arrives at its row's
  offset from the first row, divided by the replay speed and never negative.
\<close>

theorem trace_replay:
  assumes "we_files env path = Some content" and "DictReader content = (fieldnames, rows)"
    and "generate_requests_from_trace env config seed path state = Inr (rs, state')"
  shows "set TRACE_COLUMNS \<subseteq> set fieldnames \<and> (\<exists>first_ts rs'. list_all2 (replayed config first_ts) (limited_rows config rows) rs' \<and>
    rs = (if 0 < wc_request_count config then take (nat (wc_request_count config)) rs' else rs') \<and>
    (rs' = [] \<or> row_float (hd (limited_rows config rows)) ''timestamp'' = Inr first_ts))"
  by (rule trace_replay_rows [OF assms])

definition demo_trace :: string where
  "demo_trace = csv_text [TRACE_COLUMNS,
     [''10'', ''r1'', ''120'', ''64'', ''copilot'', ''realtime''],
     [''12.5'', ''r2'', ''0'', ''30'', '''', ''batch'']]"

definition demo_trace_env :: "int workload_env" where
  "demo_trace_env = demo_workload_env\<lparr>we_files := (\<lambda>path. if path = ''trace.csv'' then Some demo_trace else None)\<rparr>"

lemma demo_trace_replayed:
  "case generate_requests_from_trace demo_trace_env demo_workload 7 ''trace.csv'' (7, []) of
     Inl e \<Rightarrow> False | Inr (rs, state) \<Rightarrow> map rq_arrival_ts rs = [0, 2.5]"
  by code_simp

theorem trace_replay_witness:
  "\<exists>rs state first_ts. generate_requests_from_trace demo_trace_env demo_workload 7 ''trace.csv'' (7, []) = Inr (rs, state) \<and>
     map rq_arrival_ts rs = [0, 2.5] \<and>
     list_all2 (replayed demo_workload first_ts) (limited_rows demo_workload (snd (DictReader demo_trace))) rs"
proof -
  obtain rs state where gen: "generate_requests_from_trace demo_trace_env demo_workload 7 ''trace.csv'' (7, []) = Inr (rs, state)"
    and arr: "map rq_arrival_ts rs = [0, 2.5]"
    using demo_trace_replayed by (auto split: sum.splits prod.splits)
  have content: "we_files demo_trace_env ''trace.csv'' = Some demo_trace" by (simp add: demo_trace_env_def)
  have "length (map rq_arrival_ts rs) = 2" by (simp add: arr)
  then have len: "length rs = 2" by simp
  obtain first_ts rs' where rs': "list_all2 (replayed demo_workload first_ts) (limited_rows demo_workload (snd (DictReader demo_trace))) rs'"
    and rs: "rs = (if 0 < wc_request_count demo_workload then take (nat (wc_request_count demo_workload)) rs' else rs')"
    using trace_replay [OF content _ gen] surjective_pairing by blast
  have "rs = rs'" using rs len by (auto simp: demo_workload_def min_def split: if_splits)
  with gen arr rs' show ?thesis by (intro exI conjI) simp_all
qed

end
