(* ===== verification/Metrics.thy ===== *)
theory Metrics
  imports Samples
begin

text \<open>
  The measurements of \<open>nimbusmesh_x/metrics.py\<close>: the interpolated quantile, Jain's fairness
  index, and the collector that counts submissions and completions per tenant and condenses
  the results of a run into a report. The report is the dictionary the code builds, with the
  integer and float entries Python would have; \<open>json.dumps\<close>, which renders it, is the
  parameter \<open>dumps\<close> of \<open>write_summary\<close> in the theory of the log files. The lemmas show that
  the quantile is one (ranks, bounds, monotone in \<open>q\<close>), that Jain's index lies between
  \<open>1 / n\<close> and \<open>1\<close>, and that every rate of the report is a rate.
\<close>

section \<open>Statistics\<close>

definition quantile :: "pyfloat list \<Rightarrow> pyfloat \<Rightarrow> pyfloat result" where
  "quantile values q =
     (if values = [] then Inr 0
      else let ordered = sort values;
               index = of_int (int (length ordered) - 1) * q;
               lower = \<lfloor>index\<rfloor>;
               upper = \<lceil>index\<rceil>
           in if lower = upper then py_item ordered lower
              else ebind (py_item ordered lower) (\<lambda>low. ebind (py_item ordered upper) (\<lambda>high.
                     Inr (low + (high - low) * (index - of_int lower)))))"

definition jains_index :: "pyfloat list \<Rightarrow> pyfloat" where
  "jains_index values =
     (if values = [] then 1
      else let numerator = (sum_list values) ^ 2;
               denominator = of_nat (length values) * sum_list (map (\<lambda>v. v * v) values)
           in if denominator = 0 then 1 else numerator / denominator)"

section \<open>MetricsCollector\<close>

record metrics_collector =
  mc_results :: "request_result list"
  mc_tenant_completed :: "(string, int) dict"
  mc_tenant_submitted :: "(string, int) dict"

definition MetricsCollector :: metrics_collector where
  "MetricsCollector = \<lparr>mc_results = [], mc_tenant_completed = [], mc_tenant_submitted = []\<rparr>"

text \<open>\<open>d[k] += n\<close> on a \<open>defaultdict(int)\<close>.\<close>

definition dd_add :: "'k \<Rightarrow> int \<Rightarrow> ('k, int) dict \<Rightarrow> ('k, int) dict" where
  "dd_add k n d = AList.update k (dict_get 0 d k + n) d"

definition metrics_note_submission :: "string \<Rightarrow> metrics_collector \<Rightarrow> metrics_collector" where
  "metrics_note_submission tenant_id mc =
     mc\<lparr>mc_tenant_submitted := dd_add tenant_id 1 (mc_tenant_submitted mc)\<rparr>"

definition metrics_record :: "request_result \<Rightarrow> metrics_collector \<Rightarrow> metrics_collector" where
  "metrics_record result mc =
     mc\<lparr>mc_results := mc_results mc @ [result],
        mc_tenant_completed :=
          dd_add (rq_tenant_id (rr_request result)) (if rr_admitted result then 1 else 0) (mc_tenant_completed mc)\<rparr>"

definition admitted_results :: "metrics_collector \<Rightarrow> request_result list" where
  "admitted_results mc = filter rr_admitted (mc_results mc)"

text \<open>
  The fairness loop reads \<open>tenant_completed\<close>, a \<open>defaultdict\<close>, and so stores a zero for a tenant
  without completions.
\<close>

fun fairness_values :: "(string, int) dict \<Rightarrow> (string, int) dict \<Rightarrow> (string, int) dict \<times> pyfloat list" where
  "fairness_values [] completed = (completed, [])"
| "fairness_values ((tenant_id, submitted) # rest) completed =
     (let completed1 = dd_touch 0 tenant_id completed;
          share = of_int (dict_get 0 completed1 tenant_id) / of_int (max 1 submitted);
          (completed2, shares) = fairness_values rest completed1
      in (completed2, share # shares))"

text \<open>The mean of a measure over the admitted results, \<open>sum(...) / max(1, len(latencies))\<close>.\<close>

definition admitted_mean :: "(request_result \<Rightarrow> pyfloat) \<Rightarrow> metrics_collector \<Rightarrow> pyfloat" where
  "admitted_mean f mc =
     sum_list (map f (admitted_results mc)) / of_int (max 1 (int (length (admitted_results mc))))"

definition sla_miss_rate :: "metrics_collector \<Rightarrow> pyfloat" where
  "sla_miss_rate mc = 1 - admitted_mean (\<lambda>r. if rr_sla_met r then 1 else 0) mc"

text \<open>The sum of no floats is the integer 0, which \<open>round\<close> keeps an integer.\<close>

definition rounded_total :: "(request_result \<Rightarrow> pyfloat) \<Rightarrow> metrics_collector \<Rightarrow> json" where
  "rounded_total f mc =
     (if admitted_results mc = [] then JInt 0
      else JFloat (py_round 4 (sum_list (map f (admitted_results mc)))))"

definition busy_s :: "request_result \<Rightarrow> pyfloat" where
  "busy_s r = (rr_prefill_latency_ms r + rr_decode_latency_ms r) / 1000"

definition gpu_utilization :: "pyfloat \<Rightarrow> int \<Rightarrow> metrics_collector \<Rightarrow> pyfloat" where
  "gpu_utilization duration_s total_slots mc =
     min 1 (sum_list (map busy_s (admitted_results mc)) / max (duration_s * of_int (max 1 total_slots)) (1 / 10 ^ 9))"

definition memory_utilization :: "pyfloat \<Rightarrow> metrics_collector \<Rightarrow> pyfloat" where
  "memory_utilization total_memory_gb mc = min 1 (admitted_mean rr_memory_gb mc / max total_memory_gb (1 / 10 ^ 9))"

text \<open>
  The dictionary of the report, given the six quantiles \<open>summary\<close> computes and the tenants' shares.
\<close>

definition report ::
  "pyfloat \<Rightarrow> string \<Rightarrow> string \<Rightarrow> int \<Rightarrow> pyfloat \<Rightarrow> metrics_collector
    \<Rightarrow> pyfloat \<times> pyfloat \<times> pyfloat \<Rightarrow> pyfloat \<times> pyfloat \<Rightarrow> pyfloat \<Rightarrow> pyfloat list \<Rightarrow> (string, json) dict" where
  "report duration_s policy_name config_name total_slots total_memory_gb mc latency prefill p50_decode fairness =
     (case (latency, prefill) of ((p50, p95, p99), (p50_prefill, p95_prefill)) \<Rightarrow>
      let admitted = admitted_results mc;
          tokens = sum_list (map (\<lambda>r. total_tokens (rr_request r)) admitted);
          total_cost = sum_list (map rr_cost_usd admitted);
          saved = sum_list (map rr_cache_saved_tokens admitted);
          estimation_error = (\<lambda>r. \<bar>rd_estimated_latency_ms (rr_decision r) - rr_total_latency_ms r\<bar>);
          seconds = max duration_s (1 / 10 ^ 9)
      in [(''config_name'', JStr config_name), (''policy_name'', JStr policy_name),
          (''requests_total'', JInt (int (length (mc_results mc)))),
          (''requests_admitted'', JInt (int (length admitted))),
          (''p50_latency_ms'', JFloat (py_round 2 p50)), (''p95_latency_ms'', JFloat (py_round 2 p95)),
          (''p99_latency_ms'', JFloat (py_round 2 p99)), (''p50_prefill_ms'', JFloat (py_round 2 p50_prefill)),
          (''p95_prefill_ms'', JFloat (py_round 2 p95_prefill)), (''p50_decode_ms'', JFloat (py_round 2 p50_decode)),
          (''throughput_tokens_per_s'', JFloat (py_round 2 (of_int tokens / seconds))),
          (''throughput_requests_per_s'', JFloat (py_round 2 (of_nat (length admitted) / seconds))),
          (''cache_hit_ratio'', JFloat (py_round 4 (admitted_mean rr_cache_hit_ratio mc))),
          (''cache_saved_tokens_total'', JInt saved),
          (''sla_miss_rate'', JFloat (py_round 4 (sla_miss_rate mc))),
          (''cost_per_1m_tokens_usd'', JFloat (py_round 4 (total_cost / of_int (max tokens 1) * 1000000))),
          (''energy_proxy_total'', rounded_total rr_energy_proxy mc),
          (''network_cost_total'', rounded_total rr_network_cost mc),
          (''gpu_utilization_proxy'', JFloat (py_round 4 (gpu_utilization duration_s total_slots mc))),
          (''memory_utilization_proxy'', JFloat (py_round 4 (memory_utilization total_memory_gb mc))),
          (''mean_absolute_latency_error_ms'', JFloat (py_round 4 (admitted_mean estimation_error mc))),
          (''fairness_index'', JFloat (py_round 4 (jains_index fairness)))])"

definition summary ::
  "pyfloat \<Rightarrow> string \<Rightarrow> string \<Rightarrow> int \<Rightarrow> pyfloat \<Rightarrow> metrics_collector
    \<Rightarrow> (metrics_collector \<times> (string, json) dict) result" where
  "summary duration_s policy_name config_name total_slots total_memory_gb mc =
     (let latencies = map rr_total_latency_ms (admitted_results mc);
          prefill = map rr_prefill_latency_ms (admitted_results mc);
          decode = map rr_decode_latency_ms (admitted_results mc);
          (completed, fairness) = fairness_values (mc_tenant_submitted mc) (mc_tenant_completed mc)
      in ebind (quantile latencies 0.5) (\<lambda>p50.
         ebind (quantile latencies 0.95) (\<lambda>p95.
         ebind (quantile latencies 0.99) (\<lambda>p99.
         ebind (quantile prefill 0.5) (\<lambda>p50_prefill.
         ebind (quantile prefill 0.95) (\<lambda>p95_prefill.
         ebind (quantile decode 0.5) (\<lambda>p50_decode.
         Inr (mc\<lparr>mc_tenant_completed := completed\<rparr>,
           report duration_s policy_name config_name total_slots total_memory_gb mc (p50, p95, p99)
             (p50_prefill, p95_prefill) p50_decode fairness))))))))"

definition render_prometheus :: "metrics_collector \<Rightarrow> string result" where
  "render_prometheus mc =
     ebind (quantile (map rr_total_latency_ms (admitted_results mc)) 0.95) (\<lambda>p95.
       Inr (concat (map (\<lambda>line. line @ [CHR 0x0A])
         [''# HELP nimbusmesh_requests_total Total number of processed requests.'',
          ''# TYPE nimbusmesh_requests_total counter'',
          ''nimbusmesh_requests_total '' @ show_int (int (length (mc_results mc))),
          ''# HELP nimbusmesh_latency_p95_ms Estimated p95 end-to-end latency.'',
          ''# TYPE nimbusmesh_latency_p95_ms gauge'',
          ''nimbusmesh_latency_p95_ms '' @ format_fixed 3 p95,
          ''# HELP nimbusmesh_cache_hit_ratio Mean cache hit ratio.'',
          ''# TYPE nimbusmesh_cache_hit_ratio gauge'',
          ''nimbusmesh_cache_hit_ratio '' @ format_fixed 6 (admitted_mean rr_cache_hit_ratio mc)])))"

section \<open>The quantile\<close>

text \<open>Linear interpolation in a sorted list, the way \<open>_quantile\<close> reads it.\<close>

definition interpolate :: "pyfloat list \<Rightarrow> pyfloat \<Rightarrow> pyfloat" where
  "interpolate ys x =
     (let k = nat \<lfloor>x\<rfloor> in if of_int \<lfloor>x\<rfloor> = x then ys ! k else ys ! k + (ys ! Suc k - ys ! k) * (x - of_int \<lfloor>x\<rfloor>))"

lemma index_range:
  fixes q :: pyfloat
  assumes "vs \<noteq> []" and "0 \<le> q" and "q \<le> 1"
  shows "0 \<le> of_int (int (length vs) - 1) * q" and "of_int (int (length vs) - 1) * q \<le> of_int (int (length vs) - 1)"
proof -
  have n: "(0 :: pyfloat) \<le> of_int (int (length vs) - 1)" using assms(1) by (cases vs) auto
  show "0 \<le> of_int (int (length vs) - 1) * q" using n assms(2) by simp
  show "of_int (int (length vs) - 1) * q \<le> of_int (int (length vs) - 1)"
    using mult_left_mono [OF assms(3) n] by simp
qed

lemma floor_next:
  fixes x :: pyfloat
  assumes "0 \<le> x" and "x \<le> of_int (int n - 1)" and "of_int \<lfloor>x\<rfloor> \<noteq> x"
  shows "Suc (nat \<lfloor>x\<rfloor>) < n" and "nat \<lceil>x\<rceil> = Suc (nat \<lfloor>x\<rfloor>)"
proof -
  have up: "\<lceil>x\<rceil> = \<lfloor>x\<rfloor> + 1" using assms(3) by (simp add: ceiling_altdef)
  have "0 \<le> \<lfloor>x\<rfloor>" using assms(1) by simp
  moreover have "\<lceil>x\<rceil> \<le> int n - 1" using assms(2) by (simp only: ceiling_le_iff)
  ultimately show "Suc (nat \<lfloor>x\<rfloor>) < n" and "nat \<lceil>x\<rceil> = Suc (nat \<lfloor>x\<rfloor>)" using up by linarith+
qed

lemma quantile_at:
  assumes "vs \<noteq> []" and x: "x = of_int (int (length vs) - 1) * q"
  shows "quantile vs q =
    (if \<lfloor>x\<rfloor> = \<lceil>x\<rceil> then py_item (sort vs) \<lfloor>x\<rfloor>
     else ebind (py_item (sort vs) \<lfloor>x\<rfloor>) (\<lambda>low. ebind (py_item (sort vs) \<lceil>x\<rceil>) (\<lambda>high.
       Inr (low + (high - low) * (x - of_int \<lfloor>x\<rfloor>)))))"
  using assms(1) unfolding quantile_def Let_def length_sort x by (simp only: if_False)

lemma quantile_interpolates:
  assumes "vs \<noteq> []" and "0 \<le> q" and "q \<le> 1"
  shows "quantile vs q = Inr (interpolate (sort vs) (of_int (int (length vs) - 1) * q))"
proof -
  define n where "n = length vs"
  define x where "x = of_int (int (length vs) - 1) * q"
  have x: "0 \<le> x" "x \<le> of_int (int n - 1)" using index_range [OF assms] by (simp_all only: x_def n_def)
  have fl: "0 \<le> \<lfloor>x\<rfloor>" using x by simp
  have "\<lfloor>x\<rfloor> \<le> int n - 1" using floor_mono [OF x(2)] by (simp only: floor_of_int)
  with fl have low: "py_item (sort vs) \<lfloor>x\<rfloor> = Inr (sort vs ! nat \<lfloor>x\<rfloor>)" by (simp add: n_def)
  have "quantile vs q = Inr (interpolate (sort vs) x)"
  proof (cases "of_int \<lfloor>x\<rfloor> = x")
    case True
    then have "\<lceil>x\<rceil> = \<lfloor>x\<rfloor>" by (metis ceiling_of_int)
    with True low quantile_at [OF assms(1) x_def] show ?thesis by (simp add: interpolate_def Let_def)
  next
    case False
    have up: "\<lceil>x\<rceil> = \<lfloor>x\<rfloor> + 1" using False by (simp add: ceiling_altdef)
    have "Suc (nat \<lfloor>x\<rfloor>) < n" by (rule floor_next(1) [OF x False])
    then have "py_item (sort vs) \<lceil>x\<rceil> = Inr (sort vs ! Suc (nat \<lfloor>x\<rfloor>))"
      using fl floor_next(2) [OF x False] up by (subst py_item_Inr) (simp_all add: n_def)
    with False low up quantile_at [OF assms(1) x_def] show ?thesis by (simp add: interpolate_def Let_def)
  qed
  then show ?thesis by (simp only: x_def)
qed

text \<open>The interpolated value lies between its two neighbours.\<close>

lemma interpolate_between:
  assumes "sorted ys" and "0 \<le> x" and "x \<le> of_int (int (length ys) - 1)"
  shows "ys ! nat \<lfloor>x\<rfloor> \<le> interpolate ys x" and "interpolate ys x \<le> ys ! nat \<lceil>x\<rceil>"
proof -
  have "ys ! nat \<lfloor>x\<rfloor> \<le> interpolate ys x \<and> interpolate ys x \<le> ys ! nat \<lceil>x\<rceil>"
  proof (cases "of_int \<lfloor>x\<rfloor> = x")
    case True
    then have "\<lceil>x\<rceil> = \<lfloor>x\<rfloor>" by (metis ceiling_of_int)
    with True show ?thesis by (simp add: interpolate_def Let_def)
  next
    case False
    note nx = floor_next [OF assms(2,3) False]
    define a b t where "a = ys ! nat \<lfloor>x\<rfloor>" and "b = ys ! Suc (nat \<lfloor>x\<rfloor>)" and "t = x - of_int \<lfloor>x\<rfloor>"
    have "a \<le> b" using sorted_nth_mono [OF assms(1), of "nat \<lfloor>x\<rfloor>" "Suc (nat \<lfloor>x\<rfloor>)"] nx by (simp add: a_def b_def)
    moreover have t: "0 \<le> t" "t \<le> 1" by (simp_all add: t_def) linarith
    ultimately have "0 \<le> (b - a) * t" "(b - a) * t \<le> b - a"
      using mult_left_mono [OF t(2), of "b - a"] by simp_all
    with False nx(2) show ?thesis by (simp add: interpolate_def Let_def a_def b_def t_def)
  qed
  then show "ys ! nat \<lfloor>x\<rfloor> \<le> interpolate ys x" and "interpolate ys x \<le> ys ! nat \<lceil>x\<rceil>" by simp_all
qed

lemma interpolate_mono:
  assumes "sorted ys" and "0 \<le> x" and "x \<le> y" and "y \<le> of_int (int (length ys) - 1)"
  shows "interpolate ys x \<le> interpolate ys y"
proof (cases "\<lfloor>x\<rfloor> = \<lfloor>y\<rfloor>")
  case True
  show ?thesis
  proof (cases "of_int \<lfloor>x\<rfloor> = x")
    case base: True
    have "interpolate ys x = ys ! nat \<lfloor>y\<rfloor>" using base True by (simp add: interpolate_def Let_def)
    also have "\<dots> \<le> interpolate ys y" using interpolate_between(1) [OF assms(1) _ assms(4)] assms(2,3) by simp
    finally show ?thesis .
  next
    case False
    then have y: "of_int \<lfloor>y\<rfloor> \<noteq> y" using True assms(3) by (metis antisym of_int_floor_le)
    have "Suc (nat \<lfloor>y\<rfloor>) < length ys" using floor_next(1) [OF _ assms(4) y] assms(2,3) by simp
    then have "0 \<le> ys ! Suc (nat \<lfloor>y\<rfloor>) - ys ! nat \<lfloor>y\<rfloor>"
      using sorted_nth_mono [OF assms(1), of "nat \<lfloor>y\<rfloor>" "Suc (nat \<lfloor>y\<rfloor>)"] by simp
    then have "(ys ! Suc (nat \<lfloor>y\<rfloor>) - ys ! nat \<lfloor>y\<rfloor>) * (x - of_int \<lfloor>y\<rfloor>) \<le>
        (ys ! Suc (nat \<lfloor>y\<rfloor>) - ys ! nat \<lfloor>y\<rfloor>) * (y - of_int \<lfloor>y\<rfloor>)"
      using assms(3) by (intro mult_left_mono) simp_all
    with False y True show ?thesis by (simp add: interpolate_def Let_def)
  qed
next
  case False
  then have "\<lfloor>x\<rfloor> + 1 \<le> \<lfloor>y\<rfloor>" using floor_mono [OF assms(3)] by linarith
  then have "\<lceil>x\<rceil> \<le> \<lfloor>y\<rfloor>" by (simp add: ceiling_altdef)
  moreover have "nat \<lfloor>y\<rfloor> < length ys"
  proof -
    have "\<lfloor>y\<rfloor> \<le> int (length ys) - 1" using floor_mono [OF assms(4)] by (simp only: floor_of_int)
    moreover have "0 \<le> \<lfloor>y\<rfloor>" using assms(2,3) by simp
    ultimately show ?thesis by linarith
  qed
  ultimately have mid: "ys ! nat \<lceil>x\<rceil> \<le> ys ! nat \<lfloor>y\<rfloor>" using assms(1) by (intro sorted_nth_mono) auto
  have "interpolate ys x \<le> ys ! nat \<lceil>x\<rceil>" using interpolate_between(2) [OF assms(1,2)] assms(3,4) by simp
  also note mid
  also have "ys ! nat \<lfloor>y\<rfloor> \<le> interpolate ys y" using interpolate_between(1) [OF assms(1) _ assms(4)] assms(2,3) by simp
  finally show ?thesis .
qed

text \<open>How many elements of a sorted list lie below and above its \<open>k\<close>-th.\<close>

lemma sorted_rank_below:
  assumes "sorted ys" and "k < length ys" and "ys ! k \<le> v"
  shows "k < length (filter (\<lambda>y. y \<le> v) ys)"
proof -
  have "\<forall>y \<in> set (take (Suc k) ys). y \<le> v"
  proof
    fix y assume "y \<in> set (take (Suc k) ys)"
    then obtain i where "i \<le> k" "y = ys ! i" "i < length ys" by (auto simp: in_set_conv_nth less_Suc_eq_le)
    with sorted_nth_mono [OF assms(1), of i k] assms(2,3) show "y \<le> v" by simp
  qed
  then have "filter (\<lambda>y. y \<le> v) (take (Suc k) ys) = take (Suc k) ys" by (simp add: filter_id_conv)
  then have "filter (\<lambda>y. y \<le> v) ys = take (Suc k) ys @ filter (\<lambda>y. y \<le> v) (drop (Suc k) ys)"
    by (metis append_take_drop_id filter_append)
  with assms(2) show ?thesis by simp
qed

lemma sorted_rank_above:
  assumes "sorted ys" and "k < length ys" and "v \<le> ys ! k"
  shows "length ys - k \<le> length (filter (\<lambda>y. v \<le> y) ys)"
proof -
  have "\<forall>y \<in> set (drop k ys). v \<le> y"
  proof
    fix y assume "y \<in> set (drop k ys)"
    then obtain i where "y = ys ! (k + i)" "k + i < length ys" by (auto simp: in_set_conv_nth)
    with sorted_nth_mono [OF assms(1), of k "k + i"] assms(3) show "v \<le> y" by simp
  qed
  then have "filter (\<lambda>y. v \<le> y) (drop k ys) = drop k ys" by (simp add: filter_id_conv)
  then have "filter (\<lambda>y. v \<le> y) ys = filter (\<lambda>y. v \<le> y) (take k ys) @ drop k ys"
    by (metis append_take_drop_id filter_append)
  then show ?thesis by simp
qed

lemma quantile_rank:
  assumes "vs \<noteq> []" and "0 \<le> q" and "q \<le> 1"
  shows "\<exists>v. quantile vs q = Inr v \<and>
    \<lfloor>of_int (int (length vs) - 1) * q\<rfloor> < int (length (filter (\<lambda>y. y \<le> v) vs)) \<and>
    int (length vs) - \<lceil>of_int (int (length vs) - 1) * q\<rceil> \<le> int (length (filter (\<lambda>y. v \<le> y) vs))"
proof -
  define x where "x = of_int (int (length vs) - 1) * q"
  define v where "v = interpolate (sort vs) x"
  have x: "0 \<le> x" "x \<le> of_int (int (length (sort vs)) - 1)"
    using index_range [OF assms] by (simp_all only: x_def length_sort)
  have "\<lfloor>x\<rfloor> \<le> int (length vs) - 1" and "\<lceil>x\<rceil> \<le> int (length vs) - 1"
    using floor_mono [OF x(2)] ceiling_mono [OF x(2)] by (simp_all only: floor_of_int ceiling_of_int length_sort)
  moreover have "0 \<le> \<lfloor>x\<rfloor>" and "0 \<le> \<lceil>x\<rceil>" using x(1) by simp_all
  ultimately have k: "nat \<lfloor>x\<rfloor> < length (sort vs)" "nat \<lceil>x\<rceil> < length (sort vs)" "int (nat \<lceil>x\<rceil>) = \<lceil>x\<rceil>"
    unfolding length_sort by linarith+
  have len: "length (filter P (sort vs)) = length (filter P vs)" for P
    by (simp add: filter_sort)
  note between = interpolate_between [OF sorted_sort x, folded v_def]
  have "\<lfloor>x\<rfloor> < int (length (filter (\<lambda>y. y \<le> v) vs))"
    using sorted_rank_below [OF sorted_sort k(1) between(1)] by (simp add: len)
  moreover have "int (length vs) - \<lceil>x\<rceil> \<le> int (length (filter (\<lambda>y. v \<le> y) vs))"
    using sorted_rank_above [OF sorted_sort k(2) between(2)] k(3) unfolding len length_sort by linarith
  ultimately show ?thesis using quantile_interpolates [OF assms] by (simp only: v_def x_def) blast
qed

lemma quantile_mono:
  assumes "0 \<le> q" and "q \<le> q'" and "q' \<le> 1"
  shows "\<exists>v v'. quantile vs q = Inr v \<and> quantile vs q' = Inr v' \<and> v \<le> v'"
proof (cases "vs = []")
  case False
  let ?x = "\<lambda>q. of_int (int (length vs) - 1) * q :: pyfloat"
  have q: "0 \<le> q'" "q \<le> 1" using assms by simp_all
  have "(0 :: pyfloat) \<le> of_int (int (length vs) - 1)" using False by (cases vs) auto
  then have "?x q \<le> ?x q'" using assms(2) by (intro mult_left_mono)
  then have "interpolate (sort vs) (?x q) \<le> interpolate (sort vs) (?x q')"
    using index_range [OF False assms(1) q(2)] index_range [OF False q(1) assms(3)]
    by (intro interpolate_mono) (simp_all only: sorted_sort length_sort)
  with quantile_interpolates [OF False assms(1) q(2)] quantile_interpolates [OF False q(1) assms(3)]
  show ?thesis by blast
qed (simp add: quantile_def)

text \<open>
  C38: \<open>_quantile\<close> returns a quantile for every \<open>q\<close> between 0 and 1: with \<open>n\<close> values, more than
  the floor of \<open>(n - 1) * q\<close> of them are at most the result and at least \<open>n\<close> minus the ceiling of
  it are at least the result; a larger \<open>q\<close> never gives a smaller result.
\<close>

theorem quantile_correct:
  assumes "vs \<noteq> []" and "0 \<le> q" and "q \<le> q'" and "q' \<le> 1"
  shows "\<exists>v v'. quantile vs q = Inr v \<and> quantile vs q' = Inr v' \<and> v \<le> v' \<and>
    \<lfloor>of_int (int (length vs) - 1) * q\<rfloor> < int (length (filter (\<lambda>y. y \<le> v) vs)) \<and>
    int (length vs) - \<lceil>of_int (int (length vs) - 1) * q\<rceil> \<le> int (length (filter (\<lambda>y. v \<le> y) vs))"
proof -
  have "q \<le> 1" using assms(3,4) by simp
  with quantile_rank [OF assms(1,2)] quantile_mono [OF assms(2-4), of vs] show ?thesis by auto
qed

theorem quantile_correct_witness:
  "quantile [30, 10, 20, 40] 0.5 = Inr 25 \<and> quantile [30, 10, 20, 40] 0.95 = Inr 38.5 \<and>
     (25 :: pyfloat) \<le> 38.5 \<and> 1 < length (filter (\<lambda>y. y \<le> 25) [30, 10, 20, 40 :: pyfloat])"
proof -
  have e: "quantile [30, 10, 20, 40] 0.5 = Inr 25" "quantile [30, 10, 20, 40] 0.95 = Inr 38.5" by code_simp+
  have "\<lfloor>of_int (int (length [30, 10, 20, 40 :: pyfloat]) - 1) * (0.5 :: pyfloat)\<rfloor> = 1" by code_simp
  with quantile_correct [of "[30, 10, 20, 40]" "0.5" "0.95"] e
  have "1 < int (length (filter (\<lambda>y. y \<le> 25) [30, 10, 20, 40 :: pyfloat]))" by (simp only:) simp
  with e show ?thesis by simp
qed

section \<open>Jain's index\<close>

lemma sum_square_deviation:
  fixes m :: pyfloat
  shows "sum_list (map (\<lambda>v. (v - m) ^ 2) vs) =
    sum_list (map (\<lambda>v. v * v) vs) - 2 * m * sum_list vs + of_nat (length vs) * m ^ 2"
  by (induction vs) (simp_all add: power2_eq_square algebra_simps)

lemma sum_squares_nonneg:
  fixes vs :: "pyfloat list"
  shows "0 \<le> sum_list (map (\<lambda>v. v * v) vs)"
  by (induction vs) simp_all

lemma sum_squares_zero:
  fixes vs :: "pyfloat list"
  shows "sum_list (map (\<lambda>v. (v - m) ^ 2) vs) = 0 \<longleftrightarrow> (\<forall>v \<in> set vs. v = m)"
proof (induction vs)
  case (Cons v vs)
  have "0 \<le> sum_list (map (\<lambda>v. (v - m) ^ 2) vs)" by (induction vs) simp_all
  then have "(v - m) ^ 2 + sum_list (map (\<lambda>v. (v - m) ^ 2) vs) = 0 \<longleftrightarrow>
      (v - m) ^ 2 = 0 \<and> sum_list (map (\<lambda>v. (v - m) ^ 2) vs) = 0"
    by (intro add_nonneg_eq_0_iff) simp_all
  with Cons.IH show ?case by simp
qed simp

text \<open>The deviation from the mean is what the numerator misses of the denominator.\<close>

lemma jain_gap:
  fixes vs :: "pyfloat list"
  assumes "vs \<noteq> []"
  shows "of_nat (length vs) * sum_list (map (\<lambda>v. v * v) vs) - (sum_list vs) ^ 2 =
    of_nat (length vs) * sum_list (map (\<lambda>v. (v - sum_list vs / of_nat (length vs)) ^ 2) vs)"
proof -
  define n where "n = (of_nat (length vs) :: pyfloat)"
  have "n \<noteq> 0" using assms by (simp add: n_def)
  then show ?thesis
    unfolding sum_square_deviation n_def [symmetric] by (simp add: power2_eq_square field_simps)
qed

lemma jains_index_eq:
  assumes "vs \<noteq> []" and "\<exists>v \<in> set vs. v \<noteq> 0"
  shows "0 < of_nat (length vs) * sum_list (map (\<lambda>v. v * v) vs)"
    and "jains_index vs = (sum_list vs) ^ 2 / (of_nat (length vs) * sum_list (map (\<lambda>v. v * v) vs))"
proof -
  have "sum_list (map (\<lambda>v. (v - 0) ^ 2) vs) \<noteq> 0" using assms(2) sum_squares_zero [of 0 vs] by blast
  then have "sum_list (map (\<lambda>v. v * v) vs) \<noteq> 0" by (simp add: power2_eq_square)
  then show pos: "0 < of_nat (length vs) * sum_list (map (\<lambda>v. v * v) vs)"
    using sum_squares_nonneg [of vs] assms(1) by (simp add: order_less_le)
  then show "jains_index vs = (sum_list vs) ^ 2 / (of_nat (length vs) * sum_list (map (\<lambda>v. v * v) vs))"
    using assms(1) unfolding jains_index_def Let_def by (simp only: if_False less_irrefl split: if_splits) auto
qed

lemma jains_index_zeros: "\<forall>v \<in> set vs. v = 0 \<Longrightarrow> jains_index vs = 1"
proof -
  assume "\<forall>v \<in> set vs. v = 0"
  then have "sum_list (map (\<lambda>v. v * v) vs) = 0" by (induction vs) auto
  then show ?thesis by (simp add: jains_index_def)
qed

lemma jains_index_le_1: "jains_index vs \<le> 1"
proof (cases "vs \<noteq> [] \<and> (\<exists>v \<in> set vs. v \<noteq> 0)")
  case True
  have "0 \<le> sum_list (map (\<lambda>v. (v - m) ^ 2) vs)" for m :: pyfloat by (induction vs) simp_all
  then have "0 \<le> of_nat (length vs) * sum_list (map (\<lambda>v. (v - sum_list vs / of_nat (length vs)) ^ 2) vs)"
    by (intro mult_nonneg_nonneg) simp_all
  then have "(sum_list vs) ^ 2 \<le> of_nat (length vs) * sum_list (map (\<lambda>v. v * v) vs)"
    using jain_gap [of vs] True by linarith
  moreover have "vs \<noteq> []" and "\<exists>v \<in> set vs. v \<noteq> 0" using True by simp_all
  note jains_index_eq [OF this]
  ultimately show ?thesis by (simp only: divide_le_eq_1_pos)
next
  case False
  then show ?thesis using jains_index_zeros [of vs] by (cases "vs = []") auto
qed

lemma jains_index_nonneg: "0 \<le> jains_index vs"
  by (simp add: jains_index_def Let_def sum_squares_nonneg divide_nonneg_nonneg)

lemma jains_index_ge:
  assumes "vs \<noteq> []" and "\<forall>v \<in> set vs. 0 \<le> v"
  shows "1 / of_nat (length vs) \<le> jains_index vs"
proof (cases "\<exists>v \<in> set vs. v \<noteq> 0")
  case True
  note eq = jains_index_eq [OF assms(1) True]
  have "sum_list (map (\<lambda>v. v * v) vs) \<le> (sum_list vs) ^ 2 \<and> 0 \<le> sum_list vs"
    using assms(2) by (induction vs) (auto simp: power2_eq_square algebra_simps intro: add_increasing2)
  then have "sum_list (map (\<lambda>v. v * v) vs) / (of_nat (length vs) * sum_list (map (\<lambda>v. v * v) vs)) \<le> jains_index vs"
    unfolding eq(2) using eq(1) by (intro divide_right_mono) simp_all
  moreover have "sum_list (map (\<lambda>v. v * v) vs) / (of_nat (length vs) * sum_list (map (\<lambda>v. v * v) vs)) =
      1 / of_nat (length vs)"
    using eq(1) by auto
  ultimately show ?thesis by simp
next
  case False
  then have "jains_index vs = 1" by (intro jains_index_zeros) auto
  moreover have "1 \<le> (of_nat (length vs) :: pyfloat)" using assms(1) by (cases vs) auto
  ultimately show ?thesis by (simp add: divide_le_eq)
qed

lemma jains_index_1_iff:
  assumes "vs \<noteq> []"
  shows "jains_index vs = 1 \<longleftrightarrow> (\<exists>c. \<forall>v \<in> set vs. v = c)"
proof (cases "\<exists>v \<in> set vs. v \<noteq> 0")
  case True
  note eq = jains_index_eq [OF assms True]
  let ?m = "sum_list vs / of_nat (length vs)"
  have "jains_index vs = 1 \<longleftrightarrow> of_nat (length vs) * sum_list (map (\<lambda>v. v * v) vs) - (sum_list vs) ^ 2 = 0"
    using eq by (auto simp: divide_eq_1_iff)
  also have "\<dots> \<longleftrightarrow> (\<forall>v \<in> set vs. v = ?m)"
    unfolding jain_gap [OF assms] using assms by (simp add: sum_squares_zero)
  also have "\<dots> \<longleftrightarrow> (\<exists>c. \<forall>v \<in> set vs. v = c)"
  proof
    assume "\<exists>c. \<forall>v \<in> set vs. v = c"
    then obtain c where c: "\<forall>v \<in> set vs. v = c" ..
    then have "vs = replicate (length vs) c" by (simp add: replicate_length_same)
    then have "sum_list vs = of_nat (length vs) * c" by (metis sum_list_replicate)
    with c assms show "\<forall>v \<in> set vs. v = ?m" by simp
  qed blast
  finally show ?thesis .
next
  case False
  then show ?thesis using jains_index_zeros [of vs] by auto
qed

text \<open>
  Jain's index of non-negative shares lies between \<open>1 / n\<close> and \<open>1\<close>, and it is \<open>1\<close> exactly when
  all shares are equal.
\<close>

theorem jains_index_bounds:
  assumes "vs \<noteq> []" and "\<forall>v \<in> set vs. 0 \<le> v"
  shows "1 / of_nat (length vs) \<le> jains_index vs \<and> jains_index vs \<le> 1 \<and>
    (jains_index vs = 1 \<longleftrightarrow> (\<exists>c. \<forall>v \<in> set vs. v = c))"
  using jains_index_ge [OF assms] jains_index_le_1 [of vs] jains_index_1_iff [OF assms(1)] by simp

theorem jains_index_bounds_witness:
  "jains_index [1, 0.5] = 0.9 \<and> 1 / of_nat (length [1, 0.5 :: pyfloat]) \<le> jains_index [1, 0.5] \<and> jains_index [1, 0.5] \<le> 1"
proof -
  have "jains_index [1, 0.5] = 0.9" by code_simp
  with jains_index_bounds [of "[1, 0.5]"] show ?thesis by simp
qed

section \<open>The report\<close>

lemma admitted_share_bounds:
  assumes "\<forall>r \<in> set (admitted_results mc). 0 \<le> f r \<and> f r \<le> 1"
  shows "0 \<le> admitted_mean f mc" and "admitted_mean f mc \<le> 1"
proof -
  have "0 \<le> sum_list (map f xs) \<and> sum_list (map f xs) \<le> of_nat (length xs)"
    if "\<forall>r \<in> set xs. 0 \<le> f r \<and> f r \<le> 1" for xs
    using that by (induction xs) auto
  from this [OF assms] have "0 \<le> sum_list (map f (admitted_results mc))"
    and "sum_list (map f (admitted_results mc)) \<le> of_int (max 1 (int (length (admitted_results mc))))"
    by (auto simp: le_max_iff_disj of_int_max)
  then show "0 \<le> admitted_mean f mc" and "admitted_mean f mc \<le> 1"
    by (simp_all add: admitted_mean_def divide_le_eq_1 less_max_iff_disj)
qed

lemma sla_miss_rate_bounds: "0 \<le> sla_miss_rate mc" "sla_miss_rate mc \<le> 1"
  using admitted_share_bounds [of mc "\<lambda>r. if rr_sla_met r then 1 else 0"] by (simp_all add: sla_miss_rate_def)

text \<open>A run that admitted nothing reports that every request missed its SLA.\<close>

lemma sla_miss_rate_nothing_admitted: "admitted_results mc = [] \<Longrightarrow> sla_miss_rate mc = 1"
  by (simp add: sla_miss_rate_def admitted_mean_def)

lemma three_percentiles:
  "\<exists>a b c. quantile vs 0.5 = Inr a \<and> quantile vs 0.95 = Inr b \<and> quantile vs 0.99 = Inr c \<and> a \<le> b \<and> b \<le> c"
proof -
  obtain a b where "quantile vs 0.5 = Inr a" "quantile vs 0.95 = Inr b" "a \<le> b"
    using quantile_mono [of "0.5" "0.95" vs] by auto
  moreover obtain b' c where "quantile vs 0.95 = Inr b'" "quantile vs 0.99 = Inr c" "b' \<le> c"
    using quantile_mono [of "0.95" "0.99" vs] by auto
  ultimately show ?thesis by auto
qed

lemma py_round_unit: "0 \<le> x \<Longrightarrow> x \<le> 1 \<Longrightarrow> 0 \<le> py_round n x \<and> py_round n x \<le> 1"
  using py_round_le_int [of x 1 n] by (simp add: py_round_nonneg)

lemma report_lookup:
  assumes "rep = report duration_s policy config slots memory mc (p50, p95, p99) prefill decode fairness"
  shows "map_of rep ''requests_total'' = Some (JInt (int (length (mc_results mc))))"
    and "map_of rep ''requests_admitted'' = Some (JInt (int (length (admitted_results mc))))"
    and "map_of rep ''p50_latency_ms'' = Some (JFloat (py_round 2 p50))"
    and "map_of rep ''p95_latency_ms'' = Some (JFloat (py_round 2 p95))"
    and "map_of rep ''p99_latency_ms'' = Some (JFloat (py_round 2 p99))"
    and "map_of rep ''sla_miss_rate'' = Some (JFloat (py_round 4 (sla_miss_rate mc)))"
    and "map_of rep ''fairness_index'' = Some (JFloat (py_round 4 (jains_index fairness)))"
    and "map_of rep ''gpu_utilization_proxy'' = Some (JFloat (py_round 4 (gpu_utilization duration_s slots mc)))"
    and "map_of rep ''memory_utilization_proxy'' = Some (JFloat (py_round 4 (memory_utilization memory mc)))"
    and "map_of rep ''policy_name'' = Some (JStr policy)"
  by (cases prefill; simp add: assms report_def Let_def)+

lemma summary_shape:
  "\<exists>mc' rep p50 p95 p99 prefill decode fairness.
     summary duration_s policy config slots memory mc = Inr (mc', rep) \<and>
     rep = report duration_s policy config slots memory mc (p50, p95, p99) prefill decode fairness \<and>
     mc_results mc' = mc_results mc \<and> p50 \<le> p95 \<and> p95 \<le> p99 \<and>
     fairness = snd (fairness_values (mc_tenant_submitted mc) (mc_tenant_completed mc))"
proof -
  let ?f = "\<lambda>g. map g (admitted_results mc)"
  obtain a b c where lat: "quantile (?f rr_total_latency_ms) 0.5 = Inr a"
    "quantile (?f rr_total_latency_ms) 0.95 = Inr b" "quantile (?f rr_total_latency_ms) 0.99 = Inr c" "a \<le> b" "b \<le> c"
    using three_percentiles by blast
  obtain a' b' where pre: "quantile (?f rr_prefill_latency_ms) 0.5 = Inr a'" "quantile (?f rr_prefill_latency_ms) 0.95 = Inr b'"
    using three_percentiles by blast
  obtain d' where dec: "quantile (?f rr_decode_latency_ms) 0.5 = Inr d'" using three_percentiles by blast
  obtain completed fairness where fv: "fairness_values (mc_tenant_submitted mc) (mc_tenant_completed mc) = (completed, fairness)"
    by force
  show ?thesis
    unfolding summary_def Let_def fv prod.case lat(1-3) pre dec ebind_Inr snd_conv
    by (intro exI conjI, rule refl, rule refl) (simp_all add: lat(4,5))
qed

text \<open>
  The report of a run is always produced, whatever was recorded: it counts the results and the
  admitted ones, its latency percentiles are ordered, its SLA miss rate and fairness index lie
  between 0 and 1 and its utilisations do not exceed 1.
\<close>

theorem summary_report:
  "\<exists>mc' rep p50 p95 p99 miss fair gpu mem.
     summary duration_s policy config slots memory mc = Inr (mc', rep) \<and> mc_results mc' = mc_results mc \<and>
     map_of rep ''requests_total'' = Some (JInt (int (length (mc_results mc)))) \<and>
     map_of rep ''requests_admitted'' = Some (JInt (int (length (admitted_results mc)))) \<and>
     map_of rep ''p50_latency_ms'' = Some (JFloat p50) \<and> map_of rep ''p95_latency_ms'' = Some (JFloat p95) \<and>
     map_of rep ''p99_latency_ms'' = Some (JFloat p99) \<and> p50 \<le> p95 \<and> p95 \<le> p99 \<and>
     map_of rep ''sla_miss_rate'' = Some (JFloat miss) \<and> 0 \<le> miss \<and> miss \<le> 1 \<and>
     map_of rep ''fairness_index'' = Some (JFloat fair) \<and> 0 \<le> fair \<and> fair \<le> 1 \<and>
     map_of rep ''gpu_utilization_proxy'' = Some (JFloat gpu) \<and> gpu \<le> 1 \<and>
     map_of rep ''memory_utilization_proxy'' = Some (JFloat mem) \<and> mem \<le> 1"
proof -
  obtain mc' p50 p95 p99 prefill decode fairness rep where
    s: "summary duration_s policy config slots memory mc = Inr (mc', rep)"
    and rep: "rep = report duration_s policy config slots memory mc (p50, p95, p99) prefill decode fairness"
    and mc': "mc_results mc' = mc_results mc" and le: "p50 \<le> p95" "p95 \<le> p99"
    using summary_shape [of duration_s policy config slots memory mc] by (elim exE conjE) (rule that)
  have "py_round 4 (gpu_utilization duration_s slots mc) \<le> 1" "py_round 4 (memory_utilization memory mc) \<le> 1"
    using py_round_le_int [of _ 1 4] by (simp_all add: gpu_utilization_def memory_utilization_def)
  with s mc' report_lookup [OF rep] py_round_mono [OF le(1), of 2] py_round_mono [OF le(2), of 2]
    py_round_unit [OF sla_miss_rate_bounds, of 4 mc] py_round_unit [OF jains_index_nonneg jains_index_le_1, of 4 fairness]
  show ?thesis by blast
qed

section \<open>Counting per tenant\<close>

text \<open>
  The collector as the engine drives it: a submission is noted, the request is executed, its result
  recorded.
\<close>

inductive metrics_run :: "metrics_collector \<Rightarrow> bool" where
  start: "metrics_run MetricsCollector"
| step: "metrics_run mc \<Longrightarrow>
    metrics_run (metrics_record result (metrics_note_submission (rq_tenant_id (rr_request result)) mc))"

definition results_of :: "string \<Rightarrow> request_result list \<Rightarrow> request_result list" where
  "results_of t results = filter (\<lambda>r. rq_tenant_id (rr_request r) = t) results"

lemma metrics_run_counts:
  assumes "metrics_run mc"
  shows "dict_get 0 (mc_tenant_submitted mc) t = int (length (results_of t (mc_results mc)))"
    and "dict_get 0 (mc_tenant_completed mc) t = int (length (results_of t (admitted_results mc)))"
  using assms
  by (induction)
     (auto simp: MetricsCollector_def metrics_record_def metrics_note_submission_def dd_add_def dict_simps
        results_of_def admitted_results_def)

lemma metrics_run_submitted:
  assumes "metrics_run mc"
  shows "dict_ok (mc_tenant_submitted mc) \<and> (\<forall>(t, n) \<in> set (mc_tenant_submitted mc). 0 < n)"
  using assms
proof induction
  case (step mc result)
  let ?t = "rq_tenant_id (rr_request result)"
  have "0 \<le> dict_get 0 (mc_tenant_submitted mc) ?t" using metrics_run_counts(1) [OF step.hyps] by simp
  moreover have "set (AList.update k v d) \<subseteq> insert (k, v) (set d)" for k :: string and v :: int and d
    by (induction d) auto
  ultimately show ?case using step.IH
    by (fastforce simp: metrics_record_def metrics_note_submission_def dd_add_def adict.invar_store)
qed (simp add: MetricsCollector_def)

lemma fairness_values_shares:
  "snd (fairness_values submitted completed) =
     map (\<lambda>(t, n). of_int (dict_get 0 completed t) / of_int (max 1 n)) submitted"
proof (induction submitted arbitrary: completed)
  case (Cons tn rest)
  then show ?case by (cases tn) (simp add: split_beta Let_def)
qed simp

text \<open>
  The fairness index of a run is Jain's index of the tenants' admission rates: for every tenant
  that submitted anything, the number of its admitted results over the number of its results.
\<close>

theorem fairness_is_admission_rate:
  assumes "metrics_run mc"
  shows "\<exists>mc' rep. summary duration_s policy config slots memory mc = Inr (mc', rep) \<and>
    map_of rep ''fairness_index'' = Some (JFloat (py_round 4 (jains_index
      (map (\<lambda>t. of_nat (length (results_of t (admitted_results mc))) / of_nat (length (results_of t (mc_results mc))))
        (dict_keys (mc_tenant_submitted mc)))))) \<and>
    set (dict_keys (mc_tenant_submitted mc)) = (\<lambda>r. rq_tenant_id (rr_request r)) ` set (mc_results mc)"
proof -
  obtain mc' p50 p95 p99 prefill decode rep where
    s: "summary duration_s policy config slots memory mc = Inr (mc', rep)"
    and rep: "rep = report duration_s policy config slots memory mc (p50, p95, p99) prefill decode
      (snd (fairness_values (mc_tenant_submitted mc) (mc_tenant_completed mc)))"
    using summary_shape by blast
  have keys: "set (dict_keys (mc_tenant_submitted mc)) = (\<lambda>r. rq_tenant_id (rr_request r)) ` set (mc_results mc)"
    using assms
    by induction (auto simp: MetricsCollector_def metrics_record_def metrics_note_submission_def dd_add_def
        dict_keys_def dom_update)
  have share: "(of_int (dict_get 0 (mc_tenant_completed mc) t) / of_int (max 1 n) :: pyfloat) =
      of_nat (length (results_of t (admitted_results mc))) / of_nat (length (results_of t (mc_results mc)))"
    if "(t, n) \<in> set (mc_tenant_submitted mc)" for t n
  proof -
    have "0 < n" and "map_of (mc_tenant_submitted mc) t = Some n"
      using metrics_run_submitted [OF assms] that by (auto simp: dict_ok_def)
    then have "n = int (length (results_of t (mc_results mc)))"
      using metrics_run_counts(1) [OF assms, of t] by (simp add: dict_get_def)
    moreover have "max 1 n = n" using \<open>0 < n\<close> by simp
    ultimately show ?thesis using metrics_run_counts(2) [OF assms, of t] by simp
  qed
  have "snd (fairness_values (mc_tenant_submitted mc) (mc_tenant_completed mc)) =
      map (\<lambda>t. of_nat (length (results_of t (admitted_results mc))) / of_nat (length (results_of t (mc_results mc))))
        (dict_keys (mc_tenant_submitted mc))"
    unfolding fairness_values_shares dict_keys_def map_map using share by (intro map_cong) auto
  with s keys report_lookup(7) [OF rep] show ?thesis by auto
qed

theorem fairness_is_admission_rate_witness:
  "\<exists>mc mc' rep. metrics_run mc \<and> mc_results mc = [demo_result] \<and> summary 60 ''multi_objective'' ''demo'' 4 2176 mc = Inr (mc', rep) \<and>
     map_of rep ''fairness_index'' = Some (JFloat 1)"
proof -
  define mc where "mc = metrics_record demo_result (metrics_note_submission (rq_tenant_id (rr_request demo_result)) MetricsCollector)"
  have run: "metrics_run mc" unfolding mc_def by (intro metrics_run.intros)
  have res: "mc_results mc = [demo_result]" "admitted_results mc = [demo_result]" "dict_keys (mc_tenant_submitted mc) = [''copilot'']"
    by (simp_all add: mc_def metrics_record_def metrics_note_submission_def MetricsCollector_def admitted_results_def
        dd_add_def demo_result_defs dict_keys_def)
  have "jains_index [1] = 1" by code_simp
  moreover have "results_of ''copilot'' [demo_result] = [demo_result]" by (simp add: results_of_def demo_result_defs)
  ultimately show ?thesis
    using fairness_is_admission_rate [OF run, of 60 "''multi_objective''" "''demo''" 4 2176] run res by auto
qed

end
