(* ===== verification/LogFiles.thy ===== *)
theory LogFiles
  imports Metrics PyJson
begin

text \<open>
  The files a run leaves behind: the decision log of \<open>nimbusmesh_x/logging_utils.py\<close>, the fan-out of
  \<open>nimbusmesh_x/structured_logs.py\<close>, the CSV tables of \<open>nimbusmesh_x/exporters.py\<close> and the summary
  file of \<open>MetricsCollector.write_summary\<close>. The file system is a dictionary from paths to contents;
  creating directories has no effect on it. Logs are lines of JSON text, reports indented JSON documents;
  how a float is written is the record \<open>text_codec\<close>. The lemmas show that logs are append-only, hold one line per event in the order
  of the events, that the two generations of a log agree, and that a log is read back line by line.
\<close>

section \<open>Files\<close>

type_synonym files = "(string, string) dict"

record text_codec =
  tc_floats :: float_text

text \<open>\<open>json.dumps(v, sort_keys=True)\<close>, the same with \<open>indent=2\<close>, and a cell of the csv writer.\<close>

definition tc_dumps :: "text_codec \<Rightarrow> json \<Rightarrow> string" where
  "tc_dumps tc = dumps (tc_floats tc) None True"

definition tc_pretty :: "text_codec \<Rightarrow> json \<Rightarrow> string" where
  "tc_pretty tc = dumps (tc_floats tc) (Some 2) True"

definition tc_cell :: "text_codec \<Rightarrow> json \<Rightarrow> string" where
  "tc_cell tc v = (case v of JNull \<Rightarrow> [] | _ \<Rightarrow> py_str (tc_floats tc) v)"

definition write_text :: "string \<Rightarrow> string \<Rightarrow> files \<Rightarrow> files" where
  "write_text path content fs = AList.update path content fs"

definition append_text :: "string \<Rightarrow> string \<Rightarrow> files \<Rightarrow> files" where
  "append_text path content fs = AList.update path (dict_get [] fs path @ content) fs"

definition file_exists :: "files \<Rightarrow> string \<Rightarrow> bool" where
  "file_exists fs path \<longleftrightarrow> map_of fs path \<noteq> None"

definition join_path :: "string \<Rightarrow> string \<Rightarrow> string" where
  "join_path base name = base @ ''/'' @ name"

text \<open>\<open>handle.write(json.dumps(payload, sort_keys=True) + "\n")\<close> in append mode.\<close>

definition append_json :: "text_codec \<Rightarrow> string \<Rightarrow> (string, json) dict \<Rightarrow> files \<Rightarrow> files" where
  "append_json tc path payload = append_text path (tc_dumps tc (JDict payload) @ [LF])"

section \<open>StructuredDecisionLogger\<close>

definition StructuredDecisionLogger :: "string option \<Rightarrow> files \<Rightarrow> files" where
  "StructuredDecisionLogger path fs =
     (case path of Some (c # p) \<Rightarrow> write_text (c # p) [] fs | _ \<Rightarrow> fs)"

definition logger_emit :: "text_codec \<Rightarrow> string option \<Rightarrow> (string, json) dict \<Rightarrow> files \<Rightarrow> files" where
  "logger_emit tc path payload fs =
     (case path of Some (c # p) \<Rightarrow> append_json tc (c # p) payload fs | _ \<Rightarrow> fs)"

section \<open>StructuredLogFanout\<close>

definition FANOUT_LOGS :: "string list" where
  "FANOUT_LOGS = [''scheduler_decisions.log'', ''cache_hits.log'', ''topology_scores.log'', ''latency_metrics.log'',
     ''failure_events.log'', ''scheduler.log'', ''cache.log'', ''topology.log'', ''latency.log'']"

definition StructuredLogFanout :: "string \<Rightarrow> files \<Rightarrow> files" where
  "StructuredLogFanout base_dir fs =
     fold (\<lambda>name fs. if file_exists fs (join_path base_dir name) then fs
                     else write_text (join_path base_dir name) [] fs) FANOUT_LOGS fs"

definition base_event :: "request_result \<Rightarrow> (string, json) dict" where
  "base_event r =
     [(''timestamp'', JFloat (rq_arrival_ts (rr_request r))), (''request_id'', JStr (rq_request_id (rr_request r))),
      (''tenant_id'', JStr (rq_tenant_id (rr_request r))), (''model_id'', JStr (rq_model_id (rr_request r))),
      (''chosen_cluster'', JStr (rd_cluster_id (rr_decision r))), (''gpu_id'', JStr (rd_pool_id (rr_decision r))),
      (''backend'', JStr (rd_backend_name (rr_decision r))),
      (''latency_estimate_ms'', JFloat (rd_estimated_latency_ms (rr_decision r))),
      (''actual_latency_ms'', JFloat (rr_total_latency_ms r)), (''cache_hit'', JBool (0 < rr_cache_hit_ratio r)),
      (''cache_hit_ratio'', JFloat (rr_cache_hit_ratio r)), (''cost_usd'', JFloat (rr_cost_usd r))]"

definition scheduler_event :: "request_result \<Rightarrow> (string, json) dict" where
  "scheduler_event r = dict_union (base_event r) [(''type'', JStr ''scheduler_decision'')]"

definition topology_event :: "request_result \<Rightarrow> (string, json) dict" where
  "topology_event r = dict_union (base_event r)
     [(''type'', JStr ''topology_score''), (''topology_affinity'', JFloat (rd_topology_affinity (rr_decision r))),
      (''network_cost'', JFloat (rr_network_cost r))]"

definition latency_event :: "request_result \<Rightarrow> (string, json) dict" where
  "latency_event r = dict_union (base_event r)
     [(''type'', JStr ''latency_metric''), (''queue_delay_ms'', JFloat (rr_queue_delay_ms r)),
      (''prefill_latency_ms'', JFloat (rr_prefill_latency_ms r)), (''decode_latency_ms'', JFloat (rr_decode_latency_ms r)),
      (''sla_met'', JBool (rr_sla_met r))]"

definition cache_event :: "request_result \<Rightarrow> (string, json) dict" where
  "cache_event r = dict_union (base_event r)
     [(''type'', JStr ''cache_hit''), (''cache_saved_tokens'', JInt (rr_cache_saved_tokens r))]"

definition emit_result :: "text_codec \<Rightarrow> string \<Rightarrow> request_result \<Rightarrow> files \<Rightarrow> files" where
  "emit_result tc base_dir r fs0 =
     (let log = (\<lambda>name. append_json tc (join_path base_dir name));
          fs1 = log ''scheduler_decisions.log'' (scheduler_event r) fs0;
          fs2 = log ''scheduler.log'' (scheduler_event r) fs1;
          fs3 = log ''topology_scores.log'' (topology_event r) fs2;
          fs4 = log ''topology.log'' (topology_event r) fs3;
          fs5 = log ''latency_metrics.log'' (latency_event r) fs4;
          fs6 = log ''latency.log'' (latency_event r) fs5
      in if 0 < rr_cache_hit_ratio r
         then log ''cache.log'' (cache_event r) (log ''cache_hits.log'' (cache_event r) fs6) else fs6)"

definition emit_failure_event :: "text_codec \<Rightarrow> string \<Rightarrow> (string, json) dict \<Rightarrow> files \<Rightarrow> files" where
  "emit_failure_event tc base_dir payload = append_json tc (join_path base_dir ''failure_events.log'') payload"

section \<open>ResultCSVExporter\<close>

definition EXPORTS :: "(string \<times> string list) list" where
  "EXPORTS =
     [(''latency.csv'', [''config_name'', ''policy_name'', ''p50_latency_ms'', ''p95_latency_ms'', ''p99_latency_ms'',
         ''mean_absolute_latency_error_ms'']),
      (''throughput.csv'', [''config_name'', ''policy_name'', ''throughput_tokens_per_s'', ''throughput_requests_per_s'']),
      (''gpu_utilization.csv'', [''config_name'', ''policy_name'', ''gpu_utilization_proxy'', ''memory_utilization_proxy'',
         ''energy_proxy_total'']),
      (''cost_analysis.csv'', [''config_name'', ''policy_name'', ''cost_per_1m_tokens_usd'', ''network_cost_total'',
         ''fairness_index'']),
      (''cache_hit_ratio.csv'', [''config_name'', ''policy_name'', ''cache_hit_ratio'', ''cache_saved_tokens_total'',
         ''sla_miss_rate''])]"

text \<open>\<open>ResultCSVExporter._append\<close>: a header before the first record of a file.\<close>

definition append_csv :: "string \<Rightarrow> string list \<Rightarrow> string list \<Rightarrow> files \<Rightarrow> files" where
  "append_csv path fieldnames cells fs =
     append_text path ((if file_exists fs path then [] else csv_record fieldnames) @ csv_record cells) fs"

definition export_table ::
  "text_codec \<Rightarrow> string \<Rightarrow> (string, json) dict \<Rightarrow> string \<times> string list \<Rightarrow> files \<Rightarrow> files result" where
  "export_table tc base_dir rep table fs =
     (case table of (name, fieldnames) \<Rightarrow>
      ebind (emap (\<lambda>c. dict_item rep c (KeyError c)) fieldnames) (\<lambda>cells.
        Inr (append_csv (join_path base_dir name) fieldnames (map (tc_cell tc) cells) fs)))"

definition export_summary :: "text_codec \<Rightarrow> string \<Rightarrow> (string, json) dict \<Rightarrow> files \<Rightarrow> files result" where
  "export_summary tc base_dir rep fs = efold (export_table tc base_dir rep) EXPORTS fs"

section \<open>The summary file\<close>

definition write_summary :: "text_codec \<Rightarrow> string option \<Rightarrow> (string, json) dict \<Rightarrow> files \<Rightarrow> files" where
  "write_summary tc path rep fs =
     (case path of Some (c # p) \<Rightarrow> write_text (c # p) (tc_pretty tc (JDict rep)) fs | _ \<Rightarrow> fs)"

section \<open>Append-only logs\<close>

text \<open>
  What a component that logs relies on: appending extends the content of one file and leaves the others
  as they are.
\<close>

locale append_store =
  fixes content :: "'s \<Rightarrow> string \<Rightarrow> string"
    and append :: "string \<Rightarrow> string \<Rightarrow> 's \<Rightarrow> 's"
  assumes content_append: "content (append p x s) q = (if q = p then content s q @ x else content s q)"
begin

lemma content_append_all: "content (fold (append p) xs s) q = (if q = p then content s q @ concat xs else content s q)"
  by (induction xs arbitrary: s) (simp_all add: content_append)

text \<open>Appending to one file each of several events, whatever is done to other files in between.\<close>

lemma content_fold:
  assumes "\<And>x s. content (step x s) p = content s p @ line x"
  shows "content (fold step xs s) p = content s p @ concat (map line xs)"
  using assms by (induction xs arbitrary: s) simp_all

end

interpretation disk: append_store "\<lambda>fs p. dict_get [] fs p" append_text
  by unfold_locales (simp add: append_text_def dict_simps)

lemma content_append_json:
  "dict_get [] (append_json tc p payload fs) q =
     (if q = p then dict_get [] fs q @ tc_dumps tc (JDict payload) @ [LF] else dict_get [] fs q)"
  by (simp add: append_json_def disk.content_append)

lemma join_path_inject [simp]: "join_path base a = join_path base b \<longleftrightarrow> a = b"
  by (simp add: join_path_def)

definition json_line :: "text_codec \<Rightarrow> (string, json) dict \<Rightarrow> string" where
  "json_line tc payload = tc_dumps tc (JDict payload) @ [LF]"

text \<open>What one result adds to each of the logs.\<close>

lemma emit_result_content:
  "dict_get [] (emit_result tc base r fs) (join_path base name) =
     dict_get [] fs (join_path base name) @
       (if name = ''scheduler_decisions.log'' \<or> name = ''scheduler.log'' then json_line tc (scheduler_event r)
        else if name = ''topology_scores.log'' \<or> name = ''topology.log'' then json_line tc (topology_event r)
        else if name = ''latency_metrics.log'' \<or> name = ''latency.log'' then json_line tc (latency_event r)
        else if (name = ''cache_hits.log'' \<or> name = ''cache.log'') \<and> 0 < rr_cache_hit_ratio r then json_line tc (cache_event r)
        else [])"
  by (simp add: emit_result_def content_append_json json_line_def Let_def)

lemma emit_result_elsewhere:
  "\<forall>name. path \<noteq> join_path base name \<Longrightarrow> dict_get [] (emit_result tc base r fs) path = dict_get [] fs path"
  by (simp add: emit_result_def content_append_json Let_def)

lemma logger_content:
  assumes "path \<noteq> []"
  shows "dict_get [] (fold (logger_emit tc (Some path)) payloads (StructuredDecisionLogger (Some path) fs)) path =
    concat (map (json_line tc) payloads)"
proof -
  have "dict_get [] (logger_emit tc (Some path) payload fs) path = dict_get [] fs path @ json_line tc payload" for payload fs
    using assms by (cases path) (simp_all add: logger_emit_def content_append_json json_line_def)
  from disk.content_fold [of "logger_emit tc (Some path)", OF this]
  have "dict_get [] (fold (logger_emit tc (Some path)) payloads (StructuredDecisionLogger (Some path) fs)) path =
      dict_get [] (StructuredDecisionLogger (Some path) fs) path @ concat (map (json_line tc) payloads)" .
  moreover have "dict_get [] (StructuredDecisionLogger (Some path) fs) path = []"
    using assms by (cases path) (simp_all add: StructuredDecisionLogger_def write_text_def dict_simps)
  ultimately show ?thesis by simp
qed

lemma fanout_content:
  "dict_get [] (fold (emit_result tc base) rs fs) (join_path base name) =
     dict_get [] fs (join_path base name) @ concat (map (\<lambda>r.
       (if name = ''scheduler_decisions.log'' \<or> name = ''scheduler.log'' then json_line tc (scheduler_event r)
        else if name = ''topology_scores.log'' \<or> name = ''topology.log'' then json_line tc (topology_event r)
        else if name = ''latency_metrics.log'' \<or> name = ''latency.log'' then json_line tc (latency_event r)
        else if (name = ''cache_hits.log'' \<or> name = ''cache.log'') \<and> 0 < rr_cache_hit_ratio r then json_line tc (cache_event r)
        else [])) rs)"
  by (rule disk.content_fold) (rule emit_result_content)

lemma concat_map_if: "concat (map (\<lambda>x. if P x then f x else []) xs) = concat (map f (filter P xs))"
  by (induction xs) simp_all

text \<open>
  The structured logs are append-only and complete: after any sequence of results each of the two
  scheduler, topology and latency logs has gained one line per result, in the order of the results, and
  each of the two cache logs one line per result with a cache hit; the failure log is untouched.
\<close>

theorem fanout_logs:
  "let fs' = fold (emit_result tc base) rs fs;
       hits = filter (\<lambda>r. 0 < rr_cache_hit_ratio r) rs;
       gained = (\<lambda>name event results. dict_get [] fs' (join_path base name) =
         dict_get [] fs (join_path base name) @ concat (map (json_line tc \<circ> event) results))
   in gained ''scheduler_decisions.log'' scheduler_event rs \<and> gained ''scheduler.log'' scheduler_event rs \<and>
      gained ''topology_scores.log'' topology_event rs \<and> gained ''topology.log'' topology_event rs \<and>
      gained ''latency_metrics.log'' latency_event rs \<and> gained ''latency.log'' latency_event rs \<and>
      gained ''cache_hits.log'' cache_event hits \<and> gained ''cache.log'' cache_event hits \<and>
      gained ''failure_events.log'' cache_event []"
  by (simp add: fanout_content concat_map_if comp_def)

section \<open>Reading the files back\<close>

text \<open>The payload of a result is a document when its metadata and its score breakdown are.\<close>

lemma result_document:
  "json_ok (JDict (to_dict r)) \<longleftrightarrow> json_ok (JDict (rq_metadata (rr_request r))) \<and> dict_ok (rd_score_breakdown (rr_decision r))"
proof -
  have opt: "json_ok (opt_str v)" for v by (cases v) simp_all
  have floats: "json_ok (floats_json d) \<longleftrightarrow> dict_ok d" for d by (auto simp: floats_json_def dict_ok_def comp_def case_prod_unfold)
  show ?thesis by (simp add: to_dict_def request_to_dict_def decision_to_dict_def dict_ok_def [of "_ # _"] opt floats)
qed

lemma printable_no_break: "printable c \<Longrightarrow> \<not> is_linebreak c"
  by (auto simp: printable_def is_linebreak_def Let_def)

text \<open>A log of documents is read back line by line.\<close>

lemma log_reads_back:
  assumes "floats_ok (tc_floats tc)" and "\<forall>p \<in> set payloads. json_ok (JDict p)"
  shows "emap (loads (tc_floats tc)) (splitlines (concat (map (json_line tc) payloads))) = Inr (map (\<lambda>p. sort_json (JDict p)) payloads)"
proof -
  let ?text = "\<lambda>p. tc_dumps tc (JDict p)"
  have "\<forall>t \<in> set (map ?text payloads). \<forall>c \<in> set t. \<not> is_linebreak c"
    unfolding tc_dumps_def using dumps_printable [OF assms(1)] printable_no_break by auto
  moreover have "json_line tc = (\<lambda>p. ?text p @ [CHR 0x0A])" by (simp add: json_line_def LF_def fun_eq_iff)
  ultimately have "splitlines (concat (map (json_line tc) payloads)) = map ?text payloads"
    using splitlines_lines [of "map ?text payloads"] by (simp add: comp_def)
  moreover have "emap (loads (tc_floats tc)) (map ?text payloads) = Inr (map (\<lambda>p. sort_json (JDict p)) payloads)"
    using assms(2) loads_dumps [OF assms(1), of _ None True] by (induction payloads) (simp_all add: tc_dumps_def)
  ultimately show ?thesis by simp
qed

section \<open>The exported tables\<close>

lemma report_columns:
  assumes "summary duration_s policy config slots memory mc = Inr (mc', rep)"
  shows "\<forall>(name, fieldnames) \<in> set EXPORTS. \<forall>c \<in> set fieldnames. map_of rep c \<noteq> None"
proof -
  obtain p50 p95 p99 prefill decode fairness where
    "rep = report duration_s policy config slots memory mc (p50, p95, p99) prefill decode fairness"
    using summary_shape [of duration_s policy config slots memory mc] assms by (elim exE conjE) (auto intro: that [OF sym])
  then show ?thesis by (cases prefill) (simp add: EXPORTS_def report_def Let_def)
qed

lemma emap_items: "\<forall>c \<in> set cs. map_of rep c \<noteq> None \<Longrightarrow>
    emap (\<lambda>c. dict_item rep c (KeyError c)) cs = Inr (map (\<lambda>c. the (map_of rep c)) cs)"
  by (induction cs) (auto simp: dict_item_def)

text \<open>The records one report adds to a table, header included when the table is new.\<close>

definition table_rows :: "text_codec \<Rightarrow> (string, json) dict \<Rightarrow> string \<Rightarrow> string list \<Rightarrow> files \<Rightarrow> string" where
  "table_rows tc rep path fieldnames fs =
     (if file_exists fs path then [] else csv_record fieldnames) @
     csv_record (map (\<lambda>c. tc_cell tc (the (map_of rep c))) fieldnames)"

lemma export_tables:
  assumes "\<forall>(name, fieldnames) \<in> set tables. \<forall>c \<in> set fieldnames. map_of rep c \<noteq> None" and "distinct (map fst tables)"
  shows "\<exists>fs'. efold (export_table tc base rep) tables fs = Inr fs' \<and>
    (\<forall>(name, fieldnames) \<in> set tables. dict_get [] fs' (join_path base name) =
       dict_get [] fs (join_path base name) @ table_rows tc rep (join_path base name) fieldnames fs) \<and>
    (\<forall>path. path \<notin> (\<lambda>t. join_path base (fst t)) ` set tables \<longrightarrow> map_of fs' path = map_of fs path)"
  using assms
proof (induction tables arbitrary: fs)
  case (Cons t tables)
  obtain name cs where t: "t = (name, cs)" by force
  let ?p = "join_path base name"
  define fs1 where "fs1 = append_csv ?p cs (map (\<lambda>c. tc_cell tc (the (map_of rep c))) cs) fs"
  have step: "export_table tc base rep t fs = Inr fs1"
    using Cons.prems(1) emap_items [of cs rep] by (auto simp: t export_table_def fs1_def comp_def)
  have here: "dict_get [] fs1 ?p = dict_get [] fs ?p @ table_rows tc rep ?p cs fs"
    and other: "path \<noteq> ?p \<Longrightarrow> map_of fs1 path = map_of fs path" for path
    by (simp_all add: fs1_def append_csv_def append_text_def dict_simps table_rows_def)
  obtain fs' where fs': "efold (export_table tc base rep) tables fs1 = Inr fs'"
    and rows: "\<forall>(name, fieldnames) \<in> set tables. dict_get [] fs' (join_path base name) =
       dict_get [] fs1 (join_path base name) @ table_rows tc rep (join_path base name) fieldnames fs1"
    and rest: "\<forall>path. path \<notin> (\<lambda>t. join_path base (fst t)) ` set tables \<longrightarrow> map_of fs' path = map_of fs1 path"
    using Cons.IH [of fs1] Cons.prems by auto
  have new: "n \<noteq> name" if "(n, c) \<in> set tables" for n c using Cons.prems(2) that by (force simp: t)
  have "?p \<notin> (\<lambda>t. join_path base (fst t)) ` set tables" using new by fastforce
  with rest here have "dict_get [] fs' ?p = dict_get [] fs ?p @ table_rows tc rep ?p cs fs" by (simp add: dict_get_def)
  moreover have "dict_get [] fs' (join_path base n) = dict_get [] fs (join_path base n) @ table_rows tc rep (join_path base n) c fs"
    if nc: "(n, c) \<in> set tables" for n c
  proof -
    have "map_of fs1 (join_path base n) = map_of fs (join_path base n)" using other new [OF nc] by simp
    with rows nc show ?thesis by (auto simp: dict_get_def table_rows_def file_exists_def)
  qed
  ultimately show ?case using step fs' rest other by (auto simp: t)
qed simp

lemma map_of_extended: "map_of rep c \<noteq> None \<Longrightarrow> map_of (AList.update k v rep) c \<noteq> None"
  by (simp add: dict_simps)

text \<open>A report, also with a further entry, is exported without an error.\<close>

lemma export_summary_total:
  assumes "summary duration_s policy config slots memory mc = Inr (mc', rep)"
  shows "\<exists>fs'. export_summary tc base (AList.update k v rep) fs = Inr fs'"
proof -
  have "\<forall>(name, fieldnames) \<in> set EXPORTS. \<forall>c \<in> set fieldnames. map_of (AList.update k v rep) c \<noteq> None"
    using report_columns [OF assms] by (auto simp: dict_simps)
  moreover have "distinct (map fst EXPORTS)" by (simp add: EXPORTS_def)
  ultimately show ?thesis using export_tables unfolding export_summary_def by blast
qed

end
