(* ===== verification/AzureSim.thy ===== *)
theory AzureSim
  imports LogFiles
begin

text \<open>
  The simulated Azure back end of \<open>azure_sim/environment.py\<close>: an inventory read from a YAML file,
  counters of submitted and completed requests, the cost per cluster, and three logs. The YAML parser
  (absent when PyYAML is not installed) and the Ray queue with its \<open>put\<close> (absent unless Ray is installed
  and asked for) are the record \<open>azure_env\<close>. The lemmas show that the counters and the costs are the
  totals over the requests and results seen.
\<close>

section \<open>State\<close>

record azure_node_pool =
  ap_name :: json
  ap_gpu_type :: json
  ap_memory_gb :: pyfloat
  ap_network_bandwidth_gbps :: pyfloat
  ap_cost_per_hour :: pyfloat
  ap_node_count :: int

record azure_aks_cluster =
  ak_name :: json
  ak_region :: json
  ak_zone :: json
  ak_node_pools :: "azure_node_pool list"

record 'q azure_env =
  ae_yaml :: "(string \<Rightarrow> json result) option"
  ae_queue :: "'q option"
  ae_put :: "json \<Rightarrow> 'q \<Rightarrow> 'q result"

record 'q azure_simulator =
  az_log_dir :: string
  az_available :: bool
  az_resource_groups :: "(json, azure_aks_cluster list) dict"
  az_submitted :: int
  az_completed :: int
  az_cluster_costs :: "(string, pyfloat) dict"
  az_batch_queue :: "'q option"

section \<open>Loading the inventory\<close>

definition load_node_pool :: "json \<Rightarrow> azure_node_pool result" where
  "load_node_pool item =
     ebind (json_item item ''name'') (\<lambda>name.
     ebind (json_item item ''gpu_type'') (\<lambda>gpu_type.
     ebind (ebind (json_item item ''memory_gb'') json_float) (\<lambda>memory_gb.
     ebind (ebind (json_item item ''network_bandwidth_gbps'') json_float) (\<lambda>bandwidth.
     ebind (ebind (json_item item ''cost_per_hour'') json_float) (\<lambda>cost.
     ebind (ebind (json_item item ''node_count'') json_int) (\<lambda>node_count.
     Inr \<lparr>ap_name = name, ap_gpu_type = gpu_type, ap_memory_gb = memory_gb, ap_network_bandwidth_gbps = bandwidth,
          ap_cost_per_hour = cost, ap_node_count = node_count\<rparr>))))))"

definition load_cluster :: "json \<Rightarrow> json \<Rightarrow> azure_aks_cluster result" where
  "load_cluster resource_group cluster =
     ebind (ebind (json_get cluster ''node_pools'' (JList [])) json_iter) (\<lambda>items.
     ebind (emap load_node_pool items) (\<lambda>node_pools.
     ebind (json_item cluster ''name'') (\<lambda>name.
     ebind (json_item resource_group ''region'') (\<lambda>region.
     ebind (json_item cluster ''zone'') (\<lambda>zone.
     Inr \<lparr>ak_name = name, ak_region = region, ak_zone = zone, ak_node_pools = node_pools\<rparr>)))))"

definition hashable :: "json \<Rightarrow> bool" where
  "hashable v \<longleftrightarrow> (case v of JList _ \<Rightarrow> False | JDict _ \<Rightarrow> False | _ \<Rightarrow> True)"

definition load_group ::
  "json \<Rightarrow> (json, azure_aks_cluster list) dict \<Rightarrow> (json, azure_aks_cluster list) dict result" where
  "load_group resource_group groups =
     ebind (ebind (json_get resource_group ''aks_clusters'' (JList [])) json_iter) (\<lambda>items.
     ebind (emap (load_cluster resource_group) items) (\<lambda>clusters.
     ebind (json_item resource_group ''name'') (\<lambda>name.
     if hashable name then Inr (AList.update name clusters groups) else Inl TypeError)))"

definition load_inventory :: "json \<Rightarrow> (json, azure_aks_cluster list) dict result" where
  "load_inventory payload =
     ebind (ebind (json_get payload ''resource_groups'' (JList [])) json_iter) (\<lambda>groups. efold load_group groups [])"

section \<open>AzureInfraSimulator\<close>

definition AZURE_LOGS :: "string list" where
  "AZURE_LOGS = [''azure_monitor.log'', ''azure_cost.log'', ''azure_batch.log'']"

definition AzureInfraSimulator ::
  "'q azure_env \<Rightarrow> string \<Rightarrow> string \<Rightarrow> files \<Rightarrow> ('q azure_simulator \<times> files) result" where
  "AzureInfraSimulator env path log_dir fs0 =
     (let fs = fold (\<lambda>name. write_text (join_path log_dir name) []) AZURE_LOGS fs0;
          az = \<lparr>az_log_dir = log_dir, az_available = False, az_resource_groups = [], az_submitted = 0, az_completed = 0,
                az_cluster_costs = [], az_batch_queue = ae_queue env\<rparr>
      in case (ae_yaml env, map_of fs path) of
           (Some safe_load, Some content) \<Rightarrow>
             ebind (safe_load content) (\<lambda>payload. ebind (load_inventory payload) (\<lambda>groups.
               Inr (az\<lparr>az_available := True, az_resource_groups := groups\<rparr>, fs)))
         | _ \<Rightarrow> Inr (az, fs))"

definition azure_note_submission ::
  "'q azure_env \<Rightarrow> text_codec \<Rightarrow> inference_request \<Rightarrow> 'q azure_simulator \<times> files \<Rightarrow> ('q azure_simulator \<times> files) result" where
  "azure_note_submission env tc request state =
     (case state of (az, fs) \<Rightarrow>
      if \<not> az_available az then Inr state
      else ebind (case az_batch_queue az of None \<Rightarrow> Inr None
                  | Some q \<Rightarrow> ebind (ae_put env (JDict [(''request_id'', JStr (rq_request_id request)),
                      (''tenant_id'', JStr (rq_tenant_id request)), (''arrival_ts'', JFloat (rq_arrival_ts request))]) q)
                      (\<lambda>q'. Inr (Some q'))) (\<lambda>queue.
        let submitted = az_submitted az + 1
        in Inr (az\<lparr>az_submitted := submitted, az_batch_queue := queue\<rparr>,
             append_json tc (join_path (az_log_dir az) ''azure_batch.log'')
               [(''event'', JStr ''batch_submission''), (''request_id'', JStr (rq_request_id request)),
                (''tenant_id'', JStr (rq_tenant_id request)), (''submitted_total'', JInt submitted),
                (''ray_queue_enabled'', JBool (queue \<noteq> None))] fs)))"

definition azure_record_result ::
  "text_codec \<Rightarrow> request_result \<Rightarrow> 'q azure_simulator \<times> files \<Rightarrow> 'q azure_simulator \<times> files" where
  "azure_record_result tc result state =
     (case state of (az, fs) \<Rightarrow>
      if \<not> az_available az then state
      else let cid = rd_cluster_id (rr_decision result);
               cluster_cost = dict_get 0 (az_cluster_costs az) cid + rr_cost_usd result;
               fs1 = append_json tc (join_path (az_log_dir az) ''azure_monitor.log'')
                 [(''event'', JStr ''monitor_metric''), (''request_id'', JStr (rq_request_id (rr_request result))),
                  (''cluster'', JStr cid), (''latency_ms'', JFloat (rr_total_latency_ms result)),
                  (''cache_hit_ratio'', JFloat (rr_cache_hit_ratio result)),
                  (''gpu_pool'', JStr (rd_pool_id (rr_decision result)))] fs
           in (az\<lparr>az_completed := az_completed az + (if rr_admitted result then 1 else 0),
                  az_cluster_costs := AList.update cid cluster_cost (az_cluster_costs az)\<rparr>,
               append_json tc (join_path (az_log_dir az) ''azure_cost.log'')
                 [(''event'', JStr ''cost_metric''), (''request_id'', JStr (rq_request_id (rr_request result))),
                  (''cluster'', JStr cid), (''request_cost_usd'', JFloat (rr_cost_usd result)),
                  (''cluster_cost_usd'', JFloat (py_round 6 cluster_cost))] fs1))"

definition azure_summary :: "'q azure_simulator \<Rightarrow> json" where
  "azure_summary az =
     JDict [(''available'', JBool (az_available az)), (''submitted'', JInt (az_submitted az)),
            (''completed'', JInt (az_completed az)), (''cluster_costs'', floats_json (az_cluster_costs az))]"

section \<open>Lemmas\<close>

definition azure_files_only :: "'q azure_simulator \<Rightarrow> files \<Rightarrow> files \<Rightarrow> bool" where
  "azure_files_only az fs fs' \<longleftrightarrow>
     (\<forall>path. path \<notin> join_path (az_log_dir az) ` set AZURE_LOGS \<longrightarrow> dict_get [] fs' path = dict_get [] fs path)"

lemma azure_record_result_state:
  "az_available az \<Longrightarrow> azure_record_result tc r (az, fs) = (az', fs') \<Longrightarrow>
     az' = az\<lparr>az_completed := az_completed az + (if rr_admitted r then 1 else 0),
        az_cluster_costs := AList.update (rd_cluster_id (rr_decision r))
          (dict_get 0 (az_cluster_costs az) (rd_cluster_id (rr_decision r)) + rr_cost_usd r) (az_cluster_costs az)\<rparr>"
  by (simp add: azure_record_result_def Let_def)

lemma azure_record_result_files:
  "azure_record_result tc r (az, fs) = (az', fs') \<Longrightarrow> azure_files_only az fs fs'"
  by (auto simp: azure_record_result_def Let_def azure_files_only_def content_append_json AZURE_LOGS_def split: if_splits)

lemma azure_note_submission_state:
  "azure_note_submission env tc q (az, fs) = Inr (az', fs') \<Longrightarrow>
     az' = az\<lparr>az_submitted := az_submitted az', az_batch_queue := az_batch_queue az'\<rparr> \<and>
     az_submitted az' = az_submitted az + (if az_available az then 1 else 0) \<and> azure_files_only az fs fs'"
  by (auto simp: azure_note_submission_def result_simps Let_def azure_files_only_def content_append_json AZURE_LOGS_def
      split: if_splits)

lemma azure_note_submission_total:
  assumes "az_batch_queue az = None"
  shows "\<exists>az' fs'. azure_note_submission env tc q (az, fs) = Inr (az', fs') \<and> az_batch_queue az' = None"
  using assms by (simp add: azure_note_submission_def Let_def)

text \<open>Recording a sequence of results: admitted results are counted and costs add up per cluster.\<close>

lemma azure_record_all:
  assumes "az_available az" and "fold (azure_record_result tc) rs (az, fs) = (az', fs')"
  shows "az_available az' \<and> az_completed az' = az_completed az + int (length (filter rr_admitted rs)) \<and>
    dict_get 0 (az_cluster_costs az') cid = dict_get 0 (az_cluster_costs az) cid +
      sum_list (map rr_cost_usd (filter (\<lambda>r. rd_cluster_id (rr_decision r) = cid) rs))"
  using assms
proof (induction rs arbitrary: az fs)
  case (Cons r rs)
  obtain az1 fs1 where r: "azure_record_result tc r (az, fs) = (az1, fs1)" by force
  note az1 = azure_record_result_state [OF Cons.prems(1) r]
  have "az_available az1" using az1 Cons.prems(1) by simp
  from Cons.IH [OF this] Cons.prems(2) r have
    "az_available az' \<and> az_completed az' = az_completed az1 + int (length (filter rr_admitted rs)) \<and>
     dict_get 0 (az_cluster_costs az') cid = dict_get 0 (az_cluster_costs az1) cid +
      sum_list (map rr_cost_usd (filter (\<lambda>r. rd_cluster_id (rr_decision r) = cid) rs))" by simp
  with az1 show ?case by (auto simp: dict_simps)
qed simp

end
