(* ===== verification/PostgresStore.thy ===== *)
theory PostgresStore
  imports Samples PyJson
begin

text \<open>
  The optional PostgreSQL store of \<open>storage/postgres_store.py\<close>. The \<open>psycopg\<close> package and the server
  are not part of the sources: their state is \<open>'p\<close>, with the calls the store makes in the record
  \<open>postgres_env\<close>. The four SQL statements are the constructors of \<open>pg_statement\<close>.
\<close>

datatype pg_statement =
    CREATE_experiment_results
  | CREATE_experiment_summaries
  | INSERT_experiment_results
  | INSERT_experiment_summaries

datatype pg_value = PgText string | PgDouble pyfloat

record 'p postgres_env =
  pg_connect :: "string \<Rightarrow> 'p \<Rightarrow> 'p result"
  pg_execute :: "pg_statement \<Rightarrow> pg_value list \<Rightarrow> 'p \<Rightarrow> 'p result"
  pg_commit :: "'p \<Rightarrow> 'p result"
  pg_floats :: float_text

definition pg_dumps :: "'p postgres_env \<Rightarrow> json \<Rightarrow> string" where
  "pg_dumps env = dumps (pg_floats env) None False"

record 'p postgres_store =
  pg_dsn :: string
  pg_enabled :: bool
  pg_state :: 'p

text \<open>One connection: the statements in order, then a commit.\<close>

definition pg_transaction ::
  "'p postgres_env \<Rightarrow> (pg_statement \<times> pg_value list) list \<Rightarrow> 'p postgres_store \<Rightarrow> 'p postgres_store result" where
  "pg_transaction env statements s =
     (if \<not> pg_enabled s then Inr s
      else ebind (pg_connect env (pg_dsn s) (pg_state s)) (\<lambda>c.
           ebind (efold (\<lambda>(statement, params). pg_execute env statement params) statements c) (\<lambda>c'.
           ebind (pg_commit env c') (\<lambda>state'. Inr (s\<lparr>pg_state := state'\<rparr>)))))"

definition ensure_tables :: "'p postgres_env \<Rightarrow> 'p postgres_store \<Rightarrow> 'p postgres_store result" where
  "ensure_tables env = pg_transaction env [(CREATE_experiment_results, []), (CREATE_experiment_summaries, [])]"

text \<open>
  The constructor: \<open>env_dsn\<close> is \<open>os.getenv("NIMBUS_POSTGRES_DSN", "")\<close>, \<open>installed\<close> says whether
  \<open>psycopg\<close> could be imported.
\<close>

definition PostgresExperimentStore ::
  "'p postgres_env \<Rightarrow> string option \<Rightarrow> string \<Rightarrow> bool \<Rightarrow> 'p \<Rightarrow> 'p postgres_store result" where
  "PostgresExperimentStore env dsn env_dsn installed state =
     (let d = (case dsn of None \<Rightarrow> env_dsn | Some x \<Rightarrow> if x = [] then env_dsn else x)
      in ensure_tables env \<lparr>pg_dsn = d, pg_enabled = (d \<noteq> [] \<and> installed), pg_state = state\<rparr>)"

text \<open>The parameters of the two insertions.\<close>

definition result_row :: "'p postgres_env \<Rightarrow> string \<Rightarrow> request_result \<Rightarrow> pg_value list" where
  "result_row env config_name r =
     [PgText (rq_request_id (rr_request r)), PgText config_name, PgText (rd_policy_name (rr_decision r)),
      PgText (rq_tenant_id (rr_request r)), PgText (rq_model_id (rr_request r)), PgText (rd_cluster_id (rr_decision r)),
      PgText (rd_pool_id (rr_decision r)), PgDouble (rr_total_latency_ms r), PgDouble (rr_cache_hit_ratio r),
      PgDouble (rr_cost_usd r), PgText (pg_dumps env (JDict (to_dict r)))]"

definition summary_row :: "'p postgres_env \<Rightarrow> string \<Rightarrow> string \<Rightarrow> (string, json) dict \<Rightarrow> pg_value list" where
  "summary_row env config_name policy_name rep =
     [PgText config_name, PgText policy_name, PgText (pg_dumps env (JDict rep))]"

definition pg_write_result ::
  "'p postgres_env \<Rightarrow> string \<Rightarrow> request_result \<Rightarrow> 'p postgres_store \<Rightarrow> 'p postgres_store result" where
  "pg_write_result env config_name r = pg_transaction env [(INSERT_experiment_results, result_row env config_name r)]"

definition pg_write_summary ::
  "'p postgres_env \<Rightarrow> string \<Rightarrow> string \<Rightarrow> (string, json) dict \<Rightarrow> 'p postgres_store \<Rightarrow> 'p postgres_store result" where
  "pg_write_summary env config_name policy_name rep =
     pg_transaction env [(INSERT_experiment_summaries, summary_row env config_name policy_name rep)]"

section \<open>Lemmas\<close>

lemma pg_disabled:
  "\<not> pg_enabled s \<Longrightarrow> pg_write_result env name r s = Inr s"
  "\<not> pg_enabled s \<Longrightarrow> pg_write_summary env name policy rep s = Inr s"
  by (simp_all add: pg_write_result_def pg_write_summary_def pg_transaction_def)

lemma PostgresExperimentStore_disabled:
  "\<not> installed \<or> env_dsn = [] \<Longrightarrow> PostgresExperimentStore env None env_dsn installed state =
     Inr \<lparr>pg_dsn = env_dsn, pg_enabled = False, pg_state = state\<rparr>"
  by (auto simp: PostgresExperimentStore_def ensure_tables_def pg_transaction_def)

text \<open>The data source of a store never changes, nor does whether it is enabled.\<close>

lemma pg_transaction_keeps:
  "pg_transaction env ss s = Inr s' \<Longrightarrow> pg_enabled s' = pg_enabled s \<and> pg_dsn s' = pg_dsn s"
  by (auto simp: pg_transaction_def result_simps split: if_splits)

section \<open>The contract\<close>

text \<open>
  The tables and the types of their columns, as the two \<open>CREATE TABLE\<close> statements have them. The serial
  number \<open>id\<close> that the server gives every row is left out.
\<close>

datatype pg_table = Experiment_results | Experiment_summaries

datatype pg_type = TEXT | DOUBLE_PRECISION | JSONB

fun columns :: "pg_table \<Rightarrow> pg_type list" where
  "columns Experiment_results = replicate 7 TEXT @ replicate 3 DOUBLE_PRECISION @ [JSONB]"
| "columns Experiment_summaries = [TEXT, TEXT, JSONB]"

fun inserts :: "pg_table \<Rightarrow> pg_statement" where
  "inserts Experiment_results = INSERT_experiment_results"
| "inserts Experiment_summaries = INSERT_experiment_summaries"

fun creates :: "pg_table \<Rightarrow> pg_statement" where
  "creates Experiment_results = CREATE_experiment_results"
| "creates Experiment_summaries = CREATE_experiment_summaries"

text \<open>
  What a column keeps of a parameter. The cast \<open>%s::jsonb\<close> parses the text, and the column keeps the
  document without its white space and without the order of its keys: here the document with sorted keys
  stands for it.
\<close>

datatype pg_cell = TextCell string | DoubleCell pyfloat | JsonbCell json

fun store_cell :: "float_text \<Rightarrow> pg_type \<Rightarrow> pg_value \<Rightarrow> pg_cell option" where
  "store_cell ft TEXT (PgText s) = Some (TextCell s)"
| "store_cell ft DOUBLE_PRECISION (PgDouble x) = Some (DoubleCell x)"
| "store_cell ft JSONB (PgText s) = (case loads ft s of Inl _ \<Rightarrow> None | Inr doc \<Rightarrow> Some (JsonbCell (sort_json doc)))"
| "store_cell ft type_of v = None"

definition kept_cells :: "float_text \<Rightarrow> pg_table \<Rightarrow> pg_value list \<Rightarrow> pg_cell list option" where
  "kept_cells ft t row =
     (if length row = length (columns t) then those (map2 (store_cell ft) (columns t) row) else None)"

text \<open>The rows that are to stand in the tables for a result and for a report.\<close>

definition result_cells :: "string \<Rightarrow> request_result \<Rightarrow> pg_cell list" where
  "result_cells config_name r =
     [TextCell (rq_request_id (rr_request r)), TextCell config_name, TextCell (rd_policy_name (rr_decision r)),
      TextCell (rq_tenant_id (rr_request r)), TextCell (rq_model_id (rr_request r)), TextCell (rd_cluster_id (rr_decision r)),
      TextCell (rd_pool_id (rr_decision r)), DoubleCell (rr_total_latency_ms r), DoubleCell (rr_cache_hit_ratio r),
      DoubleCell (rr_cost_usd r), JsonbCell (sort_json (JDict (to_dict r)))]"

definition summary_cells :: "string \<Rightarrow> string \<Rightarrow> (string, json) dict \<Rightarrow> pg_cell list" where
  "summary_cells config_name policy_name rep =
     [TextCell config_name, TextCell policy_name, JsonbCell (sort_json (JDict rep))]"

lemma rows_stored:
  assumes "floats_ok (pg_floats env)"
  shows "json_ok (JDict (to_dict r)) \<Longrightarrow>
      kept_cells (pg_floats env) Experiment_results (result_row env name r) = Some (result_cells name r)"
    and "json_ok (JDict rep) \<Longrightarrow>
      kept_cells (pg_floats env) Experiment_summaries (summary_row env name policy rep) = Some (summary_cells name policy rep)"
  using loads_dumps [OF assms, of _ None False]
  by (simp_all add: kept_cells_def result_row_def summary_row_def result_cells_def summary_cells_def pg_dumps_def
      numeral_eq_Suc del: json_ok.simps sort_json.simps)

text \<open>
  What the store relies on: connecting to its data source and committing lose nothing,
  \<open>CREATE TABLE IF NOT EXISTS\<close> makes an empty table where there is none, and an insertion into an
  existing table adds the row the columns keep, if they admit it. A table has no order: \<open>tables\<close> are the
  multisets of rows of the tables there are. \<open>admits\<close> is what the server accepts (PostgreSQL refuses a
  zero character in a text, for one), and the numbers of a document are read as \<open>json.loads\<close> reads them.
\<close>

definition rows_of :: "'a multiset option \<Rightarrow> 'a multiset" where
  "rows_of t = (case t of None \<Rightarrow> {#} | Some rows \<Rightarrow> rows)"

lemma rows_of_simps [simp]: "rows_of None = {#}" "rows_of (Some rows) = rows"
  by (simp_all add: rows_of_def)

locale pg_database =
  fixes env :: "'p postgres_env" and dsn :: string
    and tables :: "'p \<Rightarrow> pg_table \<Rightarrow> pg_cell list multiset option"
    and admits :: "pg_table \<Rightarrow> pg_cell list \<Rightarrow> bool"
  assumes floats: "floats_ok (pg_floats env)"
    and connect: "\<exists>c. pg_connect env dsn p = Inr c \<and> tables c = tables p"
    and create: "\<exists>c'. pg_execute env (creates t) [] c = Inr c' \<and> tables c' = (tables c)(t \<mapsto> rows_of (tables c t))"
    and insert: "tables c t = Some rows \<Longrightarrow> kept_cells (pg_floats env) t row = Some cells \<Longrightarrow> admits t cells \<Longrightarrow>
      \<exists>c'. pg_execute env (inserts t) row c = Inr c' \<and> tables c' = (tables c)(t \<mapsto> add_mset cells rows)"
    and commit: "\<exists>c'. pg_commit env c = Inr c' \<and> tables c' = tables c"
begin

text \<open>A store that is connected to the data source and has its tables.\<close>

definition open_store :: "'p postgres_store \<Rightarrow> bool" where
  "open_store s \<longleftrightarrow> pg_enabled s \<and> pg_dsn s = dsn \<and> (\<forall>t. tables (pg_state s) t \<noteq> None)"

lemma transaction_commits:
  assumes "pg_enabled s" and "pg_dsn s = dsn"
    and "\<And>c. tables c = tables (pg_state s) \<Longrightarrow>
      \<exists>c'. efold (\<lambda>(statement, params). pg_execute env statement params) statements c = Inr c' \<and> tables c' = T"
  shows "\<exists>s'. pg_transaction env statements s = Inr s' \<and> pg_enabled s' \<and> pg_dsn s' = dsn \<and> tables (pg_state s') = T"
proof -
  obtain c where c: "pg_connect env dsn (pg_state s) = Inr c" "tables c = tables (pg_state s)" using connect by blast
  from assms(3) [OF c(2)] obtain c' where
    c': "efold (\<lambda>(statement, params). pg_execute env statement params) statements c = Inr c'" "tables c' = T" by blast
  obtain c'' where "pg_commit env c' = Inr c''" "tables c'' = tables c'" using commit by blast
  with assms(1,2) c c' show ?thesis by (simp add: pg_transaction_def)
qed

lemma tables_ensured:
  assumes "pg_enabled s" and "pg_dsn s = dsn"
  shows "\<exists>s'. ensure_tables env s = Inr s' \<and> open_store s' \<and> (\<forall>t. rows_of (tables (pg_state s') t) = rows_of (tables (pg_state s) t))"
proof -
  let ?T = "\<lambda>t. Some (rows_of (tables (pg_state s) t))"
  have "\<exists>s'. ensure_tables env s = Inr s' \<and> pg_enabled s' \<and> pg_dsn s' = dsn \<and> tables (pg_state s') = ?T"
    unfolding ensure_tables_def
  proof (rule transaction_commits [OF assms])
    fix c
    assume c: "tables c = tables (pg_state s)"
    obtain c1 where c1: "pg_execute env CREATE_experiment_results [] c = Inr c1"
      "tables c1 = (tables c)(Experiment_results \<mapsto> rows_of (tables c Experiment_results))"
      using create [of Experiment_results c] by auto
    obtain c2 where "pg_execute env CREATE_experiment_summaries [] c1 = Inr c2"
      "tables c2 = (tables c1)(Experiment_summaries \<mapsto> rows_of (tables c1 Experiment_summaries))"
      using create [of Experiment_summaries c1] by auto
    moreover from this c1 c have "tables c2 t = ?T t" for t by (cases t) simp_all
    ultimately show "\<exists>c'. efold (\<lambda>(statement, params). pg_execute env statement params)
        [(CREATE_experiment_results, []), (CREATE_experiment_summaries, [])] c = Inr c' \<and> tables c' = ?T"
      using c1(1) by (intro exI [of _ c2]) auto
  qed
  then show ?thesis by (auto simp: open_store_def)
qed

lemma row_inserted:
  assumes "open_store s" and "kept_cells (pg_floats env) t row = Some cells" and "admits t cells"
  shows "\<exists>s'. pg_transaction env [(inserts t, row)] s = Inr s' \<and> open_store s' \<and>
    tables (pg_state s') = (tables (pg_state s))(t \<mapsto> add_mset cells (rows_of (tables (pg_state s) t)))"
proof -
  have "\<exists>s'. pg_transaction env [(inserts t, row)] s = Inr s' \<and> pg_enabled s' \<and> pg_dsn s' = dsn \<and>
      tables (pg_state s') = (tables (pg_state s))(t \<mapsto> add_mset cells (rows_of (tables (pg_state s) t)))"
  proof (rule transaction_commits)
    fix c
    assume c: "tables c = tables (pg_state s)"
    obtain rows where rows: "tables c t = Some rows" using assms(1) c by (force simp: open_store_def)
    from insert [OF rows assms(2,3)] rows c
    show "\<exists>c'. efold (\<lambda>(statement, params). pg_execute env statement params) [(inserts t, row)] c = Inr c' \<and>
        tables c' = (tables (pg_state s))(t \<mapsto> add_mset cells (rows_of (tables (pg_state s) t)))" by auto
  qed (use assms(1) in \<open>simp_all add: open_store_def\<close>)
  then show ?thesis using assms(1) by (auto simp: open_store_def)
qed

lemma result_inserted:
  assumes "open_store s" and "json_ok (JDict (to_dict r))" and "admits Experiment_results (result_cells name r)"
  shows "\<exists>s'. pg_write_result env name r s = Inr s' \<and> open_store s' \<and> tables (pg_state s') =
    (tables (pg_state s))(Experiment_results \<mapsto> add_mset (result_cells name r) (rows_of (tables (pg_state s) Experiment_results)))"
  using row_inserted [OF assms(1) rows_stored(1) [OF floats assms(2)] assms(3)] by (simp add: pg_write_result_def)

lemma summary_inserted:
  assumes "open_store s" and "json_ok (JDict rep)" and "admits Experiment_summaries (summary_cells name policy rep)"
  shows "\<exists>s'. pg_write_summary env name policy rep s = Inr s' \<and> open_store s' \<and> tables (pg_state s') =
    (tables (pg_state s))(Experiment_summaries \<mapsto>
      add_mset (summary_cells name policy rep) (rows_of (tables (pg_state s) Experiment_summaries)))"
  using row_inserted [OF assms(1) rows_stored(2) [OF floats assms(2)] assms(3)] by (simp add: pg_write_summary_def)

end

section \<open>A database in memory\<close>

text \<open>The tables as lists of stored rows, the last row first.\<close>

type_synonym memory_database = "(pg_table, pg_cell list list) dict"

definition memory_create :: "pg_table \<Rightarrow> memory_database \<Rightarrow> memory_database" where
  "memory_create t db = (if map_of db t = None then AList.update t [] db else db)"

definition memory_insert :: "pg_table \<Rightarrow> pg_value list \<Rightarrow> memory_database \<Rightarrow> memory_database result" where
  "memory_insert t row db =
     (case map_of db t of
        None \<Rightarrow> Inl (RuntimeError ''undefined table'')
      | Some rows \<Rightarrow>
          (case kept_cells exact_text t row of
             None \<Rightarrow> Inl (RuntimeError ''datatype mismatch'')
           | Some cells \<Rightarrow> Inr (AList.update t (cells # rows) db)))"

fun memory_execute :: "pg_statement \<Rightarrow> pg_value list \<Rightarrow> memory_database \<Rightarrow> memory_database result" where
  "memory_execute CREATE_experiment_results row db = Inr (memory_create Experiment_results db)"
| "memory_execute CREATE_experiment_summaries row db = Inr (memory_create Experiment_summaries db)"
| "memory_execute INSERT_experiment_results row db = memory_insert Experiment_results row db"
| "memory_execute INSERT_experiment_summaries row db = memory_insert Experiment_summaries row db"

definition memory_postgres :: "memory_database postgres_env" where
  "memory_postgres = \<lparr>pg_connect = (\<lambda>dsn. Inr), pg_execute = memory_execute, pg_commit = Inr, pg_floats = exact_text\<rparr>"

definition memory_tables :: "memory_database \<Rightarrow> pg_table \<Rightarrow> pg_cell list multiset option" where
  "memory_tables db t = map_option mset (map_of db t)"

interpretation memory_pg: pg_database memory_postgres dsn memory_tables "\<lambda>t cells. True" for dsn
proof unfold_locales
  show "floats_ok (pg_floats memory_postgres)" by (simp add: memory_postgres_def exact_text_ok)
  show "\<exists>c'. pg_execute memory_postgres (creates t) [] c = Inr c' \<and>
      memory_tables c' = (memory_tables c)(t \<mapsto> rows_of (memory_tables c t))" for t c
    by (cases t; cases "map_of c t")
       (auto simp: memory_postgres_def memory_create_def memory_tables_def dict_simps fun_eq_iff)
  show "\<exists>c'. pg_execute memory_postgres (inserts t) row c = Inr c' \<and> memory_tables c' = (memory_tables c)(t \<mapsto> add_mset cells rows)"
    if "memory_tables c t = Some rows" and "kept_cells (pg_floats memory_postgres) t row = Some cells" for c t rows row cells
    using that
    by (cases t) (auto simp: memory_postgres_def memory_insert_def memory_tables_def dict_simps fun_eq_iff split: option.splits)
qed (simp_all add: memory_postgres_def)

end
