(* ===== verification/Engine.thy ===== *)
theory Engine
  imports ControlPlane Workload AzureSim PostgresStore
begin

text \<open>
  The simulation engine of \<open>simulators/engine.py\<close>, which drives the control plane with a generated
  workload and feeds every result to the metrics, the logs, the Azure simulation and the two stores. Its
  state is the record \<open>simulation_engine\<close>, what comes from outside the sources the record \<open>engine_env\<close>.
  The engine's own \<open>RedisDecisionStore\<close> is a second client of the same kind as the control plane's; it
  writes only the hash of decisions, which nothing reads, so that each client has a state of its own here
  although both may talk to one server (\<open>fetch_after_decision\<close> in \<open>RedisStore\<close>). The lemmas follow a run through: every
  generated request is executed, exactly once and in order of arrival, and every sink sees every result.
\<close>

section \<open>State\<close>

record ('r, 'q, 'p, 'g) engine_env =
  ee_platform :: "'r platform"
  ee_workload :: "'g workload_env"
  ee_codec :: text_codec
  ee_azure :: "'q azure_env"
  ee_postgres :: "'p postgres_env"
  ee_postgres_dsn :: string
  ee_psycopg_installed :: bool
  ee_database :: 'p
  ee_redis_store :: "'r redis_store"

record ('r, 'q, 'p) simulation_engine =
  se_config :: experiment_config
  se_control_plane :: "'r control_plane"
  se_metrics :: metrics_collector
  se_files :: files
  se_azure :: "'q azure_simulator"
  se_postgres :: "'p postgres_store"
  se_redis_store :: "'r redis_store"

section \<open>Operations\<close>

definition SimulationEngine ::
  "('r, 'q, 'p, 'g) engine_env \<Rightarrow> experiment_config \<Rightarrow> files \<Rightarrow> ('r, 'q, 'p) simulation_engine result" where
  "SimulationEngine env config fs0 =
     ebind (NimbusMeshControlPlane (ee_platform env) config) (\<lambda>plane.
     let fs1 = StructuredDecisionLogger (ec_decision_log_path config) fs0;
         fs2 = StructuredLogFanout ''logs'' fs1
     in ebind (AzureInfraSimulator (ee_azure env) ''configs/azure_cluster.yaml'' ''logs'' fs2) (\<lambda>(azure, fs3).
        ebind (PostgresExperimentStore (ee_postgres env) None (ee_postgres_dsn env) (ee_psycopg_installed env)
                 (ee_database env)) (\<lambda>postgres.
        Inr \<lparr>se_config = config, se_control_plane = plane, se_metrics = MetricsCollector, se_files = fs3,
             se_azure = azure, se_postgres = postgres, se_redis_store = ee_redis_store env\<rparr>)))"

text \<open>The body of the loop of \<open>run\<close>.\<close>

definition engine_step ::
  "('r, 'q, 'p, 'g) engine_env \<Rightarrow> inference_request \<Rightarrow> ('r, 'q, 'p) simulation_engine
    \<Rightarrow> ('r, 'q, 'p) simulation_engine result" where
  "engine_step env request se =
     (let now = rq_arrival_ts request; tc = ee_codec env;
          plane = note_submission request (refresh now (se_control_plane se));
          metrics = metrics_note_submission (rq_tenant_id request) (se_metrics se)
      in ebind (azure_note_submission (ee_azure env) tc request (se_azure se, se_files se)) (\<lambda>(azure1, fs1).
         ebind (execute (ee_platform env) request now plane) (\<lambda>(plane', result).
         let metrics' = metrics_record result metrics;
             payload = to_dict result;
             fs2 = logger_emit tc (ec_decision_log_path (se_config se)) payload fs1;
             fs3 = emit_result tc ''logs'' result fs2;
             (azure2, fs4) = azure_record_result tc result (azure1, fs3)
         in ebind (write_decision (pf_redis (ee_platform env)) payload (se_redis_store se)) (\<lambda>redis.
            ebind (pg_write_result (ee_postgres env) (ec_name (se_config se)) result (se_postgres se)) (\<lambda>postgres.
            Inr (se\<lparr>se_control_plane := plane', se_metrics := metrics', se_files := fs4, se_azure := azure2,
                    se_postgres := postgres, se_redis_store := redis\<rparr>))))))"

definition all_pools :: "'r control_plane \<Rightarrow> pool_runtime list" where
  "all_pools cp = concat (map (\<lambda>c. dict_values (cr_pools c)) (dict_values (nm_clusters cp)))"

definition engine_finish ::
  "('r, 'q, 'p, 'g) engine_env \<Rightarrow> ('r, 'q, 'p) simulation_engine
    \<Rightarrow> (('r, 'q, 'p) simulation_engine \<times> (string, json) dict) result" where
  "engine_finish env se =
     (let config = se_config se; plane = se_control_plane se; tc = ee_codec env;
          total_slots = sum_list (map pr_parallel_slots (all_pools plane));
          total_memory_gb = sum_list (map pr_memory_gb (all_pools plane))
      in ebind (summary (wc_duration_s (ec_workload config)) (policy_name (nm_policy plane)) (ec_name config)
                  total_slots total_memory_gb (se_metrics se)) (\<lambda>(metrics, rep).
         let rep' = AList.update ''azure_summary'' (azure_summary (se_azure se)) rep;
             fs1 = write_summary tc (ec_metrics_output_path config) rep' (se_files se)
         in ebind (export_summary tc ''results'' rep' fs1) (\<lambda>fs2.
            ebind (pg_write_summary (ee_postgres env) (ec_name config) (policy_name (nm_policy plane)) rep' (se_postgres se))
              (\<lambda>postgres.
            Inr (se\<lparr>se_metrics := metrics, se_files := fs2, se_postgres := postgres\<rparr>, rep')))))"

definition run ::
  "('r, 'q, 'p, 'g) engine_env \<Rightarrow> ('r, 'q, 'p) simulation_engine
    \<Rightarrow> (('r, 'q, 'p) simulation_engine \<times> (string, json) dict) result" where
  "run env se =
     ebind (generate_requests (ee_workload env) (ec_workload (se_config se)) (ec_seed (se_config se))) (\<lambda>(requests, _).
     ebind (efold (engine_step env) requests se) (engine_finish env))"

section \<open>A run step by step\<close>

text \<open>
  The deployments the theorems speak of: the schedulers of the repository or none, no PostgreSQL and no
  Ray queue, and either no Redis or a Redis in which earlier runs have mirrored at most \<open>earlier\<close> entries.
\<close>

definition local_env :: "nat \<Rightarrow> ('r, 'q, 'p, 'g) engine_env \<Rightarrow> bool" where
  "local_env earlier env \<longleftrightarrow> platform_ok (ee_platform env) \<and>
     mirror_room (pf_redis (ee_platform env)) earlier (pf_redis_store (ee_platform env)) \<and> (ee_postgres_dsn env = [] \<or> \<not> ee_psycopg_installed env) \<and>
     ae_queue (ee_azure env) = None \<and> rng_ok (we_rng (ee_workload env))"

text \<open>The decision log: a path of its own, outside the directory of the other logs.\<close>

definition own_log :: "string \<Rightarrow> bool" where
  "own_log path \<longleftrightarrow> path \<noteq> [] \<and> (\<forall>name. path \<noteq> join_path ''logs'' name)"

text \<open>What holds once the requests \<open>rs\<close> have been served.\<close>

definition engine_inv ::
  "('r, 'q, 'p, 'g) engine_env \<Rightarrow> experiment_config \<Rightarrow> nat \<Rightarrow> inference_request list
    \<Rightarrow> ('r, 'q, 'p) simulation_engine \<Rightarrow> bool" where
  "engine_inv env config earlier rs se \<longleftrightarrow>
     se_config se = config \<and> plane_ok (ee_platform env) (se_control_plane se) \<and>
     untouched (pf_redis_store (ee_platform env)) (se_control_plane se) \<and>
     plane_room (ee_platform env) (earlier + length rs) (se_control_plane se) \<and>
     metrics_run (se_metrics se) \<and> map rr_request (mc_results (se_metrics se)) = rs \<and>
     az_batch_queue (se_azure se) = None \<and> az_log_dir (se_azure se) = ''logs'' \<and>
     (\<not> rs_enabled (ee_redis_store env) \<longrightarrow> se_redis_store se = ee_redis_store env) \<and>
     \<not> pg_enabled (se_postgres se) \<and> pg_state (se_postgres se) = ee_database env \<and>
     deciding (se_control_plane se) = ec_policy config \<and>
     (\<forall>res \<in> set (mc_results (se_metrics se)). dict_ok (rd_score_breakdown (rr_decision res)))"

definition azure_inv :: "('r, 'q, 'p) simulation_engine \<Rightarrow> bool" where
  "azure_inv se \<longleftrightarrow> az_available (se_azure se) \<longrightarrow>
     az_submitted (se_azure se) = int (length (mc_results (se_metrics se))) \<and>
     az_completed (se_azure se) = int (length (admitted_results (se_metrics se)))"

definition log_inv :: "('r, 'q, 'p, 'g) engine_env \<Rightarrow> ('r, 'q, 'p) simulation_engine \<Rightarrow> bool" where
  "log_inv env se \<longleftrightarrow> (case ec_decision_log_path (se_config se) of None \<Rightarrow> True
     | Some path \<Rightarrow> own_log path \<longrightarrow>
         dict_get [] (se_files se) path = concat (map (json_line (ee_codec env) \<circ> to_dict) (mc_results (se_metrics se))))"

lemma engine_invD:
  assumes "engine_inv env config earlier rs se"
  shows "se_config se = config" "plane_ok (ee_platform env) (se_control_plane se)"
    "untouched (pf_redis_store (ee_platform env)) (se_control_plane se)"
    "plane_room (ee_platform env) (earlier + length rs) (se_control_plane se)" "metrics_run (se_metrics se)"
    "map rr_request (mc_results (se_metrics se)) = rs" "az_batch_queue (se_azure se) = None"
    "az_log_dir (se_azure se) = ''logs''" "\<not> pg_enabled (se_postgres se)"
    "\<not> rs_enabled (ee_redis_store env) \<Longrightarrow> se_redis_store se = ee_redis_store env" "pg_state (se_postgres se) = ee_database env"
    "deciding (se_control_plane se) = ec_policy config"
    "\<forall>res \<in> set (mc_results (se_metrics se)). dict_ok (rd_score_breakdown (rr_decision res))"
  using assms unfolding engine_inv_def by blast+

lemma azure_record_result_keeps:
  "azure_record_result tc r (az, fs) = (az', fs') \<Longrightarrow> az_batch_queue az' = az_batch_queue az \<and>
     az_log_dir az' = az_log_dir az \<and> az_available az' = az_available az \<and> az_submitted az' = az_submitted az \<and>
     az_completed az' = az_completed az + (if az_available az \<and> rr_admitted r then 1 else 0)"
  by (auto simp: azure_record_result_def Let_def split: if_splits)

text \<open>The result of executing the next request, on a control plane refreshed at its arrival.\<close>

lemma next_execution:
  assumes "local_env earlier env" and "engine_inv env config earlier rs se" and "request_ok r" and "earlier + length rs < 20000"
  shows "\<exists>plane' result. execute (ee_platform env) r (rq_arrival_ts r)
      (note_submission r (refresh (rq_arrival_ts r) (se_control_plane se))) = Inr (plane', result) \<and>
    plane_ok (ee_platform env) plane' \<and> rr_request result = r \<and>
    untouched (pf_redis_store (ee_platform env)) plane' \<and> plane_room (ee_platform env) (Suc (earlier + length rs)) plane' \<and>
    deciding plane' = ec_policy config \<and> dict_ok (rd_score_breakdown (rr_decision result))"
proof -
  let ?pf = "ee_platform env" and ?now = "rq_arrival_ts r"
  let ?plane = "note_submission r (refresh ?now (se_control_plane se))"
  note inv = engine_invD [OF assms(2)]
  have pf: "platform_ok ?pf" using assms(1) by (simp add: local_env_def)
  have ok: "plane_ok ?pf ?plane" by (intro note_submission_ok refresh_ok inv(2))
  have load: "plane_room ?pf (earlier + length rs) ?plane" "untouched (pf_redis_store ?pf) ?plane"
    using refresh_room [OF inv(2), of _ ?now] inv(3,4) by simp_all
  obtain plane' result where ex: "execute ?pf r ?now ?plane = Inr (plane', result)" "plane_ok ?pf plane'" "rr_request result = r"
    using execute_returns [OF pf ok assms(3) calm_room [OF load(1) assms(4)]] by blast
  with execute_room [OF pf ok assms(3) ex(1)] load execute_deciding [OF ex(1)] inv(12)
    execute_breakdown [OF pf ok assms(3) ex(1)] show ?thesis by auto
qed

lemma engine_step_inv:
  assumes "local_env earlier env" and "engine_inv env config earlier rs se" and "azure_inv se" and "log_inv env se"
    and "request_ok r" and "earlier + length rs < 20000"
  shows "\<exists>se'. engine_step env r se = Inr se' \<and> engine_inv env config earlier (rs @ [r]) se' \<and> azure_inv se' \<and> log_inv env se'"
proof -
  let ?tc = "ee_codec env"
  note inv = engine_invD [OF assms(2)]
  obtain az1 fs1 where a1: "azure_note_submission (ee_azure env) ?tc r (se_azure se, se_files se) = Inr (az1, fs1)"
    and q1: "az_batch_queue az1 = None" using azure_note_submission_total [OF inv(7)] by blast
  note az1 = azure_note_submission_state [OF a1]
  obtain plane' result where ex: "execute (ee_platform env) r (rq_arrival_ts r)
      (note_submission r (refresh (rq_arrival_ts r) (se_control_plane se))) = Inr (plane', result)"
    and plane': "plane_ok (ee_platform env) plane'" "untouched (pf_redis_store (ee_platform env)) plane'"
      "plane_room (ee_platform env) (Suc (earlier + length rs)) plane'" "deciding plane' = ec_policy config"
    and rr: "rr_request result = r" "dict_ok (rd_score_breakdown (rr_decision result))"
    using next_execution [OF assms(1,2,5,6)] by blast
  define fs2 where "fs2 = logger_emit ?tc (ec_decision_log_path config) (to_dict result) fs1"
  obtain az2 fs4 where a2: "azure_record_result ?tc result (az1, emit_result ?tc ''logs'' result fs2) = (az2, fs4)" by force
  note az2 = azure_record_result_keeps [OF a2]
  define mc where "mc = metrics_record result (metrics_note_submission (rq_tenant_id r) (se_metrics se))"
  obtain redis where w: "write_decision (pf_redis (ee_platform env)) (to_dict result) (se_redis_store se) = Inr redis"
    using redis_hash.write_decision_total assms(1) unfolding local_env_def platform_ok_def by blast
  then have redis: "\<not> rs_enabled (ee_redis_store env) \<Longrightarrow> redis = ee_redis_store env"
    using inv(10) by (simp add: redis_disabled)
  define se' where "se' = se\<lparr>se_control_plane := plane', se_metrics := mc, se_files := fs4, se_azure := az2,
      se_redis_store := redis\<rparr>"
  have step: "engine_step env r se = Inr se'"
    using a1 ex a2 w pg_disabled(1) [OF inv(9)] inv(1)
    by (simp add: engine_step_def Let_def fs2_def mc_def se'_def)
  have results: "mc_results mc = mc_results (se_metrics se) @ [result]"
    and admitted: "admitted_results mc = admitted_results (se_metrics se) @ (if rr_admitted result then [result] else [])"
    by (simp_all add: mc_def metrics_record_def metrics_note_submission_def admitted_results_def)
  have "metrics_run mc" unfolding mc_def using metrics_run.step [OF inv(5), of result] by (simp add: rr)
  moreover have az1': "az_log_dir az1 = ''logs''" "az_available az1 = az_available (se_azure se)"
      "az_completed az1 = az_completed (se_azure se)"
    using az1 inv(8) by (metis azure_simulator.surjective azure_simulator.ext_inject azure_simulator.update_convs(4,7))+
  ultimately have "engine_inv env config earlier (rs @ [r]) se'"
    using inv plane' q1 az2 results rr redis by (simp add: engine_inv_def se'_def)
  moreover have "azure_inv se'"
    using assms(3) az1 az1' az2 results admitted by (auto simp: azure_inv_def se'_def)
  moreover have "log_inv env se'"
  proof (cases "ec_decision_log_path config")
    case (Some path)
    have "dict_get [] fs4 path = dict_get [] (se_files se) path @ json_line ?tc (to_dict result)" if own: "own_log path"
    proof -
      have apart: "path \<notin> join_path (az_log_dir az) ` set AZURE_LOGS" if "az_log_dir az = ''logs''" for az :: "'b azure_simulator"
        using own that by (auto simp: own_log_def)
      have "dict_get [] fs4 path = dict_get [] (emit_result ?tc ''logs'' result fs2) path"
        using azure_record_result_files [OF a2] apart [OF az1'(1)] by (simp add: azure_files_only_def)
      also have "\<dots> = dict_get [] fs2 path" using own by (intro emit_result_elsewhere) (simp add: own_log_def)
      also have "\<dots> = dict_get [] fs1 path @ json_line ?tc (to_dict result)"
        using own Some by (cases path) (simp_all add: own_log_def fs2_def logger_emit_def content_append_json json_line_def)
      also have "dict_get [] fs1 path = dict_get [] (se_files se) path"
        using az1 apart [OF inv(8)] by (simp add: azure_files_only_def)
      finally show ?thesis .
    qed
    with assms(4) inv(1) Some results show ?thesis by (auto simp: log_inv_def se'_def)
  qed (use inv(1) in \<open>simp add: log_inv_def se'_def\<close>)
  ultimately show ?thesis using step by blast
qed

lemma serve_all:
  assumes "local_env earlier env" and "engine_inv env config earlier rs se" and "azure_inv se" and "log_inv env se"
    and "\<forall>r \<in> set requests. request_ok r" and "earlier + length rs + length requests \<le> 20000"
  shows "\<exists>se'. efold (engine_step env) requests se = Inr se' \<and> engine_inv env config earlier (rs @ requests) se' \<and>
    azure_inv se' \<and> log_inv env se'"
  using assms(2-6)
proof (induction requests arbitrary: rs se)
  case (Cons r requests)
  have "request_ok r" "earlier + length rs < 20000" using Cons.prems(4,5) by simp_all
  with engine_step_inv [OF assms(1) Cons.prems(1-3)] obtain se1 where
    step: "engine_step env r se = Inr se1" and inv: "engine_inv env config earlier (rs @ [r]) se1" "azure_inv se1" "log_inv env se1" by blast
  have "\<forall>r \<in> set requests. request_ok r" "earlier + length (rs @ [r]) + length requests \<le> 20000" using Cons.prems(4,5) by simp_all
  with Cons.IH [OF inv] step show ?case by auto
qed simp

lemma engine_construct_inv:
  assumes "local_env earlier env" and "config_ok config" and "SimulationEngine env config fs = Inr se"
  shows "engine_inv env config earlier [] se \<and> azure_inv se \<and> log_inv env se"
proof -
  obtain plane azure fs3 postgres where plane: "NimbusMeshControlPlane (ee_platform env) config = Inr plane"
    and az: "AzureInfraSimulator (ee_azure env) ''configs/azure_cluster.yaml'' ''logs''
      (StructuredLogFanout ''logs'' (StructuredDecisionLogger (ec_decision_log_path config) fs)) = Inr (azure, fs3)"
    and pg: "PostgresExperimentStore (ee_postgres env) None (ee_postgres_dsn env) (ee_psycopg_installed env)
      (ee_database env) = Inr postgres"
    and se: "se = \<lparr>se_config = config, se_control_plane = plane, se_metrics = MetricsCollector, se_files = fs3,
             se_azure = azure, se_postgres = postgres, se_redis_store = ee_redis_store env\<rparr>"
    using assms(3) by (auto simp: SimulationEngine_def Let_def result_simps)
  have local: "mirror_room (pf_redis (ee_platform env)) earlier (pf_redis_store (ee_platform env))"
    "ae_queue (ee_azure env) = None" "ee_postgres_dsn env = [] \<or> \<not> ee_psycopg_installed env"
    using assms(1) by (simp_all add: local_env_def)
  have "plane_ok (ee_platform env) plane"
    using construct_ok [OF assms(2) _ plane] local(1) by (simp add: mirror_room_def)
  moreover have "deciding plane = ec_policy config" by (rule construct_deciding [OF plane])
  moreover have "nm_cache_directory plane = KVCacheDirectory 180 20000 (pf_redis_store (ee_platform env))"
    using plane by (auto simp: NimbusMeshControlPlane_def result_simps)
  then have "untouched (pf_redis_store (ee_platform env)) plane" "plane_room (ee_platform env) earlier plane"
    using local(1) by (simp_all add: untouched_def plane_room_def mirror_room_def room_fresh [of _ _ 180 20000])
      (simp add: KVCacheDirectory_def)
  moreover have azf: "az_batch_queue azure = None" "az_log_dir azure = ''logs''" "az_submitted azure = 0" "az_completed azure = 0"
    using az local(2) by (auto simp: AzureInfraSimulator_def Let_def result_simps split: option.splits)
  moreover have "\<not> pg_enabled postgres" "pg_state postgres = ee_database env"
    using pg local(3) PostgresExperimentStore_disabled
      [of "ee_psycopg_installed env" "ee_postgres_dsn env" "ee_postgres env" "ee_database env"] by auto
  moreover have "metrics_run MetricsCollector" by (rule metrics_run.start)
  moreover have "mc_results MetricsCollector = []" "admitted_results MetricsCollector = []"
    by (simp_all add: MetricsCollector_def admitted_results_def)
  ultimately have inv: "engine_inv env config earlier [] se" "azure_inv se" by (simp_all add: engine_inv_def azure_inv_def se)
  have fs3: "fs3 = fold (\<lambda>name. write_text (join_path ''logs'' name) []) AZURE_LOGS
      (StructuredLogFanout ''logs'' (StructuredDecisionLogger (ec_decision_log_path config) fs))"
    using az by (auto simp: AzureInfraSimulator_def Let_def result_simps split: option.splits)
  have "dict_get [] fs3 path = []" if p: "ec_decision_log_path config = Some path" and own: "own_log path" for path
  proof -
    have apart: "path \<noteq> join_path ''logs'' name" for name using own by (simp add: own_log_def)
    have keep: "dict_get [] (fold (\<lambda>name gs. if file_exists gs (join_path ''logs'' name) then gs
        else write_text (join_path ''logs'' name) [] gs) names gs) path = dict_get [] gs path" for names gs
      by (induction names arbitrary: gs) (simp_all add: write_text_def dict_simps apart)
    have "dict_get [] fs3 path = dict_get [] (StructuredDecisionLogger (ec_decision_log_path config) fs) path"
      unfolding fs3 AZURE_LOGS_def StructuredLogFanout_def by (simp add: write_text_def dict_simps apart keep)
    then show ?thesis using own p
      by (cases path) (simp_all add: own_log_def StructuredDecisionLogger_def write_text_def dict_simps)
  qed
  then have "log_inv env se" by (auto simp: log_inv_def se MetricsCollector_def split: option.splits)
  with inv show ?thesis by simp
qed

lemma engine_finish_total:
  assumes "engine_inv env config earlier rs se"
  shows "\<exists>se' rep. engine_finish env se = Inr (se', rep) \<and> mc_results (se_metrics se') = mc_results (se_metrics se) \<and>
    se_azure se' = se_azure se \<and> se_control_plane se' = se_control_plane se \<and>
    se_redis_store se' = se_redis_store se \<and> se_postgres se' = se_postgres se \<and>
    map_of rep ''policy_name'' = Some (JStr (ec_policy config)) \<and>
    map_of rep ''requests_total'' = Some (JInt (int (length rs))) \<and>
    map_of rep ''requests_admitted'' = Some (JInt (int (length (admitted_results (se_metrics se))))) \<and>
    map_of rep ''azure_summary'' = Some (azure_summary (se_azure se))"
proof -
  note inv = engine_invD [OF assms]
  let ?plane = "se_control_plane se"
  let ?slots = "sum_list (map pr_parallel_slots (all_pools ?plane))" and ?mem = "sum_list (map pr_memory_gb (all_pools ?plane))"
  let ?d = "wc_duration_s (ec_workload config)" and ?p = "policy_name (nm_policy ?plane)"
  obtain mc p50 p95 p99 prefill decode fairness rep where
    s: "summary ?d ?p (ec_name config) ?slots ?mem (se_metrics se) = Inr (mc, rep)"
    and rep: "rep = report ?d ?p (ec_name config) ?slots ?mem (se_metrics se) (p50, p95, p99) prefill decode fairness"
    and mc: "mc_results mc = mc_results (se_metrics se)"
    using summary_shape [of ?d ?p "ec_name config" ?slots ?mem "se_metrics se"] by (elim exE conjE) (rule that)
  let ?rep = "AList.update ''azure_summary'' (azure_summary (se_azure se)) rep"
  obtain fs2 where x: "export_summary (ee_codec env) ''results'' ?rep
      (write_summary (ee_codec env) (ec_metrics_output_path config) ?rep (se_files se)) = Inr fs2"
    using export_summary_total [OF s] by blast
  have "engine_finish env se = Inr (se\<lparr>se_metrics := mc, se_files := fs2, se_postgres := se_postgres se\<rparr>, ?rep)"
    using s x pg_disabled(2) [OF inv(9)] inv(1) by (simp add: engine_finish_def Let_def)
  moreover have "length (mc_results (se_metrics se)) = length rs" using inv(6) by (metis length_map)
  ultimately show ?thesis using mc report_lookup(1,2,10) [OF rep] inv(12) by (simp add: dict_simps deciding_def)
qed

section \<open>Properties\<close>

text \<open>The whole simulation, whatever valid requests the workload gives: construction, the loop and the summary.\<close>

lemma requests_served:
  assumes "local_env earlier env" and "config_ok config" and "SimulationEngine env config fs = Inr se"
    and "generate_requests (ee_workload env) (ec_workload config) (ec_seed config) = Inr (requests, state)"
    and "\<forall>r \<in> set requests. request_ok r" and "earlier + length requests \<le> 20000"
  shows "\<exists>se' rep. run env se = Inr (se', rep) \<and> map rr_request (mc_results (se_metrics se')) = requests \<and>
    plane_ok (ee_platform env) (se_control_plane se') \<and>
    map_of rep ''requests_total'' = Some (JInt (int (length requests))) \<and>
    map_of rep ''policy_name'' = Some (JStr (ec_policy config)) \<and>
    plane_room (ee_platform env) (earlier + length requests) (se_control_plane se') \<and>
    untouched (pf_redis_store (ee_platform env)) (se_control_plane se') \<and>
    (\<forall>res \<in> set (mc_results (se_metrics se')). dict_ok (rd_score_breakdown (rr_decision res))) \<and>
    (\<not> rs_enabled (ee_redis_store env) \<longrightarrow> se_redis_store se' = ee_redis_store env) \<and> pg_state (se_postgres se') = ee_database env"
proof -
  have start: "engine_inv env config earlier [] se" "azure_inv se" "log_inv env se"
    using engine_construct_inv [OF assms(1-3)] by simp_all
  have "earlier + length ([] :: inference_request list) + length requests \<le> 20000" using assms(6) by simp
  from serve_all [OF assms(1) start assms(5) this] obtain se1 where
    served: "efold (engine_step env) requests se = Inr se1" and inv: "engine_inv env config earlier requests se1" by auto
  obtain se' rep where fin: "engine_finish env se1 = Inr (se', rep)"
    "mc_results (se_metrics se') = mc_results (se_metrics se1)" "se_control_plane se' = se_control_plane se1"
    "map_of rep ''requests_total'' = Some (JInt (int (length requests)))"
    "map_of rep ''policy_name'' = Some (JStr (ec_policy config))"
    "se_redis_store se' = se_redis_store se1" "se_postgres se' = se_postgres se1"
    using engine_finish_total [OF inv] by blast
  have "run env se = Inr (se', rep)" using assms(4) served fin(1) engine_invD(1) [OF start(1)] by (simp add: run_def)
  with fin engine_invD(2-4,6,10,11,13) [OF inv] show ?thesis by simp
qed

lemma simulation_returns:
  assumes "local_env earlier env" and "config_ok config" and "workload_ok (ec_workload config)"
    and "int earlier + max 0 (wc_request_count (ec_workload config)) \<le> 20000" and "SimulationEngine env config fs = Inr se"
  shows "\<exists>requests state se' rep.
    generate_requests (ee_workload env) (ec_workload config) (ec_seed config) = Inr (requests, state) \<and>
    length requests = nat (wc_request_count (ec_workload config)) \<and>
    run env se = Inr (se', rep) \<and> map rr_request (mc_results (se_metrics se')) = requests \<and>
    plane_ok (ee_platform env) (se_control_plane se') \<and>
    map_of rep ''requests_total'' = Some (JInt (max 0 (wc_request_count (ec_workload config)))) \<and>
    map_of rep ''policy_name'' = Some (JStr (ec_policy config)) \<and>
    plane_room (ee_platform env) (earlier + length requests) (se_control_plane se') \<and>
    untouched (pf_redis_store (ee_platform env)) (se_control_plane se') \<and>
    (\<not> rs_enabled (ee_redis_store env) \<longrightarrow> se_redis_store se' = ee_redis_store env) \<and> pg_state (se_postgres se') = ee_database env"
proof -
  have "rng_ok (we_rng (ee_workload env))" using assms(1) by (simp add: local_env_def)
  from generated_workload [OF this assms(3)] obtain requests state where
    gen: "generate_requests (ee_workload env) (ec_workload config) (ec_seed config) = Inr (requests, state)"
    and len: "length requests = nat (wc_request_count (ec_workload config))" and ok: "\<forall>r \<in> set requests. request_ok r" by blast
  have "earlier + length requests \<le> 20000" using len assms(4) by simp
  from requests_served [OF assms(1,2,5) gen ok this] gen len show ?thesis by (fastforce simp: max_def)
qed

text \<open>
  C3: a simulation completes: on a well-formed configuration with a sensible synthetic workload, and
  with no Redis, a fresh one or one in which earlier runs have left entries, \<open>run\<close> raises nothing as
  long as requests and earlier entries together are at most 20000. Every generated request gets exactly
  one result, in order of arrival, the control plane is still well-formed, the report counts all requests
  and names the configured policy, and the mirror holds at most one more entry for every request.
\<close>

theorem simulation_completes:
  assumes "local_env earlier env" and "config_ok config" and "workload_ok (ec_workload config)"
    and "int earlier + max 0 (wc_request_count (ec_workload config)) \<le> 20000" and "SimulationEngine env config fs = Inr se"
  shows "\<exists>requests state se' rep.
    generate_requests (ee_workload env) (ec_workload config) (ec_seed config) = Inr (requests, state) \<and>
    run env se = Inr (se', rep) \<and> map rr_request (mc_results (se_metrics se')) = requests \<and>
    plane_ok (ee_platform env) (se_control_plane se') \<and>
    map_of rep ''requests_total'' = Some (JInt (max 0 (wc_request_count (ec_workload config)))) \<and>
    map_of rep ''policy_name'' = Some (JStr (ec_policy config)) \<and>
    mirror_room (pf_redis (ee_platform env)) (earlier + length requests) (kc_redis_store (nm_cache_directory (se_control_plane se')))"
proof -
  obtain requests state se' rep where
    "generate_requests (ee_workload env) (ec_workload config) (ec_seed config) = Inr (requests, state)"
    "run env se = Inr (se', rep)" "map rr_request (mc_results (se_metrics se')) = requests"
    "plane_ok (ee_platform env) (se_control_plane se')"
    "map_of rep ''requests_total'' = Some (JInt (max 0 (wc_request_count (ec_workload config))))"
    "map_of rep ''policy_name'' = Some (JStr (ec_policy config))"
    "plane_room (ee_platform env) (earlier + length requests) (se_control_plane se')"
    using simulation_returns [OF assms] by blast
  with mirror_room_left [OF plane_okD(3)] show ?thesis by (auto simp: plane_room_def)
qed

text \<open>
  C30: the sinks agree: after any valid requests have been served from a fresh engine, the decision log,
  read back line by line, holds exactly the results of the metrics collector, in the order of the
  requests and each as the dictionary it was logged as, with sorted keys; and the Azure simulation, if
  available, has counted as many submissions as there are results and as many completions as there are
  admitted ones.
\<close>

theorem sinks_agree:
  assumes "local_env earlier env" and "config_ok config" and "SimulationEngine env config fs = Inr se"
    and "\<forall>r \<in> set requests. request_ok r \<and> json_ok (JDict (rq_metadata r))" and "earlier + length requests \<le> 20000"
    and "ec_decision_log_path config = Some path" and "own_log path" and "floats_ok (tc_floats (ee_codec env))"
  shows "\<exists>se'. efold (engine_step env) requests se = Inr se' \<and>
    map rr_request (mc_results (se_metrics se')) = requests \<and>
    emap (loads (tc_floats (ee_codec env))) (splitlines (dict_get [] (se_files se') path)) =
      Inr (map (\<lambda>res. sort_json (JDict (to_dict res))) (mc_results (se_metrics se'))) \<and>
    (\<not> az_available (se_azure se') \<or>
     az_submitted (se_azure se') = int (length requests) \<and>
     az_completed (se_azure se') = int (length (admitted_results (se_metrics se'))))"
proof -
  have start: "engine_inv env config earlier [] se" "azure_inv se" "log_inv env se"
    using engine_construct_inv [OF assms(1-3)] by simp_all
  have "\<forall>r \<in> set requests. request_ok r" "earlier + length ([] :: inference_request list) + length requests \<le> 20000"
    using assms(4,5) by simp_all
  from serve_all [OF assms(1) start this] obtain se' where
    run: "efold (engine_step env) requests se = Inr se'" and inv: "engine_inv env config earlier requests se'" "azure_inv se'" "log_inv env se'"
    by auto
  note results = engine_invD(6) [OF inv(1)]
  have "\<forall>p \<in> set (map to_dict (mc_results (se_metrics se'))). json_ok (JDict p)"
    using assms(4) engine_invD(13) [OF inv(1)] results [THEN arg_cong, of set] by (auto simp: result_document simp del: json_ok.simps)
  from log_reads_back [OF assms(8) this]
  have "emap (loads (tc_floats (ee_codec env))) (splitlines (dict_get [] (se_files se') path)) =
      Inr (map (\<lambda>res. sort_json (JDict (to_dict res))) (mc_results (se_metrics se')))"
    using inv(3) engine_invD(1) [OF inv(1)] assms(6,7) by (simp add: log_inv_def comp_def)
  moreover have "length (mc_results (se_metrics se')) = length requests" using results by (metis length_map)
  ultimately show ?thesis using run results inv(2) by (auto simp: azure_inv_def)
qed

section \<open>Example\<close>

definition demo_codec :: text_codec where
  "demo_codec = \<lparr>tc_floats = exact_text\<rparr>"

definition demo_azure :: "unit azure_env" where
  "demo_azure = \<lparr>ae_yaml = Some (\<lambda>s. Inr (JDict [])), ae_queue = None, ae_put = (\<lambda>v q. Inr q)\<rparr>"

definition demo_engine_env :: "(memory_client, unit, unit, int) engine_env" where
  "demo_engine_env = \<lparr>ee_platform = demo_platform, ee_workload = demo_workload_env, ee_codec = demo_codec,
     ee_azure = demo_azure,
     ee_postgres = \<lparr>pg_connect = (\<lambda>d p. Inr p), pg_execute = (\<lambda>s v p. Inr p), pg_commit = Inr, pg_floats = exact_text\<rparr>,
     ee_postgres_dsn = [], ee_psycopg_installed = False, ee_database = (),
     ee_redis_store = RedisDecisionStore memory_redis None [] False\<rparr>"

definition demo_log_config :: experiment_config where
  "demo_log_config = demo_config\<lparr>ec_decision_log_path := Some ''decisions.jsonl''\<rparr>"

lemma demo_local_env: "local_env n demo_engine_env"
  using demo_platform_ok lcg_rng_ok mirror_room_disabled [of "RedisDecisionStore memory_redis None [] False"]
  by (simp add: local_env_def demo_engine_env_def demo_azure_def demo_workload_env_def demo_platform_def RedisDecisionStore_def)

lemma demo_redis_off:
  "\<not> rs_enabled (pf_redis_store (ee_platform demo_engine_env))" "\<not> rs_enabled (ee_redis_store demo_engine_env)"
  by (simp_all add: demo_engine_env_def demo_platform_def RedisDecisionStore_def)

lemma parts_constructed:
  assumes "NimbusMeshControlPlane (ee_platform env) config = Inr plane"
    and "ee_azure env = demo_azure" and "ee_postgres_dsn env = []"
  shows "\<exists>se. SimulationEngine env config [(''configs/azure_cluster.yaml'', [])] = Inr se \<and>
    (ec_decision_log_path config = None \<or> az_available (se_azure se))"
proof -
  have "json_get (JDict []) ''resource_groups'' (JList []) = Inr (JList [])" by (simp add: json_get_def)
  then have inventory: "load_inventory (JDict []) = Inr []" by (simp add: load_inventory_def json_iter_def)
  have az: "\<exists>az fs'. AzureInfraSimulator demo_azure path logs fs = Inr (az, fs') \<and>
      (map_of (fold (\<lambda>name. write_text (join_path logs name) []) AZURE_LOGS fs) path = None \<or> az_available az)" for path logs fs
    by (auto simp: AzureInfraSimulator_def demo_azure_def inventory Let_def split: option.splits)
  have other: "''configs/azure_cluster.yaml'' \<noteq> join_path ''logs'' name" for name by (simp add: join_path_def)
  have fan: "map_of (fold (\<lambda>name gs. if file_exists gs (join_path ''logs'' name) then gs
      else write_text (join_path ''logs'' name) [] gs) names gs) ''configs/azure_cluster.yaml'' =
      map_of gs ''configs/azure_cluster.yaml''" for names gs
    by (induction names arbitrary: gs) (simp_all add: write_text_def dict_simps other)
  let ?fs = "StructuredLogFanout ''logs'' (StructuredDecisionLogger (ec_decision_log_path config) [(''configs/azure_cluster.yaml'', [])])"
  have "map_of ?fs ''configs/azure_cluster.yaml'' \<noteq> None"
    unfolding StructuredLogFanout_def fan
    by (auto simp: StructuredDecisionLogger_def write_text_def dict_simps split: option.splits list.splits)
  then have "map_of (fold (\<lambda>name. write_text (join_path ''logs'' name) []) AZURE_LOGS ?fs) ''configs/azure_cluster.yaml'' \<noteq> None"
    by (simp add: AZURE_LOGS_def write_text_def dict_simps other)
  with az [of "''configs/azure_cluster.yaml''" "''logs''" ?fs] assms show ?thesis
    using PostgresExperimentStore_disabled [of _ "[]" "ee_postgres env" "ee_database env"]
    by (auto simp: SimulationEngine_def Let_def)
qed

lemma demo_parts_constructed:
  assumes "NimbusMeshControlPlane demo_platform config = Inr plane"
    and "ee_platform env = demo_platform" and "ee_azure env = demo_azure" and "ee_postgres_dsn env = []"
  shows "\<exists>se. SimulationEngine env config [(''configs/azure_cluster.yaml'', [])] = Inr se \<and>
    (ec_decision_log_path config = None \<or> az_available (se_azure se))"
  using parts_constructed [of env config plane] assms by simp

lemma demo_engine_constructed:
  assumes "NimbusMeshControlPlane demo_platform config = Inr plane"
  shows "\<exists>se. SimulationEngine demo_engine_env config [(''configs/azure_cluster.yaml'', [])] = Inr se \<and>
    (ec_decision_log_path config = None \<or> az_available (se_azure se))"
  by (rule demo_parts_constructed [OF assms]) (simp_all add: demo_engine_env_def)

theorem simulation_completes_witness:
  "\<exists>se se' rep. SimulationEngine demo_engine_env demo_config [(''configs/azure_cluster.yaml'', [])] = Inr se \<and>
     run demo_engine_env se = Inr (se', rep) \<and> map_of rep ''requests_total'' = Some (JInt 4)"
proof -
  obtain se where se: "SimulationEngine demo_engine_env demo_config [(''configs/azure_cluster.yaml'', [])] = Inr se"
    using demo_engine_constructed [OF demo_constructed] by blast
  have w: "ec_workload demo_config = demo_workload" "wc_request_count demo_workload = 4"
    by (simp_all add: demo_config_def demo_workload_def)
  from simulation_completes [OF demo_local_env [of 0] demo_config_ok _ _ se] demo_workload_ok w se show ?thesis by auto
qed

theorem sinks_agree_witness:
  "\<exists>se se' res. SimulationEngine demo_engine_env demo_log_config [(''configs/azure_cluster.yaml'', [])] = Inr se \<and>
     efold (engine_step demo_engine_env) [demo_request] se = Inr se' \<and> rr_request res = demo_request \<and>
     emap (loads exact_text) (splitlines (dict_get [] (se_files se') ''decisions.jsonl'')) = Inr [sort_json (JDict (to_dict res))]"
proof -
  have cfg: "config_ok demo_log_config" using demo_config_ok by (simp add: demo_log_config_def config_ok_def ids_ok_def)
  have "\<exists>plane. NimbusMeshControlPlane demo_platform demo_log_config = Inr plane"
    using demo_constructed
    by (auto simp: NimbusMeshControlPlane_def demo_log_config_def result_simps build_from_config_def build_runtime_clusters_def)
  then obtain se where se: "SimulationEngine demo_engine_env demo_log_config [(''configs/azure_cluster.yaml'', [])] = Inr se"
    using demo_engine_constructed by blast
  have own: "own_log ''decisions.jsonl''" by (simp add: own_log_def join_path_def)
  have "ec_decision_log_path demo_log_config = Some ''decisions.jsonl''" by (simp add: demo_log_config_def)
  moreover have "json_ok (JDict (rq_metadata demo_request))" by (simp add: demo_request_def dict_ok_def)
  ultimately obtain se' where se': "efold (engine_step demo_engine_env) [demo_request] se = Inr se'"
    "map rr_request (mc_results (se_metrics se')) = [demo_request]"
    "emap (loads exact_text) (splitlines (dict_get [] (se_files se') ''decisions.jsonl'')) =
       Inr (map (\<lambda>res. sort_json (JDict (to_dict res))) (mc_results (se_metrics se')))"
    using sinks_agree [OF demo_local_env [of 0] cfg se, of "[demo_request]" "''decisions.jsonl''"] own demo_request_ok exact_text_ok
    by (auto simp: demo_engine_env_def demo_codec_def)
  then obtain res where "mc_results (se_metrics se') = [res]" "rr_request res = demo_request" by auto
  with se se' show ?thesis by auto
qed

end
