(* ===== verification/ConfigLoader.thy ===== *)
theory ConfigLoader
  imports Samples PyJson
begin

text \<open>
  Reading a configuration, \<open>nimbusmesh_x/config.py\<close>: the \<open>from_dict\<close> constructors of the five
  dataclasses and \<open>load_config\<close>. A payload is the JSON value \<open>json.loads\<close> returned; the file system and
  the text of floats are parameters. Fields the code stores unchecked and annotates as
  strings are read by \<open>text_field\<close>, which leaves out values of other types. The lemmas show that the
  JSON text of a configuration loads to that configuration whatever the order of its keys and
  whatever other keys there are, that absent optional keys mean their defaults, and that absent
  required keys are \<open>KeyError\<close>s.
\<close>

section \<open>Fields\<close>

definition text_field :: "json \<Rightarrow> string result" where
  "text_field v = (case v of JStr s \<Rightarrow> Inr s | _ \<Rightarrow> Inl (Untyped ''str''))"

definition opt_text_field :: "json \<Rightarrow> string option result" where
  "opt_text_field v = (case v of JNull \<Rightarrow> Inr None | JStr s \<Rightarrow> Inr (Some s) | _ \<Rightarrow> Inl (Untyped ''str | None''))"

text \<open>\<open>{k: float(v) for k, v in v.items()}\<close>.\<close>

definition float_items :: "json \<Rightarrow> (string, pyfloat) dict result" where
  "float_items v =
     (case v of JDict d \<Rightarrow> emap (\<lambda>(k, x). ebind (json_float x) (\<lambda>y. Inr (k, y))) d
      | _ \<Rightarrow> Inl (AttributeError ''items''))"

text \<open>Tuple assignment from an iterable, and the windows read with it.\<close>

definition unpack :: "nat \<Rightarrow> json \<Rightarrow> json list result" where
  "unpack n v =
     ebind (json_iter v) (\<lambda>xs.
       if length xs < n then Inl (ValueError ''not enough values to unpack'')
       else if n < length xs then Inl (ValueError ''too many values to unpack'')
       else Inr xs)"

definition failure_window :: "json \<Rightarrow> (pyfloat \<times> pyfloat) result" where
  "failure_window v = ebind (unpack 2 v) (\<lambda>xs. ebind (emap json_float xs) (\<lambda>ys. Inr (ys ! 0, ys ! 1)))"

definition congestion_window :: "json \<Rightarrow> (pyfloat \<times> pyfloat \<times> pyfloat) result" where
  "congestion_window v = ebind (unpack 3 v) (\<lambda>xs. ebind (emap json_float xs) (\<lambda>ys. Inr (ys ! 0, ys ! 1, ys ! 2)))"

text \<open>Readers of one key: \<open>f(payload.get(k, d))\<close> and \<open>f(payload[k])\<close>.\<close>

definition get_with :: "(json \<Rightarrow> 'a result) \<Rightarrow> json \<Rightarrow> string \<Rightarrow> json \<Rightarrow> 'a result" where
  "get_with f payload k d = ebind (json_get payload k d) f"

definition item_with :: "(json \<Rightarrow> 'a result) \<Rightarrow> json \<Rightarrow> string \<Rightarrow> 'a result" where
  "item_with f payload k = ebind (json_item payload k) f"

section \<open>Constructors\<close>

definition distribution_from_dict :: "json \<Rightarrow> distribution_config result" where
  "distribution_from_dict payload =
     ebind (get_with text_field payload ''distribution'' (JStr ''lognormal'')) (\<lambda>distribution.
     ebind (get_with json_float payload ''mean'' (JFloat 1024)) (\<lambda>mean.
     ebind (get_with json_float payload ''sigma'' (JFloat 0.7)) (\<lambda>sigma.
     ebind (get_with json_int payload ''min'' (JInt 32)) (\<lambda>min.
     ebind (get_with json_int payload ''max'' (JInt 32768)) (\<lambda>max.
     Inr \<lparr>dc_distribution = distribution, dc_mean = mean, dc_sigma = sigma, dc_min = min, dc_max = max\<rparr>)))))"

definition workload_from_dict :: "json \<Rightarrow> workload_config result" where
  "workload_from_dict payload =
     ebind (item_with json_int payload ''request_count'') (\<lambda>request_count.
     ebind (get_with json_float payload ''duration_s'' (JFloat 60)) (\<lambda>duration_s.
     ebind (get_with text_field payload ''arrival_pattern'' (JStr ''poisson'')) (\<lambda>arrival_pattern.
     ebind (get_with distribution_from_dict payload ''prompt_tokens'' (JDict [])) (\<lambda>prompt_tokens.
     ebind (get_with distribution_from_dict payload ''generation_tokens'' (JDict [])) (\<lambda>generation_tokens.
     ebind (get_with float_items payload ''tenant_weights'' (JDict [(''tenant-a'', JFloat 1)])) (\<lambda>tenant_weights.
     ebind (get_with float_items payload ''model_mix'' (JDict [(''llama-3-8b'', JFloat 1)])) (\<lambda>model_mix.
     ebind (get_with float_items payload ''sla_mix'' (JDict [(''interactive'', JFloat 1)])) (\<lambda>sla_mix.
     ebind (get_with opt_text_field payload ''trace_path'' JNull) (\<lambda>trace_path.
     ebind (get_with json_float payload ''trace_replay_speed'' (JFloat 1)) (\<lambda>trace_replay_speed.
     ebind (get_with text_field payload ''trace_default_model'' (JStr ''llama-3-8b'')) (\<lambda>trace_default_model.
     ebind (get_with text_field payload ''trace_default_sla'' (JStr ''interactive'')) (\<lambda>trace_default_sla.
     ebind (get_with (\<lambda>v. if v = JNull then Inr None else ebind (json_int v) (\<lambda>n. Inr (Some n)))
              payload ''trace_limit'' JNull) (\<lambda>trace_limit.
     ebind (get_with json_float payload ''session_reuse_probability'' (JFloat 0.4)) (\<lambda>session_reuse_probability.
     ebind (get_with json_float payload ''burst_factor'' (JFloat 1)) (\<lambda>burst_factor.
     ebind (get_with json_float payload ''cache_hostility'' (JFloat 0)) (\<lambda>cache_hostility.
     Inr \<lparr>wc_request_count = request_count, wc_duration_s = duration_s, wc_arrival_pattern = arrival_pattern,
          wc_prompt_tokens = prompt_tokens, wc_generation_tokens = generation_tokens,
          wc_tenant_weights = tenant_weights, wc_model_mix = model_mix, wc_sla_mix = sla_mix,
          wc_trace_path = trace_path, wc_trace_replay_speed = trace_replay_speed,
          wc_trace_default_model = trace_default_model, wc_trace_default_sla = trace_default_sla,
          wc_trace_limit = trace_limit, wc_session_reuse_probability = session_reuse_probability,
          wc_burst_factor = burst_factor, wc_cache_hostility = cache_hostility\<rparr>))))))))))))))))"

definition pool_from_dict :: "(json \<Rightarrow> string) \<Rightarrow> json \<Rightarrow> pool_spec result" where
  "pool_from_dict repr payload =
     ebind (get_with (\<lambda>models. if models = JNull then Inr [] else ebind (json_iter models) (\<lambda>items. Inr (map (json_str repr) items)))
              payload ''supported_models'' JNull) (\<lambda>supported_models.
     ebind (item_with text_field payload ''pool_id'') (\<lambda>pool_id.
     ebind (get_with text_field payload ''backend_name'' (JStr ''mock'')) (\<lambda>backend_name.
     ebind (item_with text_field payload ''accelerator_type'') (\<lambda>accelerator_type.
     ebind (item_with json_float payload ''prefill_tps'') (\<lambda>prefill_tps.
     ebind (item_with json_float payload ''decode_tps'') (\<lambda>decode_tps.
     ebind (item_with json_float payload ''memory_gb'') (\<lambda>memory_gb.
     ebind (item_with json_int payload ''gpu_count'') (\<lambda>gpu_count.
     ebind (ebind (json_item payload ''gpu_count'') (get_with json_int payload ''parallel_slots'')) (\<lambda>parallel_slots.
     ebind (item_with json_float payload ''cost_per_1m_tokens'') (\<lambda>cost_per_1m_tokens.
     ebind (get_with json_float payload ''energy_proxy'' (JFloat 1)) (\<lambda>energy_proxy.
     ebind (get_with text_field payload ''topology_tier'' (JStr ''pcie-fabric'')) (\<lambda>topology_tier.
     ebind (get_with (\<lambda>v. Inr (json_truthy v)) payload ''premium'' (JBool False)) (\<lambda>premium.
     ebind (get_with json_int payload ''queue_limit'' (JInt 1024)) (\<lambda>queue_limit.
     Inr \<lparr>ps_pool_id = pool_id, ps_backend_name = backend_name, ps_accelerator_type = accelerator_type,
          ps_supported_models = supported_models, ps_prefill_tps = prefill_tps, ps_decode_tps = decode_tps,
          ps_memory_gb = memory_gb, ps_gpu_count = gpu_count, ps_parallel_slots = parallel_slots,
          ps_cost_per_1m_tokens = cost_per_1m_tokens, ps_energy_proxy = energy_proxy,
          ps_topology_tier = topology_tier, ps_premium = premium, ps_queue_limit = queue_limit\<rparr>))))))))))))))"

definition cluster_from_dict :: "(json \<Rightarrow> string) \<Rightarrow> json \<Rightarrow> cluster_spec result" where
  "cluster_from_dict repr payload =
     ebind (item_with text_field payload ''cluster_id'') (\<lambda>cluster_id.
     ebind (item_with text_field payload ''zone'') (\<lambda>zone.
     ebind (get_with json_float payload ''ingress_cost'' (JFloat 1)) (\<lambda>ingress_cost.
     ebind (get_with float_items payload ''network_costs'' (JDict [])) (\<lambda>network_costs.
     ebind (get_with json_float payload ''base_congestion'' (JFloat 0)) (\<lambda>base_congestion.
     ebind (item_with (\<lambda>v. ebind (json_iter v) (emap (pool_from_dict repr))) payload ''pools'') (\<lambda>pools.
     ebind (get_with opt_text_field payload ''gpu_topology_file'' JNull) (\<lambda>gpu_topology_file.
     ebind (get_with (\<lambda>v. ebind (json_iter v) (emap failure_window)) payload ''failure_windows'' (JList [])) (\<lambda>failure_windows.
     ebind (get_with (\<lambda>v. ebind (json_iter v) (emap congestion_window)) payload ''congestion_windows'' (JList [])) (\<lambda>congestion_windows.
     Inr \<lparr>cs_cluster_id = cluster_id, cs_zone = zone, cs_ingress_cost = ingress_cost, cs_network_costs = network_costs,
          cs_base_congestion = base_congestion, cs_pools = pools, cs_gpu_topology_file = gpu_topology_file,
          cs_failure_windows = failure_windows, cs_congestion_windows = congestion_windows\<rparr>)))))))))"

definition config_from_dict :: "(json \<Rightarrow> string) \<Rightarrow> json \<Rightarrow> experiment_config result" where
  "config_from_dict repr payload =
     ebind (get_with text_field payload ''name'' (JStr ''nimbusmesh-x-experiment'')) (\<lambda>name.
     ebind (get_with json_int payload ''seed'' (JInt 7)) (\<lambda>seed.
     ebind (get_with text_field payload ''policy'' (JStr ''multi_objective'')) (\<lambda>policy.
     ebind (item_with workload_from_dict payload ''workload'') (\<lambda>workload.
     ebind (item_with (\<lambda>v. ebind (json_iter v) (emap (cluster_from_dict repr))) payload ''clusters'') (\<lambda>clusters.
     ebind (get_with opt_text_field payload ''decision_log_path'' JNull) (\<lambda>decision_log_path.
     ebind (get_with opt_text_field payload ''metrics_output_path'' JNull) (\<lambda>metrics_output_path.
     ebind (get_with json_float payload ''fairness_strength'' (JFloat 0.25)) (\<lambda>fairness_strength.
     ebind (get_with json_float payload ''target_fairness'' (JFloat 0.95)) (\<lambda>target_fairness.
     Inr \<lparr>ec_name = name, ec_seed = seed, ec_policy = policy, ec_workload = workload, ec_clusters = clusters,
          ec_decision_log_path = decision_log_path, ec_metrics_output_path = metrics_output_path,
          ec_fairness_strength = fairness_strength, ec_target_fairness = target_fairness\<rparr>)))))))))"

text \<open>\<open>load_config\<close>: read, parse, construct.\<close>

record config_env =
  ce_files :: "string \<Rightarrow> string option"
  ce_floats :: float_text

definition load_config :: "config_env \<Rightarrow> string \<Rightarrow> experiment_config result" where
  "load_config env path =
     (case ce_files env path of None \<Rightarrow> Inl (FileNotFoundError path)
      | Some content \<Rightarrow> ebind (loads (ce_floats env) content) (config_from_dict (py_repr (ce_floats env))))"

section \<open>The JSON form of a configuration\<close>

definition distribution_fields :: "distribution_config \<Rightarrow> (string, json) dict" where
  "distribution_fields c =
     [(''distribution'', JStr (dc_distribution c)), (''mean'', JFloat (dc_mean c)), (''sigma'', JFloat (dc_sigma c)),
      (''min'', JInt (dc_min c)), (''max'', JInt (dc_max c))]"

definition workload_fields :: "workload_config \<Rightarrow> (string, json) dict" where
  "workload_fields c =
     [(''request_count'', JInt (wc_request_count c)), (''duration_s'', JFloat (wc_duration_s c)),
      (''arrival_pattern'', JStr (wc_arrival_pattern c)),
      (''prompt_tokens'', JDict (distribution_fields (wc_prompt_tokens c))),
      (''generation_tokens'', JDict (distribution_fields (wc_generation_tokens c))),
      (''tenant_weights'', floats_json (wc_tenant_weights c)), (''model_mix'', floats_json (wc_model_mix c)),
      (''sla_mix'', floats_json (wc_sla_mix c)), (''trace_path'', opt_str (wc_trace_path c)),
      (''trace_replay_speed'', JFloat (wc_trace_replay_speed c)),
      (''trace_default_model'', JStr (wc_trace_default_model c)), (''trace_default_sla'', JStr (wc_trace_default_sla c)),
      (''trace_limit'', (case wc_trace_limit c of None \<Rightarrow> JNull | Some n \<Rightarrow> JInt n)),
      (''session_reuse_probability'', JFloat (wc_session_reuse_probability c)),
      (''burst_factor'', JFloat (wc_burst_factor c)), (''cache_hostility'', JFloat (wc_cache_hostility c))]"

definition pool_fields :: "pool_spec \<Rightarrow> (string, json) dict" where
  "pool_fields p =
     [(''pool_id'', JStr (ps_pool_id p)), (''backend_name'', JStr (ps_backend_name p)),
      (''accelerator_type'', JStr (ps_accelerator_type p)), (''supported_models'', JList (map JStr (ps_supported_models p))),
      (''prefill_tps'', JFloat (ps_prefill_tps p)), (''decode_tps'', JFloat (ps_decode_tps p)),
      (''memory_gb'', JFloat (ps_memory_gb p)), (''gpu_count'', JInt (ps_gpu_count p)),
      (''parallel_slots'', JInt (ps_parallel_slots p)), (''cost_per_1m_tokens'', JFloat (ps_cost_per_1m_tokens p)),
      (''energy_proxy'', JFloat (ps_energy_proxy p)), (''topology_tier'', JStr (ps_topology_tier p)),
      (''premium'', JBool (ps_premium p)), (''queue_limit'', JInt (ps_queue_limit p))]"

definition cluster_fields :: "cluster_spec \<Rightarrow> (string, json) dict" where
  "cluster_fields c =
     [(''cluster_id'', JStr (cs_cluster_id c)), (''zone'', JStr (cs_zone c)), (''ingress_cost'', JFloat (cs_ingress_cost c)),
      (''network_costs'', floats_json (cs_network_costs c)), (''base_congestion'', JFloat (cs_base_congestion c)),
      (''pools'', JList (map (JDict \<circ> pool_fields) (cs_pools c))),
      (''gpu_topology_file'', opt_str (cs_gpu_topology_file c)),
      (''failure_windows'', JList (map (\<lambda>(s, e). JList [JFloat s, JFloat e]) (cs_failure_windows c))),
      (''congestion_windows'', JList (map (\<lambda>(s, e, m). JList [JFloat s, JFloat e, JFloat m]) (cs_congestion_windows c)))]"

definition config_fields :: "experiment_config \<Rightarrow> (string, json) dict" where
  "config_fields c =
     [(''name'', JStr (ec_name c)), (''seed'', JInt (ec_seed c)), (''policy'', JStr (ec_policy c)),
      (''workload'', JDict (workload_fields (ec_workload c))),
      (''clusters'', JList (map (JDict \<circ> cluster_fields) (ec_clusters c))),
      (''decision_log_path'', opt_str (ec_decision_log_path c)), (''metrics_output_path'', opt_str (ec_metrics_output_path c)),
      (''fairness_strength'', JFloat (ec_fairness_strength c)), (''target_fairness'', JFloat (ec_target_fairness c))]"

text \<open>A payload that has the given fields, in any order and among others.\<close>

definition carries :: "(string, json) dict \<Rightarrow> (string, json) dict \<Rightarrow> bool" where
  "carries d fs \<longleftrightarrow> (\<forall>(k, v) \<in> set fs. map_of d k = Some v)"

lemma carries_self: "distinct (map fst d) \<Longrightarrow> carries d d"
  by (auto simp: carries_def)

section \<open>Round trip\<close>

lemma reader_simps [simp]:
  "get_with f (JDict d) k = (\<lambda>v. f (dict_get v d k))"
  "item_with f (JDict d) k = ebind (dict_item d k (KeyError k)) f"
  "json_item (JDict d) k = dict_item d k (KeyError k)"
  by (simp_all add: get_with_def item_with_def json_get_def json_item_def fun_eq_iff)

lemma field_simps_json [simp]:
  "text_field (JStr s) = Inr s" "json_float (JFloat x) = Inr x" "json_int (JInt n) = Inr n"
  "opt_text_field (opt_str t) = Inr t" "json_iter (JList xs) = Inr xs"
  by (auto simp: text_field_def json_float_def json_int_def opt_text_field_def json_iter_def split: option.splits)
     (cases t; simp)

lemma emap_map [simp]: "emap f (map g xs) = emap (\<lambda>x. f (g x)) xs"
  by (induction xs) simp_all

lemma emap_id: "(\<And>x. x \<in> set xs \<Longrightarrow> f x = Inr x) \<Longrightarrow> emap f xs = Inr xs"
  using emap_each [of xs f "\<lambda>x. x"] by simp

lemma float_items_dict [simp]: "float_items (floats_json d) = Inr d"
  by (auto simp: float_items_def floats_json_def split_beta intro: emap_id)

lemma windows_json [simp]:
  "failure_window (JList [JFloat s, JFloat e]) = Inr (s, e)"
  "congestion_window (JList [JFloat s, JFloat e, JFloat m]) = Inr (s, e, m)"
  by (simp_all add: failure_window_def congestion_window_def unpack_def)

lemma read_field [simp]:
  assumes "map_of d k = Some v"
  shows "dict_get x d k = v" "dict_item d k e = Inr v"
  using assms by (simp_all add: dict_get_def dict_item_def)

lemma distribution_loads: "carries d (distribution_fields c) \<Longrightarrow> distribution_from_dict (JDict d) = Inr c"
  by (simp add: carries_def distribution_fields_def distribution_from_dict_def)

lemma distribution_loads_self [simp]: "distribution_from_dict (JDict (distribution_fields c)) = Inr c"
  by (rule distribution_loads, rule carries_self) (simp add: distribution_fields_def)

lemma workload_loads: "carries d (workload_fields c) \<Longrightarrow> workload_from_dict (JDict d) = Inr c"
  by (simp add: carries_def workload_fields_def workload_from_dict_def split: option.splits)

lemma workload_loads_self [simp]: "workload_from_dict (JDict (workload_fields c)) = Inr c"
  by (rule workload_loads, rule carries_self) (simp add: workload_fields_def)

lemma pool_loads: "carries d (pool_fields p) \<Longrightarrow> pool_from_dict repr (JDict d) = Inr p"
  by (simp add: carries_def pool_fields_def pool_from_dict_def json_str_def comp_def)

lemma pool_loads_self [simp]: "pool_from_dict repr (JDict (pool_fields p)) = Inr p"
  by (rule pool_loads, rule carries_self) (simp add: pool_fields_def)

lemma cluster_loads: "carries d (cluster_fields c) \<Longrightarrow> cluster_from_dict repr (JDict d) = Inr c"
  by (simp add: carries_def cluster_fields_def cluster_from_dict_def split_beta emap_id)

lemma cluster_loads_self [simp]: "cluster_from_dict repr (JDict (cluster_fields c)) = Inr c"
  by (rule cluster_loads, rule carries_self) (simp add: cluster_fields_def)

lemma config_loads: "carries d (config_fields c) \<Longrightarrow> config_from_dict repr (JDict d) = Inr c"
  by (simp add: carries_def config_fields_def config_from_dict_def emap_id)

section \<open>Defaults and required keys\<close>

text \<open>The optional keys of each constructor with the value their absence stands for.\<close>

definition DISTRIBUTION_DEFAULTS :: "(string, json) dict" where
  "DISTRIBUTION_DEFAULTS =
     [(''distribution'', JStr ''lognormal''), (''mean'', JFloat 1024), (''sigma'', JFloat 0.7), (''min'', JInt 32),
      (''max'', JInt 32768)]"

definition WORKLOAD_DEFAULTS :: "(string, json) dict" where
  "WORKLOAD_DEFAULTS =
     [(''duration_s'', JFloat 60), (''arrival_pattern'', JStr ''poisson''), (''prompt_tokens'', JDict DISTRIBUTION_DEFAULTS),
      (''generation_tokens'', JDict DISTRIBUTION_DEFAULTS), (''tenant_weights'', JDict [(''tenant-a'', JFloat 1)]),
      (''model_mix'', JDict [(''llama-3-8b'', JFloat 1)]), (''sla_mix'', JDict [(''interactive'', JFloat 1)]),
      (''trace_path'', JNull), (''trace_replay_speed'', JFloat 1), (''trace_default_model'', JStr ''llama-3-8b''),
      (''trace_default_sla'', JStr ''interactive''), (''trace_limit'', JNull), (''session_reuse_probability'', JFloat 0.4),
      (''burst_factor'', JFloat 1), (''cache_hostility'', JFloat 0)]"

definition POOL_DEFAULTS :: "(string, json) dict" where
  "POOL_DEFAULTS =
     [(''supported_models'', JList []), (''backend_name'', JStr ''mock''), (''energy_proxy'', JFloat 1),
      (''topology_tier'', JStr ''pcie-fabric''), (''premium'', JBool False), (''queue_limit'', JInt 1024)]"

definition CLUSTER_DEFAULTS :: "(string, json) dict" where
  "CLUSTER_DEFAULTS =
     [(''ingress_cost'', JFloat 1), (''network_costs'', JDict []), (''base_congestion'', JFloat 0),
      (''gpu_topology_file'', JNull), (''failure_windows'', JList []), (''congestion_windows'', JList [])]"

definition CONFIG_DEFAULTS :: "(string, json) dict" where
  "CONFIG_DEFAULTS =
     [(''name'', JStr ''nimbusmesh-x-experiment''), (''seed'', JInt 7), (''policy'', JStr ''multi_objective''),
      (''decision_log_path'', JNull), (''metrics_output_path'', JNull), (''fairness_strength'', JFloat 0.25),
      (''target_fairness'', JFloat 0.95)]"

definition defaulted :: "(string, json) dict \<Rightarrow> (json \<Rightarrow> 'a result) \<Rightarrow> bool" where
  "defaulted defaults f \<longleftrightarrow> (\<forall>d. \<forall>(k, v) \<in> set defaults. map_of d k = None \<longrightarrow> f (JDict (AList.update k v d)) = f (JDict d))"

definition required :: "string list \<Rightarrow> (json \<Rightarrow> 'a result) \<Rightarrow> bool" where
  "required keys f \<longleftrightarrow> (\<forall>d. \<forall>k \<in> set keys. map_of d k = None \<longrightarrow> (\<exists>e. f (JDict d) = Inl e))"

lemma lookup_updated [simp]:
  "dict_get x (AList.update k v d) k' = (if k = k' then v else dict_get x d k')"
  "dict_item (AList.update k v d) k' e = (if k = k' then Inr v else dict_item d k' e)"
  by (auto simp: dict_get_def dict_item_def dict_simps)

lemma absent_key [simp]:
  assumes "map_of d k = None"
  shows "dict_get x d k = x" "dict_item d k e = Inl e"
  using assms by (simp_all add: dict_get_def dict_item_def)

lemma distribution_defaults: "defaulted DISTRIBUTION_DEFAULTS distribution_from_dict"
  by (auto simp: defaulted_def DISTRIBUTION_DEFAULTS_def distribution_from_dict_def)

lemma empty_distribution: "distribution_from_dict (JDict DISTRIBUTION_DEFAULTS) = distribution_from_dict (JDict [])"
  by (simp add: DISTRIBUTION_DEFAULTS_def distribution_from_dict_def dict_get_def)

lemma workload_defaults: "defaulted WORKLOAD_DEFAULTS workload_from_dict"
  by (auto simp: defaulted_def WORKLOAD_DEFAULTS_def workload_from_dict_def empty_distribution)

lemma pool_defaults: "defaulted POOL_DEFAULTS (pool_from_dict repr)"
  by (auto simp: defaulted_def POOL_DEFAULTS_def pool_from_dict_def)

lemma cluster_defaults: "defaulted CLUSTER_DEFAULTS (cluster_from_dict repr)"
  by (auto simp: defaulted_def CLUSTER_DEFAULTS_def cluster_from_dict_def)

lemma experiment_defaults: "defaulted CONFIG_DEFAULTS (config_from_dict repr)"
  by (auto simp: defaulted_def CONFIG_DEFAULTS_def config_from_dict_def)

lemma ebind_fails: "(\<exists>e. r = Inl e) \<or> (\<forall>x. \<exists>e. f x = Inl e) \<Longrightarrow> \<exists>e. ebind r f = Inl e"
  by (cases r) auto

lemma workload_required: "required [''request_count''] workload_from_dict"
  by (auto simp: required_def workload_from_dict_def)

lemma pool_required:
  "required [''pool_id'', ''accelerator_type'', ''prefill_tps'', ''decode_tps'', ''memory_gb'', ''gpu_count'',
     ''cost_per_1m_tokens''] (pool_from_dict repr)"
  unfolding required_def pool_from_dict_def by (auto intro!: ebind_fails)

lemma cluster_required: "required [''cluster_id'', ''zone'', ''pools''] (cluster_from_dict repr)"
  unfolding required_def cluster_from_dict_def by (auto intro!: ebind_fails)

lemma experiment_required: "required [''workload'', ''clusters''] (config_from_dict repr)"
  unfolding required_def config_from_dict_def by (auto intro!: ebind_fails)

section \<open>Properties\<close>

lemma config_file_loads:
  assumes "ce_files env path = Some content" and "loads (ce_floats env) content = Inr (JDict d)" and "carries d (config_fields c)"
  shows "load_config env path = Inr c"
  using assms by (simp add: load_config_def config_loads)

text \<open>
  C31: a file with the JSON text of an object that has the fields of a configuration, in any order, among
  any others and with any indentation, loads to exactly that configuration, with all its clusters, pools,
  windows and workload settings.
\<close>

theorem load_config_roundtrip:
  assumes "floats_ok (ce_floats env)" and "json_ok (JDict d)" and "carries d (config_fields c)"
    and "ce_files env path = Some (dumps (ce_floats env) indent False (JDict d))"
  shows "load_config env path = Inr c"
  using loads_dumps [OF assms(1,2), of indent False] by (intro config_file_loads [OF assms(4) _ assms(3)]) simp

definition demo_document :: "(string, json) dict" where
  "demo_document = (''comment'', JStr ''demo'') # rev (config_fields demo_config)"

definition demo_config_env :: config_env where
  "demo_config_env = \<lparr>ce_files = [''demo.json'' \<mapsto> dumps exact_text (Some 2) False (JDict demo_document)], ce_floats = exact_text\<rparr>"

lemma demo_document_ok: "json_ok (JDict demo_document)" "carries demo_document (config_fields demo_config)"
proof -
  show "json_ok (JDict demo_document)" by code_simp
  show "carries demo_document (config_fields demo_config)" by (simp add: demo_document_def carries_def config_fields_def)
qed

theorem load_config_roundtrip_witness: "load_config demo_config_env ''demo.json'' = Inr demo_config"
  using load_config_roundtrip [OF _ demo_document_ok, of demo_config_env "''demo.json''" "Some 2"] exact_text_ok
  by (simp add: demo_config_env_def)

text \<open>
  every optional key of a configuration file may be left out and then means its default, at every
  level: filling in the default changes nothing. Leaving out a required key is an error.
\<close>

theorem config_defaults:
  "defaulted DISTRIBUTION_DEFAULTS distribution_from_dict \<and> defaulted WORKLOAD_DEFAULTS workload_from_dict \<and>
   defaulted POOL_DEFAULTS (pool_from_dict repr) \<and> defaulted CLUSTER_DEFAULTS (cluster_from_dict repr) \<and>
   defaulted CONFIG_DEFAULTS (config_from_dict repr) \<and>
   required [''request_count''] workload_from_dict \<and>
   required [''pool_id'', ''accelerator_type'', ''prefill_tps'', ''decode_tps'', ''memory_gb'', ''gpu_count'',
     ''cost_per_1m_tokens''] (pool_from_dict repr) \<and>
   required [''cluster_id'', ''zone'', ''pools''] (cluster_from_dict repr) \<and>
   required [''workload'', ''clusters''] (config_from_dict repr)"
  by (intro conjI distribution_defaults workload_defaults pool_defaults cluster_defaults experiment_defaults
      workload_required pool_required cluster_required experiment_required)

lemma pool_slots_default:
  assumes "pool_from_dict repr (JDict d) = Inr p" and "map_of d ''parallel_slots'' = None"
  shows "ps_parallel_slots p = ps_gpu_count p"
  using assms by (auto simp: pool_from_dict_def result_simps)

end
