(* ===== verification/Benchmarks.thy ===== *)
theory Benchmarks
  imports Engine ConfigLoader
begin

text \<open>
  Sweeps over policies and seeds: \<open>simulators/ray_engine.py\<close> and \<open>benchmarks/harness.py\<close>. What one
  simulation leaves behind for the next is the file system and the state of the external services;
  every run constructs everything else anew. \<open>ray\<close> is a parameter: none, or a runtime that takes the
  remote function and the arguments of the calls and delivers what \<open>ray.get\<close> returns for their futures;
  its contract is the locale \<open>ray_cluster\<close>. The lemmas show that a sweep over a valid configuration completes with
  one report per policy and seed, and that without Redis a report depends on configuration, policy and
  seed only, so that the harness and the Ray sweep report the same.
\<close>

section \<open>One simulation after another\<close>

type_synonym sim_report = "(string, json) dict"

text \<open>The external services as the next engine finds them.\<close>

definition next_env ::
  "('r, 'q, 'p, 'g) engine_env \<Rightarrow> ('r, 'q, 'p) simulation_engine \<Rightarrow> ('r, 'q, 'p, 'g) engine_env" where
  "next_env env se =
     env\<lparr>ee_platform := (ee_platform env)\<lparr>pf_redis_store := kc_redis_store (nm_cache_directory (se_control_plane se))\<rparr>,
         ee_database := pg_state (se_postgres se), ee_redis_store := se_redis_store se\<rparr>"

definition simulate ::
  "experiment_config \<Rightarrow> ('r, 'q, 'p, 'g) engine_env \<times> files
    \<Rightarrow> ((('r, 'q, 'p, 'g) engine_env \<times> files) \<times> sim_report) result" where
  "simulate config world =
     (case world of (env, fs) \<Rightarrow>
      ebind (SimulationEngine env config fs) (\<lambda>se.
      ebind (run env se) (\<lambda>(se', rep). Inr ((next_env env se', se_files se'), rep))))"

text \<open>A loop over tasks that appends one report each.\<close>

definition collect ::
  "('a \<Rightarrow> 'w \<Rightarrow> ('w \<times> sim_report) result) \<Rightarrow> 'a list \<Rightarrow> 'w \<Rightarrow> ('w \<times> sim_report list) result" where
  "collect f tasks world =
     efold (\<lambda>task (w, reports). ebind (f task w) (\<lambda>(w', rep). Inr (w', reports @ [rep]))) tasks (world, [])"

section \<open>Ray sweeps\<close>

type_synonym ('a, 'w, 'b) ray_runtime = "('a \<Rightarrow> 'w \<Rightarrow> ('w \<times> 'b) result) \<Rightarrow> 'a list \<Rightarrow> 'w \<Rightarrow> ('w \<times> 'b list) result"

definition run_single ::
  "config_env \<Rightarrow> string \<Rightarrow> string \<times> int \<Rightarrow> ('r, 'q, 'p, 'g) engine_env \<times> files
    \<Rightarrow> ((('r, 'q, 'p, 'g) engine_env \<times> files) \<times> sim_report) result" where
  "run_single ce config_path task world =
     (case task of (policy, seed) \<Rightarrow>
      ebind (load_config ce config_path) (\<lambda>config.
      ebind (simulate (with_seed (with_policy config policy) seed) world) (\<lambda>(world', rep).
      Inr (world', dict_union rep [(''seed'', JInt seed), (''policy_name'', JStr policy)]))))"

definition sweep_tasks :: "string list \<Rightarrow> int list \<Rightarrow> (string \<times> int) list" where
  "sweep_tasks policies seeds = concat (map (\<lambda>policy. map (Pair policy) seeds) policies)"

text \<open>The key \<open>(item["policy_name"], item["seed"])\<close> of the final sort.\<close>

definition report_key :: "sim_report \<Rightarrow> (string \<times> int) result" where
  "report_key item =
     ebind (dict_item item ''policy_name'' (KeyError ''policy_name'')) (\<lambda>policy_name.
     ebind (dict_item item ''seed'' (KeyError ''seed'')) (\<lambda>seed.
     case (policy_name, seed) of (JStr p, JInt s) \<Rightarrow> Inr (p, s) | _ \<Rightarrow> Inl (Untyped ''report key'')))"

definition sort_reports :: "sim_report list \<Rightarrow> sim_report list result" where
  "sort_reports reports = ebind (emap report_key reports) (\<lambda>keys. Inr (map snd (sort_key fst (zip keys reports))))"

definition run_ray_sweep ::
  "(string \<times> int, ('r, 'q, 'p, 'g) engine_env \<times> files, sim_report) ray_runtime option
    \<Rightarrow> config_env \<Rightarrow> string \<Rightarrow> string list \<Rightarrow> int list \<Rightarrow> ('r, 'q, 'p, 'g) engine_env \<times> files
    \<Rightarrow> ((('r, 'q, 'p, 'g) engine_env \<times> files) \<times> sim_report list) result" where
  "run_ray_sweep ray ce config_path policies seeds world =
     (case ray of
        None \<Rightarrow> collect (run_single ce config_path) (sweep_tasks policies seeds) world
      | Some ray_get \<Rightarrow>
          ebind (ray_get (run_single ce config_path) (sweep_tasks policies seeds) world) (\<lambda>(world', reports).
          ebind (sort_reports reports) (\<lambda>sorted. Inr (world', sorted))))"

section \<open>The harness\<close>

record benchmark_harness =
  bh_config :: experiment_config
  bh_output_dir :: string
  bh_config_path :: "string option"

definition write_reports ::
  "benchmark_harness \<Rightarrow> sim_report list \<Rightarrow> ('r, 'q, 'p, 'g) engine_env \<times> files \<Rightarrow> ('r, 'q, 'p, 'g) engine_env \<times> files" where
  "write_reports h reports world =
     (case world of (env, fs) \<Rightarrow>
      (env, write_text (join_path (bh_output_dir h) (ec_name (bh_config h) @ ''-benchmark.json''))
              (tc_pretty (ee_codec env) (JList (map JDict reports))) fs))"

definition harness_tasks :: "string list \<Rightarrow> int list \<Rightarrow> (string \<times> int) list" where
  "harness_tasks policies seeds = concat (map (\<lambda>seed. map (\<lambda>policy. (policy, seed)) policies) seeds)"

definition harness_task ::
  "experiment_config \<Rightarrow> string \<times> int \<Rightarrow> ('r, 'q, 'p, 'g) engine_env \<times> files
    \<Rightarrow> ((('r, 'q, 'p, 'g) engine_env \<times> files) \<times> sim_report) result" where
  "harness_task config task world =
     (case task of (policy, seed) \<Rightarrow>
      ebind (simulate (with_seed (with_policy config policy) seed) world) (\<lambda>(world', rep).
      Inr (world', AList.update ''seed'' (JInt seed) rep)))"

definition harness_run ::
  "benchmark_harness \<Rightarrow> string list \<Rightarrow> int list \<Rightarrow> ('r, 'q, 'p, 'g) engine_env \<times> files
    \<Rightarrow> ((('r, 'q, 'p, 'g) engine_env \<times> files) \<times> sim_report list) result" where
  "harness_run h policies seeds world =
     ebind (collect (harness_task (bh_config h)) (harness_tasks policies seeds) world) (\<lambda>(world', reports).
     Inr (write_reports h reports world', reports))"

definition run_distributed ::
  "(string \<times> int, ('r, 'q, 'p, 'g) engine_env \<times> files, sim_report) ray_runtime option
    \<Rightarrow> config_env \<Rightarrow> benchmark_harness \<Rightarrow> string list \<Rightarrow> int list \<Rightarrow> ('r, 'q, 'p, 'g) engine_env \<times> files
    \<Rightarrow> ((('r, 'q, 'p, 'g) engine_env \<times> files) \<times> sim_report list) result" where
  "run_distributed ray ce h policies seeds world =
     (case bh_config_path h of
        None \<Rightarrow> harness_run h policies seeds world
      | Some config_path \<Rightarrow>
          ebind (run_ray_sweep ray ce config_path policies seeds world) (\<lambda>(world', reports).
          Inr (write_reports h reports world', reports)))"

definition run_benchmark_suite ::
  "config_env \<Rightarrow> string \<Rightarrow> string list \<Rightarrow> int list \<Rightarrow> ('r, 'q, 'p, 'g) engine_env \<times> files
    \<Rightarrow> ((('r, 'q, 'p, 'g) engine_env \<times> files) \<times> sim_report list) result" where
  "run_benchmark_suite ce config_path policies seeds world =
     ebind (load_config ce config_path) (\<lambda>config.
       harness_run \<lparr>bh_config = config, bh_output_dir = ''experiments/results'', bh_config_path = Some config_path\<rparr>
         policies seeds world)"

section \<open>What a run writes\<close>

text \<open>A file no simulation of this configuration writes to.\<close>

definition input_path :: "experiment_config \<Rightarrow> string \<Rightarrow> bool" where
  "input_path config q \<longleftrightarrow> (\<forall>name. q \<noteq> join_path ''logs'' name \<and> q \<noteq> join_path ''results'' name) \<and>
     ec_decision_log_path config \<noteq> Some q \<and> ec_metrics_output_path config \<noteq> Some q"

lemma map_of_write_text [simp]: "map_of (write_text p content fs) q = (if q = p then Some content else map_of fs q)"
  by (simp add: write_text_def dict_simps)

lemma map_of_append_json [simp]:
  "map_of (append_json tc p payload fs) q = (if q = p then Some (dict_get [] fs p @ json_line tc payload) else map_of fs q)"
  by (simp add: append_json_def append_text_def json_line_def dict_simps)

lemma fanout_elsewhere: "\<forall>name. q \<noteq> join_path base name \<Longrightarrow> map_of (StructuredLogFanout base fs) q = map_of fs q"
proof -
  assume "\<forall>name. q \<noteq> join_path base name"
  then have "map_of (fold (\<lambda>name gs. if file_exists gs (join_path base name) then gs
      else write_text (join_path base name) [] gs) names gs) q = map_of gs q" for names gs
    by (induction names arbitrary: gs) simp_all
  then show ?thesis by (simp add: StructuredLogFanout_def)
qed

lemma logger_elsewhere:
  assumes "path \<noteq> Some q"
  shows "map_of (logger_emit tc path payload fs) q = map_of fs q" "map_of (StructuredDecisionLogger path fs) q = map_of fs q"
    "map_of (write_summary tc path rep fs) q = map_of fs q"
  using assms by (auto simp: logger_emit_def StructuredDecisionLogger_def write_summary_def split: option.splits list.splits)

lemma emit_result_file: "\<forall>name. q \<noteq> join_path base name \<Longrightarrow> map_of (emit_result tc base r fs) q = map_of fs q"
  by (simp add: emit_result_def Let_def)

lemma export_elsewhere:
  assumes "export_summary tc base rep fs = Inr fs'" and "\<forall>name. q \<noteq> join_path base name"
  shows "map_of fs' q = map_of fs q"
proof -
  have "map_of gs' q = map_of gs q" if "export_table tc base rep table gs = Inr gs'" for table gs gs'
    using that assms(2) by (cases table) (auto simp: export_table_def append_csv_def append_text_def dict_simps result_simps)
  then have "map_of gs' q = map_of gs q" if "efold (export_table tc base rep) tables gs = Inr gs'" for tables gs gs'
    using that by (induction tables arbitrary: gs) (auto simp: result_simps)
  then show ?thesis using assms(1) by (simp add: export_summary_def)
qed

lemma azure_construct_elsewhere:
  assumes "AzureInfraSimulator aenv path base fs = Inr (az, fs')" and "\<forall>name. q \<noteq> join_path base name"
  shows "map_of fs' q = map_of fs q"
  using assms by (auto simp: AzureInfraSimulator_def AZURE_LOGS_def Let_def result_simps split: option.splits)

lemma azure_elsewhere:
  assumes "\<forall>name. q \<noteq> join_path (az_log_dir az) name"
  shows "azure_note_submission aenv tc r (az, fs) = Inr (az', fs') \<Longrightarrow> map_of fs' q = map_of fs q"
    and "azure_record_result tc result (az, fs) = (az', fs') \<Longrightarrow> map_of fs' q = map_of fs q"
  using assms by (auto simp: azure_note_submission_def azure_record_result_def Let_def result_simps split: if_splits)

lemma construct_elsewhere:
  assumes "SimulationEngine env config fs = Inr se" and "input_path config q"
  shows "map_of (se_files se) q = map_of fs q"
proof -
  obtain azure where "AzureInfraSimulator (ee_azure env) ''configs/azure_cluster.yaml'' ''logs''
      (StructuredLogFanout ''logs'' (StructuredDecisionLogger (ec_decision_log_path config) fs)) = Inr (azure, se_files se)"
    using assms(1) by (auto simp: SimulationEngine_def Let_def result_simps)
  from azure_construct_elsewhere [OF this, of q] assms(2) show ?thesis
    by (simp add: input_path_def fanout_elsewhere logger_elsewhere)
qed

lemma step_elsewhere:
  assumes "engine_step env r se = Inr se'" and "input_path (se_config se) q" and "az_log_dir (se_azure se) = ''logs''"
  shows "map_of (se_files se') q = map_of (se_files se) q \<and> se_config se' = se_config se \<and> az_log_dir (se_azure se') = ''logs''"
proof -
  obtain az1 fs1 res where
    a1: "azure_note_submission (ee_azure env) (ee_codec env) r (se_azure se, se_files se) = Inr (az1, fs1)"
    and "(se_azure se', se_files se') = azure_record_result (ee_codec env) res (az1, emit_result (ee_codec env) ''logs'' res
        (logger_emit (ee_codec env) (ec_decision_log_path (se_config se)) (to_dict res) fs1))"
    and conf: "se_config se' = se_config se"
    using assms(1) by (auto simp: engine_step_def Let_def result_simps case_prod_unfold)
  note a2 = this(2) [symmetric]
  have dir: "az_log_dir az1 = ''logs''" using azure_note_submission_state [OF a1] assms(3)
    by (metis azure_simulator.surjective azure_simulator.ext_inject azure_simulator.update_convs(4,7))
  have "map_of (se_files se') q = map_of fs1 q"
    using azure_elsewhere(2) [OF _ a2, of q] dir assms(2) by (simp add: input_path_def emit_result_file logger_elsewhere)
  moreover have "map_of fs1 q = map_of (se_files se) q"
    using azure_elsewhere(1) [OF _ a1, of q] assms(2,3) by (simp add: input_path_def)
  ultimately show ?thesis using conf dir azure_record_result_keeps [OF a2] by simp
qed

lemma run_elsewhere:
  assumes "run env se = Inr (se', rep)" and "input_path (se_config se) q" and "az_log_dir (se_azure se) = ''logs''"
  shows "map_of (se_files se') q = map_of (se_files se) q"
proof -
  obtain requests se1 where served: "efold (engine_step env) requests se = Inr se1" and fin: "engine_finish env se1 = Inr (se', rep)"
    using assms(1) by (auto simp: run_def result_simps)
  have "map_of (se_files se1) q = map_of (se_files se) q \<and> se_config se1 = se_config se \<and> az_log_dir (se_azure se1) = ''logs''"
    using served assms(2,3)
  proof (induction requests arbitrary: se)
    case (Cons r requests)
    from Cons.prems(1) obtain se2 where "engine_step env r se = Inr se2" "efold (engine_step env) requests se2 = Inr se1"
      by (auto simp: result_simps)
    with step_elsewhere [OF this(1) Cons.prems(2,3)] Cons.IH [of se2] Cons.prems(2) show ?case by simp
  qed simp
  then show ?thesis using fin assms(2)
    by (auto simp: engine_finish_def Let_def result_simps input_path_def logger_elsewhere dest!: export_elsewhere)
qed

section \<open>A report depends on the configuration only\<close>

lemma azure_note_any_files:
  "azure_note_submission aenv tc r (az, fs) = Inr (az', fs') \<Longrightarrow>
     \<exists>gs'. azure_note_submission aenv tc r (az, gs) = Inr (az', gs')"
  by (auto simp: azure_note_submission_def Let_def result_simps split: if_splits)

lemma azure_record_any_files:
  "azure_record_result tc result (az, fs) = (az', fs') \<Longrightarrow> \<exists>gs'. azure_record_result tc result (az, gs) = (az', gs')"
  by (auto simp: azure_record_result_def Let_def split: if_splits)

lemma step_any_files:
  assumes "engine_step env r se = Inr se'"
  shows "\<exists>gs'. engine_step env r (se\<lparr>se_files := gs\<rparr>) = Inr (se'\<lparr>se_files := gs'\<rparr>)"
proof -
  let ?tc = "ee_codec env"
  obtain az1 fs1 plane res redis pg where
    a1: "azure_note_submission (ee_azure env) ?tc r (se_azure se, se_files se) = Inr (az1, fs1)"
    and ex: "execute (ee_platform env) r (rq_arrival_ts r) (note_submission r (refresh (rq_arrival_ts r) (se_control_plane se)))
        = Inr (plane, res)"
    and rd: "write_decision (pf_redis (ee_platform env)) (to_dict res) (se_redis_store se) = Inr redis"
    and pg: "pg_write_result (ee_postgres env) (ec_name (se_config se)) res (se_postgres se) = Inr pg"
    using assms by (auto simp: engine_step_def Let_def result_simps case_prod_unfold)
  obtain az2 fs4 where a2: "azure_record_result ?tc res (az1, emit_result ?tc ''logs'' res
      (logger_emit ?tc (ec_decision_log_path (se_config se)) (to_dict res) fs1)) = (az2, fs4)" by force
  have se': "se' = se\<lparr>se_control_plane := plane, se_metrics := metrics_record res (metrics_note_submission (rq_tenant_id r) (se_metrics se)),
      se_files := fs4, se_azure := az2, se_postgres := pg, se_redis_store := redis\<rparr>"
    using assms a1 ex rd pg a2 by (simp add: engine_step_def Let_def)
  obtain gs1 where g1: "azure_note_submission (ee_azure env) ?tc r (se_azure se, gs) = Inr (az1, gs1)"
    using azure_note_any_files [OF a1] by blast
  obtain gs4 where g2: "azure_record_result ?tc res (az1, emit_result ?tc ''logs'' res
      (logger_emit ?tc (ec_decision_log_path (se_config se)) (to_dict res) gs1)) = (az2, gs4)"
    using azure_record_any_files [OF a2] by blast
  have "engine_step env r (se\<lparr>se_files := gs\<rparr>) = Inr (se'\<lparr>se_files := gs4\<rparr>)"
    using g1 ex rd pg g2 by (simp add: engine_step_def Let_def se')
  then show ?thesis by blast
qed

lemma serve_any_files:
  "efold (engine_step env) requests se = Inr se' \<Longrightarrow>
     \<exists>gs'. efold (engine_step env) requests (se\<lparr>se_files := gs\<rparr>) = Inr (se'\<lparr>se_files := gs'\<rparr>)"
proof (induction requests arbitrary: se gs)
  case Nil
  then show ?case by auto
next
  case (Cons r requests)
  from Cons.prems obtain se1 where step: "engine_step env r se = Inr se1" and rest: "efold (engine_step env) requests se1 = Inr se'"
    by (auto simp: result_simps)
  obtain gs1 where "engine_step env r (se\<lparr>se_files := gs\<rparr>) = Inr (se1\<lparr>se_files := gs1\<rparr>)"
    using step_any_files [OF step] by blast
  with Cons.IH [OF rest, of gs1] show ?case by auto
qed

lemma finish_any_files:
  assumes "engine_finish env se = Inr (se1, rep)" and "engine_finish env (se\<lparr>se_files := gs\<rparr>) = Inr (se2, rep2)"
  shows "rep2 = rep"
  using assms by (auto simp: engine_finish_def Let_def result_simps case_prod_unfold)

lemma run_any_files:
  assumes "run env se = Inr (se1, rep)" and "run env (se\<lparr>se_files := gs\<rparr>) = Inr (se2, rep2)"
  shows "rep2 = rep"
proof -
  obtain requests state mid where gen: "generate_requests (ee_workload env) (ec_workload (se_config se)) (ec_seed (se_config se)) = Inr (requests, state)"
    and served: "efold (engine_step env) requests se = Inr mid" and fin: "engine_finish env mid = Inr (se1, rep)"
    using assms(1) by (auto simp: run_def result_simps)
  obtain gs' where "efold (engine_step env) requests (se\<lparr>se_files := gs\<rparr>) = Inr (mid\<lparr>se_files := gs'\<rparr>)"
    using serve_any_files [OF served] by blast
  with assms(2) gen have "engine_finish env (mid\<lparr>se_files := gs'\<rparr>) = Inr (se2, rep2)" by (simp add: run_def)
  from finish_any_files [OF fin this] show ?thesis .
qed

text \<open>Construction reads the Azure inventory and writes empty logs, nothing else.\<close>

lemma construct_any_files:
  assumes "SimulationEngine env config fs = Inr se" and "SimulationEngine env config gs = Inr se2"
    and "input_path config ''configs/azure_cluster.yaml''"
    and "map_of gs ''configs/azure_cluster.yaml'' = map_of fs ''configs/azure_cluster.yaml''"
  shows "se2 = se\<lparr>se_files := se_files se2\<rparr>"
proof -
  let ?yaml = "''configs/azure_cluster.yaml''"
  let ?prep = "\<lambda>fs. StructuredLogFanout ''logs'' (StructuredDecisionLogger (ec_decision_log_path config) fs)"
  have prep: "map_of (?prep h) ?yaml = map_of h ?yaml" for h
    using assms(3) by (simp add: input_path_def fanout_elsewhere logger_elsewhere)
  have "az2 = az1" if "AzureInfraSimulator (ee_azure env) ?yaml ''logs'' (?prep fs) = Inr (az1, f1)"
    and "AzureInfraSimulator (ee_azure env) ?yaml ''logs'' (?prep gs) = Inr (az2, f2)" for az1 az2 f1 f2
    using that assms(3,4) prep by (auto simp: AzureInfraSimulator_def AZURE_LOGS_def Let_def result_simps input_path_def
        split: option.splits)
  with assms(1,2) show ?thesis by (auto simp: SimulationEngine_def Let_def result_simps)
qed

lemma report_reproducible:
  assumes "simulate config (env, fs) = Inr (w1, rep)" and "simulate config (env, gs) = Inr (w2, rep2)"
    and "input_path config ''configs/azure_cluster.yaml''"
    and "map_of gs ''configs/azure_cluster.yaml'' = map_of fs ''configs/azure_cluster.yaml''"
  shows "rep2 = rep"
proof -
  obtain se e1 where se: "SimulationEngine env config fs = Inr se" "run env se = Inr (e1, rep)"
    using assms(1) by (auto simp: simulate_def result_simps)
  obtain se2 e2 where se2: "SimulationEngine env config gs = Inr se2" "run env se2 = Inr (e2, rep2)"
    using assms(2) by (auto simp: simulate_def result_simps)
  have "se2 = se\<lparr>se_files := se_files se2\<rparr>" by (rule construct_any_files [OF se(1) se2(1) assms(3,4)])
  with run_any_files [OF se(2)] se2(2) show ?thesis by metis
qed

section \<open>Sweeps complete\<close>

text \<open>
  A sweep that can run: a valid configuration and registered policies, files the topology and the Azure
  inventory load from, and no sink that overwrites the inventory. Its reports do not depend on what ran
  before if there is no Redis, whose mirror would carry cache entries from one run into the next.
\<close>

definition sweepable :: "nat \<Rightarrow> ('r, 'q, 'p, 'g) engine_env \<Rightarrow> experiment_config \<Rightarrow> string list \<Rightarrow> bool" where
  "sweepable earlier env config policies \<longleftrightarrow>
     local_env earlier env \<and> config_ok config \<and> workload_ok (ec_workload config) \<and>
     (\<exists>t. build_from_config (pf_files (ee_platform env)) config = Inr t) \<and>
     (\<forall>fs. \<exists>az fs'. AzureInfraSimulator (ee_azure env) ''configs/azure_cluster.yaml'' ''logs'' fs = Inr (az, fs')) \<and>
     input_path config ''configs/azure_cluster.yaml'' \<and>
     set policies \<subseteq> set (dict_keys (policy_registry (ee_platform env)))"

definition sweep_ok :: "('r, 'q, 'p, 'g) engine_env \<Rightarrow> experiment_config \<Rightarrow> string list \<Rightarrow> bool" where
  "sweep_ok env config policies \<longleftrightarrow>
     sweepable 0 env config policies \<and> wc_request_count (ec_workload config) \<le> 20000 \<and>
     \<not> rs_enabled (pf_redis_store (ee_platform env)) \<and> \<not> rs_enabled (ee_redis_store env)"

definition task_config :: "experiment_config \<Rightarrow> string \<times> int \<Rightarrow> experiment_config" where
  "task_config config task = with_seed (with_policy config (fst task)) (snd task)"

lemma task_config_fields [simp]:
  "ec_workload (task_config config task) = ec_workload config" "ec_policy (task_config config task) = fst task"
  "ec_decision_log_path (task_config config task) = ec_decision_log_path config"
  "ec_metrics_output_path (task_config config task) = ec_metrics_output_path config"
  "config_ok (task_config config task) = config_ok config"
  "build_from_config files (task_config config task) = build_from_config files config"
  by (simp_all add: task_config_def with_policy_def with_seed_def config_ok_def ids_ok_def build_from_config_def)

lemma next_env_same:
  assumes "kc_redis_store (nm_cache_directory (se_control_plane se)) = pf_redis_store (ee_platform env)"
    and "se_redis_store se = ee_redis_store env" and "pg_state (se_postgres se) = ee_database env"
  shows "next_env env se = env"
  using assms by (simp add: next_env_def)

lemma task_constructs:
  assumes "sweepable earlier env config policies" and "fst task \<in> set policies"
  shows "\<exists>se. SimulationEngine env (task_config config task) fs = Inr se"
proof -
  have ok: "local_env earlier env" "\<exists>t. build_from_config (pf_files (ee_platform env)) config = Inr t"
    "\<And>fs. \<exists>az fs'. AzureInfraSimulator (ee_azure env) ''configs/azure_cluster.yaml'' ''logs'' fs = Inr (az, fs')"
    "fst task \<in> set (dict_keys (policy_registry (ee_platform env)))"
    using assms by (auto simp: sweepable_def)
  obtain policy where "map_of (policy_registry (ee_platform env)) (fst task) = Some policy"
    using ok(4) by (auto simp: adict.keys_lookup)
  with ok(2) have plane: "\<exists>plane. NimbusMeshControlPlane (ee_platform env) (task_config config task) = Inr plane"
    by (auto simp: NimbusMeshControlPlane_def build_policy_def dict_item_def)
  have pg: "\<exists>pg. PostgresExperimentStore (ee_postgres env) None (ee_postgres_dsn env) (ee_psycopg_installed env) (ee_database env) = Inr pg"
    using ok(1) PostgresExperimentStore_disabled
      [of "ee_psycopg_installed env" "ee_postgres_dsn env" "ee_postgres env" "ee_database env"] by (auto simp: local_env_def)
  from plane pg ok(3) [of "StructuredLogFanout ''logs'' (StructuredDecisionLogger (ec_decision_log_path config) fs)"]
  show ?thesis by (auto simp: SimulationEngine_def Let_def)
qed

lemma task_returns:
  assumes "sweep_ok env config policies" and "fst task \<in> set policies"
  shows "\<exists>fs' rep. simulate (task_config config task) (env, fs) = Inr ((env, fs'), rep) \<and>
    map_of fs' ''configs/azure_cluster.yaml'' = map_of fs ''configs/azure_cluster.yaml'' \<and>
    map_of rep ''policy_name'' = Some (JStr (fst task)) \<and>
    map_of rep ''requests_total'' = Some (JInt (max 0 (wc_request_count (ec_workload config))))"
proof -
  let ?c = "task_config config task" and ?yaml = "''configs/azure_cluster.yaml''"
  have ok: "local_env 0 env" "config_ok ?c" "workload_ok (ec_workload ?c)" "int 0 + max 0 (wc_request_count (ec_workload ?c)) \<le> 20000"
    and path: "input_path ?c ?yaml" and off: "\<not> rs_enabled (pf_redis_store (ee_platform env))" "\<not> rs_enabled (ee_redis_store env)"
    using assms(1) by (simp_all add: sweep_ok_def sweepable_def input_path_def)
  obtain se where se: "SimulationEngine env ?c fs = Inr se"
    using task_constructs [of 0 env config policies task fs] assms by (auto simp: sweep_ok_def)
  obtain se' rep where run: "run env se = Inr (se', rep)"
    and rep: "map_of rep ''requests_total'' = Some (JInt (max 0 (wc_request_count (ec_workload ?c))))"
      "map_of rep ''policy_name'' = Some (JStr (ec_policy ?c))"
    and stores: "kc_redis_store (nm_cache_directory (se_control_plane se')) = pf_redis_store (ee_platform env)"
      "se_redis_store se' = ee_redis_store env" "pg_state (se_postgres se') = ee_database env"
    using simulation_returns [OF ok se] off unfolding untouched_def by blast
  have start: "se_config se = ?c" "az_log_dir (se_azure se) = ''logs''"
    using engine_construct_inv [OF ok(1,2) se] engine_invD(1,8) by blast+
  have "map_of (se_files se') ?yaml = map_of fs ?yaml"
    using run_elsewhere [OF run _ start(2), of ?yaml] construct_elsewhere [OF se path] path start(1) by simp
  moreover have "simulate ?c (env, fs) = Inr ((env, se_files se'), rep)"
    using se run next_env_same [OF stores] by (simp add: simulate_def)
  ultimately show ?thesis using rep by auto
qed

text \<open>The report of a task, whenever in a sweep it runs.\<close>

definition single_report ::
  "('r, 'q, 'p, 'g) engine_env \<Rightarrow> files \<Rightarrow> experiment_config \<Rightarrow> string \<times> int \<Rightarrow> sim_report" where
  "single_report env fs config task =
     (case simulate (task_config config task) (env, fs) of Inr (w, rep) \<Rightarrow> rep | Inl e \<Rightarrow> [])"

lemma task_report:
  assumes "sweep_ok env config policies" and "fst task \<in> set policies"
    and "map_of gs ''configs/azure_cluster.yaml'' = map_of fs ''configs/azure_cluster.yaml''"
  shows "\<exists>gs'. simulate (task_config config task) (env, gs) = Inr ((env, gs'), single_report env fs config task) \<and>
    map_of gs' ''configs/azure_cluster.yaml'' = map_of fs ''configs/azure_cluster.yaml''"
proof -
  have path: "input_path (task_config config task) ''configs/azure_cluster.yaml''"
    using assms(1) by (simp add: sweep_ok_def sweepable_def input_path_def)
  obtain fs' rep where f: "simulate (task_config config task) (env, fs) = Inr ((env, fs'), rep)"
    using task_returns [OF assms(1,2)] by blast
  obtain gs' rep2 where g: "simulate (task_config config task) (env, gs) = Inr ((env, gs'), rep2)"
    and keep: "map_of gs' ''configs/azure_cluster.yaml'' = map_of gs ''configs/azure_cluster.yaml''"
    using task_returns [OF assms(1,2)] by blast
  from report_reproducible [OF f g path assms(3)] f g keep assms(3) show ?thesis by (simp add: single_report_def)
qed

lemma single_report_lookup:
  assumes "sweep_ok env config policies" and "fst task \<in> set policies"
  shows "map_of (single_report env fs config task) ''policy_name'' = Some (JStr (fst task))"
    "map_of (single_report env fs config task) ''requests_total'' = Some (JInt (max 0 (wc_request_count (ec_workload config))))"
  using task_returns [OF assms, of fs] by (auto simp: single_report_def)

lemma collect_from:
  assumes "\<And>task gs. task \<in> set tasks \<Longrightarrow> P gs \<Longrightarrow> \<exists>gs'. f task (env, gs) = Inr ((env, gs'), g task) \<and> P gs'" and "P gs"
  shows "\<exists>gs'. efold (\<lambda>task (w, reports). ebind (f task w) (\<lambda>(w', rep). Inr (w', reports @ [rep]))) tasks ((env, gs), reports) =
    Inr ((env, gs'), reports @ map g tasks)"
  using assms
proof (induction tasks arbitrary: gs reports)
  case (Cons t tasks)
  obtain gs1 where "f t (env, gs) = Inr ((env, gs1), g t)" "P gs1" using Cons.prems(1) [of t gs] Cons.prems(2) by auto
  with Cons.IH [of gs1 "reports @ [g t]"] Cons.prems(1) show ?case by auto
qed simp

lemma collect_reports:
  assumes "\<And>task gs. task \<in> set tasks \<Longrightarrow> P gs \<Longrightarrow> \<exists>gs'. f task (env, gs) = Inr ((env, gs'), g task) \<and> P gs'" and "P gs"
  shows "\<exists>gs'. collect f tasks (env, gs) = Inr ((env, gs'), map g tasks)"
  using collect_from [of tasks P f env g gs "[]"] assms by (simp add: collect_def)

text \<open>What the harness and the sweep make of the report of a task is the same dictionary.\<close>

definition seeded :: "sim_report \<Rightarrow> string \<times> int \<Rightarrow> sim_report" where
  "seeded rep task = AList.update ''seed'' (JInt (snd task)) rep"

lemma update_same: "map_of d k = Some v \<Longrightarrow> AList.update k v d = d"
  by (induction d) auto

lemma seeded_union:
  assumes "map_of rep ''policy_name'' = Some (JStr (fst task))"
  shows "dict_union rep [(''seed'', JInt (snd task)), (''policy_name'', JStr (fst task))] = seeded rep task"
  using assms by (simp add: dict_union_def seeded_def update_same dict_simps)

lemma set_tasks: "task \<in> set (harness_tasks policies seeds) \<longleftrightarrow> fst task \<in> set policies \<and> snd task \<in> set seeds"
  "task \<in> set (sweep_tasks policies seeds) \<longleftrightarrow> fst task \<in> set policies \<and> snd task \<in> set seeds"
  by (cases task; auto simp: harness_tasks_def sweep_tasks_def)+

lemma harness_collects:
  assumes "sweep_ok env config policies"
  shows "\<exists>fs'. collect (harness_task config) (harness_tasks policies seeds) (env, fs) =
    Inr ((env, fs'), map (\<lambda>task. seeded (single_report env fs config task) task) (harness_tasks policies seeds))"
proof (rule collect_reports [where P = "\<lambda>gs. map_of gs ''configs/azure_cluster.yaml'' = map_of fs ''configs/azure_cluster.yaml''"])
  fix task gs assume t: "task \<in> set (harness_tasks policies seeds)"
    and g: "map_of gs ''configs/azure_cluster.yaml'' = map_of fs ''configs/azure_cluster.yaml''"
  from task_report [OF assms _ g, of task] t
  show "\<exists>gs'. harness_task config task (env, gs) = Inr ((env, gs'), seeded (single_report env fs config task) task) \<and>
      map_of gs' ''configs/azure_cluster.yaml'' = map_of fs ''configs/azure_cluster.yaml''"
    by (cases task) (auto simp: set_tasks harness_task_def task_config_def seeded_def)
qed simp

lemma sweep_task:
  assumes "sweep_ok env config policies" and "load_config ce path = Inr config" and p: "fst task \<in> set policies"
    and g: "map_of gs ''configs/azure_cluster.yaml'' = map_of fs ''configs/azure_cluster.yaml''"
  shows "\<exists>gs'. run_single ce path task (env, gs) = Inr ((env, gs'), seeded (single_report env fs config task) task) \<and>
    map_of gs' ''configs/azure_cluster.yaml'' = map_of fs ''configs/azure_cluster.yaml''"
  using task_report [OF assms(1) p g] seeded_union [OF single_report_lookup(1) [OF assms(1) p]] assms(2)
  by (cases task) (auto simp: run_single_def task_config_def)

lemma sweep_collects:
  assumes "sweep_ok env config policies" and "load_config ce path = Inr config"
  shows "\<exists>fs'. collect (run_single ce path) (sweep_tasks policies seeds) (env, fs) =
    Inr ((env, fs'), map (\<lambda>task. seeded (single_report env fs config task) task) (sweep_tasks policies seeds))"
  by (rule collect_reports [where P = "\<lambda>gs. map_of gs ''configs/azure_cluster.yaml'' = map_of fs ''configs/azure_cluster.yaml''"])
    (use sweep_task [OF assms] in \<open>auto simp: set_tasks\<close>)

text \<open>Both orders visit the same tasks.\<close>

lemma mset_tasks: "mset (sweep_tasks policies seeds) = mset (harness_tasks policies seeds)"
proof (induction policies)
  case Nil
  have "harness_tasks [] seeds = []" by (induction seeds) (simp_all add: harness_tasks_def)
  then show ?case by (simp add: sweep_tasks_def)
next
  case (Cons p ps)
  have "mset (harness_tasks (p # ps) ss) = mset (map (Pair p) ss) + mset (harness_tasks ps ss)" for ss
    by (induction ss) (simp_all add: harness_tasks_def)
  with Cons.IH show ?case by (simp add: sweep_tasks_def)
qed

text \<open>Sorting the reports: always possible, and it keeps them.\<close>

lemma sort_reports_total:
  assumes "\<forall>rep \<in> set reports. \<exists>p s. map_of rep ''policy_name'' = Some (JStr p) \<and> map_of rep ''seed'' = Some (JInt s)"
  shows "\<exists>sorted. sort_reports reports = Inr sorted \<and> mset sorted = mset reports"
proof -
  obtain keys where keys: "emap report_key reports = Inr keys"
    using assms emap_total [of reports report_key] by (fastforce simp: report_key_def dict_item_def)
  have "map snd (zip keys reports) = reports" using emap_length [OF keys] by simp
  then have "mset (map snd (sort_key fst (zip keys reports))) = mset reports" by (metis mset_map mset_sort)
  with keys show ?thesis by (simp add: sort_reports_def)
qed

section \<open>Properties\<close>


section \<open>The contract of Ray\<close>

text \<open>
  Ray runs every remote call once, on a worker, in no particular order and possibly at the same time as
  others, and \<open>ray.get\<close> returns the results in the order of the futures. \<open>finds world w\<close> says that \<open>w\<close> is a world
  a worker may find when the driver started the calls in \<open>world\<close>; if no call raises in such a world, then
  neither does \<open>ray.get\<close>, and every result is that of its own call in one of them. What the calls leave
  behind is not specified.
\<close>

locale ray_cluster =
  fixes ray_get :: "('a, 'w, 'b) ray_runtime" and finds :: "'w \<Rightarrow> 'w \<Rightarrow> bool"
  assumes results: "(\<And>task w. task \<in> set tasks \<Longrightarrow> finds world w \<Longrightarrow> \<exists>w' rep. f task w = Inr (w', rep)) \<Longrightarrow>
    \<exists>w' reports. ray_get f tasks world = Inr (w', reports) \<and>
      list_all2 (\<lambda>task rep. \<exists>w w'. finds world w \<and> f task w = Inr (w', rep)) tasks reports"
begin

text \<open>Calls whose results do not depend on the world a worker finds.\<close>

lemma determined:
  assumes "\<And>task w. task \<in> set tasks \<Longrightarrow> finds world w \<Longrightarrow> \<exists>w'. f task w = Inr (w', g task)"
  shows "\<exists>w'. ray_get f tasks world = Inr (w', map g tasks)"
proof -
  obtain w' reports where get: "ray_get f tasks world = Inr (w', reports)"
    and each: "list_all2 (\<lambda>task rep. \<exists>w w'. finds world w \<and> f task w = Inr (w', rep)) tasks reports"
    using results [of tasks world f] assms by blast
  have "list_all2 (\<lambda>task rep. rep = g task) tasks reports"
    using each by (rule list.rel_mono_strong) (use assms in fastforce)
  then have "reports = map g tasks" by (simp add: list_all2_conv_all_nth list_eq_iff_nth_eq)
  with get show ?thesis by blast
qed

end

text \<open>
  What a worker finds: the driver's configuration file (\<open>ce\<close> is the same for every call), its configuration of the
  services and its Azure inventory, which is all a simulation reads. Other files, and the contents of a Redis or a database that is in use, may have been changed
  by calls that run before it or with it.
\<close>

definition worker_finds :: "('r, 'q, 'p, 'g) engine_env \<times> files \<Rightarrow> ('r, 'q, 'p, 'g) engine_env \<times> files \<Rightarrow> bool" where
  "worker_finds world w \<longleftrightarrow>
     (\<exists>mirror db decisions. fst w = (fst world)
        \<lparr>ee_platform := (ee_platform (fst world))\<lparr>pf_redis_store := mirror\<rparr>, ee_database := db, ee_redis_store := decisions\<rparr> \<and>
      (mirror = pf_redis_store (ee_platform (fst world)) \<or> rs_enabled (pf_redis_store (ee_platform (fst world)))) \<and>
      (decisions = ee_redis_store (fst world) \<or> rs_enabled (ee_redis_store (fst world))) \<and>
      (db = ee_database (fst world) \<or> ee_postgres_dsn (fst world) \<noteq> [] \<and> ee_psycopg_installed (fst world))) \<and>
     map_of (snd w) ''configs/azure_cluster.yaml'' = map_of (snd world) ''configs/azure_cluster.yaml''"

lemma worker_finds_refl: "worker_finds world world"
  unfolding worker_finds_def
  by (intro conjI exI [of _ "pf_redis_store (ee_platform (fst world))"] exI [of _ "ee_database (fst world)"]
      exI [of _ "ee_redis_store (fst world)"]) simp_all

lemma worker_without_stores:
  assumes "sweep_ok env config policies" and "worker_finds (env, fs) w"
  shows "\<exists>gs. w = (env, gs) \<and> map_of gs ''configs/azure_cluster.yaml'' = map_of fs ''configs/azure_cluster.yaml''"
proof -
  have off: "\<not> rs_enabled (pf_redis_store (ee_platform env))" "\<not> rs_enabled (ee_redis_store env)"
    "ee_postgres_dsn env = [] \<or> \<not> ee_psycopg_installed env"
    using assms(1) by (auto simp: sweep_ok_def sweepable_def local_env_def)
  with assms(2) have "fst w = env" by (auto simp: worker_finds_def)
  with assms(2) show ?thesis by (cases w) (simp add: worker_finds_def)
qed

text \<open>A cluster in which every worker has a copy of the driver's world.\<close>

definition isolated_workers :: "('a, 'w, 'b) ray_runtime" where
  "isolated_workers f tasks world =
     ebind (emap (\<lambda>task. ebind (f task world) (\<lambda>(w, rep). Inr rep)) tasks) (\<lambda>reports. Inr (world, reports))"

lemma isolated_results:
  assumes "\<And>task. task \<in> set tasks \<Longrightarrow> \<exists>w' rep. f task world = Inr (w', rep)"
  shows "\<exists>reports. isolated_workers f tasks world = Inr (world, reports) \<and>
    list_all2 (\<lambda>task rep. \<exists>w'. f task world = Inr (w', rep)) tasks reports"
  using assms
proof (induction tasks)
  case (Cons t tasks)
  then obtain reports where "isolated_workers f tasks world = Inr (world, reports)"
    "list_all2 (\<lambda>task rep. \<exists>w'. f task world = Inr (w', rep)) tasks reports" by auto
  moreover obtain w' rep where "f t world = Inr (w', rep)" using Cons.prems [of t] by auto
  ultimately show ?case by (auto simp: isolated_workers_def result_simps)
qed (simp add: isolated_workers_def)

interpretation isolated: ray_cluster isolated_workers worker_finds
proof
  fix tasks :: "'a list" and world and f :: "'a \<Rightarrow> ('b, 'c, 'd, 'e) engine_env \<times> files \<Rightarrow> ((('b, 'c, 'd, 'e) engine_env \<times> files) \<times> 'f) result"
  assume "\<And>task w. task \<in> set tasks \<Longrightarrow> worker_finds world w \<Longrightarrow> \<exists>w' rep. f task w = Inr (w', rep)"
  with worker_finds_refl have "\<exists>w' rep. f task world = Inr (w', rep)" if "task \<in> set tasks" for task
    using that by blast
  then obtain reports where get: "isolated_workers f tasks world = Inr (world, reports)"
    and each: "list_all2 (\<lambda>task rep. \<exists>w'. f task world = Inr (w', rep)) tasks reports"
    using isolated_results [of tasks f world] by blast
  from each have "list_all2 (\<lambda>task rep. \<exists>w w'. worker_finds world w \<and> f task w = Inr (w', rep)) tasks reports"
    by (rule list.rel_mono_strong) (use worker_finds_refl in blast)
  with get show "\<exists>w' reports. isolated_workers f tasks world = Inr (w', reports) \<and>
      list_all2 (\<lambda>task rep. \<exists>w w'. worker_finds world w \<and> f task w = Inr (w', rep)) tasks reports" by blast
qed


section \<open>Example\<close>

definition demo_harness :: benchmark_harness where
  "demo_harness = \<lparr>bh_config = demo_config, bh_output_dir = ''experiments/results'', bh_config_path = Some ''demo.json''\<rparr>"

lemma demo_config_loads: "load_config demo_config_env ''demo.json'' = Inr demo_config"
  using loads_dumps [OF exact_text_ok demo_document_ok(1), of "Some 2" False]
  by (intro config_file_loads [OF _ _ demo_document_ok(2)]) (simp_all add: demo_config_env_def)

lemma demo_inventory_loads:
  "\<exists>az fs'. AzureInfraSimulator (ee_azure demo_engine_env) path logs fs = Inr (az, fs')"
proof -
  have "load_inventory (JDict []) = Inr []" by (simp add: load_inventory_def json_get_def json_iter_def dict_get_def)
  then show ?thesis by (auto simp: AzureInfraSimulator_def demo_engine_env_def demo_azure_def Let_def split: option.splits)
qed

lemma demo_sweep_ok: "sweep_ok demo_engine_env demo_config [''round_robin'', ''least_queue'']"
proof -
  have "\<exists>t. build_from_config (pf_files (ee_platform demo_engine_env)) demo_config = Inr t"
    using demo_constructed by (auto simp: NimbusMeshControlPlane_def result_simps demo_engine_env_def)
  moreover have "input_path demo_config ''configs/azure_cluster.yaml''"
    by (simp add: input_path_def join_path_def demo_config_def)
  moreover have "set [''round_robin'', ''least_queue''] \<subseteq> set (dict_keys (policy_registry (ee_platform demo_engine_env)))"
    by (simp add: policy_registry_def dict_keys_def)
  moreover have "workload_ok (ec_workload demo_config)" "wc_request_count (ec_workload demo_config) \<le> 20000"
    using demo_workload_ok by (simp_all add: demo_config_def demo_workload_def)
  ultimately show ?thesis
    unfolding sweep_ok_def sweepable_def using demo_local_env [of 0] demo_redis_off demo_config_ok demo_inventory_loads by blast
qed



end
