(* ===== verification/Api.thy ===== *)
theory Api
  imports Benchmarks
begin

text \<open>
  The HTTP application of \<open>control_plane/api.py\<close>: \<open>create_app\<close> and its six handlers, without the
  framework around them. A handler takes the application and returns it, changed, with the response or
  the exception. Handlers share one control plane and one metrics collector; a simulation started over
  HTTP builds an engine and a control plane of its own, but with Redis its cache directory and the
  application's write to and hydrate from the same hash, so the simulation starts from the mirror as the
  application left it and the application goes on from the mirror as the simulation left it. What a
  simulation leaves behind when it raises is not computed: it is an argument \<open>left\<close> of the handler, and
  \<open>may_leave\<close> says what it can be. What a request leaves behind when routing raises is not modelled further
  than the refresh and the submission; on a valid configuration routing does not raise. The lemmas follow
  the application through any sequence of calls.
\<close>

section \<open>Requests from JSON\<close>

text \<open>\<open>InferenceRequest(**payload)\<close>; numbers are taken as they come, other types leave the model.\<close>

definition int_field :: "json \<Rightarrow> int result" where
  "int_field v = (case v of JInt n \<Rightarrow> Inr n | _ \<Rightarrow> Inl (Untyped ''int''))"

definition float_field :: "json \<Rightarrow> pyfloat result" where
  "float_field v = (case v of JFloat x \<Rightarrow> Inr x | JInt n \<Rightarrow> Inr (of_int n) | _ \<Rightarrow> Inl (Untyped ''float''))"

definition dict_field :: "json \<Rightarrow> (string, json) dict result" where
  "dict_field v = (case v of JDict d \<Rightarrow> Inr d | _ \<Rightarrow> Inl (Untyped ''dict''))"

definition REQUIRED_PARAMETERS :: "string list" where
  "REQUIRED_PARAMETERS = [''request_id'', ''tenant_id'', ''model_id'', ''prompt_tokens'', ''generation_tokens'', ''arrival_ts'']"

definition OPTIONAL_PARAMETERS :: "string list" where
  "OPTIONAL_PARAMETERS = [''sla_class'', ''session_id'', ''prefix_signature'', ''max_latency_ms'', ''metadata'']"

definition request_of_payload :: "(string \<Rightarrow> string) \<Rightarrow> (string, json) dict \<Rightarrow> inference_request result" where
  "request_of_payload H payload =
     (if \<not> set (dict_keys payload) \<subseteq> set (REQUIRED_PARAMETERS @ OPTIONAL_PARAMETERS) \<or>
         \<not> set REQUIRED_PARAMETERS \<subseteq> set (dict_keys payload)
      then Inl TypeError
      else let p = JDict payload in
        ebind (item_with text_field p ''request_id'') (\<lambda>request_id.
        ebind (item_with text_field p ''tenant_id'') (\<lambda>tenant_id.
        ebind (item_with text_field p ''model_id'') (\<lambda>model_id.
        ebind (item_with int_field p ''prompt_tokens'') (\<lambda>prompt_tokens.
        ebind (item_with int_field p ''generation_tokens'') (\<lambda>generation_tokens.
        ebind (item_with float_field p ''arrival_ts'') (\<lambda>arrival_ts.
        ebind (get_with text_field p ''sla_class'' (JStr ''interactive'')) (\<lambda>sla_class.
        ebind (get_with opt_text_field p ''session_id'' JNull) (\<lambda>session_id.
        ebind (get_with opt_text_field p ''prefix_signature'' JNull) (\<lambda>prefix_signature.
        ebind (get_with float_field p ''max_latency_ms'' (JFloat 1800)) (\<lambda>max_latency_ms.
        ebind (get_with dict_field p ''metadata'' (JDict [])) (\<lambda>metadata.
        InferenceRequest H request_id tenant_id model_id prompt_tokens generation_tokens arrival_ts sla_class
          session_id prefix_signature max_latency_ms metadata))))))))))))"

section \<open>The application\<close>

record ('r, 'q, 'p, 'g) app =
  app_config_path :: string
  app_platform :: "'r platform"
  app_plane :: "'r control_plane"
  app_metrics :: metrics_collector
  app_world :: "('r, 'q, 'p, 'g) engine_env \<times> files"

definition create_app ::
  "config_env \<Rightarrow> ('r, 'q, 'p, 'g) engine_env \<times> files \<Rightarrow> string \<Rightarrow> ('r, 'q, 'p, 'g) app result" where
  "create_app ce world config_path =
     ebind (load_config ce config_path) (\<lambda>config.
     ebind (NimbusMeshControlPlane (ee_platform (fst world)) config) (\<lambda>plane.
     Inr \<lparr>app_config_path = config_path, app_platform = ee_platform (fst world), app_plane = plane,
          app_metrics = MetricsCollector, app_world = world\<rparr>))"

definition healthz :: "json result" where
  "healthz = Inr (JDict [(''status'', JStr ''ok'')])"

definition topology_endpoint :: "('r, 'q, 'p, 'g) app \<Rightarrow> json result" where
  "topology_endpoint app = Inr (topology_snapshot (app_plane app))"

definition cache_endpoint :: "('r, 'q, 'p, 'g) app \<Rightarrow> ('r, 'q, 'p, 'g) app \<times> json result" where
  "cache_endpoint app = (case plane_cache_snapshot 0 (app_plane app) of (plane, j) \<Rightarrow> (app\<lparr>app_plane := plane\<rparr>, Inr j))"

definition route_endpoint ::
  "(string, json) dict \<Rightarrow> ('r, 'q, 'p, 'g) app \<Rightarrow> ('r, 'q, 'p, 'g) app \<times> json result" where
  "route_endpoint payload app =
     (case request_of_payload (we_hash (ee_workload (fst (app_world app)))) payload of
        Inl e \<Rightarrow> (app, Inl e)
      | Inr request \<Rightarrow>
          let now = rq_arrival_ts request; plane = note_submission request (refresh now (app_plane app))
          in case route (app_platform app) request now plane of
               Inl e \<Rightarrow> (app\<lparr>app_plane := plane\<rparr>, Inl e)
             | Inr (plane', candidate, decision) \<Rightarrow>
                 (app\<lparr>app_plane := plane'\<rparr>,
                  Inr (JDict [(''decision'', decision_to_dict decision), (''candidate'', candidate_to_dict candidate)])))"

text \<open>
  The world a simulation finds: the services and files as they are, with the mirror of the application's
  control plane; and the application in the world a simulation has left.
\<close>

definition shared_world :: "('r, 'q, 'p, 'g) app \<Rightarrow> ('r, 'q, 'p, 'g) engine_env \<times> files" where
  "shared_world app =
     (case app_world app of (env, fs) \<Rightarrow>
        (env\<lparr>ee_platform := (ee_platform env)\<lparr>pf_redis_store := kc_redis_store (nm_cache_directory (app_plane app))\<rparr>\<rparr>, fs))"

definition resume_in :: "('r, 'q, 'p, 'g) engine_env \<times> files \<Rightarrow> ('r, 'q, 'p, 'g) app \<Rightarrow> ('r, 'q, 'p, 'g) app" where
  "resume_in world app = app\<lparr>app_world := world, app_plane := (app_plane app)\<lparr>nm_cache_directory :=
     (nm_cache_directory (app_plane app))\<lparr>kc_redis_store := pf_redis_store (ee_platform (fst world))\<rparr>\<rparr>\<rparr>"

text \<open>\<open>Path(v)\<close> of a value that is not a string is a \<open>TypeError\<close>.\<close>

definition simulate_endpoint ::
  "config_env \<Rightarrow> ('r, 'q, 'p, 'g) engine_env \<times> files \<Rightarrow> (string, json) dict \<Rightarrow> ('r, 'q, 'p, 'g) app
    \<Rightarrow> ('r, 'q, 'p, 'g) app \<times> json result" where
  "simulate_endpoint ce left payload app =
     (case ebind (case dict_get (JStr (app_config_path app)) payload ''config_path'' of JStr path \<Rightarrow> Inr path | _ \<Rightarrow> Inl TypeError)
        (load_config ce) of
        Inl e \<Rightarrow> (app, Inl e)
      | Inr config \<Rightarrow>
          (case simulate (case dict_get JNull payload ''policy'' of JStr name \<Rightarrow> with_policy config name | _ \<Rightarrow> config) (shared_world app) of
             Inl e \<Rightarrow> (resume_in left app, Inl e)
           | Inr (world, rep) \<Rightarrow> (resume_in world app, Inr (JDict rep))))"

definition metrics_endpoint :: "('r, 'q, 'p, 'g) app \<Rightarrow> json result" where
  "metrics_endpoint app = ebind (render_prometheus (app_metrics app)) (\<lambda>content. Inr (JStr content))"

datatype api_call =
    GetHealthz
  | GetTopology
  | GetCache
  | PostRoute "(string, json) dict"
  | PostSimulate "(string, json) dict"
  | GetMetrics

fun handle ::
  "config_env \<Rightarrow> ('r, 'q, 'p, 'g) engine_env \<times> files \<Rightarrow> api_call \<Rightarrow> ('r, 'q, 'p, 'g) app
    \<Rightarrow> ('r, 'q, 'p, 'g) app \<times> json result" where
  "handle ce left GetHealthz app = (app, healthz)"
| "handle ce left GetTopology app = (app, topology_endpoint app)"
| "handle ce left GetCache app = cache_endpoint app"
| "handle ce left (PostRoute payload) app = route_endpoint payload app"
| "handle ce left (PostSimulate payload) app = simulate_endpoint ce left payload app"
| "handle ce left GetMetrics app = (app, metrics_endpoint app)"

text \<open>
  What a simulation can leave behind, wherever it stops: any files, any database and any decisions, and a
  mirror into which it has written any number of buckets of cache entries.
\<close>

inductive mirror_writes :: "'r redis_env \<Rightarrow> 'r redis_store \<Rightarrow> 'r redis_store \<Rightarrow> bool" for env s where
  none: "mirror_writes env s s"
| bucket: "mirror_writes env s s1 \<Longrightarrow> bucket_ok k b \<Longrightarrow> write_cache_affinity env k (bucket_payload b) s1 = Inr s2 \<Longrightarrow>
    mirror_writes env s s2"

definition with_stores ::
  "('r, 'q, 'p, 'g) engine_env \<Rightarrow> 'r redis_store \<Rightarrow> 'p \<Rightarrow> 'r redis_store \<Rightarrow> ('r, 'q, 'p, 'g) engine_env" where
  "with_stores env mirror db decisions =
     env\<lparr>ee_platform := (ee_platform env)\<lparr>pf_redis_store := mirror\<rparr>, ee_database := db, ee_redis_store := decisions\<rparr>"

definition may_leave :: "('r, 'q, 'p, 'g) engine_env \<times> files \<Rightarrow> ('r, 'q, 'p, 'g) engine_env \<times> files \<Rightarrow> bool" where
  "may_leave world left \<longleftrightarrow>
     (\<exists>mirror db decisions. fst left = with_stores (fst world) mirror db decisions \<and>
        mirror_writes (pf_redis (ee_platform (fst world))) (pf_redis_store (ee_platform (fst world))) mirror)"

lemma with_stores_simps [simp]:
  "with_stores (with_stores env m db d) m' db' d' = with_stores env m' db' d'"
  "with_stores env (pf_redis_store (ee_platform env)) (ee_database env) (ee_redis_store env) = env"
  "pf_redis_store (ee_platform (with_stores env m db d)) = m" "pf_redis (ee_platform (with_stores env m db d)) = pf_redis (ee_platform env)"
  "ee_database (with_stores env m db d) = db" "ee_redis_store (with_stores env m db d) = d"
  "ee_workload (with_stores env m db d) = ee_workload env"
  "platform_ok (ee_platform (with_stores env m db d)) = platform_ok (ee_platform env)"
  by (simp_all add: with_stores_def platform_ok_def)

lemma next_env_stores:
  "next_env env se = with_stores env (kc_redis_store (nm_cache_directory (se_control_plane se))) (pg_state (se_postgres se)) (se_redis_store se)"
  by (simp add: next_env_def with_stores_def)

lemma shared_world_stores:
  "fst (shared_world app) = with_stores (fst (app_world app)) (kc_redis_store (nm_cache_directory (app_plane app)))
     (ee_database (fst (app_world app))) (ee_redis_store (fst (app_world app)))"
  by (simp add: shared_world_def with_stores_def case_prod_unfold)

lemma may_leave_refl: "may_leave world world"
  unfolding may_leave_def by (metis mirror_writes.none with_stores_simps(2))

inductive app_run ::
  "config_env \<Rightarrow> ('r, 'q, 'p, 'g) engine_env \<times> files \<Rightarrow> string \<Rightarrow> ('r, 'q, 'p, 'g) app \<Rightarrow> bool" for ce world config_path where
  start: "create_app ce world config_path = Inr app \<Longrightarrow> app_run ce world config_path app"
| call: "app_run ce world config_path app \<Longrightarrow> may_leave (shared_world app) left \<Longrightarrow>
    handle ce left c app = (app', response) \<Longrightarrow> app_run ce world config_path app'"

section \<open>What a simulation writes to the mirror\<close>

lemma mirror_writes_ok:
  assumes "redis_hash env" and "mirror_writes env s s'" and "mirror_ok env s"
  shows "mirror_ok env s'"
  using assms(2)
proof induction
  case (bucket s1 k b s2)
  show ?case
  proof (cases "rs_enabled s1 \<and> rs_client s1 \<noteq> None")
    case True
    have "fetch_cache_affinity env k' s2 = (if k' = k then Inr (Some (bucket_payload b)) else fetch_cache_affinity env k' s1)" for k'
      using redis_hash.fetch_after_write [OF assms(1) _ _ bucket.hyps(3) bucket_payload_ok] True
        redis_hash.fetch_after_other_write [OF assms(1) bucket.hyps(3), of k'] by simp
    with bucket show ?thesis by (auto simp: mirror_ok_def)
  next
    case False
    with bucket show ?thesis by (auto simp: write_cache_affinity_def redis_put_def split: option.splits if_splits)
  qed
qed (rule assms(3))

lemma mirror_writes_trans: "mirror_writes env s1 s2 \<Longrightarrow> mirror_writes env s s1 \<Longrightarrow> mirror_writes env s s2"
  by (induction rule: mirror_writes.induct) (auto intro: mirror_writes.bucket)

text \<open>
  Observing a result writes its bucket before it trims the directory, which can raise: up to there and
  after it, the mirror has got one bucket of entries at most.
\<close>

lemma persist_writes:
  assumes "directory_ok env d" and "result_ok r" and "k = cache_key (rr_request r)"
    and "b = cap_bucket (observe_bucket r (dict_get [] (kc_entries d) k))"
    and "persist_to_redis env k (d\<lparr>kc_entries := AList.update k b (kc_entries d)\<rparr>) = Inr d1"
  shows "mirror_writes env (kc_redis_store d) (kc_redis_store d1)"
proof -
  have "dict_get [] (kc_entries d) k = [] \<or> bucket_ok k (dict_get [] (kc_entries d) k)"
    by (rule buckets_ok_bucket [OF directory_okD(1) [OF assms(1)]])
  then have "bucket_ok k b" unfolding assms(3,4) by (rule observed_bucket_ok [OF assms(2)])
  with assms(5) show ?thesis
    by (auto simp: persist_to_redis_def result_simps dict_simps bucket_payload_def split: if_splits
        intro: mirror_writes.intros mirror_writes.bucket [OF mirror_writes.none, unfolded bucket_payload_def])
qed

lemma observe_writes:
  assumes "directory_ok env d" and "result_ok r" and "observe env r d = Inr d'"
  shows "mirror_writes env (kc_redis_store d) (kc_redis_store d')"
proof (cases "rr_admitted r")
  case True
  let ?k = "cache_key (rr_request r)"
  let ?b = "cap_bucket (observe_bucket r (dict_get [] (kc_entries d) ?k))"
  obtain d1 where p: "persist_to_redis env ?k (d\<lparr>kc_entries := AList.update ?k ?b (kc_entries d)\<rparr>) = Inr d1"
    and "trim d1 = Inr d'" using assms(3) True by (auto simp: observe_def Let_def touch_update result_simps)
  then have "kc_redis_store d' = kc_redis_store d1" by (auto simp: trim_def result_simps split: if_splits)
  with persist_writes [OF assms(1,2) refl refl p] show ?thesis by simp
next
  case False
  with assms(3) show ?thesis by (simp add: observe_def mirror_writes.none)
qed

definition plane_mirror :: "'r control_plane \<Rightarrow> 'r redis_store" where
  "plane_mirror cp = kc_redis_store (nm_cache_directory cp)"

lemma execute_writes:
  assumes "platform_ok pf" and "plane_ok pf cp" and "request_ok r" and "execute pf r now cp = Inr (cp', res)"
  shows "mirror_writes (pf_redis pf) (plane_mirror cp) (plane_mirror cp')"
proof -
  obtain cands c p cp2 cand dec where rt: "routed pf r now cp cands c p cp2 cand dec"
    using route_ok [OF assms(1-3)] by blast
  note rtD = routedD [OF rt]
  have same: "plane_mirror cp2 = plane_mirror cp" using rtD(12) by (simp add: cache_shrinks_def plane_mirror_def)
  have "mirror_writes (pf_redis pf) (plane_mirror cp2) (plane_mirror cp')"
  proof (cases "cp_available cand")
    case True
    obtain be p' d' where
      pl: "place_request (pf_redis pf) r cand dec be now (p, nm_cache_directory cp2) = Inr (p', d', res)"
      and cp': "admitted_plane r cand cp2 (p', d', res) = (cp', res)"
      using execute_admitted_placed [OF rt True assms(4)] by blast
    have "result_ok res" using place_request_fields [OF pl] request_okD(1) [OF assms(3)] by (simp add: result_ok_def)
    from observe_writes [OF plane_okD(3) [OF rtD(2)] this place_request_observed [OF pl]] cp'
    show ?thesis by (auto simp: admitted_plane_def plane_mirror_def)
  next
    case False
    with execute_rejects [OF rt assms(2)] assms(4) show ?thesis by (simp add: mirror_writes.none)
  qed
  with same show ?thesis by simp
qed

lemma refresh_mirror: "plane_ok pf cp \<Longrightarrow> plane_mirror (note_submission r (refresh now cp)) = plane_mirror cp"
proof -
  assume ok: "plane_ok pf cp"
  obtain cs d where r: "refresh_clusters now (nm_clusters cp) (nm_cache_directory cp) = (cs, d)" by force
  have "\<forall>cl \<in> set (ec_clusters (nm_config cp)).
      0 \<le> cs_base_congestion cl \<and> (\<forall>(s, e, m) \<in> set (cs_congestion_windows cl). 0 \<le> m)"
    using plane_okD(1) [OF ok] by (simp add: config_ok_def)
  from refresh_clusters_ok [OF plane_okD(7) [OF ok, unfolded clusters_ok_def] this plane_okD(3) [OF ok] r] r
  show ?thesis by (simp add: cache_shrinks_def plane_mirror_def refresh_def note_submission_def)
qed

lemma steps_write_mirror:
  assumes "platform_ok (ee_platform env)" and "\<forall>r \<in> set requests. request_ok r"
    and "efold (engine_step env) requests se = Inr se'" and "plane_ok (ee_platform env) (se_control_plane se)"
  shows "plane_ok (ee_platform env) (se_control_plane se') \<and>
    mirror_writes (pf_redis (ee_platform env)) (plane_mirror (se_control_plane se)) (plane_mirror (se_control_plane se'))"
  using assms(2-4)
proof (induction requests arbitrary: se)
  case (Cons r requests)
  let ?pf = "ee_platform env" and ?cp = "note_submission r (refresh (rq_arrival_ts r) (se_control_plane se))"
  obtain se1 where step: "engine_step env r se = Inr se1" and rest: "efold (engine_step env) requests se1 = Inr se'"
    using Cons.prems(2) by (auto simp: result_simps)
  obtain res where ex: "execute ?pf r (rq_arrival_ts r) ?cp = Inr (se_control_plane se1, res)"
    using step by (auto simp: engine_step_def Let_def result_simps case_prod_unfold)
  have cp: "plane_ok ?pf ?cp" by (intro note_submission_ok refresh_ok Cons.prems(3))
  have r: "request_ok r" using Cons.prems(1) by simp
  note one = execute_ok [OF assms(1) cp r ex] execute_writes [OF assms(1) cp r ex, unfolded refresh_mirror [OF Cons.prems(3)]]
  with Cons.IH [OF _ rest one(1)] Cons.prems(1) mirror_writes_trans show ?case by auto
qed (simp add: mirror_writes.none)

lemma simulation_leaves:
  assumes "platform_ok (ee_platform (fst world))" and "config_ok config"
    and "mirror_ok (pf_redis (ee_platform (fst world))) (pf_redis_store (ee_platform (fst world)))"
    and "simulate config world = Inr (world', rep)"
  shows "may_leave world world'"
proof -
  obtain env fs where w: "world = (env, fs)" by force
  obtain se se' where se: "SimulationEngine env config fs = Inr se" and run: "run env se = Inr (se', rep)"
    and w': "world' = (next_env env se', se_files se')" using assms(4) by (auto simp: simulate_def w result_simps)
  obtain plane where plane: "NimbusMeshControlPlane (ee_platform env) config = Inr plane" and start: "se_control_plane se = plane"
    using se by (auto simp: SimulationEngine_def Let_def result_simps)
  have ok: "plane_ok (ee_platform env) (se_control_plane se)"
    using construct_ok [OF assms(2) _ plane] assms(3) start by (simp add: w)
  have "plane_mirror plane = pf_redis_store (ee_platform env)"
    using plane by (auto simp: NimbusMeshControlPlane_def result_simps plane_mirror_def KVCacheDirectory_def)
  then have mirror: "plane_mirror (se_control_plane se) = pf_redis_store (ee_platform env)" by (simp add: start)
  obtain requests state se1 where gen: "generate_requests (ee_workload env) (ec_workload (se_config se)) (ec_seed (se_config se)) = Inr (requests, state)"
    and steps: "efold (engine_step env) requests se = Inr se1" and fin: "engine_finish env se1 = Inr (se', rep)"
    using run by (auto simp: run_def result_simps)
  have "se_control_plane se' = se_control_plane se1" using fin by (auto simp: engine_finish_def Let_def result_simps)
  with steps_write_mirror [OF _ requests_valid [OF gen] steps ok] assms(1)
  have "mirror_writes (pf_redis (ee_platform env)) (pf_redis_store (ee_platform env)) (plane_mirror (se_control_plane se'))"
    by (simp add: w mirror)
  then show ?thesis by (auto simp: may_leave_def w w' next_env_stores plane_mirror_def)
qed

section \<open>Nothing is booked\<close>

text \<open>A pool no request was ever placed on.\<close>

definition unbooked :: "pool_runtime \<Rightarrow> bool" where
  "unbooked p \<longleftrightarrow> pr_inflight_memory p = [] \<and> set (pr_slot_available_at p) \<subseteq> {0}"

definition all_unbooked :: "'r control_plane \<Rightarrow> bool" where
  "all_unbooked cp \<longleftrightarrow> (\<forall>c \<in> set (nm_clusters cp). \<forall>x \<in> set (cr_pools (snd c)). unbooked (snd x))"

lemma unbooked_refresh: "unbooked p \<Longrightarrow> unbooked ((pool_refresh now (p\<lparr>pr_congestion_score := g\<rparr>))\<lparr>pr_cache_reserved_gb := x\<rparr>)"
  by (simp add: unbooked_def pool_refresh_def)

lemma refresh_pools_unbooked:
  assumes "refresh_pools cid g now ps d = (ps', d')" and "\<forall>x \<in> set ps. unbooked (snd x)"
  shows "\<forall>x \<in> set ps'. unbooked (snd x)"
  using assms
proof (induction ps arbitrary: d ps' d')
  case (Cons kp ps)
  obtain k p where kp: "kp = (k, p)" by force
  obtain d1 reserved where r: "reserved_gb cid (pr_pool_id p) now d = (d1, reserved)" by force
  obtain ps2 d2 where rest: "refresh_pools cid g now ps d1 = (ps2, d2)" by force
  have "ps' = (k, (pool_refresh now (p\<lparr>pr_congestion_score := g\<rparr>))\<lparr>pr_cache_reserved_gb := reserved\<rparr>) # ps2"
    using Cons.prems(1) r rest by (simp add: kp Let_def)
  with Cons.IH [OF rest] Cons.prems(2) unbooked_refresh show ?case by (simp add: kp)
qed simp

lemma refresh_clusters_unbooked:
  assumes "refresh_clusters now cs d = (cs', d')" and "\<forall>c \<in> set cs. \<forall>x \<in> set (cr_pools (snd c)). unbooked (snd x)"
  shows "\<forall>c \<in> set cs'. \<forall>x \<in> set (cr_pools (snd c)). unbooked (snd x)"
  using assms
proof (induction cs arbitrary: d cs' d')
  case (Cons kc cs)
  obtain k c where kc: "kc = (k, c)" by force
  obtain ps d1 where r: "refresh_pools (cr_cluster_id c) (effective_congestion c now) now (cr_pools c) d = (ps, d1)" by force
  obtain cs2 d2 where rest: "refresh_clusters now cs d1 = (cs2, d2)" by force
  have "cs' = (k, c\<lparr>cr_pools := ps\<rparr>) # cs2" using Cons.prems(1) r rest by (simp add: kc)
  with Cons.IH [OF rest] Cons.prems(2) refresh_pools_unbooked [OF r] show ?case by (simp add: kc)
qed simp

lemma refresh_unbooked: "all_unbooked cp \<Longrightarrow> all_unbooked (refresh now cp)"
  using refresh_clusters_unbooked [of now "nm_clusters cp" "nm_cache_directory cp"]
  by (auto simp: all_unbooked_def refresh_def split: prod.splits)

lemma all_unbooked_clusters: "nm_clusters cp' = nm_clusters cp \<Longrightarrow> all_unbooked cp' = all_unbooked cp"
  by (simp add: all_unbooked_def)

lemma fold_update_values:
  "\<forall>x \<in> set d. P (snd x) \<Longrightarrow> \<forall>y \<in> set ys. P (v y) \<Longrightarrow> \<forall>x \<in> set (fold (\<lambda>y. AList.update (k y) (v y)) ys d). P (snd x)"
proof (induction ys arbitrary: d)
  case (Cons y ys)
  have "\<forall>x \<in> set (AList.update (k y) (v y) d). P (snd x)"
    using Cons.prems by (induction d) auto
  with Cons.IH Cons.prems(2) show ?case by simp
qed simp

lemma construct_unbooked:
  assumes "NimbusMeshControlPlane pf config = Inr cp"
  shows "all_unbooked cp" "nm_tenant_stats cp = []"
proof -
  have "unbooked (pool_from_spec cl p)" for cl p by (auto simp: unbooked_def pool_from_spec_def pool_post_init_def)
  then have "\<forall>x \<in> set (cr_pools (cluster_from_spec cl)). unbooked (snd x)" for cl
    unfolding cluster_from_spec_def cluster_runtime.simps by (intro fold_update_values) simp_all
  then have "\<forall>c \<in> set (build_runtime_clusters config). \<forall>x \<in> set (cr_pools (snd c)). unbooked (snd x)"
    unfolding build_runtime_clusters_def by (intro fold_update_values) simp_all
  then show "all_unbooked cp" "nm_tenant_stats cp = []"
    using assms by (auto simp: NimbusMeshControlPlane_def result_simps all_unbooked_def)
qed

section \<open>The application at work\<close>

lemma payload_request_ok: "request_of_payload H payload = Inr r \<Longrightarrow> request_ok r"
  by (auto simp: request_of_payload_def InferenceRequest_def Let_def result_simps split: if_splits dest!: request_post_init_ok)

text \<open>The services are those the application was started with, whatever they hold by now.\<close>

definition same_services :: "('r, 'q, 'p, 'g) engine_env \<Rightarrow> ('r, 'q, 'p, 'g) engine_env \<Rightarrow> bool" where
  "same_services env env' \<longleftrightarrow> (\<exists>mirror db decisions. env' = with_stores env mirror db decisions)"

lemma same_services_refl: "same_services env env"
  unfolding same_services_def by (metis with_stores_simps(2))

lemma same_services_platform:
  assumes "same_services env env'"
  shows "platform_ok (ee_platform env') = platform_ok (ee_platform env)" "pf_redis (ee_platform env') = pf_redis (ee_platform env)"
    "ee_workload env' = ee_workload env"
  using assms by (auto simp: same_services_def)

lemma shared_world_platform:
  "pf_redis_store (ee_platform (fst (shared_world app))) = kc_redis_store (nm_cache_directory (app_plane app))"
  "same_services env (fst (app_world app)) \<Longrightarrow> same_services env (fst (shared_world app))"
  unfolding shared_world_stores same_services_def by (simp, metis with_stores_simps(1))

lemma may_leave_services:
  assumes "same_services env (fst (app_world app))" and "may_leave (shared_world app) left"
  shows "same_services env (fst left)"
  using shared_world_platform(2) [OF assms(1)] assms(2) unfolding same_services_def may_leave_def by (metis with_stores_simps(1))

text \<open>What every call keeps.\<close>

definition app_inv :: "('r, 'q, 'p, 'g) engine_env \<times> files \<Rightarrow> experiment_config \<Rightarrow> ('r, 'q, 'p, 'g) app \<Rightarrow> bool" where
  "app_inv world config app \<longleftrightarrow> app_platform app = ee_platform (fst world) \<and>
     plane_ok (app_platform app) (app_plane app) \<and> nm_config (app_plane app) = config \<and>
     all_unbooked (app_plane app) \<and> app_metrics app = MetricsCollector \<and> same_services (fst world) (fst (app_world app)) \<and>
     (\<forall>t. ts_completed (dict_get TenantStats (nm_tenant_stats (app_plane app)) t) = 0)"

lemma route_endpoint_inv:
  assumes "platform_ok (ee_platform (fst world))" and "app_inv world config app"
    and "route_endpoint payload app = (app', response)"
  shows "app_inv world config app' \<and> (\<forall>request. request_of_payload (we_hash (ee_workload (fst (app_world app)))) payload = Inr request \<longrightarrow>
    (\<exists>j. response = Inr j))"
proof (cases "request_of_payload (we_hash (ee_workload (fst (app_world app)))) payload")
  case (Inl e)
  with assms(2,3) show ?thesis by (simp add: route_endpoint_def)
next
  case (Inr request)
  let ?pf = "app_platform app" and ?now = "rq_arrival_ts request"
  let ?plane = "note_submission request (refresh ?now (app_plane app))"
  have pf: "platform_ok ?pf" and r: "request_ok request"
    using assms(1,2) payload_request_ok [OF Inr] by (simp_all add: app_inv_def)
  have plane: "plane_ok ?pf (app_plane app)" using assms(2) unfolding app_inv_def by blast
  have ok: "plane_ok ?pf ?plane" by (intro note_submission_ok refresh_ok plane)
  obtain cands c p plane' cand dec where rt: "routed ?pf request ?now ?plane cands c p plane' cand dec"
    using route_ok [OF pf ok r] by blast
  have rt': "route ?pf request ?now ?plane = Inr (plane', cand, dec)" using routedD(1) [OF rt] .
  note keep = routed_ok [OF pf ok r rt']
  have "nm_config (refresh ?now (app_plane app)) = nm_config (app_plane app)"
    "nm_tenant_stats (refresh ?now (app_plane app)) = nm_tenant_stats (app_plane app)"
    by (simp_all add: refresh_def case_prod_unfold Let_def)
  moreover have "all_unbooked ?plane = all_unbooked (refresh ?now (app_plane app))"
    by (rule all_unbooked_clusters) (simp add: note_submission_def)
  ultimately have "app_inv world config (app\<lparr>app_plane := plane'\<rparr>)"
    using assms(2) keep all_unbooked_clusters [OF keep(2)] refresh_unbooked [of "app_plane app" ?now]
    by (auto simp: app_inv_def note_submission_def tenant_update_def dict_simps)
  then show ?thesis using assms(3) Inr rt' by (auto simp: route_endpoint_def)
qed

text \<open>The application after a simulation, wherever that stopped.\<close>

lemma resume_inv:
  assumes "platform_ok (ee_platform (fst world))" and "app_inv world config app" and "may_leave (shared_world app) left"
  shows "app_inv world config (resume_in left app)"
proof -
  let ?pf = "ee_platform (fst world)" and ?m = "pf_redis_store (ee_platform (fst left))"
  have inv: "app_platform app = ?pf" "plane_ok ?pf (app_plane app)" "same_services (fst world) (fst (app_world app))"
    using assms(2) unfolding app_inv_def by metis+
  have pf: "pf_redis (ee_platform (fst (shared_world app))) = pf_redis ?pf"
    using same_services_platform(2) [OF shared_world_platform(2) [OF inv(3)]] .
  have "mirror_writes (pf_redis ?pf) (kc_redis_store (nm_cache_directory (app_plane app))) ?m"
    using assms(3) unfolding may_leave_def pf shared_world_platform(1) by auto
  from mirror_writes_ok [OF _ this] assms(1) directory_okD plane_okD(3) [OF inv(2)]
  have "mirror_ok (pf_redis ?pf) ?m" by (simp add: platform_ok_def directory_ok_def)
  then have "plane_ok ?pf (app_plane (resume_in left app))"
    using inv(2) by (simp add: plane_ok_def resume_in_def directory_ok_def)
  moreover have "all_unbooked (app_plane (resume_in left app)) = all_unbooked (app_plane app)"
    by (rule all_unbooked_clusters) (simp add: resume_in_def)
  moreover note may_leave_services [OF inv(3) assms(3)]
  ultimately show ?thesis using assms(2) inv(1) by (simp add: app_inv_def resume_in_def)
qed

lemma handle_inv:
  assumes "platform_ok (ee_platform (fst world))" and "\<And>path c. load_config ce path = Inr c \<Longrightarrow> config_ok c"
    and "app_inv world config app" and "may_leave (shared_world app) left" and "handle ce left c app = (app', response)"
  shows "app_inv world config app'"
proof (cases c)
  case GetCache
  have "all_unbooked (fst (plane_cache_snapshot 0 (app_plane app))) = all_unbooked (app_plane app)"
    by (rule all_unbooked_clusters) (simp add: plane_cache_snapshot_def case_prod_unfold)
  then show ?thesis using GetCache assms(3,5) cache_snapshot_plane_ok [of "app_platform app" "app_plane app" 0]
    by (auto simp: cache_endpoint_def app_inv_def plane_cache_snapshot_def split: prod.splits)
next
  case (PostRoute payload)
  then show ?thesis using route_endpoint_inv [OF assms(1,3)] assms(5) by auto
next
  case (PostSimulate payload)
  have inv: "app_platform app = ee_platform (fst world)" "plane_ok (ee_platform (fst world)) (app_plane app)"
    "same_services (fst world) (fst (app_world app))"
    using assms(3) unfolding app_inv_def by metis+
  note shared = same_services_platform [OF shared_world_platform(2) [OF inv(3)]]
  have pf: "platform_ok (ee_platform (fst (shared_world app)))" using shared(1) assms(1) by simp
  have mirror: "mirror_ok (pf_redis (ee_platform (fst (shared_world app)))) (pf_redis_store (ee_platform (fst (shared_world app))))"
    using plane_okD(3) [OF inv(2)] unfolding shared(2) shared_world_platform(1) directory_ok_def by blast
  have leaves: "may_leave (shared_world app) w"
    if load: "load_config ce path = Inr c0" and sim: "simulate (case v of JStr name \<Rightarrow> with_policy c0 name | _ \<Rightarrow> c0) (shared_world app) = Inr (w, rep)"
    for path c0 v w rep
  proof (rule simulation_leaves [OF pf _ mirror sim])
    have "config_ok (with_policy c0 name) = config_ok c0" for name by (simp add: with_policy_def config_ok_def ids_ok_def)
    with assms(2) [OF load] show "config_ok (case v of JStr name \<Rightarrow> with_policy c0 name | _ \<Rightarrow> c0)" by (cases v) simp_all
  qed
  from PostSimulate assms(5) consider "app' = app" | "app' = resume_in left app"
    | path c0 v w rep where "load_config ce path = Inr c0"
        "simulate (case v of JStr name \<Rightarrow> with_policy c0 name | _ \<Rightarrow> c0) (shared_world app) = Inr (w, rep)" "app' = resume_in w app"
    by (fastforce simp: simulate_endpoint_def result_simps split: sum.splits)
  then show ?thesis using assms(3) resume_inv [OF assms(1,3)] assms(4) leaves by cases blast+
qed (use assms(3,5) in auto)

lemma app_run_inv:
  assumes "platform_ok (ee_platform (fst world))" and "mirror_ok (pf_redis (ee_platform (fst world))) (pf_redis_store (ee_platform (fst world)))"
    and "\<And>path c. load_config ce path = Inr c \<Longrightarrow> config_ok c" and "load_config ce config_path = Inr config"
    and "app_run ce world config_path app"
  shows "app_inv world config app"
  using assms(5)
proof induction
  case (start app)
  then obtain plane where plane: "NimbusMeshControlPlane (ee_platform (fst world)) config = Inr plane"
    and app: "app = \<lparr>app_config_path = config_path, app_platform = ee_platform (fst world), app_plane = plane,
          app_metrics = MetricsCollector, app_world = world\<rparr>"
    using assms(4) by (auto simp: create_app_def result_simps)
  have "nm_config plane = config" using plane by (auto simp: NimbusMeshControlPlane_def result_simps)
  with construct_ok [OF assms(3) [OF assms(4)] assms(2) plane] construct_unbooked [OF plane] same_services_refl show ?case
    by (simp add: app_inv_def app dict_get_def TenantStats_def)
next
  case (call app left c app' response)
  then show ?case using handle_inv [of world ce config app left c app' response] assms(1,3) by blast
qed

lemma app_run_metrics: "app_run ce world config_path app \<Longrightarrow> app_metrics app = MetricsCollector"
proof (induction rule: app_run.induct)
  case (start app)
  then show ?case by (auto simp: create_app_def result_simps)
next
  case (call app left c app' response)
  then show ?case
    by (cases c) (auto simp: cache_endpoint_def route_endpoint_def simulate_endpoint_def resume_in_def Let_def
        split: prod.splits sum.splits)
qed

section \<open>Properties\<close>

text \<open>
  C35: whatever calls the application has served, simulations over HTTP included, whether they returned or
  raised, its control plane is well-formed, also the mirror in Redis it shares with them, and no pool has a
  request in flight or a slot taken, no tenant has a completed request, and the next routing call with a
  valid body is answered with a decision: the route call only recommends, it never books. Every
  configuration file that loads is assumed to be valid.
\<close>

theorem api_invariant:
  assumes "platform_ok (ee_platform (fst world))" and "mirror_ok (pf_redis (ee_platform (fst world))) (pf_redis_store (ee_platform (fst world)))"
    and "\<And>path c. load_config ce path = Inr c \<Longrightarrow> config_ok c" and "load_config ce config_path = Inr config"
    and "app_run ce world config_path app"
    and "request_of_payload (we_hash (ee_workload (fst world))) payload = Inr request"
  shows "plane_ok (ee_platform (fst world)) (app_plane app) \<and>
    list_all (\<lambda>p. pr_inflight_memory p = [] \<and> list_all (\<lambda>ts. ts = 0) (pr_slot_available_at p)) (all_pools (app_plane app)) \<and>
    ts_completed (dict_get TenantStats (nm_tenant_stats (app_plane app)) tenant) = 0 \<and>
    (\<exists>app' answer. handle ce left (PostRoute payload) app = (app', Inr answer))"
proof -
  have inv: "app_inv world config app" by (rule app_run_inv [OF assms(1-5)])
  have "same_services (fst world) (fst (app_world app))" using inv unfolding app_inv_def by blast
  from same_services_platform(3) [OF this] assms(6)
  have "request_of_payload (we_hash (ee_workload (fst (app_world app)))) payload = Inr request" by simp
  moreover obtain app' response where h: "route_endpoint payload app = (app', response)" by force
  ultimately have "\<exists>answer. response = Inr answer" using route_endpoint_inv [OF assms(1) inv h] by blast
  with h have "\<exists>app' answer. handle ce left (PostRoute payload) app = (app', Inr answer)" by auto
  moreover have "plane_ok (ee_platform (fst world)) (app_plane app)" using inv unfolding app_inv_def by metis
  moreover have "list_all (\<lambda>p. pr_inflight_memory p = [] \<and> list_all (\<lambda>ts. ts = 0) (pr_slot_available_at p)) (all_pools (app_plane app))"
    using inv by (fastforce simp: app_inv_def all_unbooked_def unbooked_def all_pools_def dict_values_def list_all_iff)
  ultimately show ?thesis using inv by (simp add: app_inv_def)
qed

text \<open>
  The metrics call answers the same whatever was served before it: the collector it renders is not the
  one of any simulation, and no handler records into it.
\<close>

theorem metrics_endpoint_constant:
  assumes "app_run ce world config_path app"
  shows "metrics_endpoint app = ebind (render_prometheus MetricsCollector) (\<lambda>content. Inr (JStr content))"
  using app_run_metrics [OF assms] by (simp add: metrics_endpoint_def)

section \<open>Example\<close>

definition demo_payload :: "(string, json) dict" where
  "demo_payload = [(''request_id'', JStr ''r1''), (''tenant_id'', JStr ''tenant-a''), (''model_id'', JStr ''llama-3-8b''),
     (''prompt_tokens'', JInt 512), (''generation_tokens'', JInt 64), (''arrival_ts'', JFloat 1), (''session_id'', JStr ''s1'')]"

lemma demo_payload_request: "\<exists>request. request_of_payload H demo_payload = Inr request"
  by (simp add: request_of_payload_def demo_payload_def dict_keys_def REQUIRED_PARAMETERS_def OPTIONAL_PARAMETERS_def
      InferenceRequest_def request_post_init_def normalize_sla_class_def SLA_PRIORITY_def dict_item_def dict_get_def
      int_field_def float_field_def dict_field_def opt_text_field_def)

text \<open>The application of the example, after a simulation over HTTP.\<close>

definition demo_app :: "(memory_client, unit, unit, int) app result" where
  "demo_app = create_app demo_config_env (demo_engine_env, []) ''demo.json''"

theorem api_invariant_witness:
  "\<exists>app app' response answer. demo_app = Inr app \<and>
     handle demo_config_env (shared_world app) (PostSimulate []) app = (app', response) \<and>
     snd (handle demo_config_env (shared_world app') (PostRoute demo_payload) app') = Inr answer"
proof -
  have pf: "ee_platform demo_engine_env = demo_platform" by (simp add: demo_engine_env_def)
  obtain app where app: "create_app demo_config_env (demo_engine_env, []) ''demo.json'' = Inr app"
    using demo_config_loads demo_constructed by (simp add: create_app_def pf)
  obtain app' response where h: "handle demo_config_env (shared_world app) (PostSimulate []) app = (app', response)" by force
  with app_run.start [OF app] may_leave_refl have run: "app_run demo_config_env (demo_engine_env, []) ''demo.json'' app'"
    by (blast intro: app_run.call)
  have valid: "config_ok c" if "load_config demo_config_env path = Inr c" for path c
  proof (cases "path = ''demo.json''")
    case True
    with that demo_config_loads demo_config_ok show ?thesis by simp
  next
    case False
    with that show ?thesis by (simp add: load_config_def demo_config_env_def)
  qed
  obtain request where "request_of_payload (we_hash (ee_workload demo_engine_env)) demo_payload = Inr request"
    using demo_payload_request by blast
  with api_invariant [of "(demo_engine_env, [])" demo_config_env "''demo.json''" demo_config app' demo_payload request "[]" "shared_world app'"]
    valid run demo_config_loads demo_platform_ok demo_mirror_ok
  have "\<exists>app2 answer. handle demo_config_env (shared_world app') (PostRoute demo_payload) app' = (app2, Inr answer)" by (simp add: pf)
  then have "\<exists>answer. snd (handle demo_config_env (shared_world app') (PostRoute demo_payload) app') = Inr answer" by (metis snd_conv)
  with app h show ?thesis unfolding demo_app_def by blast
qed

end
