(* ===== verification/Scripts.thy ===== *)
theory Scripts
  imports Api
begin

text \<open>
  The command line programs that only put components together: \<open>scripts/run_simulation.py\<close>,
  \<open>scripts/run_benchmarks.py\<close>, \<open>scripts/run_ray_benchmarks.py\<close> and what \<open>scripts/plot_results.py\<close> reads
  from the exported tables. Arguments are the values \<open>argparse\<close> returns; what a program prints is its
  result. The lemmas show that the plot shows exactly the exported reports.
\<close>

section \<open>Running\<close>

definition run_simulation_main ::
  "config_env \<Rightarrow> string \<Rightarrow> string option \<Rightarrow> ('r, 'q, 'p, 'g) engine_env \<times> files
    \<Rightarrow> ((('r, 'q, 'p, 'g) engine_env \<times> files) \<times> string) result" where
  "run_simulation_main ce config_path policy world =
     ebind (load_config ce config_path) (\<lambda>config.
     ebind (simulate (case policy of Some (c # p) \<Rightarrow> with_policy config (c # p) | _ \<Rightarrow> config) world) (\<lambda>(world', rep).
     Inr (world', tc_pretty (ee_codec (fst world)) (JDict rep))))"

definition run_benchmarks_main ::
  "(string \<times> int, ('r, 'q, 'p, 'g) engine_env \<times> files, sim_report) ray_runtime option
    \<Rightarrow> config_env \<Rightarrow> string \<Rightarrow> string list \<Rightarrow> int list \<Rightarrow> bool \<Rightarrow> ('r, 'q, 'p, 'g) engine_env \<times> files
    \<Rightarrow> ((('r, 'q, 'p, 'g) engine_env \<times> files) \<times> string) result" where
  "run_benchmarks_main ray ce config_path policies seeds distributed world =
     ebind (load_config ce config_path) (\<lambda>config.
     let h = \<lparr>bh_config = config, bh_output_dir = ''experiments/results'', bh_config_path = Some config_path\<rparr>
     in ebind (if distributed then run_distributed ray ce h policies seeds world else harness_run h policies seeds world)
          (\<lambda>(world', reports). Inr (world', tc_pretty (ee_codec (fst world)) (JList (map JDict reports)))))"

definition run_ray_benchmarks_main ::
  "(string \<times> int, ('r, 'q, 'p, 'g) engine_env \<times> files, sim_report) ray_runtime option
    \<Rightarrow> config_env \<Rightarrow> string \<Rightarrow> string list \<Rightarrow> int list \<Rightarrow> string \<Rightarrow> ('r, 'q, 'p, 'g) engine_env \<times> files
    \<Rightarrow> ((('r, 'q, 'p, 'g) engine_env \<times> files) \<times> (string, json) dict) result" where
  "run_ray_benchmarks_main ray ce config_path policies seeds output world =
     ebind (run_ray_sweep ray ce config_path policies seeds world) (\<lambda>((env, fs), reports).
     Inr ((env, write_text output (tc_pretty (ee_codec env) (JList (map JDict reports))) fs),
          [(''output'', JStr output), (''reports'', JInt (int (length reports)))]))"

section \<open>Plotting\<close>

text \<open>The bars: a label per record and its 95th percentile; drawing them is matplotlib's part.\<close>

definition bar_label :: "csv_row \<Rightarrow> string result" where
  "bar_label row =
     ebind (dict_item row ''config_name'' (KeyError ''config_name'')) (\<lambda>config_name.
     ebind (dict_item row ''policy_name'' (KeyError ''policy_name'')) (\<lambda>policy_name.
     let shown = (\<lambda>v. case v of None \<Rightarrow> ''None'' | Some s \<Rightarrow> s) in Inr (shown config_name @ '':'' @ shown policy_name)))"

definition plot_bars :: "files \<Rightarrow> (string list \<times> pyfloat list) result" where
  "plot_bars fs =
     (case map_of fs (join_path ''results'' ''latency.csv'') of
        None \<Rightarrow> Inl (SystemExit ''results/latency.csv not found. Run simulations first.'')
      | Some content \<Rightarrow>
          let rows = snd (DictReader content)
          in ebind (emap bar_label rows) (\<lambda>labels.
             ebind (emap (\<lambda>row. ebind (dict_item row ''p95_latency_ms'' (KeyError ''p95_latency_ms'')) cell_float) rows) (\<lambda>p95.
             Inr (labels, p95))))"

section \<open>The plot shows the exported reports\<close>

definition LATENCY_COLUMNS :: "string list" where
  "LATENCY_COLUMNS = [''config_name'', ''policy_name'', ''p50_latency_ms'', ''p95_latency_ms'', ''p99_latency_ms'',
     ''mean_absolute_latency_error_ms'']"

definition latency_record :: "text_codec \<Rightarrow> sim_report \<Rightarrow> string list" where
  "latency_record tc rep = map (\<lambda>c. tc_cell tc (the (map_of rep c))) LATENCY_COLUMNS"

text \<open>
  A report that has all exported columns, with a renderer of cells that keeps the names and writes
  numbers so that they are read back.
\<close>

definition exportable :: "text_codec \<Rightarrow> string \<Rightarrow> string \<Rightarrow> pyfloat \<Rightarrow> sim_report \<Rightarrow> bool" where
  "exportable tc config policy p95 rep \<longleftrightarrow>
     (\<forall>(name, fieldnames) \<in> set EXPORTS. \<forall>c \<in> set fieldnames. map_of rep c \<noteq> None) \<and>
     (\<forall>s \<in> set (latency_record tc rep). CR \<notin> set s) \<and>
     tc_cell tc (the (map_of rep ''config_name'')) = config \<and> tc_cell tc (the (map_of rep ''policy_name'')) = policy \<and>
     parse_float (tc_cell tc (the (map_of rep ''p95_latency_ms''))) = Some p95"

lemma latency_table: "(''latency.csv'', LATENCY_COLUMNS) \<in> set EXPORTS" "distinct (map fst EXPORTS)"
  by (simp_all add: EXPORTS_def LATENCY_COLUMNS_def)

lemma csv_record_nonempty: "csv_record r \<noteq> []"
  by (simp add: csv_record_def)

lemma export_latency:
  assumes "\<forall>(name, fieldnames) \<in> set EXPORTS. \<forall>c \<in> set fieldnames. map_of rep c \<noteq> None"
    and "export_summary tc ''results'' rep fs = Inr fs'"
  shows "map_of fs' (join_path ''results'' ''latency.csv'') =
    Some ((case map_of fs (join_path ''results'' ''latency.csv'') of None \<Rightarrow> csv_record LATENCY_COLUMNS | Some content \<Rightarrow> content) @
      csv_record (latency_record tc rep))"
proof -
  let ?p = "join_path ''results'' ''latency.csv''"
  have "dict_get [] fs' ?p = dict_get [] fs ?p @ table_rows tc rep ?p LATENCY_COLUMNS fs"
    using export_tables [OF assms(1) latency_table(2), of tc "''results''" fs] assms(2) latency_table(1)
    by (auto simp: export_summary_def)
  also have "\<dots> = (case map_of fs ?p of None \<Rightarrow> csv_record LATENCY_COLUMNS | Some content \<Rightarrow> content) @ csv_record (latency_record tc rep)"
    by (simp add: table_rows_def file_exists_def dict_get_def latency_record_def split: option.split)
  finally have eq: "dict_get [] fs' ?p = (case map_of fs ?p of None \<Rightarrow> csv_record LATENCY_COLUMNS | Some content \<Rightarrow> content) @ csv_record (latency_record tc rep)" .
  then have "map_of fs' ?p \<noteq> None" using csv_record_nonempty by (cases "map_of fs' ?p") (auto simp: dict_get_def)
  with eq show ?thesis by (auto simp: dict_get_def)
qed

lemma exports_latency:
  assumes "\<forall>rep \<in> set reports. \<forall>(name, fieldnames) \<in> set EXPORTS. \<forall>c \<in> set fieldnames. map_of rep c \<noteq> None"
    and "efold (export_summary tc ''results'') reports fs = Inr fs'"
    and "map_of fs (join_path ''results'' ''latency.csv'') = Some content"
  shows "map_of fs' (join_path ''results'' ''latency.csv'') = Some (content @ csv_text (map (latency_record tc) reports))"
  using assms
proof (induction reports arbitrary: fs content)
  case (Cons rep reports)
  from Cons.prems(2) obtain fs1 where e: "export_summary tc ''results'' rep fs = Inr fs1"
    and rest: "efold (export_summary tc ''results'') reports fs1 = Inr fs'" by (auto simp: result_simps)
  have "\<forall>(name, fieldnames) \<in> set EXPORTS. \<forall>c \<in> set fieldnames. map_of rep c \<noteq> None" using Cons.prems(1) by simp
  from export_latency [OF this e] Cons.prems(3)
  have "map_of fs1 (join_path ''results'' ''latency.csv'') = Some (content @ csv_record (latency_record tc rep))" by simp
  from Cons.IH [OF _ rest this] Cons.prems(1) show ?case by (simp add: csv_text_def)
qed (simp add: csv_text_def)

lemma latency_row:
  assumes "exportable tc config policy p95 rep"
  shows "bar_label (dict_row LATENCY_COLUMNS (latency_record tc rep)) = Inr (config @ '':'' @ policy)"
    "ebind (dict_item (dict_row LATENCY_COLUMNS (latency_record tc rep)) ''p95_latency_ms'' e) cell_float = Inr p95"
  using assms by (simp_all add: dict_row_def LATENCY_COLUMNS_def latency_record_def bar_label_def dict_item_def cell_float_def
      exportable_def)

text \<open>
  the plot shows what was exported: after any number of reports were exported to a fresh results
  directory, the bars are the reports in order, labelled with configuration and policy, at their 95th
  percentile.
\<close>

theorem plot_shows_exports:
  assumes "reports \<noteq> []" and "map_of fs (join_path ''results'' ''latency.csv'') = None"
    and "\<forall>rep \<in> set reports. exportable tc (config rep) (policy rep) (level rep) rep"
    and "efold (export_summary tc ''results'') reports fs = Inr fs'"
  shows "plot_bars fs' = Inr (map (\<lambda>rep. config rep @ '':'' @ policy rep) reports, map level reports)"
proof -
  let ?p = "join_path ''results'' ''latency.csv''"
  obtain rep rest where reports: "reports = rep # rest" using assms(1) by (cases reports) auto
  have cols: "\<forall>rep \<in> set reports. \<forall>(name, fieldnames) \<in> set EXPORTS. \<forall>c \<in> set fieldnames. map_of rep c \<noteq> None"
    using assms(3) unfolding exportable_def by blast
  obtain fs1 where e: "export_summary tc ''results'' rep fs = Inr fs1"
    and more: "efold (export_summary tc ''results'') rest fs1 = Inr fs'" using assms(4) by (auto simp: reports result_simps)
  have first: "map_of fs1 ?p = Some (csv_record LATENCY_COLUMNS @ csv_record (latency_record tc rep))"
    using export_latency [OF _ e] cols assms(2) by (simp add: reports)
  have "map_of fs' ?p = Some (csv_text (LATENCY_COLUMNS # map (latency_record tc) reports))"
    using exports_latency [OF _ more first] cols by (simp add: reports csv_text_def)
  moreover have "plain_record LATENCY_COLUMNS" by (simp add: plain_record_def LATENCY_COLUMNS_def CR_def)
  moreover have "plain_record (latency_record tc r)" if "r \<in> set reports" for r
    using assms(3) that by (auto simp: exportable_def plain_record_def latency_record_def LATENCY_COLUMNS_def)
  ultimately have rows: "plot_bars fs' = ebind (emap bar_label (map (\<lambda>r. dict_row LATENCY_COLUMNS (latency_record tc r)) reports)) (\<lambda>labels.
      ebind (emap (\<lambda>row. ebind (dict_item row ''p95_latency_ms'' (KeyError ''p95_latency_ms'')) cell_float)
        (map (\<lambda>r. dict_row LATENCY_COLUMNS (latency_record tc r)) reports)) (\<lambda>p95. Inr (labels, p95)))"
    using DictReader_text [of LATENCY_COLUMNS "map (latency_record tc) reports"] by (simp add: plot_bars_def comp_def)
  have "emap (\<lambda>r. bar_label (dict_row LATENCY_COLUMNS (latency_record tc r))) reports =
      Inr (map (\<lambda>rep. config rep @ '':'' @ policy rep) reports)"
    using latency_row(1) assms(3) by (intro emap_each) blast
  moreover have "emap (\<lambda>r. ebind (dict_item (dict_row LATENCY_COLUMNS (latency_record tc r)) ''p95_latency_ms''
      (KeyError ''p95_latency_ms'')) cell_float) reports = Inr (map level reports)"
    using latency_row(2) assms(3) by (intro emap_each) blast
  ultimately show ?thesis by (simp add: rows)
qed

text \<open>A report with every exported column.\<close>

definition demo_report :: sim_report where
  "demo_report = (''config_name'', JStr ''demo'') # (''policy_name'', JStr ''spread'') #
     map (\<lambda>c. (c, JFloat 12.5)) (concat (map snd EXPORTS))"

lemma demo_number: "exact_repr (25 / 2) = ''12.500000''" "parse_float ''12.500000'' = Some (25 / 2)"
proof -
  have "py_round 6 (25 / 2) = 25 / 2" by (rule py_round_fixed [of _ _ 12500000]) simp
  moreover have f: "format_fixed 6 (25 / 2) = ''12.500000''"
  proof -
    have "round_half_even 12500000 = 12500000" using round_half_even_of_int [of 12500000] by simp
    moreover have "show_nat 12 @ ''.'' @ zfill 6 (show_nat 500000) = ''12.500000''"
      by (simp add: show_nat.simps zfill_def char_of_def bit_0)
    ultimately show ?thesis by (simp add: format_fixed_def)
  qed
  ultimately show "exact_repr (25 / 2) = ''12.500000''" by (simp add: exact_repr_def)
  show "parse_float ''12.500000'' = Some (25 / 2)"
    using parse_format_fixed [of 6 "25 / 2"] \<open>py_round 6 (25 / 2) = 25 / 2\<close> by (simp add: f)
qed

lemma demo_exportable: "exportable demo_codec ''demo'' ''spread'' 12.5 demo_report"
proof -
  note cells = tc_cell_def py_str_def json_str_def demo_codec_def exact_text_def demo_number
  have "latency_record demo_codec demo_report = [''demo'', ''spread'', ''12.500000'', ''12.500000'', ''12.500000'', ''12.500000'']"
    by (simp add: latency_record_def LATENCY_COLUMNS_def demo_report_def EXPORTS_def cells)
  then have "\<forall>s \<in> set (latency_record demo_codec demo_report). CR \<notin> set s" by (simp add: CR_def)
  then show ?thesis
    by (simp add: exportable_def demo_report_def EXPORTS_def cells)
qed

theorem plot_shows_exports_witness:
  "\<exists>fs'. efold (export_summary demo_codec ''results'') [demo_report, demo_report] [] = Inr fs' \<and>
     plot_bars fs' = Inr ([''demo:spread'', ''demo:spread''], [12.5, 12.5])"
proof -
  have cols: "\<forall>(name, fieldnames) \<in> set EXPORTS. \<forall>c \<in> set fieldnames. map_of demo_report c \<noteq> None"
    using demo_exportable unfolding exportable_def by blast
  have "\<exists>fs'. export_summary demo_codec ''results'' demo_report fs = Inr fs'" for fs
    using export_tables [OF cols latency_table(2)] unfolding export_summary_def by blast
  then obtain fs1 fs' where "export_summary demo_codec ''results'' demo_report [] = Inr fs1"
    "export_summary demo_codec ''results'' demo_report fs1 = Inr fs'" by blast
  then have e: "efold (export_summary demo_codec ''results'') [demo_report, demo_report] [] = Inr fs'" by simp
  from plot_shows_exports [where config = "\<lambda>rep. ''demo''" and policy = "\<lambda>rep. ''spread''" and level = "\<lambda>rep. 12.5", OF _ _ _ e]
    demo_exportable e show ?thesis by simp
qed

end
