(* ===== verification/EngineStores.thy ===== *)
theory EngineStores
  imports Engine
begin

text \<open>
  The simulation engine with its two stores: the composition of \<open>simulators/engine.py\<close> with
  \<open>storage/postgres_store.py\<close> and \<open>storage/redis_store.py\<close>. PostgreSQL is an observer: under the contract
  \<open>pg_database\<close>, a simulation with a database does everything the same simulation does without one, and
  its tables end with one row more for every result and one row more for the report.
  Redis, under the contract \<open>redis_hash\<close>, ends with the document of every result under the identifier
  of its request.
\<close>

section \<open>The engine without its database\<close>

definition without_database :: "('r, 'q, 'p, 'g) engine_env \<Rightarrow> ('r, 'q, 'p, 'g) engine_env" where
  "without_database env = env\<lparr>ee_postgres_dsn := []\<rparr>"

lemma without_database_step:
  "engine_step (without_database env) = engine_step env" "engine_finish (without_database env) = engine_finish env"
  "ee_workload (without_database env) = ee_workload env"
  by (simp_all add: without_database_def engine_step_def engine_finish_def fun_eq_iff)

lemma without_database_run: "run (without_database env) = run env"
  by (simp add: run_def without_database_step fun_eq_iff)

text \<open>One step of an engine without a database, and the same step with any other store.\<close>

lemma stores_apart: "se\<lparr>se_redis_store := a, se_postgres := b\<rparr> = se\<lparr>se_postgres := b, se_redis_store := a\<rparr>"
  by (cases se) simp

lemma offline_step:
  assumes "engine_step env r se = Inr se'" and "\<not> pg_enabled (se_postgres se)"
  shows "\<exists>result. mc_results (se_metrics se') = mc_results (se_metrics se) @ [result] \<and>
    se_postgres se' = se_postgres se \<and> se_config se' = se_config se \<and>
    (\<forall>s. engine_step env r (se\<lparr>se_postgres := s\<rparr>) =
      ebind (pg_write_result (ee_postgres env) (ec_name (se_config se)) result s) (\<lambda>s'. Inr (se'\<lparr>se_postgres := s'\<rparr>)))"
proof -
  let ?tc = "ee_codec env"
  obtain az1 fs1 where a: "azure_note_submission (ee_azure env) ?tc r (se_azure se, se_files se) = Inr (az1, fs1)"
    using assms(1) by (auto simp: engine_step_def Let_def result_simps)
  obtain plane' result where x: "execute (ee_platform env) r (rq_arrival_ts r)
      (note_submission r (refresh (rq_arrival_ts r) (se_control_plane se))) = Inr (plane', result)"
    using assms(1) by (auto simp: engine_step_def Let_def result_simps)
  define fs3 where "fs3 = emit_result ?tc ''logs'' result (logger_emit ?tc (ec_decision_log_path (se_config se)) (to_dict result) fs1)"
  obtain az2 fs4 where z: "azure_record_result ?tc result (az1, fs3) = (az2, fs4)" by force
  obtain redis where w: "write_decision (pf_redis (ee_platform env)) (to_dict result) (se_redis_store se) = Inr redis"
    using assms(1) a x z by (auto simp: engine_step_def Let_def result_simps fs3_def)
  note step = a x z [unfolded fs3_def] w
  have se': "se' = se\<lparr>se_control_plane := plane', se_metrics := metrics_record result (metrics_note_submission (rq_tenant_id r) (se_metrics se)),
      se_files := fs4, se_azure := az2, se_redis_store := redis\<rparr>"
    using assms(1) pg_disabled(1) [OF assms(2)] by (simp add: engine_step_def Let_def step)
  then have "mc_results (se_metrics se') = mc_results (se_metrics se) @ [result]"
    by (simp add: metrics_record_def metrics_note_submission_def)
  moreover have "engine_step env r (se\<lparr>se_postgres := s\<rparr>) =
      ebind (pg_write_result (ee_postgres env) (ec_name (se_config se)) result s) (\<lambda>s'. Inr (se'\<lparr>se_postgres := s'\<rparr>))" for s
    by (simp add: engine_step_def Let_def step se' stores_apart)
  ultimately show ?thesis using se' by auto
qed

lemma summary_results:
  assumes "summary duration_s policy config slots memory mc = Inr (mc', rep)"
  shows "mc_results mc' = mc_results mc"
  using assms summary_shape [of duration_s policy config slots memory mc] by auto

lemma offline_finish:
  assumes "engine_finish env se = Inr (se', rep)" and "\<not> pg_enabled (se_postgres se)"
  shows "mc_results (se_metrics se') = mc_results (se_metrics se) \<and> se_postgres se' = se_postgres se \<and>
    engine_finish env (se\<lparr>se_postgres := s\<rparr>) =
      ebind (pg_write_summary (ee_postgres env) (ec_name (se_config se)) (policy_name (nm_policy (se_control_plane se))) rep s)
        (\<lambda>s'. Inr (se'\<lparr>se_postgres := s'\<rparr>, rep)) \<and>
    se_config se' = se_config se \<and> se_control_plane se' = se_control_plane se"
proof -
  let ?plane = "se_control_plane se" and ?config = "se_config se"
  obtain metrics rep0 where m: "summary (wc_duration_s (ec_workload ?config)) (policy_name (nm_policy ?plane)) (ec_name ?config)
      (sum_list (map pr_parallel_slots (all_pools ?plane))) (sum_list (map pr_memory_gb (all_pools ?plane))) (se_metrics se) = Inr (metrics, rep0)"
    using assms(1) by (auto simp: engine_finish_def Let_def result_simps)
  obtain fs2 where x: "export_summary (ee_codec env) ''results'' (AList.update ''azure_summary'' (azure_summary (se_azure se)) rep0)
      (write_summary (ee_codec env) (ec_metrics_output_path ?config) (AList.update ''azure_summary'' (azure_summary (se_azure se)) rep0) (se_files se)) = Inr fs2"
    using assms(1) m by (auto simp: engine_finish_def Let_def result_simps)
  have f: "se' = se\<lparr>se_metrics := metrics, se_files := fs2\<rparr>" "rep = AList.update ''azure_summary'' (azure_summary (se_azure se)) rep0"
    using assms(1) pg_disabled(2) [OF assms(2)] m x by (auto simp: engine_finish_def Let_def)
  have "mc_results metrics = mc_results (se_metrics se)" by (rule summary_results [OF m])
  with f m x show ?thesis by (simp add: engine_finish_def Let_def)
qed

text \<open>The report is a document: its keys and those of its parts are distinct.\<close>

lemma costs_keys:
  assumes "engine_step env r se = Inr se'" and "dict_ok (az_cluster_costs (se_azure se))"
  shows "dict_ok (az_cluster_costs (se_azure se'))"
  using assms
  by (auto simp: engine_step_def Let_def result_simps azure_note_submission_def azure_record_result_def case_prod_unfold
      dict_ok_def distinct_update split: if_splits)

lemma costs_keys_all:
  "efold (engine_step env) requests se = Inr se' \<Longrightarrow> dict_ok (az_cluster_costs (se_azure se)) \<Longrightarrow>
     dict_ok (az_cluster_costs (se_azure se'))"
  by (induction requests arbitrary: se) (auto simp: result_simps dest: costs_keys)

lemma costs_keys_start: "SimulationEngine env config fs = Inr se \<Longrightarrow> dict_ok (az_cluster_costs (se_azure se))"
  by (auto simp: SimulationEngine_def AzureInfraSimulator_def Let_def result_simps dict_ok_def split: option.splits)

lemma summary_document:
  assumes "summary duration_s policy config slots memory mc = Inr (mc', rep)"
  shows "json_ok (JDict rep) \<and> ''azure_summary'' \<notin> fst ` set rep"
proof -
  obtain l p d f where "rep = report duration_s policy config slots memory mc l p d f"
    using summary_shape [of duration_s policy config slots memory mc] assms by fastforce
  then show ?thesis
    by (simp add: report_def Let_def dict_ok_def rounded_total_def case_prod_unfold)
qed

lemma report_document:
  assumes "engine_finish env se = Inr (se', rep)" and "dict_ok (az_cluster_costs (se_azure se))"
  shows "json_ok (JDict rep)"
proof -
  have new: "k \<notin> fst ` set d \<Longrightarrow> AList.update k v d = d @ [(k, v)]" for k and v :: json and d :: "(string, json) dict"
    by (induction d) auto
  obtain mc rep0 where "json_ok (JDict rep0)" "''azure_summary'' \<notin> fst ` set rep0"
    and "rep = AList.update ''azure_summary'' (azure_summary (se_azure se)) rep0"
    using assms(1) by (auto simp: engine_finish_def Let_def result_simps dest!: summary_document)
  moreover have "json_ok (azure_summary (se_azure se))"
    using assms(2) by (auto simp: azure_summary_def floats_json_def dict_ok_def comp_def case_prod_unfold)
  ultimately show ?thesis by (auto simp: new dict_ok_def)
qed

section \<open>The engine with its database\<close>

context pg_database
begin

text \<open>The rows of both tables after results and summaries have been inserted.\<close>

definition added :: "'p postgres_store \<Rightarrow> pg_cell list multiset \<Rightarrow> pg_cell list multiset \<Rightarrow> 'p postgres_store \<Rightarrow> bool" where
  "added s results summaries s' \<longleftrightarrow> open_store s' \<and>
     rows_of (tables (pg_state s') Experiment_results) = rows_of (tables (pg_state s) Experiment_results) + results \<and>
     rows_of (tables (pg_state s') Experiment_summaries) = rows_of (tables (pg_state s) Experiment_summaries) + summaries"

lemma added_refl: "open_store s \<Longrightarrow> added s {#} {#} s"
  by (simp add: added_def)

lemma added_trans: "added s a b s' \<Longrightarrow> added s' a' b' s'' \<Longrightarrow> added s (a + a') (b + b') s''"
  by (simp add: added_def add.assoc)

lemma added_result:
  assumes "open_store s" and "json_ok (JDict (to_dict r))" and "admits Experiment_results (result_cells name r)"
  shows "\<exists>s'. pg_write_result env name r s = Inr s' \<and> added s {#result_cells name r#} {#} s'"
  using result_inserted [OF assms] by (auto simp: added_def)

lemma added_summary:
  assumes "open_store s" and "json_ok (JDict rep)" and "admits Experiment_summaries (summary_cells name policy rep)"
  shows "\<exists>s'. pg_write_summary env name policy rep s = Inr s' \<and> added s {#} {#summary_cells name policy rep#} s'"
  using summary_inserted [OF assms] by (auto simp: added_def)

text \<open>A result whose document and row the database can take.\<close>

definition storable :: "string \<Rightarrow> request_result \<Rightarrow> bool" where
  "storable name res \<longleftrightarrow> json_ok (JDict (to_dict res)) \<and> admits Experiment_results (result_cells name res)"

lemma steps_observed:
  assumes "ee_postgres ee = env" and "efold (engine_step ee) requests se = Inr se'" and "\<not> pg_enabled (se_postgres se)"
  shows "\<exists>results. mc_results (se_metrics se') = mc_results (se_metrics se) @ results \<and>
    se_postgres se' = se_postgres se \<and> se_config se' = se_config se \<and>
    (\<forall>s. open_store s \<longrightarrow> (\<forall>res \<in> set results. storable (ec_name (se_config se)) res) \<longrightarrow>
      (\<exists>s'. efold (engine_step ee) requests (se\<lparr>se_postgres := s\<rparr>) = Inr (se'\<lparr>se_postgres := s'\<rparr>) \<and>
            added s (image_mset (result_cells (ec_name (se_config se))) (mset results)) {#} s'))"
  using assms(2,3)
proof (induction requests arbitrary: se)
  case Nil
  then show ?case using added_refl by auto
next
  case (Cons r requests)
  let ?row = "result_cells (ec_name (se_config se))"
  obtain se1 where se1: "engine_step ee r se = Inr se1" "efold (engine_step ee) requests se1 = Inr se'"
    using Cons.prems(1) by (auto simp: result_simps)
  obtain result where off: "mc_results (se_metrics se1) = mc_results (se_metrics se) @ [result]"
      "se_postgres se1 = se_postgres se" "se_config se1 = se_config se"
    and on: "\<And>s. engine_step ee r (se\<lparr>se_postgres := s\<rparr>) =
      ebind (pg_write_result env (ec_name (se_config se)) result s) (\<lambda>s'. Inr (se1\<lparr>se_postgres := s'\<rparr>))"
    using offline_step [OF se1(1) Cons.prems(2)] assms(1) by auto
  from Cons.IH [OF se1(2)] Cons.prems(2) off obtain results where
    IH: "mc_results (se_metrics se') = mc_results (se_metrics se1) @ results" "se_postgres se' = se_postgres se1"
      "se_config se' = se_config se1"
    and rest: "\<And>s. open_store s \<Longrightarrow> \<forall>res \<in> set results. storable (ec_name (se_config se)) res \<Longrightarrow>
      \<exists>s'. efold (engine_step ee) requests (se1\<lparr>se_postgres := s\<rparr>) = Inr (se'\<lparr>se_postgres := s'\<rparr>) \<and>
        added s (image_mset ?row (mset results)) {#} s'" by auto
  have "\<exists>s'. efold (engine_step ee) (r # requests) (se\<lparr>se_postgres := s\<rparr>) = Inr (se'\<lparr>se_postgres := s'\<rparr>) \<and>
      added s (image_mset ?row (mset (result # results))) {#} s'"
    if s: "open_store s" and ok: "\<forall>res \<in> set (result # results). storable (ec_name (se_config se)) res" for s
  proof -
    obtain s1 where s1: "pg_write_result env (ec_name (se_config se)) result s = Inr s1" "added s {#?row result#} {#} s1"
      using added_result [OF s, of result "ec_name (se_config se)"] ok by (auto simp: storable_def)
    then have "open_store s1" by (simp add: added_def)
    from rest [OF this] ok obtain s' where
      s': "efold (engine_step ee) requests (se1\<lparr>se_postgres := s1\<rparr>) = Inr (se'\<lparr>se_postgres := s'\<rparr>)" "added s1 (image_mset ?row (mset results)) {#} s'" by auto
    with on [of s] s1 added_trans [OF s1(2) s'(2)] show ?thesis by auto
  qed
  then show ?case using off IH by (intro exI [of _ "result # results"]) auto
qed

lemma run_observed:
  assumes "ee_postgres ee = env" and "run ee se = Inr (se', rep)" and "\<not> pg_enabled (se_postgres se)" and "open_store s"
    and "mc_results (se_metrics se) = []" and "dict_ok (az_cluster_costs (se_azure se))"
    and "\<forall>res \<in> set (mc_results (se_metrics se')). storable (ec_name (se_config se)) res"
    and "admits Experiment_summaries (summary_cells (ec_name (se_config se)) (policy_name (nm_policy (se_control_plane se'))) rep)"
  shows "\<exists>s'. run ee (se\<lparr>se_postgres := s\<rparr>) = Inr (se'\<lparr>se_postgres := s'\<rparr>, rep) \<and>
    added s (image_mset (result_cells (ec_name (se_config se))) (mset (mc_results (se_metrics se'))))
      {#summary_cells (ec_name (se_config se)) (policy_name (nm_policy (se_control_plane se'))) rep#} s'"
proof -
  let ?row = "result_cells (ec_name (se_config se))"
    and ?sum = "summary_cells (ec_name (se_config se)) (policy_name (nm_policy (se_control_plane se'))) rep"
  obtain requests state se1 where gen: "generate_requests (ee_workload ee) (ec_workload (se_config se)) (ec_seed (se_config se)) = Inr (requests, state)"
    and steps: "efold (engine_step ee) requests se = Inr se1" and fin: "engine_finish ee se1 = Inr (se', rep)"
    using assms(2) by (auto simp: run_def result_simps)
  obtain results where r: "mc_results (se_metrics se1) = results" "se_postgres se1 = se_postgres se" "se_config se1 = se_config se"
    and on: "\<And>s. open_store s \<Longrightarrow> \<forall>res \<in> set results. storable (ec_name (se_config se)) res \<Longrightarrow>
      \<exists>s'. efold (engine_step ee) requests (se\<lparr>se_postgres := s\<rparr>) = Inr (se1\<lparr>se_postgres := s'\<rparr>) \<and>
        added s (image_mset (result_cells (ec_name (se_config se))) (mset results)) {#} s'"
    using steps_observed [OF assms(1) steps assms(3)] assms(5) by auto
  have off: "\<not> pg_enabled (se_postgres se1)" using assms(3) r by simp
  note f = offline_finish [OF fin off]
  from on [OF assms(4)] assms(7) r f obtain s1 where
    s1: "efold (engine_step ee) requests (se\<lparr>se_postgres := s\<rparr>) = Inr (se1\<lparr>se_postgres := s1\<rparr>)" "added s (image_mset ?row (mset results)) {#} s1" by auto
  then have "open_store s1" by (simp add: added_def)
  from added_summary [OF this report_document [OF fin costs_keys_all [OF steps assms(6)]] assms(8)] obtain s' where
    s': "pg_write_summary env (ec_name (se_config se)) (policy_name (nm_policy (se_control_plane se'))) rep s1 = Inr s'" "added s1 {#} {#?sum#} s'" by blast
  have "run ee (se\<lparr>se_postgres := s\<rparr>) = Inr (se'\<lparr>se_postgres := s'\<rparr>, rep)"
    using gen s1(1) s'(1) f assms(1) r(3) by (simp add: run_def)
  with added_trans [OF s1(2) s'(2)] r(1) f show ?thesis by auto
qed

end

lemma offline_construct:
  assumes "SimulationEngine (without_database ee) config fs = Inr se"
  shows "\<not> pg_enabled (se_postgres se) \<and> mc_results (se_metrics se) = [] \<and> se_config se = config \<and>
    SimulationEngine ee config fs =
      ebind (PostgresExperimentStore (ee_postgres ee) None (ee_postgres_dsn ee) (ee_psycopg_installed ee) (ee_database ee))
        (\<lambda>s. Inr (se\<lparr>se_postgres := s\<rparr>))"
  using assms PostgresExperimentStore_disabled [of "ee_psycopg_installed ee" "[]" "ee_postgres ee" "ee_database ee"]
  by (auto simp: SimulationEngine_def without_database_def MetricsCollector_def Let_def result_simps)

text \<open>
  C15: the database only observes. If a simulation without a database builds its engine and returns, then
  the same simulation with a database that keeps the contract of PostgreSQL, and whose columns admit the
  rows, the keys of the results' documents being distinct, builds its engine and returns the same report, with the same control plane, metrics, files, Azure
  simulation and Redis store; and its two tables, which have no order, then hold the rows they had, one
  row for every result and one row for the report, with the result and the report as documents.
\<close>

theorem database_observes:
  assumes "pg_database (ee_postgres env) (ee_postgres_dsn env) tables admits"
    and "ee_postgres_dsn env \<noteq> []" and "ee_psycopg_installed env"
    and "SimulationEngine (without_database env) config fs = Inr se" and "run (without_database env) se = Inr (se', rep)"
    and "\<forall>res \<in> set (mc_results (se_metrics se')).
      json_ok (JDict (to_dict res)) \<and> admits Experiment_results (result_cells (ec_name config) res)"
    and "admits Experiment_summaries (summary_cells (ec_name config) (policy_name (nm_policy (se_control_plane se'))) rep)"
  shows "\<exists>s s'. SimulationEngine env config fs = Inr (se\<lparr>se_postgres := s\<rparr>) \<and>
    run env (se\<lparr>se_postgres := s\<rparr>) = Inr (se'\<lparr>se_postgres := s'\<rparr>, rep) \<and>
    tables (pg_state s') Experiment_results = Some (rows_of (tables (ee_database env) Experiment_results) +
      image_mset (result_cells (ec_name config)) (mset (mc_results (se_metrics se')))) \<and>
    tables (pg_state s') Experiment_summaries = Some (rows_of (tables (ee_database env) Experiment_summaries) +
      {#summary_cells (ec_name config) (policy_name (nm_policy (se_control_plane se'))) rep#})"
proof -
  note off = offline_construct [OF assms(4)]
  let ?s = "\<lparr>pg_dsn = ee_postgres_dsn env, pg_enabled = True, pg_state = ee_database env\<rparr>"
  from pg_database.tables_ensured [OF assms(1), of ?s] obtain s where
    s: "ensure_tables (ee_postgres env) ?s = Inr s"
      "pg_database.open_store (ee_postgres_dsn env) tables s"
      "\<forall>t. rows_of (tables (pg_state s) t) = rows_of (tables (ee_database env) t)" by auto
  then have built: "SimulationEngine env config fs = Inr (se\<lparr>se_postgres := s\<rparr>)"
    using off assms(2,3) by (simp add: PostgresExperimentStore_def)
  have "run env se = Inr (se', rep)" using assms(5) by (simp add: without_database_run)
  then obtain s' where s': "run env (se\<lparr>se_postgres := s\<rparr>) = Inr (se'\<lparr>se_postgres := s'\<rparr>, rep)"
    "pg_database.added (ee_postgres_dsn env) tables s (image_mset (result_cells (ec_name config)) (mset (mc_results (se_metrics se'))))
      {#summary_cells (ec_name config) (policy_name (nm_policy (se_control_plane se'))) rep#} s'"
    using pg_database.run_observed [OF assms(1) refl _ _ s(2) _ costs_keys_start [OF assms(4)], of se' rep] off assms(6,7)
    by (auto simp: pg_database.storable_def [OF assms(1)] simp del: json_ok.simps)
  then show ?thesis using built s(3)
    unfolding pg_database.added_def [OF assms(1)] pg_database.open_store_def [OF assms(1)]
    by (metis option.exhaust rows_of_simps(2))
qed

section \<open>The engine with its Redis store\<close>

text \<open>The store after a run is the one that has been given every result, in order.\<close>

definition write_results :: "'r redis_env \<Rightarrow> request_result list \<Rightarrow> 'r redis_store \<Rightarrow> 'r redis_store result" where
  "write_results env = efold (\<lambda>res. write_decision env (to_dict res))"

lemma engine_step_writes:
  assumes "engine_step env r se = Inr se'"
  shows "\<exists>res. mc_results (se_metrics se') = mc_results (se_metrics se) @ [res] \<and>
    write_decision (pf_redis (ee_platform env)) (to_dict res) (se_redis_store se) = Inr (se_redis_store se')"
  using assms
  by (auto simp: engine_step_def Let_def result_simps metrics_record_def metrics_note_submission_def case_prod_unfold)

lemma steps_write:
  assumes "efold (engine_step env) requests se = Inr se'"
  shows "\<exists>results. mc_results (se_metrics se') = mc_results (se_metrics se) @ results \<and>
    write_results (pf_redis (ee_platform env)) results (se_redis_store se) = Inr (se_redis_store se')"
  using assms
proof (induction requests arbitrary: se)
  case (Cons r requests)
  then obtain se1 where step: "engine_step env r se = Inr se1" and rest: "efold (engine_step env) requests se1 = Inr se'"
    by (auto simp: result_simps)
  obtain res where 1: "mc_results (se_metrics se1) = mc_results (se_metrics se) @ [res]"
    "write_decision (pf_redis (ee_platform env)) (to_dict res) (se_redis_store se) = Inr (se_redis_store se1)"
    using engine_step_writes [OF step] by blast
  obtain results where "mc_results (se_metrics se') = mc_results (se_metrics se1) @ results"
    "write_results (pf_redis (ee_platform env)) results (se_redis_store se1) = Inr (se_redis_store se')"
    using Cons.IH [OF rest] by blast
  with 1 show ?case by (intro exI [of _ "res # results"]) (simp add: write_results_def)
qed (simp add: write_results_def)

lemma finish_keeps_redis: "engine_finish env se = Inr (se', rep) \<Longrightarrow>
    se_redis_store se' = se_redis_store se \<and> mc_results (se_metrics se') = mc_results (se_metrics se)"
  by (auto simp: engine_finish_def Let_def result_simps dest: summary_results)

lemma run_writes:
  assumes "run env se = Inr (se', rep)"
  shows "\<exists>results. mc_results (se_metrics se') = mc_results (se_metrics se) @ results \<and>
    write_results (pf_redis (ee_platform env)) results (se_redis_store se) = Inr (se_redis_store se')"
proof -
  obtain requests se1 where "efold (engine_step env) requests se = Inr se1" and "engine_finish env se1 = Inr (se', rep)"
    using assms by (auto simp: run_def result_simps)
  with steps_write finish_keeps_redis show ?thesis by metis
qed

definition result_id :: "request_result \<Rightarrow> string" where
  "result_id res = rq_request_id (rr_request res)"

lemma results_readable:
  assumes "redis_hash env" and "write_results env results s = Inr s'" and "rs_enabled s" and "rs_client s \<noteq> None"
    and "\<forall>res \<in> set results. json_ok (JDict (to_dict res))" and "distinct (map result_id results)"
  shows "(\<forall>res \<in> set results. read_decision env (result_id res) s' = Inr (Some (JDict (to_dict res)))) \<and>
    (\<forall>i. i \<notin> set (map result_id results) \<longrightarrow> read_decision env i s' = read_decision env i s)"
  using assms(2-6)
proof (induction results arbitrary: s)
  case (Cons res results)
  obtain s1 where w: "write_decision env (to_dict res) s = Inr s1" and rest: "write_results env results s1 = Inr s'"
    using Cons.prems(1) by (auto simp: write_results_def result_simps)
  have doc: "json_ok (JDict (to_dict res))" using Cons.prems(4) by simp
  obtain q where "dict_get (JDict []) (to_dict res) ''request'' = JDict q" "map_of q ''request_id'' = Some (JStr (result_id res))"
    by (simp add: to_dict_def request_to_dict_def dict_get_def result_id_def)
  note rd = redis_hash.read_after_decision [OF assms(1) Cons.prems(2,3) w doc this]
  have "\<forall>res \<in> set results. json_ok (JDict (to_dict res))" "distinct (map result_id results)" "result_id res \<notin> set (map result_id results)"
    using Cons.prems(4,5) by (simp_all del: json_ok.simps)
  with Cons.IH [OF rest] rd show ?case by auto
qed (simp add: write_results_def)

lemma served_documents:
  assumes "local_env earlier env" and "config_ok config" and "SimulationEngine env config fs = Inr se"
    and gen: "generate_requests (ee_workload env) (ec_workload config) (ec_seed config) = Inr (requests, state)"
    and "\<forall>r \<in> set requests. request_ok r" and "earlier + length requests \<le> 20000" and "run env se = Inr (se', rep)"
  shows "\<forall>res \<in> set (mc_results (se_metrics se')). json_ok (JDict (to_dict res))"
proof -
  have req: "map rr_request (mc_results (se_metrics se')) = requests"
    and bd: "\<forall>res \<in> set (mc_results (se_metrics se')). dict_ok (rd_score_breakdown (rr_decision res))"
    using requests_served [OF assms(1-6)] assms(7) by auto
  have "json_ok (JDict (rq_metadata (rr_request res)))" if "res \<in> set (mc_results (se_metrics se'))" for res
  proof -
    have "rr_request res \<in> set requests" unfolding req [symmetric] using that by simp
    with requests_seeded [OF gen] have "seeded_request (ec_seed config) (rr_request res)" by blast
    then show ?thesis by (auto simp: seeded_request_def dict_ok_def)
  qed
  with bd show ?thesis by (simp add: result_document del: json_ok.simps)
qed

text \<open>
  C16: Redis ends with every decision: if the simulation has a Redis with room for its requests and the
  identifiers of the requests are distinct, then the run returns, and under the identifier of every request
  the hash of decisions holds the JSON document of exactly its result, while under other identifiers it
  holds what it held before.
\<close>

theorem redis_holds_decisions:
  assumes "local_env earlier env" and "config_ok config" and "SimulationEngine env config fs = Inr se"
    and "generate_requests (ee_workload env) (ec_workload config) (ec_seed config) = Inr (requests, state)"
    and "\<forall>r \<in> set requests. request_ok r" and "distinct (map rq_request_id requests)"
    and "earlier + length requests \<le> 20000"
    and "rs_enabled (ee_redis_store env)" and "rs_client (ee_redis_store env) \<noteq> None"
  shows "\<exists>se' rep. run env se = Inr (se', rep) \<and> map rr_request (mc_results (se_metrics se')) = requests \<and>
    (\<forall>res \<in> set (mc_results (se_metrics se')).
       read_decision (pf_redis (ee_platform env)) (rq_request_id (rr_request res)) (se_redis_store se') =
         Inr (Some (JDict (to_dict res)))) \<and>
    (\<forall>i. i \<notin> rq_request_id ` set requests \<longrightarrow>
       read_decision (pf_redis (ee_platform env)) i (se_redis_store se') =
         read_decision (pf_redis (ee_platform env)) i (ee_redis_store env))"
proof -
  let ?env = "pf_redis (ee_platform env)"
  have hash: "redis_hash ?env" using assms(1) by (simp add: local_env_def platform_ok_def)
  obtain se' rep where run: "run env se = Inr (se', rep)" and req: "map rr_request (mc_results (se_metrics se')) = requests"
    using requests_served [OF assms(1-5,7)] by blast
  have start: "se_redis_store se = ee_redis_store env" "mc_results (se_metrics se) = []"
    using assms(3) by (auto simp: SimulationEngine_def MetricsCollector_def Let_def result_simps)
  have w: "write_results ?env (mc_results (se_metrics se')) (ee_redis_store env) = Inr (se_redis_store se')"
    using run_writes [OF run] start by auto
  note docs = served_documents [OF assms(1-5,7) run]
  have ids: "map result_id (mc_results (se_metrics se')) = map rq_request_id requests"
    unfolding req [symmetric] by (simp add: result_id_def)
  then have "distinct (map result_id (mc_results (se_metrics se')))" using assms(6) by simp
  from results_readable [OF hash w assms(8,9) docs this] run req show ?thesis
    unfolding ids by (auto simp: result_id_def)
qed

section \<open>Example\<close>

text \<open>The engine of the example with an empty database in memory.\<close>

definition demo_database_env :: "(memory_client, unit, memory_database, int) engine_env" where
  "demo_database_env = \<lparr>ee_platform = demo_platform, ee_workload = demo_workload_env, ee_codec = demo_codec,
     ee_azure = demo_azure, ee_postgres = memory_postgres, ee_postgres_dsn = ''postgres://results'',
     ee_psycopg_installed = True, ee_database = [], ee_redis_store = RedisDecisionStore memory_redis None [] False\<rparr>"

lemma demo_database_local: "local_env n (without_database demo_database_env)"
  using demo_local_env [of n] by (simp add: local_env_def demo_database_env_def demo_engine_env_def without_database_def)

theorem database_observes_witness:
  "\<exists>s se se' rep. SimulationEngine demo_database_env demo_config [(''configs/azure_cluster.yaml'', [])] = Inr se \<and>
     run demo_database_env se = Inr (se', rep) \<and> pg_state (se_postgres se') = s \<and>
     map_option size (memory_tables s Experiment_results) = Some 4 \<and>
     memory_tables s Experiment_summaries =
       Some {#summary_cells (ec_name demo_config) (policy_name (nm_policy (se_control_plane se'))) rep#}"
proof -
  let ?env = "demo_database_env"
  obtain se where se: "SimulationEngine (without_database ?env) demo_config [(''configs/azure_cluster.yaml'', [])] = Inr se"
    using demo_parts_constructed [OF demo_constructed, of "without_database ?env"]
    by (auto simp: without_database_def demo_database_env_def)
  have w: "ec_workload demo_config = demo_workload" "wc_request_count demo_workload = 4" "workload_ok (ec_workload demo_config)"
    using demo_workload_ok by (simp_all add: demo_config_def demo_workload_def)
  then have bound: "int 0 + max 0 (wc_request_count (ec_workload demo_config)) \<le> 20000" by simp
  obtain requests state se' rep where gen: "generate_requests (ee_workload (without_database ?env)) (ec_workload demo_config) (ec_seed demo_config) = Inr (requests, state)"
    and run: "run (without_database ?env) se = Inr (se', rep)" "map rr_request (mc_results (se_metrics se')) = requests"
    using simulation_returns [OF demo_database_local [of 0] demo_config_ok w(3) bound se] by blast
  have "rng_ok (we_rng (ee_workload (without_database ?env)))" using demo_database_local [of 0] by (simp add: local_env_def)
  from generated_workload [OF this w(3), of "ec_seed demo_config"] gen w(1,2)
  have len: "length requests = 4" and ok: "\<forall>r \<in> set requests. request_ok r" by auto
  have "0 + length requests \<le> 20000" using len by simp
  note docs = served_documents [OF demo_database_local demo_config_ok se gen ok this run(1)]
  from len run(2) have four: "length (mc_results (se_metrics se')) = 4" by (metis length_map)
  have parts: "ee_postgres ?env = memory_postgres" "ee_database ?env = []" "ee_postgres_dsn ?env \<noteq> []" "ee_psycopg_installed ?env"
    by (simp_all add: demo_database_env_def)
  have "\<exists>s s'. SimulationEngine ?env demo_config [(''configs/azure_cluster.yaml'', [])] = Inr (se\<lparr>se_postgres := s\<rparr>) \<and>
      run ?env (se\<lparr>se_postgres := s\<rparr>) = Inr (se'\<lparr>se_postgres := s'\<rparr>, rep) \<and>
      memory_tables (pg_state s') Experiment_results = Some (rows_of (memory_tables (ee_database ?env) Experiment_results) +
        image_mset (result_cells (ec_name demo_config)) (mset (mc_results (se_metrics se')))) \<and>
      memory_tables (pg_state s') Experiment_summaries = Some (rows_of (memory_tables (ee_database ?env) Experiment_summaries) +
        {#summary_cells (ec_name demo_config) (policy_name (nm_policy (se_control_plane se'))) rep#})"
    by (rule database_observes [OF _ parts(3,4) se run(1), where admits = "\<lambda>t cells. True"])
       (use docs in \<open>simp_all only: parts(1) memory_pg.pg_database_axioms simp_thms\<close>)
  then obtain s s' where built: "SimulationEngine ?env demo_config [(''configs/azure_cluster.yaml'', [])] = Inr (se\<lparr>se_postgres := s\<rparr>)"
    and ran: "run ?env (se\<lparr>se_postgres := s\<rparr>) = Inr (se'\<lparr>se_postgres := s'\<rparr>, rep)"
    and rows: "map_option size (memory_tables (pg_state s') Experiment_results) = Some 4"
      "memory_tables (pg_state s') Experiment_summaries =
         Some {#summary_cells (ec_name demo_config) (policy_name (nm_policy (se_control_plane se'))) rep#}"
    by (auto simp: parts(2) four memory_tables_def)
  have "pg_state (se_postgres (se'\<lparr>se_postgres := s'\<rparr>)) = pg_state s'"
    "se_control_plane (se'\<lparr>se_postgres := s'\<rparr>) = se_control_plane se'" by simp_all
  with built ran rows show ?thesis by (metis (no_types, lifting))
qed

text \<open>The engine of the example with an empty Redis.\<close>

definition demo_redis :: "memory_client redis_store" where
  "demo_redis = RedisDecisionStore memory_redis None ''redis://localhost:6379/0'' True"

definition demo_redis_env :: "(memory_client, unit, unit, int) engine_env" where
  "demo_redis_env = demo_engine_env\<lparr>ee_platform := demo_platform\<lparr>pf_redis_store := demo_redis\<rparr>, ee_redis_store := demo_redis\<rparr>"

lemma demo_redis_empty:
  "fetch_cache_affinity memory_redis k demo_redis = Inr None" "rs_enabled demo_redis" "rs_client demo_redis = Some []"
  by (simp_all add: demo_redis_def RedisDecisionStore_def memory_redis_def fetch_cache_affinity_def)

lemma demo_redis_local: "local_env n demo_redis_env"
  using demo_local_env [of n] mirror_room_empty [of memory_redis demo_redis n] demo_redis_empty(1)
  by (simp add: local_env_def demo_redis_env_def demo_engine_env_def demo_platform_def platform_ok_def)

theorem redis_holds_decisions_witness:
  "\<exists>se se' rep. SimulationEngine demo_redis_env demo_config [(''configs/azure_cluster.yaml'', [])] = Inr se \<and>
     run demo_redis_env se = Inr (se', rep) \<and> length (mc_results (se_metrics se')) = 4 \<and>
     list_all (\<lambda>res. read_decision memory_redis (rq_request_id (rr_request res)) (se_redis_store se') =
       Inr (Some (JDict (to_dict res)))) (mc_results (se_metrics se'))"
proof -
  have plane: "\<exists>plane. NimbusMeshControlPlane (ee_platform demo_redis_env) demo_config = Inr plane"
    using demo_constructed
    by (auto simp: NimbusMeshControlPlane_def result_simps demo_redis_env_def demo_platform_def build_policy_def policy_registry_def)
  then obtain se where se: "SimulationEngine demo_redis_env demo_config [(''configs/azure_cluster.yaml'', [])] = Inr se"
    using parts_constructed [of demo_redis_env demo_config] by (auto simp: demo_redis_env_def demo_engine_env_def)
  have w: "ec_workload demo_config = demo_workload" "wc_request_count demo_workload = 4" "workload_ok (ec_workload demo_config)"
    using demo_workload_ok by (simp_all add: demo_config_def demo_workload_def)
  have "rng_ok (we_rng (ee_workload demo_redis_env))" using demo_redis_local [of 0] by (simp add: local_env_def)
  from generated_workload [OF this w(3), of "ec_seed demo_config"] obtain requests state where
    gen: "generate_requests (ee_workload demo_redis_env) (ec_workload demo_config) (ec_seed demo_config) = Inr (requests, state)"
      "length requests = 4" "distinct (map rq_request_id requests)" "\<forall>r \<in> set requests. request_ok r" using w(1,2) by auto
  have store: "ee_redis_store demo_redis_env = demo_redis" "pf_redis (ee_platform demo_redis_env) = memory_redis"
    by (simp_all add: demo_redis_env_def demo_platform_def)
  have "0 + length requests \<le> 20000" using gen(2) by simp
  from redis_holds_decisions [OF demo_redis_local demo_config_ok se gen(1,4,3) this] se gen(2) demo_redis_empty(2,3)
  show ?thesis unfolding store list_all_iff by (metis length_map option.discI)
qed

end
