(* ===== verification/GrpcRuntime.thy ===== *)
theory GrpcRuntime
  imports RemoteSchedulers LogFiles
begin

text \<open>
  The start of the gRPC layer: the stubs that \<open>grpc_layer/stub_loader.py\<close> generates and imports, the client
  of \<open>grpc_layer/client.py\<close> built on them and the server process of \<open>grpc_layer/server.py\<close>. The state is
  that of the Python process: its files, \<open>sys.path\<close> and \<open>sys.modules\<close>. The protocol buffer compiler, the
  execution of a module's source text and the \<open>grpc\<close> package are parameters. The locale
  \<open>stub_compiler\<close> states what is relied on: a compiler that succeeds has written both modules and lost no
  file. The lemmas show that the stubs are generated only once, and what client and server do without them.
\<close>

section \<open>The process\<close>

record 'm process =
  pp_files :: files
  pp_sys_path :: "string list"
  pp_modules :: "(string, 'm) dict"

text \<open>\<open>subprocess.run(..., check=True)\<close> of a command, and the execution of a module's source text.\<close>

record 'm stub_env =
  st_executable :: string
  st_root :: string
  st_run :: "string list \<Rightarrow> files \<Rightarrow> files \<times> unit result"
  st_exec :: "string \<Rightarrow> string \<Rightarrow> 'm result"

text \<open>
  \<open>importlib.import_module\<close> for a module that is one file: one already loaded is returned, otherwise the
  first directory of \<open>sys.path\<close> that has the file gives its source.
\<close>

fun find_module :: "string \<Rightarrow> string list \<Rightarrow> files \<Rightarrow> string option" where
  "find_module name [] fs = None"
| "find_module name (dir # path) fs =
     (case map_of fs (join_path dir (name @ ''.py'')) of None \<Rightarrow> find_module name path fs | Some source \<Rightarrow> Some source)"

definition import_module :: "'m stub_env \<Rightarrow> string \<Rightarrow> 'm process \<Rightarrow> 'm process \<times> 'm result" where
  "import_module env name p =
     (case map_of (pp_modules p) name of
        Some m \<Rightarrow> (p, Inr m)
      | None \<Rightarrow>
          (case find_module name (pp_sys_path p) (pp_files p) of
             None \<Rightarrow> (p, Inl (ImportError name))
           | Some source \<Rightarrow>
               (case st_exec env name source of
                  Inl e \<Rightarrow> (p, Inl e)
                | Inr m \<Rightarrow> (p\<lparr>pp_modules := AList.update name m (pp_modules p)\<rparr>, Inr m))))"

section \<open>Stubs\<close>

definition layer_dir :: "'m stub_env \<Rightarrow> string" where
  "layer_dir env = join_path (st_root env) ''grpc_layer''"

definition generated_dir :: "'m stub_env \<Rightarrow> string" where
  "generated_dir env = join_path (layer_dir env) ''generated''"

definition protoc_command :: "'m stub_env \<Rightarrow> string list" where
  "protoc_command env =
     [st_executable env, ''-m'', ''grpc_tools.protoc'', ''-I'' @ layer_dir env, ''--python_out='' @ generated_dir env,
      ''--grpc_python_out='' @ generated_dir env, join_path (layer_dir env) ''scheduler.proto'']"

definition STUBS_FAILED :: string where
  "STUBS_FAILED = ''Failed to generate gRPC stubs. Install grpcio-tools and rerun.''"

definition generate_stubs :: "'m stub_env \<Rightarrow> 'm process \<Rightarrow> 'm process \<times> unit result" where
  "generate_stubs env p =
     (let (fs, outcome) = st_run env (protoc_command env) (pp_files p)
      in (p\<lparr>pp_files := fs\<rparr>, case outcome of Inl _ \<Rightarrow> Inl (RuntimeError STUBS_FAILED) | Inr u \<Rightarrow> Inr u))"

definition stubs_exist :: "'m stub_env \<Rightarrow> files \<Rightarrow> bool" where
  "stubs_exist env fs \<longleftrightarrow> file_exists fs (join_path (generated_dir env) ''scheduler_pb2.py'') \<and>
     file_exists fs (join_path (generated_dir env) ''scheduler_pb2_grpc.py'')"

definition load_stubs :: "'m stub_env \<Rightarrow> 'm process \<Rightarrow> 'm process \<times> ('m \<times> 'm) result" where
  "load_stubs env p =
     (case (if stubs_exist env (pp_files p) then (p, Inr ()) else generate_stubs env p) of
        (p1, Inl e) \<Rightarrow> (p1, Inl e)
      | (p1, Inr _) \<Rightarrow>
          let p2 = (if generated_dir env \<in> set (pp_sys_path p1) then p1
                    else p1\<lparr>pp_sys_path := generated_dir env # pp_sys_path p1\<rparr>)
          in (case import_module env ''scheduler_pb2'' p2 of
                (p3, Inl e) \<Rightarrow> (p3, Inl e)
              | (p3, Inr scheduler_pb2) \<Rightarrow>
                  (case import_module env ''scheduler_pb2_grpc'' p3 of
                     (p4, Inl e) \<Rightarrow> (p4, Inl e)
                   | (p4, Inr scheduler_pb2_grpc) \<Rightarrow> (p4, Inr (scheduler_pb2, scheduler_pb2_grpc)))))"

section \<open>The client\<close>

text \<open>
  \<open>_init_client\<close>: every exception leaves the client unavailable. \<open>call\<close> is the call that
  \<open>SchedulerServiceStub\<close> makes of a channel to the target.
\<close>

definition init_client ::
  "'m stub_env \<Rightarrow> ('m \<Rightarrow> string \<Rightarrow> (placement_request \<Rightarrow> placement_response result) result) \<Rightarrow> string \<Rightarrow>
    'm process \<Rightarrow> 'm process \<times> (placement_request \<Rightarrow> placement_response result) result" where
  "init_client env call target p =
     (let (p', stubs) = load_stubs env p
      in (p', ebind stubs (\<lambda>(scheduler_pb2, scheduler_pb2_grpc). call scheduler_pb2_grpc target)))"

text \<open>The constructor with its environment: the two variables, and whether \<open>grpc\<close> is installed.\<close>

definition client_of ::
  "'m stub_env \<Rightarrow> ('m \<Rightarrow> string \<Rightarrow> (placement_request \<Rightarrow> placement_response result) result) \<Rightarrow> string option \<Rightarrow>
    string option \<Rightarrow> string option \<Rightarrow> bool \<Rightarrow> 'm process \<Rightarrow> 'm process \<times> string \<times> grpc_stub" where
  "client_of env call target target_env use_env grpc_installed p =
     (let default = (case target_env of None \<Rightarrow> ''127.0.0.1:50051'' | Some t \<Rightarrow> t);
          target' = (case target of None \<Rightarrow> default | Some t \<Rightarrow> if t = [] then default else t);
          use = (case use_env of None \<Rightarrow> ''0'' | Some u \<Rightarrow> u)
      in if use = ''1'' \<and> grpc_installed
         then (let (p', outcome) = init_client env call target' p in (p', target', GrpcSchedulerClient use grpc_installed outcome))
         else (p, target', None))"

section \<open>The server\<close>

text \<open>What the program does with the server object of \<open>grpc\<close>, in order.\<close>

datatype server_event =
    Add_servicer
  | Add_insecure_port string
  | Start
  | Wait_for_termination
  | Stop nat

record grpc_server =
  sv_max_workers :: nat
  sv_servicer :: "placement_request \<Rightarrow> placement_response"
  sv_events :: "server_event list"

datatype wait_end = Terminated | KeyboardInterrupt

text \<open>
  \<open>serve\<close>; \<open>bind\<close> is the outcome of \<open>add_insecure_port\<close>, which raises when the address cannot be bound, and
  \<open>outcome\<close> how the wait ends. The constructor of the servicer loads the stubs a second time.
\<close>

definition SchedulerServicer :: "'m stub_env \<Rightarrow> 'm process \<Rightarrow> 'm process \<times> (placement_request \<Rightarrow> placement_response) result" where
  "SchedulerServicer env p = (let (p', stubs) = load_stubs env p in (p', ebind stubs (\<lambda>_. Inr ChoosePlacement)))"

definition serve ::
  "'m stub_env \<Rightarrow> (string \<Rightarrow> unit result) \<Rightarrow> wait_end \<Rightarrow> string \<Rightarrow> int \<Rightarrow> 'm process \<Rightarrow> 'm process \<times> grpc_server result" where
  "serve env bind outcome host port p =
     (case load_stubs env p of
        (p1, Inl e) \<Rightarrow> (p1, Inl e)
      | (p1, Inr _) \<Rightarrow>
          (case SchedulerServicer env p1 of
             (p2, Inl e) \<Rightarrow> (p2, Inl e)
           | (p2, Inr servicer) \<Rightarrow>
               let address = host @ '':'' @ show_int port
               in (p2, ebind (bind address) (\<lambda>_.
                    Inr \<lparr>sv_max_workers = 16, sv_servicer = servicer,
                         sv_events = [Add_servicer, Add_insecure_port address, Start, Wait_for_termination] @
                           (case outcome of Terminated \<Rightarrow> [] | KeyboardInterrupt \<Rightarrow> [Stop 0])\<rparr>))))"

section \<open>Lemmas\<close>

lemma import_module_keeps:
  assumes "import_module env name p = (p', outcome)"
  shows "pp_files p' = pp_files p \<and> pp_sys_path p' = pp_sys_path p \<and>
    (\<forall>other m. map_of (pp_modules p) other = Some m \<longrightarrow> map_of (pp_modules p') other = Some m)"
  using assms by (auto simp: import_module_def dict_simps split: option.splits sum.splits)

lemma import_module_loads: "import_module env name p = (p', Inr m) \<Longrightarrow> map_of (pp_modules p') name = Some m"
  by (auto simp: import_module_def dict_simps split: option.splits sum.splits)

lemma import_module_again: "map_of (pp_modules p) name = Some m \<Longrightarrow> import_module env name p = (p, Inr m)"
  by (simp add: import_module_def)

text \<open>The processes in which loading the stubs has nothing left to do.\<close>

definition stubs_loaded :: "'m stub_env \<Rightarrow> 'm \<times> 'm \<Rightarrow> 'm process \<Rightarrow> bool" where
  "stubs_loaded env stubs p \<longleftrightarrow> stubs_exist env (pp_files p) \<and> generated_dir env \<in> set (pp_sys_path p) \<and>
     map_of (pp_modules p) ''scheduler_pb2'' = Some (fst stubs) \<and> map_of (pp_modules p) ''scheduler_pb2_grpc'' = Some (snd stubs)"

lemma load_stubs_again: "stubs_loaded env stubs p \<Longrightarrow> load_stubs env p = (p, Inr stubs)"
  by (simp add: load_stubs_def stubs_loaded_def import_module_again)

locale stub_compiler =
  fixes env :: "'m stub_env"
  assumes writes_stubs: "st_run env (protoc_command env) fs = (fs', Inr ()) \<Longrightarrow> stubs_exist env fs'"
begin

lemma generated: "generate_stubs env p = (p', Inr ()) \<Longrightarrow> stubs_exist env (pp_files p')"
  using writes_stubs by (auto simp: generate_stubs_def split: prod.splits sum.splits)

lemma load_stubs_loads:
  assumes "load_stubs env p = (p', Inr stubs)"
  shows "stubs_loaded env stubs p'"
proof -
  obtain p1 where p1: "(if stubs_exist env (pp_files p) then (p, Inr ()) else generate_stubs env p) = (p1, Inr ())"
    using assms by (auto simp: load_stubs_def split: prod.splits sum.splits)
  define p2 where "p2 = (if generated_dir env \<in> set (pp_sys_path p1) then p1
    else p1\<lparr>pp_sys_path := generated_dir env # pp_sys_path p1\<rparr>)"
  obtain p3 a b where i: "import_module env ''scheduler_pb2'' p2 = (p3, Inr a)"
    "import_module env ''scheduler_pb2_grpc'' p3 = (p', Inr b)" and stubs: "stubs = (a, b)"
    using assms p1 by (auto simp: load_stubs_def p2_def Let_def split: prod.splits sum.splits)
  have "stubs_exist env (pp_files p1)" using p1 generated by (auto split: if_splits)
  then have "stubs_exist env (pp_files p2)" "generated_dir env \<in> set (pp_sys_path p2)" by (simp_all add: p2_def)
  with import_module_keeps [OF i(1)] import_module_keeps [OF i(2)] import_module_loads [OF i(1)] import_module_loads [OF i(2)] stubs
  show ?thesis by (simp add: stubs_loaded_def)
qed

end

section \<open>A compiler in memory\<close>

definition memory_protoc :: "string list \<Rightarrow> files \<Rightarrow> files \<times> unit result" where
  "memory_protoc command fs =
     (let out = (if length command = 7 then drop 13 (command ! 4) else [])
      in if file_exists fs (last command)
         then (write_text (join_path out ''scheduler_pb2_grpc.py'') ''stubs'' (write_text (join_path out ''scheduler_pb2.py'') ''messages'' fs), Inr ())
         else (fs, Inl (RuntimeError ''CalledProcessError'')))"

definition memory_stub_env :: "string stub_env" where
  "memory_stub_env = \<lparr>st_executable = ''python3'', st_root = ''src'', st_run = memory_protoc, st_exec = (\<lambda>name source. Inr source)\<rparr>"

interpretation memory_stubs: stub_compiler memory_stub_env
proof unfold_locales
  fix fs fs' :: files
  assume "st_run memory_stub_env (protoc_command memory_stub_env) fs = (fs', Inr ())"
  then show "stubs_exist memory_stub_env fs'"
    by (auto simp: memory_stub_env_def memory_protoc_def protoc_command_def stubs_exist_def file_exists_def
        Let_def write_text_def dict_simps split: if_splits)
qed

section \<open>Properties\<close>

text \<open>
  C34: the stubs are generated once. With a compiler that writes the two modules when it succeeds, a process
  that has loaded the stubs has both files, the directory on its search path and both modules, and loading
  them again returns the same modules and changes nothing; in particular \<open>serve\<close>, which loads them twice,
  ends in the process of the first load, and its server has the servicer registered and the address bound
  before it starts, and is stopped exactly when the wait was interrupted.
\<close>

theorem stubs_loaded_once:
  assumes "stub_compiler env" and "load_stubs env p = (p', Inr stubs)"
    and "bind (host @ '':'' @ show_int port) = Inr ()"
  shows "stubs_exist env (pp_files p') \<and> generated_dir env \<in> set (pp_sys_path p') \<and>
    load_stubs env p' = (p', Inr stubs) \<and>
    (\<exists>server. serve env bind outcome host port p = (p', Inr server) \<and> sv_servicer server = ChoosePlacement \<and>
      sv_events server = [Add_servicer, Add_insecure_port (host @ '':'' @ show_int port), Start, Wait_for_termination] @
        (if outcome = KeyboardInterrupt then [Stop 0] else []))"
proof -
  have loaded: "stubs_loaded env stubs p'" by (rule stub_compiler.load_stubs_loads [OF assms(1,2)])
  then have "SchedulerServicer env p' = (p', Inr ChoosePlacement)"
    by (simp add: SchedulerServicer_def load_stubs_again)
  with loaded assms(2,3) load_stubs_again [OF loaded] show ?thesis
    by (cases outcome) (simp_all add: serve_def stubs_loaded_def)
qed

definition demo_process :: "string process" where
  "demo_process = \<lparr>pp_files = [(''src/grpc_layer/scheduler.proto'', ''service'')], pp_sys_path = [''src''], pp_modules = []\<rparr>"

definition loaded_process :: "string process" where
  "loaded_process = \<lparr>pp_files = [(''src/grpc_layer/scheduler.proto'', ''service''),
       (''src/grpc_layer/generated/scheduler_pb2.py'', ''messages''), (''src/grpc_layer/generated/scheduler_pb2_grpc.py'', ''stubs'')],
     pp_sys_path = [''src/grpc_layer/generated'', ''src''],
     pp_modules = [(''scheduler_pb2'', ''messages''), (''scheduler_pb2_grpc'', ''stubs'')]\<rparr>"

lemma demo_load: "load_stubs memory_stub_env demo_process = (loaded_process, Inr (''messages'', ''stubs''))"
  by code_simp

theorem stubs_loaded_once_witness:
  "\<exists>server. serve memory_stub_env (\<lambda>address. Inr ()) KeyboardInterrupt ''0.0.0.0'' 50051 demo_process = (loaded_process, Inr server) \<and>
     last (sv_events server) = Stop 0"
  using stubs_loaded_once [OF memory_stubs.stub_compiler_axioms demo_load,
      of "\<lambda>address. Inr ()" "''0.0.0.0''" 50051 KeyboardInterrupt] by auto

text \<open>
  without a working compiler the gRPC scheduler is switched off, not the program. If the stubs have not
  been generated and the compiler fails, loading them raises the error that names the missing package; the
  client swallows it and is unavailable, so that it never chooses and the caller falls back to the next
  scheduler, while the server process ends with the error; no module is loaded and the search path is as
  before.
\<close>

theorem client_without_stubs:
  assumes "\<not> stubs_exist env (pp_files p)" and "st_run env (protoc_command env) (pp_files p) = (fs, Inl e)"
  shows "load_stubs env p = (p\<lparr>pp_files := fs\<rparr>, Inl (RuntimeError STUBS_FAILED)) \<and>
    serve env bind outcome host port p = (p\<lparr>pp_files := fs\<rparr>, Inl (RuntimeError STUBS_FAILED)) \<and>
    (case client_of env call target target_env (Some ''1'') True p of (p', _, stub) \<Rightarrow>
       p' = p\<lparr>pp_files := fs\<rparr> \<and> grpc_choose stub request candidates = Inr None)"
proof -
  have "load_stubs env p = (p\<lparr>pp_files := fs\<rparr>, Inl (RuntimeError STUBS_FAILED))"
    using assms by (simp add: load_stubs_def generate_stubs_def)
  then show ?thesis
    by (simp add: serve_def client_of_def init_client_def GrpcSchedulerClient_def grpc_choose_def Let_def)
qed

theorem client_without_stubs_witness:
  "load_stubs memory_stub_env (demo_process\<lparr>pp_files := []\<rparr>) = (demo_process\<lparr>pp_files := []\<rparr>, Inl (RuntimeError STUBS_FAILED))"
proof -
  have "st_run memory_stub_env (protoc_command memory_stub_env) [] = ([], Inl (RuntimeError ''CalledProcessError''))" by code_simp
  with client_without_stubs [of memory_stub_env "demo_process\<lparr>pp_files := []\<rparr>" "[]"] show ?thesis
    by (simp add: stubs_exist_def file_exists_def)
qed

end
