(* ===== verification/Terraform.thy ===== *)
theory Terraform
  imports AzureSim
begin

text \<open>
  The export of the Azure inventory as Terraform variables, \<open>scripts/export_azure_to_tfvars.py\<close>. The YAML
  parser is a parameter, and so is Terraform: what its native syntax documents of literals, tuples, objects
  and attributes is the locale \<open>terraform_syntax\<close>. The lemmas show that for every reading with these rules
  the exported text is the variable \<open>resource_groups\<close> with the inventory as its value, and that a \<open>null\<close>
  of the inventory is written as a name that has no value. The least reading, \<open>hcl_expr\<close>, shows that the
  rules can hold.
\<close>

section \<open>Writing\<close>

text \<open>\<open>_to_hcl_literal\<close>.\<close>

fun to_hcl_literal :: "float_text \<Rightarrow> json \<Rightarrow> nat \<Rightarrow> string" where
  "to_hcl_literal ft (JDict d) indent =
     (let space = replicate indent (CHR '' '')
      in join [LF] ([''{''] @ map (\<lambda>(key, item). space @ ''  '' @ key @ '' = '' @ to_hcl_literal ft item (indent + 2)) d @ [space @ ''}'']))"
| "to_hcl_literal ft (JList vs) indent =
     (let space = replicate indent (CHR '' '')
      in if vs = [] then ''[]''
         else join [LF] ([''[''] @ map (\<lambda>item. space @ ''  '' @ to_hcl_literal ft item (indent + 2) @ '','') vs @ [space @ '']'']))"
| "to_hcl_literal ft (JStr s) indent = json_string s"
| "to_hcl_literal ft (JBool b) indent = (if b then ''true'' else ''false'')"
| "to_hcl_literal ft v indent = py_str ft v"

definition json_len :: "json \<Rightarrow> int result" where
  "json_len v =
     (case v of JList vs \<Rightarrow> Inr (int (length vs)) | JDict d \<Rightarrow> Inr (int (length d)) | JStr s \<Rightarrow> Inr (int (length s))
      | _ \<Rightarrow> Inl TypeError)"

definition YAML_REQUIRED :: string where
  "YAML_REQUIRED = ''PyYAML is required. Install with `pip install PyYAML`.''"

text \<open>
  The program; without the YAML package it stops before it starts, and an inventory without a length is
  reported after the file has been written.
\<close>

definition export_tfvars_main ::
  "'q azure_env \<Rightarrow> float_text \<Rightarrow> string \<Rightarrow> string \<Rightarrow> files \<Rightarrow> files \<times> string result" where
  "export_tfvars_main env ft input output fs =
     (case ae_yaml env of
        None \<Rightarrow> (fs, Inl (SystemExit YAML_REQUIRED))
      | Some safe_load \<Rightarrow>
          (case ebind (dict_item fs input (FileNotFoundError input)) (\<lambda>content.
                ebind (safe_load content) (\<lambda>payload.
                json_get payload ''resource_groups'' (JList []))) of
             Inl e \<Rightarrow> (fs, Inl e)
           | Inr resource_groups \<Rightarrow>
               (write_text output (''resource_groups = '' @ to_hcl_literal ft resource_groups 0 @ [LF]) fs,
                ebind (json_len resource_groups) (\<lambda>n.
                Inr (dumps ft (Some 2) False (JDict [(''output'', JStr output), (''resource_groups'', JInt n)]))))))"

section \<open>Terraform's native syntax\<close>

definition ident_char :: "char \<Rightarrow> bool" where
  "ident_char c \<longleftrightarrow> (let n = of_char c :: nat
     in 97 \<le> n \<and> n \<le> 122 \<or> 65 \<le> n \<and> n \<le> 90 \<or> 48 \<le> n \<and> n \<le> 57 \<or> n = 95 \<or> n = 45)"

definition ident :: "string \<Rightarrow> bool" where
  "ident s \<longleftrightarrow> s \<noteq> [] \<and> (\<forall>c \<in> set s. ident_char c) \<and> \<not> is_digit (hd s) \<and> hd s \<noteq> CHR ''-''"

text \<open>
  The body of a quoted template and the string it stands for: every character but the quote, the backslash
  and line breaks stands for itself, and the escapes are those of line feed, carriage return, tab, quote,
  backslash and a code point in four hexadecimal digits. JSON's escapes of backspace and form feed are no
  escapes here.
\<close>

inductive escaped :: "string \<Rightarrow> string \<Rightarrow> bool" where
  no_char: "escaped [] []"
| itself: "c \<notin> {quote, backslash, LF, CR} \<Longrightarrow> escaped t s \<Longrightarrow> escaped (c # t) (c # s)"
| letter: "(e, c) \<in> {(CHR ''n'', LF), (CHR ''r'', CR), (CHR ''t'', CHR 0x09), (quote, quote), (backslash, backslash)} \<Longrightarrow>
    escaped t s \<Longrightarrow> escaped (backslash # e # t) (c # s)"
| code_point: "n < 256 \<Longrightarrow> escaped t s \<Longrightarrow>
    escaped (backslash # ''u00'' @ [hex_digit (n div 16), hex_digit (n mod 16)] @ t) (char_of n # s)"

text \<open>A quoted template is a string unless it has an interpolation or a directive.\<close>

definition plain_template :: "string \<Rightarrow> bool" where
  "plain_template s \<longleftrightarrow> \<not> contains ''${'' s \<and> \<not> contains ''%{'' s \<and> CHR 0x08 \<notin> set s \<and> CHR 0x0C \<notin> set s"

text \<open>Inside brackets line breaks are white space; inside braces they separate the elements of an object.\<close>

definition blank :: "string \<Rightarrow> bool" where
  "blank w \<longleftrightarrow> list_all (\<lambda>c. c = CHR '' '' \<or> c = LF) w"

definition line_break :: "string \<Rightarrow> bool" where
  "line_break w \<longleftrightarrow> blank w \<and> LF \<in> set w"

text \<open>The items of a tuple, each with the white space before it and a comma behind; the elements of an object.\<close>

definition tuple_text :: "string list \<Rightarrow> string list \<Rightarrow> string \<Rightarrow> string" where
  "tuple_text ws ts w = ''['' @ concat (map2 (\<lambda>w t. w @ t @ '','') ws ts) @ w @ '']''"

definition object_text :: "string list \<Rightarrow> string list \<Rightarrow> string list \<Rightarrow> string \<Rightarrow> string" where
  "object_text ws ks ts w = ''{'' @ concat (map2 (\<lambda>w (k, t). w @ k @ '' = '' @ t) ws (zip ks ts)) @ w @ ''}''"

text \<open>
  What is documented of a reading of Terraform's language: \<open>expr t v\<close> says that the text \<open>t\<close> is a constant
  expression with the value \<open>v\<close>, \<open>variables t x\<close> that \<open>t\<close> is a variables file that sets the one variable
  \<open>x\<close>. Numbers are decimal numerals, possibly negated; a tuple may have a comma behind its last item; the
  elements of an object stand on lines of their own and their keys are identifiers, as is the name of an
  attribute, whose expression ends at the end of the line. An identifier that is no literal is a
  reference, which a variables file may not have.
\<close>

locale terraform_syntax =
  fixes ft :: float_text and expr :: "string \<Rightarrow> json \<Rightarrow> bool" and variables :: "string \<Rightarrow> string \<times> json \<Rightarrow> bool"
  assumes truth: "expr (if b then ''true'' else ''false'') (JBool b)"
    and number: "parse_number ft t = Inr (v, []) \<Longrightarrow> expr t v"
    and template: "escaped t s \<Longrightarrow> plain_template s \<Longrightarrow> expr (quote # t @ [quote]) (JStr s)"
    and tuple: "list_all2 expr ts vs \<Longrightarrow> length ws = length ts \<Longrightarrow> list_all blank (w # ws) \<Longrightarrow>
      expr (tuple_text ws ts w) (JList vs)"
    and object: "list_all2 expr ts vs \<Longrightarrow> length ws = length ts \<Longrightarrow> length ks = length ts \<Longrightarrow>
      list_all line_break (w # ws) \<Longrightarrow> list_all ident ks \<Longrightarrow> distinct ks \<Longrightarrow>
      expr (object_text ws ks ts w) (JDict (zip ks vs))"
    and attribute: "ident x \<Longrightarrow> expr t v \<Longrightarrow> variables (x @ '' = '' @ t @ [LF]) (x, v)"
    and reference: "ident x \<Longrightarrow> x \<notin> {''true'', ''false'', ''null''} \<Longrightarrow> \<not> expr x v"

section \<open>The exported text is read as the inventory\<close>

text \<open>Inventories Terraform can hold: no missing values, plain strings, identifiers as keys.\<close>

fun hcl_ok :: "json \<Rightarrow> bool" where
  "hcl_ok (JDict d) \<longleftrightarrow> dict_ok d \<and> (\<forall>(k, v) \<in> set d. ident k \<and> hcl_ok v)"
| "hcl_ok (JList vs) \<longleftrightarrow> (\<forall>v \<in> set vs. hcl_ok v)"
| "hcl_ok (JStr s) \<longleftrightarrow> plain_template s"
| "hcl_ok JNull \<longleftrightarrow> False"
| "hcl_ok v \<longleftrightarrow> True"

lemma join_lines: "join [LF] ([a] @ ys @ [z]) = a @ concat (map (\<lambda>y. LF # y) ys) @ LF # z"
  by (induction ys arbitrary: a) simp_all

lemma tuple_literal:
  assumes "vs \<noteq> []"
  shows "to_hcl_literal ft (JList vs) indent =
    tuple_text (replicate (length vs) (LF # replicate indent (CHR '' '') @ ''  ''))
      (map (\<lambda>v. to_hcl_literal ft v (indent + 2)) vs) (LF # replicate indent (CHR '' ''))"
proof -
  have "concat (map (\<lambda>y. LF # y) (map (\<lambda>v. sp @ ''  '' @ f v @ '','') us)) =
      concat (map2 (\<lambda>w t. w @ t @ '','') (replicate (length us) (LF # sp @ ''  '')) (map f us))" for sp and f :: "json \<Rightarrow> string" and us
    by (induction us) simp_all
  with assms show ?thesis unfolding to_hcl_literal.simps Let_def join_lines tuple_text_def by simp
qed

lemma object_literal:
  "to_hcl_literal ft (JDict d) indent =
    object_text (replicate (length d) (LF # replicate indent (CHR '' '') @ ''  '')) (map fst d)
      (map (\<lambda>(k, v). to_hcl_literal ft v (indent + 2)) d) (LF # replicate indent (CHR '' ''))"
proof -
  have "concat (map (\<lambda>y. LF # y) (map (\<lambda>(k, v). sp @ ''  '' @ k @ '' = '' @ f v) es)) =
      concat (map2 (\<lambda>w (k, t). w @ k @ '' = '' @ t) (replicate (length es) (LF # sp @ ''  ''))
        (zip (map fst es) (map (\<lambda>(k, v). f v) es)))" for sp and f :: "json \<Rightarrow> string" and es
    by (induction es) (auto simp: case_prod_unfold)
  then show ?thesis unfolding to_hcl_literal.simps Let_def join_lines object_text_def by simp
qed

lemma indent_breaks: "line_break (LF # replicate n (CHR '' ''))" "line_break (LF # replicate n (CHR '' '') @ ''  '')"
  by (simp_all add: line_break_def blank_def list_all_iff)

lemma escape_char_escaped:
  assumes "c \<notin> {CHR 0x08, CHR 0x0C}" and "escaped t s"
  shows "escaped (escape_char c @ t) (c # s)"
proof (cases "map_of ESCAPES c")
  case (Some e)
  with map_of_SomeD [OF Some] assms show ?thesis
    by (auto simp: escape_char_def ESCAPES_def intro: letter)
next
  case None
  then have plain: "c \<notin> {quote, backslash, LF, CR}" by (auto simp: ESCAPES_def split: if_splits)
  let ?n = "of_char c :: nat"
  show ?thesis
  proof (cases "32 \<le> ?n \<and> ?n \<le> 126")
    case True
    with None plain assms(2) show ?thesis by (simp add: escape_char_def itself)
  next
    case False
    have "?n < 256" by simp
    from code_point [OF this assms(2)] None False show ?thesis by (auto simp: escape_char_def Let_def)
  qed
qed

lemma json_string_escaped: "plain_template s \<Longrightarrow> \<exists>t. json_string s = quote # t @ [quote] \<and> escaped t s"
proof -
  have "\<forall>c \<in> set s. c \<notin> {CHR 0x08, CHR 0x0C} \<Longrightarrow> escaped (concat (map escape_char s)) s"
    by (induction s) (auto intro: no_char escape_char_escaped)
  then show "plain_template s \<Longrightarrow> ?thesis" by (auto simp: json_string_def plain_template_def)
qed

context terraform_syntax
begin

lemma exported_expr:
  assumes "floats_ok ft" and "hcl_ok v"
  shows "expr (to_hcl_literal ft v indent) v"
  using assms(2)
proof (induction v arbitrary: indent)
  case (JInt k)
  show ?case
    by (rule number) (simp add: parse_number_def scan_show_int int_literal_show py_str_def json_str_def)
next
  case (JFloat x)
  show ?case
    by (rule number) (use assms(1) in \<open>simp add: floats_ok_def parse_number_def py_str_def json_str_def\<close>)
next
  case (JStr s)
  then obtain t where "json_string s = quote # t @ [quote]" "escaped t s" using json_string_escaped by auto
  with template JStr show ?case by simp
next
  case (JBool b)
  show ?case using truth [of b] by simp
next
  case (JList vs)
  show ?case
  proof (cases "vs = []")
    case True
    with tuple [of "[]" "[]" "[]" "[]"] show ?thesis by (simp add: tuple_text_def blank_def)
  next
    case False
    have "list_all2 expr (map (\<lambda>v. to_hcl_literal ft v (indent + 2)) vs) vs"
      using JList by (simp add: list_all2_conv_all_nth)
    then show ?thesis unfolding tuple_literal [OF False]
      by (rule tuple) (use indent_breaks in \<open>auto simp: list_all_iff line_break_def\<close>)
  qed
next
  case (JDict d)
  have "list_all2 expr (map (\<lambda>(k, v). to_hcl_literal ft v (indent + 2)) d) (map snd d)"
    unfolding list_all2_map1 list_all2_map2
  proof (rule list.rel_refl_strong)
    fix p
    assume p: "p \<in> set d"
    with JDict.prems have "hcl_ok (snd p)" by auto
    with JDict.IH [OF p, of "snd p" "indent + 2"] show "expr (case p of (k, v) \<Rightarrow> to_hcl_literal ft v (indent + 2)) (snd p)"
      by (cases p) simp
  qed
  then have "expr (to_hcl_literal ft (JDict d) indent) (JDict (zip (map fst d) (map snd d)))" unfolding object_literal
    by (rule object) (use indent_breaks JDict.prems in \<open>auto simp: list_all_iff dict_ok_def\<close>)
  then show ?case by (simp add: zip_map_fst_snd)
qed simp

lemma exported_variables:
  "floats_ok ft \<Longrightarrow> hcl_ok v \<Longrightarrow>
     variables (''resource_groups = '' @ to_hcl_literal ft v 0 @ [LF]) (''resource_groups'', v)"
  using attribute [of "''resource_groups''", OF _ exported_expr]
  by (simp add: ident_def ident_char_def is_digit_def)

text \<open>A missing value is written as Python's name for it, which is a reference and no value.\<close>

lemma null_has_no_value: "\<not> expr (to_hcl_literal ft JNull indent) v"
  using reference [of "''None''" v] by (simp add: ident_def ident_char_def is_digit_def py_str_def json_str_def)

end

text \<open>The least reading with these rules.\<close>

inductive hcl_expr :: "float_text \<Rightarrow> string \<Rightarrow> json \<Rightarrow> bool" for ft where
  truth: "hcl_expr ft (if b then ''true'' else ''false'') (JBool b)"
| number: "parse_number ft t = Inr (v, []) \<Longrightarrow> hcl_expr ft t v"
| template: "escaped t s \<Longrightarrow> plain_template s \<Longrightarrow> hcl_expr ft (quote # t @ [quote]) (JStr s)"
| tuple: "list_all2 (hcl_expr ft) ts vs \<Longrightarrow> length ws = length ts \<Longrightarrow> list_all blank (w # ws) \<Longrightarrow>
    hcl_expr ft (tuple_text ws ts w) (JList vs)"
| object: "list_all2 (hcl_expr ft) ts vs \<Longrightarrow> length ws = length ts \<Longrightarrow> length ks = length ts \<Longrightarrow>
    list_all line_break (w # ws) \<Longrightarrow> list_all ident ks \<Longrightarrow> distinct ks \<Longrightarrow>
    hcl_expr ft (object_text ws ks ts w) (JDict (zip ks vs))"

inductive hcl_variables :: "float_text \<Rightarrow> string \<Rightarrow> string \<times> json \<Rightarrow> bool" for ft where
  attribute: "ident x \<Longrightarrow> hcl_expr ft t v \<Longrightarrow> hcl_variables ft (x @ '' = '' @ t @ [LF]) (x, v)"

lemma parsed_number_start:
  assumes "parse_number ft t = Inr (v, [])"
  shows "\<not> ident t"
proof -
  obtain u b where "scan_number t = Some (u, b, [])"
    using assms by (auto simp: parse_number_def split: option.splits prod.splits if_splits)
  then obtain c r where "t = c # r" "is_digit c \<or> c = CHR ''-''" using scan_number_first by blast
  then show ?thesis by (auto simp: ident_def)
qed

lemma no_reference:
  assumes "hcl_expr ft x v" and "ident x"
  shows "x \<in> {''true'', ''false''}"
  using assms
proof cases
  case (number)
  with assms(2) parsed_number_start show ?thesis by blast
qed (auto simp: ident_def ident_char_def quote_def tuple_text_def object_text_def)

interpretation hcl: terraform_syntax ft "hcl_expr ft" "hcl_variables ft" for ft
proof (unfold_locales, goal_cases)
  case (7 x v)
  then show ?case using no_reference by blast
qed (fact hcl_expr.intros hcl_variables.intros)+

section \<open>Properties\<close>


definition demo_inventory :: json where
  "demo_inventory = JList [JDict [(''name'', JStr ''AI-cluster-east''), (''aks_clusters'',
     JList [JDict [(''zone'', JStr ''eastus-1''), (''node_count'', JInt 8), (''cost_per_hour'', JFloat (65 / 2)), (''spot'', JBool False)]])],
     JDict [(''name'', JStr ''AI-cluster-west''), (''aks_clusters'', JList [])]]"

definition demo_yaml :: "unit azure_env" where
  "demo_yaml = \<lparr>ae_yaml = Some (\<lambda>s. Inr (JDict [(''resource_groups'', demo_inventory)])), ae_queue = None, ae_put = (\<lambda>v q. Inr q)\<rparr>"

lemma demo_inventory_ok: "hcl_ok demo_inventory"
  by (simp add: demo_inventory_def dict_ok_def ident_def ident_char_def is_digit_def plain_template_def contains_def startswith_def)


text \<open>A missing value in the inventory goes unnoticed: the program reports success and has written a reference.\<close>

lemma null_goes_unnoticed:
  "case export_tfvars_main (demo_yaml\<lparr>ae_yaml := Some (\<lambda>s. Inr (JDict [(''resource_groups'', JList [JDict [(''region'', JNull)]])]))\<rparr>)
     exact_text ''azure.yaml'' ''terraform.tfvars'' [(''azure.yaml'', [])] of (fs, outcome) \<Rightarrow>
     \<not> isl outcome \<and> map_of fs ''terraform.tfvars'' = Some (''resource_groups = ['' @ [LF] @ ''  {'' @ [LF] @
       ''    region = None'' @ [LF] @ ''  },'' @ [LF] @ '']'' @ [LF])"
  by code_simp

end
