(* ===== verification/DataPipeline.thy ===== *)
theory DataPipeline
  imports Workload PyJson
begin

text \<open>
  The data pipeline that turns public datasets into traces: \<open>data_pipeline/schema.py\<close>,
  \<open>data_pipeline/utils.py\<close> and the normalisers of \<open>data_pipeline/normalizers.py\<close>. A value Python
  would hold as \<open>None\<close> (a cell a short record does not have) is \<open>None\<close> here. The text of floats and
  \<open>hash\<close>, which is randomised, are parameters. The lemmas show that every normaliser yields rows a replay accepts, that limits are respected, and that a written
  file is read back unchanged.
\<close>

section \<open>Rows and helpers\<close>

record normalized_row =
  nw_timestamp :: pyfloat
  nw_request_id :: "string option"
  nw_prompt_length :: int
  nw_expected_output_length :: int
  nw_tenant_id :: "string option"
  nw_priority_class :: string
  nw_model_id :: "string option"
  nw_session_id :: "string option"

record pipeline_env =
  pe_files :: "string \<Rightarrow> string option"
  pe_floats :: float_text
  pe_hash :: "json \<Rightarrow> int"

definition pe_loads :: "pipeline_env \<Rightarrow> string \<Rightarrow> json result" where
  "pe_loads env = loads (pe_floats env)"

definition pe_repr :: "pipeline_env \<Rightarrow> json \<Rightarrow> string" where
  "pe_repr env = py_repr (pe_floats env)"

definition pe_show_float :: "pipeline_env \<Rightarrow> pyfloat \<Rightarrow> string" where
  "pe_show_float env = ft_repr (pe_floats env)"

definition NORMALIZED_COLUMNS :: "string list" where
  "NORMALIZED_COLUMNS = [''timestamp'', ''request_id'', ''prompt_length'', ''expected_output_length'', ''tenant_id'',
     ''priority_class'', ''model_id'', ''session_id'']"

definition clamp_priority :: "string option \<Rightarrow> string" where
  "clamp_priority raw =
     (let v = lower (strip (case raw of None \<Rightarrow> [] | Some s \<Rightarrow> s))
      in if v \<in> {''realtime'', ''interactive'', ''best_effort''} then v
         else if v \<in> {''high'', ''p0'', ''critical''} then ''realtime''
         else if v \<in> {''low'', ''p2'', ''batch''} then ''best_effort''
         else ''interactive'')"

definition approx_token_length :: "string \<Rightarrow> int" where
  "approx_token_length content =
     (let stripped = strip content
      in if stripped = [] then 1 else max 1 (py_int (of_nat (length (split_ws stripped)) * 1.33)))"

text \<open>The same on a value that need not be a string: \<open>(text or "").strip()\<close>.\<close>

definition json_token_length :: "json \<Rightarrow> int result" where
  "json_token_length v =
     (case v of JStr s \<Rightarrow> Inr (approx_token_length s)
      | _ \<Rightarrow> if json_truthy v then Inl (AttributeError ''strip'') else Inr (approx_token_length []))"

text \<open>The csv writer renders \<open>None\<close> as an empty field.\<close>

definition cell_text :: "string option \<Rightarrow> string" where
  "cell_text v = (case v of None \<Rightarrow> [] | Some s \<Rightarrow> s)"

definition row_record :: "pipeline_env \<Rightarrow> normalized_row \<Rightarrow> string list" where
  "row_record env row =
     [pe_show_float env (py_round 6 (nw_timestamp row)), cell_text (nw_request_id row),
      show_int (nw_prompt_length row), show_int (nw_expected_output_length row), cell_text (nw_tenant_id row),
      nw_priority_class row, cell_text (nw_model_id row), cell_text (nw_session_id row)]"

definition write_normalized_rows :: "pipeline_env \<Rightarrow> string \<Rightarrow> normalized_row list \<Rightarrow> pipeline_env" where
  "write_normalized_rows env path rows =
     env\<lparr>pe_files := (pe_files env)(path \<mapsto> csv_text (NORMALIZED_COLUMNS # map (row_record env) rows))\<rparr>"

section \<open>Normalisers\<close>

text \<open>
  The loop all normalisers share: it stops once \<open>limit\<close> rows were kept, and a record may be skipped.
\<close>

fun normalize_each ::
  "(nat \<Rightarrow> 'a \<Rightarrow> normalized_row option result) \<Rightarrow> int option \<Rightarrow> nat \<Rightarrow> nat \<Rightarrow> 'a list \<Rightarrow> normalized_row list result" where
  "normalize_each f limit index kept [] = Inr []"
| "normalize_each f limit index kept (x # xs) =
     (if (case limit of None \<Rightarrow> False | Some n \<Rightarrow> n \<le> int kept) then Inr []
      else ebind (f index x) (\<lambda>r. case r of
          None \<Rightarrow> normalize_each f limit (Suc index) kept xs
        | Some row \<Rightarrow> ebind (normalize_each f limit (Suc index) (Suc kept) xs) (\<lambda>rows. Inr (row # rows))))"

definition read_file :: "pipeline_env \<Rightarrow> string \<Rightarrow> string result" where
  "read_file env path = (case pe_files env path of None \<Rightarrow> Inl (FileNotFoundError path) | Some s \<Rightarrow> Inr s)"

text \<open>\<open>float(row.get(k1, row.get(k2, d)))\<close>.\<close>

fun row_number :: "csv_row \<Rightarrow> string list \<Rightarrow> pyfloat \<Rightarrow> pyfloat result" where
  "row_number row [] d = Inr d"
| "row_number row (k # ks) d = (case map_of row k of Some v \<Rightarrow> cell_float v | None \<Rightarrow> row_number row ks d)"

text \<open>An f-string renders \<open>None\<close> as \<open>None\<close>.\<close>

definition cell_str :: "string option \<Rightarrow> string" where
  "cell_str v = (case v of None \<Rightarrow> ''None'' | Some s \<Rightarrow> s)"

definition alibaba_row :: "string \<Rightarrow> nat \<Rightarrow> csv_row \<Rightarrow> normalized_row option result" where
  "alibaba_row default_model index row =
     ebind (row_number row [''start_time''] (of_nat index)) (\<lambda>start_time.
     ebind (row_number row [''task_duration'', ''duration''] 1) (\<lambda>duration.
     ebind (row_number row [''cpu_usage'', ''plan_cpu''] 1) (\<lambda>cpu.
     ebind (row_number row [''memory_usage'', ''plan_mem''] 1) (\<lambda>memory.
     let machine_id = dict_get (Some ''machine-unknown'') row ''machine_id'';
         tenant_id = ''tenant-'' @ cell_str machine_id
     in Inr (Some \<lparr>nw_timestamp = start_time,
          nw_request_id = dict_get (Some (''alibaba-'' @ zfill 7 (show_nat index))) row ''task_id'',
          nw_prompt_length = max 32 (py_int (cpu * 220 + memory * 100)),
          nw_expected_output_length = max 16 (py_int (duration * 40)), nw_tenant_id = Some tenant_id,
          nw_priority_class = clamp_priority (dict_get (Some ''interactive'') row ''priority''),
          nw_model_id = Some default_model,
          nw_session_id = Some (tenant_id @ ''-session-'' @ show_nat (index div 4))\<rparr>)))))"

definition normalize_alibaba_cluster_trace ::
  "pipeline_env \<Rightarrow> string \<Rightarrow> int option \<Rightarrow> string \<Rightarrow> normalized_row list result" where
  "normalize_alibaba_cluster_trace env path limit default_model =
     ebind (read_file env path) (\<lambda>content.
       normalize_each (alibaba_row default_model) limit 0 0 (snd (DictReader content)))"

definition generic_row :: "string \<Rightarrow> nat \<Rightarrow> csv_row \<Rightarrow> normalized_row option result" where
  "generic_row default_model index row =
     ebind (row_number row [''timestamp''] (of_nat index)) (\<lambda>timestamp.
     ebind (row_number row [''prompt_length''] 1) (\<lambda>prompt_length.
     ebind (row_number row [''expected_output_length''] 1) (\<lambda>output_length.
     Inr (Some \<lparr>nw_timestamp = timestamp,
          nw_request_id = dict_get (Some (''generic-'' @ zfill 7 (show_nat index))) row ''request_id'',
          nw_prompt_length = max 1 (py_int prompt_length), nw_expected_output_length = max 1 (py_int output_length),
          nw_tenant_id = dict_get (Some (''tenant-'' @ show_nat (index mod 16))) row ''tenant_id'',
          nw_priority_class = clamp_priority (dict_get (Some ''interactive'') row ''priority_class''),
          nw_model_id = dict_get (Some default_model) row ''model_id'',
          nw_session_id = dict_get (Some (''session-'' @ show_nat (index div 4))) row ''session_id''\<rparr>))))"

definition normalize_generic_workload_csv ::
  "pipeline_env \<Rightarrow> string \<Rightarrow> int option \<Rightarrow> string \<Rightarrow> normalized_row list result" where
  "normalize_generic_workload_csv env path limit default_model =
     ebind (read_file env path) (\<lambda>content.
       normalize_each (generic_row default_model) limit 0 0 (snd (DictReader content)))"

text \<open>\<open>payload if isinstance(payload, list) else payload.get("data", [])\<close>, iterated.\<close>

definition json_records :: "json \<Rightarrow> json list result" where
  "json_records payload =
     (case payload of JList xs \<Rightarrow> Inr xs | _ \<Rightarrow> ebind (json_get payload ''data'' (JList [])) json_iter)"

text \<open>One turn of a conversation: the first non-empty user and assistant texts are kept.\<close>

definition scan_turn :: "json \<Rightarrow> json \<times> json \<Rightarrow> (json \<times> json) result" where
  "scan_turn turn texts =
     (case texts of (prompt, response) \<Rightarrow>
      ebind (json_first turn [''from'', ''role''] (JStr [])) (\<lambda>raw_role.
      ebind (case raw_role of JStr s \<Rightarrow> Inr (lower s) | _ \<Rightarrow> Inl (AttributeError ''lower'')) (\<lambda>role.
      ebind (json_first turn [''value'', ''content''] (JStr [])) (\<lambda>v.
      Inr (if \<not> json_truthy prompt \<and> role \<in> {''human'', ''user''} then (v, response)
           else if \<not> json_truthy response \<and> role \<in> {''gpt'', ''assistant''} then (prompt, v)
           else (prompt, response))))))"

fun scan_turns :: "json list \<Rightarrow> json \<times> json \<Rightarrow> (json \<times> json) result" where
  "scan_turns [] texts = Inr texts"
| "scan_turns (turn # turns) texts =
     ebind (scan_turn turn texts) (\<lambda>texts'.
       if json_truthy (fst texts') \<and> json_truthy (snd texts') then Inr texts' else scan_turns turns texts')"

definition json_hash :: "pipeline_env \<Rightarrow> json \<Rightarrow> int result" where
  "json_hash env v = (case v of JList _ \<Rightarrow> Inl TypeError | JDict _ \<Rightarrow> Inl TypeError | _ \<Rightarrow> Inr (pe_hash env v))"

definition sharegpt_row :: "pipeline_env \<Rightarrow> string \<Rightarrow> nat \<Rightarrow> json \<Rightarrow> normalized_row option result" where
  "sharegpt_row env default_model index record =
     ebind (json_first record [''conversations'', ''conversation''] (JList [])) (\<lambda>conversations.
     if \<not> json_truthy conversations then Inr None
     else ebind (json_iter conversations) (\<lambda>turns.
       ebind (scan_turns turns (JStr [], JStr [])) (\<lambda>(prompt, response).
       ebind (json_token_length prompt) (\<lambda>prompt_length.
       ebind (json_token_length response) (\<lambda>output_length.
       ebind (json_get record ''id'' (JStr (''sharegpt-'' @ zfill 6 (show_nat index)))) (\<lambda>conv_id.
       ebind (json_hash env conv_id) (\<lambda>h.
       let tenant_id = ''sharegpt-'' @ zfill 3 (show_int (h mod 1000))
       in Inr (Some \<lparr>nw_timestamp = of_nat index, nw_request_id = Some (json_str (pe_repr env) conv_id),
            nw_prompt_length = prompt_length, nw_expected_output_length = max 16 output_length,
            nw_tenant_id = Some tenant_id, nw_priority_class = ''interactive'', nw_model_id = Some default_model,
            nw_session_id = Some (tenant_id @ ''-session-'' @ show_nat (index div 6))\<rparr>))))))))"

definition normalize_sharegpt_dataset ::
  "pipeline_env \<Rightarrow> string \<Rightarrow> int option \<Rightarrow> string \<Rightarrow> normalized_row list result" where
  "normalize_sharegpt_dataset env path limit default_model =
     ebind (read_file env path) (\<lambda>content. ebind (pe_loads env content) (\<lambda>payload.
     ebind (json_records payload) (normalize_each (sharegpt_row env default_model) limit 0 0)))"

definition lmsys_row :: "pipeline_env \<Rightarrow> string \<Rightarrow> nat \<Rightarrow> json \<Rightarrow> normalized_row option result" where
  "lmsys_row env default_model index record =
     (let str = json_str (pe_repr env) in
      ebind (json_first record [''prompt'', ''conversation_a'', ''input'', ''question''] (JStr [])) (\<lambda>prompt.
      ebind (json_first record [''response'', ''conversation_b'', ''output'', ''answer''] (JStr [])) (\<lambda>output.
      ebind (json_first record [''model'', ''model_a''] (JStr default_model)) (\<lambda>model_id.
      ebind (json_first record [''user_id''] (JStr (''arena-'' @ zfill 3 (show_nat (index mod 64))))) (\<lambda>tenant.
      ebind (json_get record ''id'' (JStr (''lmsys-'' @ zfill 6 (show_nat index)))) (\<lambda>request_id.
      Inr (Some \<lparr>nw_timestamp = of_nat index, nw_request_id = Some (str request_id),
           nw_prompt_length = approx_token_length (str prompt),
           nw_expected_output_length = max 16 (approx_token_length (str output)),
           nw_tenant_id = Some (str tenant),
           nw_priority_class = (if index mod 5 = 0 then ''realtime'' else ''interactive''),
           nw_model_id = Some (str model_id),
           nw_session_id = Some (str tenant @ ''-session-'' @ show_nat (index div 8))\<rparr>)))))))"

text \<open>\<open>Path(p).suffix\<close>.\<close>

definition path_suffix :: "string \<Rightarrow> string" where
  "path_suffix p =
     (let name = rev (takeWhile (\<lambda>c. c \<noteq> CHR ''/'') (rev p));
          ext = rev (takeWhile (\<lambda>c. c \<noteq> CHR ''.'') (rev name))
      in if ext \<noteq> [] \<and> length ext + 1 < length name then CHR ''.'' # ext else [])"

definition row_json :: "csv_row \<Rightarrow> json" where
  "row_json row = JDict (map (\<lambda>(k, v). (k, opt_str v)) row)"

definition normalize_lmsys_dataset ::
  "pipeline_env \<Rightarrow> string \<Rightarrow> int option \<Rightarrow> string \<Rightarrow> normalized_row list result" where
  "normalize_lmsys_dataset env path limit default_model =
     ebind (read_file env path) (\<lambda>content.
     ebind (if lower (path_suffix path) = ''.json'' then pe_loads env content
            else Inr (JList (map row_json (snd (DictReader content))))) (\<lambda>records.
     ebind (json_records records) (normalize_each (lmsys_row env default_model) limit 0 0)))"

definition instruction_row :: "pipeline_env \<Rightarrow> string \<Rightarrow> nat \<Rightarrow> json \<Rightarrow> normalized_row option result" where
  "instruction_row env default_model index record =
     (let str = json_str (pe_repr env) in
      ebind (json_first record [''instruction'', ''prompt'', ''query''] (JStr [])) (\<lambda>instruction.
      ebind (json_first record [''context''] (JStr [])) (\<lambda>context.
      ebind (json_first record [''output'', ''response'', ''answer''] (JStr [])) (\<lambda>output.
      ebind (json_get record ''id'' (JStr (''open-llm-'' @ zfill 7 (show_nat index)))) (\<lambda>request_id.
      let tenant = ''open-llm-'' @ zfill 2 (show_nat (index mod 48))
      in Inr (Some \<lparr>nw_timestamp = of_nat index, nw_request_id = Some (str request_id),
           nw_prompt_length = approx_token_length (strip (str instruction @ [LF] @ str context)),
           nw_expected_output_length = max 16 (approx_token_length (str output)), nw_tenant_id = Some tenant,
           nw_priority_class = ''interactive'', nw_model_id = Some default_model,
           nw_session_id = Some (tenant @ ''-session-'' @ show_nat (index div 5))\<rparr>))))))"

definition normalize_instruction_dataset ::
  "pipeline_env \<Rightarrow> string \<Rightarrow> int option \<Rightarrow> string \<Rightarrow> normalized_row list result" where
  "normalize_instruction_dataset env path limit default_model =
     ebind (read_file env path) (\<lambda>content. ebind (pe_loads env content) (\<lambda>records.
     ebind (json_records records) (normalize_each (instruction_row env default_model) limit 0 0)))"

type_synonym normalizer = "pipeline_env \<Rightarrow> string \<Rightarrow> int option \<Rightarrow> string \<Rightarrow> normalized_row list result"

definition NORMALIZER_REGISTRY :: "(string, normalizer) dict" where
  "NORMALIZER_REGISTRY =
     [(''alibaba'', normalize_alibaba_cluster_trace), (''sharegpt'', normalize_sharegpt_dataset),
      (''lmsys'', normalize_lmsys_dataset), (''openorca'', normalize_instruction_dataset),
      (''ultrachat'', normalize_instruction_dataset), (''dolly'', normalize_instruction_dataset),
      (''mlperf'', normalize_generic_workload_csv), (''azure_retail'', normalize_generic_workload_csv),
      (''generic_csv'', normalize_generic_workload_csv)]"

section \<open>The pipeline\<close>

text \<open>
  \<open>scripts/normalize_workloads.py\<close>: the jobs of a parsed pipeline configuration, in order. A job that
  is not a mapping is skipped; an unknown normaliser is a \<open>KeyError\<close>.
\<close>

definition run_job :: "json \<Rightarrow> pipeline_env \<times> json list \<Rightarrow> (pipeline_env \<times> json list) result" where
  "run_job job state =
     (case state of (env, outputs) \<Rightarrow>
      case job of JDict d \<Rightarrow>
        let str = json_str (pe_repr env) in
        ebind (dict_item d ''normalizer'' (KeyError ''normalizer'')) (\<lambda>name.
        ebind (dict_item d ''input'' (KeyError ''input'')) (\<lambda>input.
        ebind (dict_item d ''output'' (KeyError ''output'')) (\<lambda>output.
        ebind (case dict_get JNull d ''limit'' of JNull \<Rightarrow> Inr None | v \<Rightarrow> ebind (json_int v) (\<lambda>n. Inr (Some n))) (\<lambda>limit.
        ebind (dict_item NORMALIZER_REGISTRY (str name) (KeyError (str name))) (\<lambda>normalizer.
        ebind (normalizer env (str input) limit (str (dict_get (JStr ''llama-3-8b'') d ''default_model''))) (\<lambda>rows.
        Inr (write_normalized_rows env (str output) rows,
             outputs @ [JDict [(''normalizer'', JStr (str name)), (''input'', JStr (str input)),
               (''output'', JStr (str output)), (''rows'', JInt (int (length rows)))]])))))))
      | _ \<Rightarrow> Inr state)"

definition run_pipeline :: "json \<Rightarrow> pipeline_env \<Rightarrow> (pipeline_env \<times> json list) result" where
  "run_pipeline payload env =
     (case payload of JDict d \<Rightarrow>
        (case dict_get (JList []) d ''jobs'' of JList jobs \<Rightarrow> efold run_job jobs (env, [])
         | _ \<Rightarrow> Inl (ValueError ''`jobs` must be a list.''))
      | _ \<Rightarrow> Inl (ValueError ''Pipeline config must be a YAML mapping.''))"

section \<open>What a normaliser promises\<close>

text \<open>A row a replay accepts.\<close>

definition row_ok :: "normalized_row \<Rightarrow> bool" where
  "row_ok row \<longleftrightarrow> 1 \<le> nw_prompt_length row \<and> 1 \<le> nw_expected_output_length row \<and>
     nw_priority_class row \<in> {''realtime'', ''interactive'', ''best_effort''}"

definition within_limit :: "int option \<Rightarrow> nat \<Rightarrow> bool" where
  "within_limit limit n \<longleftrightarrow> (case limit of None \<Rightarrow> True | Some l \<Rightarrow> n \<le> nat l)"

text \<open>
  The contract of the function that turns one record into a row, and what the shared loop makes of it.
\<close>

locale row_source =
  fixes to_row :: "nat \<Rightarrow> 'a \<Rightarrow> normalized_row option result"
  assumes row_valid: "to_row i x = Inr (Some row) \<Longrightarrow> row_ok row"
begin

lemma rows_valid:
  "normalize_each to_row limit index kept xs = Inr rows \<Longrightarrow> \<forall>row \<in> set rows. row_ok row"
proof (induction xs arbitrary: index kept rows)
  case (Cons x xs)
  then show ?case
    using row_valid by (auto simp: result_simps split: if_splits option.splits)
qed simp

lemma rows_limited:
  "normalize_each to_row (Some n) index kept xs = Inr rows \<Longrightarrow> int (length rows) \<le> max 0 (n - int kept)"
proof (induction xs arbitrary: index kept rows)
  case (Cons x xs)
  then show ?case by (fastforce simp: result_simps split: if_splits option.splits)
qed simp

lemma rows_accepted:
  "normalize_each to_row limit 0 0 xs = Inr rows \<Longrightarrow> (\<forall>row \<in> set rows. row_ok row) \<and> within_limit limit (length rows)"
proof -
  assume run: "normalize_each to_row limit 0 0 xs = Inr rows"
  have "int (length rows) \<le> max 0 n" if "limit = Some n" for n using rows_limited [of n 0 0 xs rows] run that by simp
  then have "within_limit limit (length rows)" by (cases limit) (auto simp: within_limit_def)
  with rows_valid [OF run] show ?thesis by simp
qed

end

lemma clamp_priority_class: "clamp_priority raw \<in> {''realtime'', ''interactive'', ''best_effort''}"
  by (simp add: clamp_priority_def Let_def)

lemma clamp_priority_other:
  "clamp_priority raw \<noteq> ''realtime'' \<Longrightarrow> clamp_priority raw \<noteq> ''best_effort'' \<Longrightarrow> clamp_priority raw = ''interactive''"
  using clamp_priority_class [of raw] by simp

lemma clamp_priority_idem:
  "c \<in> {''realtime'', ''interactive'', ''best_effort''} \<Longrightarrow> clamp_priority (Some c) = c"
proof -
  have "clamp_priority (Some ''realtime'') = ''realtime''" "clamp_priority (Some ''interactive'') = ''interactive''"
    "clamp_priority (Some ''best_effort'') = ''best_effort''" by code_simp+
  then show "c \<in> {''realtime'', ''interactive'', ''best_effort''} \<Longrightarrow> clamp_priority (Some c) = c" by auto
qed

lemma approx_token_length_pos: "1 \<le> approx_token_length s"
  by (simp add: approx_token_length_def Let_def)

lemma json_token_length_pos: "json_token_length v = Inr n \<Longrightarrow> 1 \<le> n"
  using approx_token_length_pos by (auto simp: json_token_length_def split: json.splits if_splits)

interpretation alibaba: row_source "alibaba_row default_model" for default_model
  by unfold_locales (auto simp: alibaba_row_def result_simps Let_def row_ok_def intro: clamp_priority_other)

interpretation generic: row_source "generic_row default_model" for default_model
  by unfold_locales (auto simp: generic_row_def result_simps Let_def row_ok_def intro: clamp_priority_other)

interpretation sharegpt: row_source "sharegpt_row env default_model" for env default_model
  by unfold_locales
     (auto simp: sharegpt_row_def result_simps Let_def row_ok_def split: if_splits dest!: json_token_length_pos)

lemma two_classes:
  "(if b then ''realtime'' else ''interactive'') = ''realtime'' \<longleftrightarrow> b"
  "(if b then ''realtime'' else ''interactive'') = ''interactive'' \<longleftrightarrow> \<not> b"
  by simp_all

interpretation lmsys: row_source "lmsys_row env default_model" for env default_model
  by unfold_locales (auto simp: lmsys_row_def result_simps Let_def row_ok_def approx_token_length_pos two_classes)

interpretation instruction: row_source "instruction_row env default_model" for env default_model
  by unfold_locales (auto simp: instruction_row_def result_simps Let_def row_ok_def approx_token_length_pos)

lemma registry_cases:
  assumes "map_of NORMALIZER_REGISTRY name = Some normalizer"
  shows "normalizer \<in> {normalize_alibaba_cluster_trace, normalize_sharegpt_dataset, normalize_lmsys_dataset,
    normalize_instruction_dataset, normalize_generic_workload_csv}"
  using map_of_SomeD [OF assms] by (auto simp: NORMALIZER_REGISTRY_def)

lemma registry_rows:
  assumes "map_of NORMALIZER_REGISTRY name = Some normalizer" and "normalizer env path limit model = Inr rows"
  shows "(\<forall>row \<in> set rows. row_ok row) \<and> within_limit limit (length rows)"
proof -
  from registry_cases [OF assms(1)] consider "normalizer = normalize_alibaba_cluster_trace"
    | "normalizer = normalize_sharegpt_dataset" | "normalizer = normalize_lmsys_dataset"
    | "normalizer = normalize_instruction_dataset" | "normalizer = normalize_generic_workload_csv" by blast
  then show ?thesis
  proof cases
    case 1
    with assms(2) show ?thesis by (auto simp: normalize_alibaba_cluster_trace_def result_simps dest!: alibaba.rows_accepted)
  next
    case 2
    with assms(2) show ?thesis by (auto simp: normalize_sharegpt_dataset_def result_simps dest!: sharegpt.rows_accepted)
  next
    case 3
    with assms(2) show ?thesis by (auto simp: normalize_lmsys_dataset_def result_simps dest!: lmsys.rows_accepted)
  next
    case 4
    with assms(2) show ?thesis by (auto simp: normalize_instruction_dataset_def result_simps dest!: instruction.rows_accepted)
  next
    case 5
    with assms(2) show ?thesis by (auto simp: normalize_generic_workload_csv_def result_simps dest!: generic.rows_accepted)
  qed
qed

text \<open>
  whatever a registered normaliser returns, whichever dataset it reads, is a list of at most
  \<open>limit\<close> rows with positive lengths and a known SLA class.
\<close>

theorem normalizers_valid:
  assumes "map_of NORMALIZER_REGISTRY name = Some normalizer" and "normalizer env path limit model = Inr rows"
  shows "(\<forall>row \<in> set rows. 1 \<le> nw_prompt_length row \<and> 1 \<le> nw_expected_output_length row \<and>
      nw_priority_class row \<in> {''realtime'', ''interactive'', ''best_effort''}) \<and>
    (case limit of None \<Rightarrow> True | Some n \<Rightarrow> length rows \<le> nat n)"
  using registry_rows [OF assms] by (simp add: row_ok_def within_limit_def)

section \<open>Reading back a written file\<close>

text \<open>
  What the rendering of floats has to satisfy: a time stamp rounded to six digits is read back, and
  its text has no carriage return.
\<close>

definition float_text_ok :: "pipeline_env \<Rightarrow> bool" where
  "float_text_ok env \<longleftrightarrow>
     (\<forall>x. parse_float (pe_show_float env (py_round 6 x)) = Some (py_round 6 x) \<and> CR \<notin> set (pe_show_float env (py_round 6 x)))"

definition text_ok :: "string option \<Rightarrow> bool" where
  "text_ok v \<longleftrightarrow> (case v of None \<Rightarrow> False | Some s \<Rightarrow> CR \<notin> set s)"

text \<open>A row all of whose fields the file can hold.\<close>

definition writable_row :: "normalized_row \<Rightarrow> bool" where
  "writable_row row \<longleftrightarrow> row_ok row \<and> text_ok (nw_request_id row) \<and> text_ok (nw_tenant_id row) \<and>
     text_ok (nw_model_id row) \<and> text_ok (nw_session_id row)"

definition stored_row :: "normalized_row \<Rightarrow> normalized_row" where
  "stored_row row = row\<lparr>nw_timestamp := py_round 6 (nw_timestamp row)\<rparr>"

lemma written_dict:
  "dict_row NORMALIZED_COLUMNS (row_record env row) =
     [(''timestamp'', Some (pe_show_float env (py_round 6 (nw_timestamp row)))),
      (''request_id'', Some (cell_text (nw_request_id row))), (''prompt_length'', Some (show_int (nw_prompt_length row))),
      (''expected_output_length'', Some (show_int (nw_expected_output_length row))),
      (''tenant_id'', Some (cell_text (nw_tenant_id row))), (''priority_class'', Some (nw_priority_class row)),
      (''model_id'', Some (cell_text (nw_model_id row))), (''session_id'', Some (cell_text (nw_session_id row)))]"
  by (simp add: dict_row_def NORMALIZED_COLUMNS_def row_record_def)

lemma text_ok_Some: "text_ok v \<Longrightarrow> Some (cell_text v) = v \<and> CR \<notin> set (cell_text v)"
  by (auto simp: text_ok_def cell_text_def split: option.splits)

lemma sla_class_no_CR: "c \<in> {''realtime'', ''interactive'', ''best_effort''} \<Longrightarrow> CR \<notin> set c"
  by (auto simp: CR_def)

lemma show_int_no_CR: "0 \<le> k \<Longrightarrow> CR \<notin> set (show_int k)"
  by (simp add: show_int_def CR_def)

lemma plain_row_record:
  assumes "float_text_ok env" and "writable_row row"
  shows "plain_record (row_record env row)"
proof -
  have "CR \<notin> set (pe_show_float env (py_round 6 (nw_timestamp row)))" using assms(1) by (simp add: float_text_ok_def)
  moreover have "CR \<notin> set (nw_priority_class row)"
    using assms(2) unfolding writable_row_def row_ok_def by (intro sla_class_no_CR) blast
  moreover have "CR \<notin> set (show_int (nw_prompt_length row))" "CR \<notin> set (show_int (nw_expected_output_length row))"
    using assms(2) by (simp_all add: show_int_no_CR writable_row_def row_ok_def)
  ultimately show ?thesis using assms(2) by (simp add: plain_record_def row_record_def writable_row_def text_ok_Some)
qed

lemma written_table:
  assumes "float_text_ok env" and "\<forall>row \<in> set rows. writable_row row"
  shows "DictReader (csv_text (NORMALIZED_COLUMNS # map (row_record env) rows)) =
    (NORMALIZED_COLUMNS, map (\<lambda>row. dict_row NORMALIZED_COLUMNS (row_record env row)) rows)"
proof -
  have "plain_record NORMALIZED_COLUMNS" by (simp add: plain_record_def NORMALIZED_COLUMNS_def CR_def)
  from DictReader_text [OF this, of "map (row_record env) rows"] plain_row_record [OF assms(1)] assms(2) show ?thesis
    by (simp add: comp_def)
qed

lemma generic_row_stored:
  assumes "float_text_ok env" and "writable_row row"
  shows "generic_row model i (dict_row NORMALIZED_COLUMNS (row_record env row)) = Inr (Some (stored_row row))"
proof -
  have ok: "1 \<le> nw_prompt_length row" "1 \<le> nw_expected_output_length row"
    "clamp_priority (Some (nw_priority_class row)) = nw_priority_class row"
    using assms(2) clamp_priority_idem by (auto simp: writable_row_def row_ok_def)
  have "Some (cell_text (nw_request_id row)) = nw_request_id row" "Some (cell_text (nw_tenant_id row)) = nw_tenant_id row"
    "Some (cell_text (nw_model_id row)) = nw_model_id row" "Some (cell_text (nw_session_id row)) = nw_session_id row"
    using assms(2) text_ok_Some by (auto simp: writable_row_def)
  moreover have "parse_float (pe_show_float env (py_round 6 (nw_timestamp row))) = Some (py_round 6 (nw_timestamp row))"
    using assms(1) by (simp add: float_text_ok_def)
  ultimately show ?thesis using ok
    unfolding generic_row_def written_dict by (simp add: cell_float_def dict_get_def stored_row_def)
qed

lemma normalize_each_total:
  assumes "\<And>i x. x \<in> set xs \<Longrightarrow> f i x = Inr (Some (g x))"
  shows "normalize_each f None i k xs = Inr (map g xs)"
  using assms by (induction xs arbitrary: i k) simp_all

lemma written_rows_read_back:
  assumes "float_text_ok env" and "\<forall>row \<in> set rows. writable_row row"
  shows "normalize_generic_workload_csv (write_normalized_rows env path rows) path None model = Inr (map stored_row rows)"
proof -
  let ?dict = "\<lambda>row. dict_row NORMALIZED_COLUMNS (row_record env row)"
  have "normalize_each (generic_row model) None i k (map ?dict rows) = Inr (map stored_row rows)" for i k
    using assms(2)
  proof (induction rows arbitrary: i k)
    case (Cons row rows)
    then show ?case using generic_row_stored [OF assms(1), of row] by simp
  qed simp
  then show ?thesis
    using written_table [OF assms] by (simp add: normalize_generic_workload_csv_def write_normalized_rows_def read_file_def)
qed

text \<open>
  C37: a normalised workload survives its file: reading the file that \<open>write_normalized_rows\<close> wrote
  with the generic normaliser gives the rows back, with their time stamps rounded to six digits,
  whatever commas, quotes and line feeds their fields contain.
\<close>

theorem normalized_file_roundtrip:
  assumes "float_text_ok env" and "\<forall>row \<in> set rows. writable_row row"
  shows "normalize_generic_workload_csv (write_normalized_rows env path rows) path None model =
    Inr (map (\<lambda>row. row\<lparr>nw_timestamp := py_round 6 (nw_timestamp row)\<rparr>) rows)"
  using written_rows_read_back [OF assms, of path model] by (simp add: stored_row_def [abs_def])

section \<open>Replaying a written file\<close>

text \<open>The request a normalised row stands for.\<close>

definition stands_for :: "normalized_row \<Rightarrow> inference_request \<Rightarrow> bool" where
  "stands_for row r \<longleftrightarrow> nw_request_id row = Some (rq_request_id r) \<and> nw_prompt_length row = rq_prompt_tokens r \<and>
     nw_expected_output_length row = rq_generation_tokens r \<and> nw_priority_class row = rq_sla_class r \<and>
     (nw_tenant_id row = Some [] \<or> nw_tenant_id row = Some (rq_tenant_id r)) \<and>
     (nw_model_id row = Some [] \<or> nw_model_id row = Some (rq_model_id r))"

lemma trace_request_written:
  assumes "rng_ok (we_rng wenv)" and "float_text_ok env" and "writable_row row"
  shows "\<exists>r state'. trace_request wenv config seed path first_ts i (dict_row NORMALIZED_COLUMNS (row_record env row)) state =
    Inr (r, state') \<and> stands_for row r"
proof -
  have ok: "1 \<le> nw_prompt_length row" "1 \<le> nw_expected_output_length row"
    "nw_priority_class row \<in> {''realtime'', ''interactive'', ''best_effort''}"
    using assms(3) by (auto simp: writable_row_def row_ok_def)
  have ts: "parse_float (pe_show_float env (py_round 6 (nw_timestamp row))) = Some (py_round 6 (nw_timestamp row))"
    using assms(2) by (simp add: float_text_ok_def)
  have pos: "0 < max 1 (nw_prompt_length row)" "0 < max 1 (nw_expected_output_length row)" by simp_all
  have lat: "0 < dict_get 1800 SLA_LATENCY c" for c by (simp add: dict_get_def SLA_LATENCY_def)
  note ctor = constructed_request [OF _ pos py_round_nonneg lat]
  let ?c = "row_or (dict_row NORMALIZED_COLUMNS (row_record env row)) ''priority_class'' (wc_trace_default_sla config)"
  have cls: "(if ?c \<in> {''realtime'', ''interactive'', ''best_effort''} then ?c else ''interactive'') \<in>
      {''realtime'', ''interactive'', ''best_effort''}" by simp
  have texts: "Some (cell_text (nw_request_id row)) = nw_request_id row" "Some (cell_text (nw_tenant_id row)) = nw_tenant_id row"
    "Some (cell_text (nw_model_id row)) = nw_model_id row"
    using assms(3) text_ok_Some by (auto simp: writable_row_def)
  have sla: "?c = nw_priority_class row" unfolding written_dict using ok(3) by (auto simp: row_or_def dict_get_def)
  have model: "cell_text (nw_model_id row) = [] \<or>
      row_or (dict_row NORMALIZED_COLUMNS (row_record env row)) ''model_id'' (wc_trace_default_model config) = cell_text (nw_model_id row)"
    unfolding written_dict by (auto simp: row_or_def dict_get_def)
  obtain session st where "(if row_or (dict_row NORMALIZED_COLUMNS (row_record env row)) ''session_id'' [] = []
      then pick_session (we_rng wenv) config
        (case Some (cell_text (nw_tenant_id row)) of None \<Rightarrow> ''tenant-unknown'' | Some t \<Rightarrow> if t = [] then ''tenant-unknown'' else t)
        (row_or (dict_row NORMALIZED_COLUMNS (row_record env row)) ''model_id'' (wc_trace_default_model config)) state
      else Inr (row_or (dict_row NORMALIZED_COLUMNS (row_record env row)) ''session_id'' [], state)) = Inr (session, st)"
    using pick_session_total [OF assms(1)] by (metis (no_types, lifting) surj_pair)
  moreover have "row_float (dict_row NORMALIZED_COLUMNS (row_record env row)) ''timestamp'' = Inr (py_round 6 (nw_timestamp row))"
    "row_float (dict_row NORMALIZED_COLUMNS (row_record env row)) ''prompt_length'' = Inr (of_int (nw_prompt_length row))"
    "row_float (dict_row NORMALIZED_COLUMNS (row_record env row)) ''expected_output_length'' = Inr (of_int (nw_expected_output_length row))"
    "dict_item (dict_row NORMALIZED_COLUMNS (row_record env row)) ''tenant_id'' e = Inr (Some (cell_text (nw_tenant_id row)))"
    "dict_get d (dict_row NORMALIZED_COLUMNS (row_record env row)) ''request_id'' = Some (cell_text (nw_request_id row))" for e d
    unfolding written_dict using ts ok(1,2) by (simp_all add: row_float_def dict_item_def cell_float_def dict_get_def)
  ultimately show ?thesis
    unfolding trace_request_def Let_def
    apply (simp only: ebind_Inr prod.case option.case py_int_of_int ctor [OF cls] max.cobounded1)
    apply (intro exI conjI, rule refl)
    using ok texts sla model by (auto simp: stands_for_def)
qed

lemma trace_each_total:
  assumes "\<And>x i state. x \<in> set xs \<Longrightarrow> \<exists>r state'. trace_request env config seed path first_ts i (f x) state = Inr (r, state') \<and> P x r"
  shows "\<exists>rs state'. trace_each env config seed path first_ts i (map f xs) state = Inr (rs, state') \<and> list_all2 P xs rs"
  using assms
proof (induction xs arbitrary: i state)
  case (Cons x xs)
  obtain r st where r: "trace_request env config seed path first_ts i (f x) state = Inr (r, st)" "P x r"
    using Cons.prems [of x i state] by auto
  obtain rs st' where "trace_each env config seed path first_ts (Suc i) (map f xs) st = Inr (rs, st')" "list_all2 P xs rs"
    using Cons.IH [OF Cons.prems] by (metis list.set_intros(2))
  with r show ?case by simp
qed simp

lemma limited_rows_map: "limited_rows config (map f xs) = map f (limited_rows config xs)"
  by (auto simp: limited_rows_def py_prefix_def take_map split: option.splits)

lemma limited_rows_subset: "set (limited_rows config xs) \<subseteq> set xs"
  by (auto simp: limited_rows_def py_prefix_def dest: in_set_takeD split: option.splits)

text \<open>The rows of a file that are replayed.\<close>

definition replayed_rows :: "workload_config \<Rightarrow> 'a list \<Rightarrow> 'a list" where
  "replayed_rows config rows =
     (if 0 < wc_request_count config then take (nat (wc_request_count config)) (limited_rows config rows)
      else limited_rows config rows)"

lemma replayed_rows_length: "length (replayed_rows config rows) \<le> length rows"
  by (auto simp: replayed_rows_def limited_rows_def py_prefix_def split: option.splits)

lemma written_file_replays:
  assumes "rng_ok (we_rng wenv)" and "float_text_ok env" and "\<forall>row \<in> set rows. writable_row row"
    and "we_files wenv path = pe_files (write_normalized_rows env path rows) path"
  shows "\<exists>rs state'. generate_requests_from_trace wenv config seed path state = Inr (rs, state') \<and>
    (\<forall>r \<in> set rs. request_ok r) \<and> list_all2 stands_for (replayed_rows config rows) rs"
proof -
  let ?dict = "\<lambda>row. dict_row NORMALIZED_COLUMNS (row_record env row)"
  let ?content = "csv_text (NORMALIZED_COLUMNS # map (row_record env) rows)"
  let ?limited = "limited_rows config (map ?dict rows)"
  have content: "we_files wenv path = Some ?content" using assms(4) by (simp add: write_normalized_rows_def)
  note table = written_table [OF assms(2,3)]
  have each: "\<exists>r st. trace_request wenv config seed path t i (?dict row) st0 = Inr (r, st) \<and> stands_for row r"
    if "row \<in> set (limited_rows config rows)" for row i t st0
    using that assms(3) trace_request_written [OF assms(1,2)] limited_rows_subset [of config rows] by blast
  have "filter (\<lambda>c. c \<notin> set NORMALIZED_COLUMNS) TRACE_COLUMNS = []" by (simp add: TRACE_COLUMNS_def NORMALIZED_COLUMNS_def)
  moreover obtain first_ts where f: "(case ?limited of [] \<Rightarrow> Inr 0 | row # _ \<Rightarrow> row_float row ''timestamp'') = Inr first_ts"
    using assms(2) by (cases ?limited)
      (auto simp: limited_rows_map row_float_def dict_item_def cell_float_def float_text_ok_def written_dict)
  moreover obtain rs' st where e: "trace_each wenv config seed path first_ts 0 ?limited state = Inr (rs', st)"
    and all: "list_all2 stands_for (limited_rows config rows) rs'"
    using trace_each_total [of "limited_rows config rows" wenv config seed path first_ts ?dict stands_for 0 state] each
    unfolding limited_rows_map by blast
  ultimately have gen: "generate_requests_from_trace wenv config seed path state =
      Inr (if 0 < wc_request_count config then take (nat (wc_request_count config)) rs' else rs', st)"
    by (simp add: generate_requests_from_trace_def content table limited_rows_def [symmetric] py_prefix_def)
  have "\<forall>r \<in> set rs'. request_ok r"
    using trace_each_replayed [OF e] by (auto simp: list_all2_conv_all_nth in_set_conv_nth replayed_def)
  then show ?thesis using gen all by (auto simp: replayed_rows_def dest: in_set_takeD)
qed

text \<open>
  the pipeline feeds the simulator: a file written from normalised rows is replayed without an
  error, one valid request per row up to the configured limits, with the row's identifier, token counts,
  class, tenant and model.
\<close>

theorem normalized_file_replays:
  assumes "rng_ok (we_rng wenv)" and "float_text_ok env" and "\<forall>row \<in> set rows. writable_row row"
    and "we_files wenv path = pe_files (write_normalized_rows env path rows) path"
  shows "\<exists>rs state'. generate_requests_from_trace wenv config seed path state = Inr (rs, state') \<and>
    (\<forall>r \<in> set rs. request_ok r) \<and> list_all2 stands_for (replayed_rows config rows) rs"
  by (rule written_file_replays [OF assms])

section \<open>Examples\<close>

definition demo_pipeline_env :: pipeline_env where
  "demo_pipeline_env = \<lparr>pe_files = (\<lambda>path. if path = ''trace.csv'' then Some demo_trace else None),
     pe_floats = exact_text, pe_hash = (\<lambda>v. 0)\<rparr>"

definition demo_row :: normalized_row where
  "demo_row = \<lparr>nw_timestamp = 1.5, nw_request_id = Some ''a,b'', nw_prompt_length = 12, nw_expected_output_length = 30,
     nw_tenant_id = Some ''copilot'', nw_priority_class = ''realtime'', nw_model_id = Some ''llama-3-8b'',
     nw_session_id = Some ''s 1''\<rparr>"

lemma demo_float_text_ok: "float_text_ok demo_pipeline_env"
proof -
  have "CR \<notin> set (format_fixed 6 x)" for x
  proof
    assume "CR \<in> set (format_fixed 6 x)"
    from format_fixed_chars [OF this] show False by (simp add: CR_def)
  qed
  then show ?thesis by (simp add: float_text_ok_def demo_pipeline_env_def pe_show_float_def exact_text_def exact_repr_def parse_format_fixed)
qed

lemma demo_row_writable: "writable_row demo_row"
  by (simp add: writable_row_def row_ok_def text_ok_def demo_row_def CR_def)

lemma demo_normalized:
  "case normalize_generic_workload_csv demo_pipeline_env ''trace.csv'' (Some 1) ''llama-3-8b'' of
     Inl e \<Rightarrow> False | Inr rows \<Rightarrow> map nw_prompt_length rows = [120]"
  by code_simp

theorem normalizers_valid_witness:
  "\<exists>rows. normalize_generic_workload_csv demo_pipeline_env ''trace.csv'' (Some 1) ''llama-3-8b'' = Inr rows \<and>
     length rows \<le> 1 \<and> map nw_prompt_length rows = [120] \<and> 1 \<le> nw_expected_output_length (hd rows)"
proof -
  obtain rows where rows: "normalize_generic_workload_csv demo_pipeline_env ''trace.csv'' (Some 1) ''llama-3-8b'' = Inr rows"
    "map nw_prompt_length rows = [120]" using demo_normalized by (auto split: sum.splits)
  have "map_of NORMALIZER_REGISTRY ''generic_csv'' = Some normalize_generic_workload_csv" by (simp add: NORMALIZER_REGISTRY_def)
  from normalizers_valid [OF this rows(1)] rows show ?thesis by (cases rows) auto
qed

theorem normalized_file_roundtrip_witness:
  "normalize_generic_workload_csv (write_normalized_rows demo_pipeline_env ''out.csv'' [demo_row]) ''out.csv'' None ''m'' =
     Inr [demo_row\<lparr>nw_timestamp := py_round 6 (nw_timestamp demo_row)\<rparr>]"
  using normalized_file_roundtrip [OF demo_float_text_ok, of "[demo_row]" "''out.csv''" "''m''"] demo_row_writable by simp

theorem normalized_file_replays_witness:
  "\<exists>rs state. generate_requests_from_trace
       (demo_workload_env\<lparr>we_files := pe_files (write_normalized_rows demo_pipeline_env ''out.csv'' [demo_row])\<rparr>)
       demo_workload 7 ''out.csv'' (7, []) = Inr (rs, state) \<and> map rq_request_id rs = [''a,b'']"
proof -
  let ?env = "demo_workload_env\<lparr>we_files := pe_files (write_normalized_rows demo_pipeline_env ''out.csv'' [demo_row])\<rparr>"
  have "rng_ok (we_rng ?env)" using lcg_rng_ok by (simp add: demo_workload_env_def)
  from normalized_file_replays [OF this demo_float_text_ok, of "[demo_row]" "''out.csv''" demo_workload 7 "(7, [])"]
  obtain rs state where "generate_requests_from_trace ?env demo_workload 7 ''out.csv'' (7, []) = Inr (rs, state)"
    "list_all2 stands_for (replayed_rows demo_workload [demo_row]) rs" using demo_row_writable by auto
  moreover from this(2) have "list_all2 stands_for [demo_row] rs" by (simp add: replayed_rows_def limited_rows_def demo_workload_def)
  then obtain r where "rs = [r]" "stands_for demo_row r" by (auto simp: list_all2_Cons1)
  ultimately show ?thesis by (auto simp: stands_for_def demo_row_def)
qed

end
