(* ===== verification/Training.thy ===== *)
theory Training
  imports DataPipeline
begin

text \<open>
  The latency predictor of \<open>ml/latency_predictor.py\<close>: how a CSV file becomes a training set, and the
  training loop over it. The numerics are PyTorch's and a parameter: the network with its optimiser
  has a state \<open>'m\<close>, and one epoch (forward pass, loss, backward pass, optimiser step) maps the state to
  the next one and the loss; saving it gives a text. The lemmas describe the training set of a normalised workload file, which
  has no latency column.
\<close>

record latency_predictor_config =
  lp_epochs :: int
  lp_learning_rate :: pyfloat
  lp_hidden_size :: int

definition LatencyPredictorConfig :: "int \<Rightarrow> latency_predictor_config" where
  "LatencyPredictorConfig epochs = \<lparr>lp_epochs = epochs, lp_learning_rate = 0.001, lp_hidden_size = 32\<rparr>"

record 'm torch =
  th_sequential :: "int \<Rightarrow> 'm"
  th_adam :: "pyfloat \<Rightarrow> 'm \<Rightarrow> 'm"
  th_epoch :: "pyfloat list list \<Rightarrow> pyfloat list \<Rightarrow> 'm \<Rightarrow> 'm \<times> pyfloat"
  th_save :: "'m \<Rightarrow> string"

record 'm latency_predictor =
  pd_config :: latency_predictor_config
  pd_model :: 'm

definition torch_module :: "'m torch option \<Rightarrow> 'm torch result" where
  "torch_module torch =
     (case torch of None \<Rightarrow> Inl (RuntimeError ''PyTorch is required for LatencyPredictor.'') | Some t \<Rightarrow> Inr t)"

definition LatencyPredictor :: "'m torch option \<Rightarrow> latency_predictor_config \<Rightarrow> 'm latency_predictor result" where
  "LatencyPredictor torch config =
     ebind (torch_module torch) (\<lambda>t. Inr \<lparr>pd_config = config, pd_model = th_sequential t (lp_hidden_size config)\<rparr>)"

text \<open>One row: the five features and the label.\<close>

definition training_row :: "csv_row \<Rightarrow> (pyfloat list \<times> pyfloat) result" where
  "training_row row =
     ebind (row_number row [''prompt_length''] 0) (\<lambda>prompt_length.
     ebind (row_number row [''expected_output_length''] 0) (\<lambda>expected_output_length.
     ebind (case map_of row ''tenant_id'' of None \<Rightarrow> Inr 0 | Some None \<Rightarrow> Inl TypeError
            | Some (Some tenant) \<Rightarrow> Inr (of_nat (length tenant))) (\<lambda>tenant_length.
     ebind (row_number row [''observed_latency_ms'', ''latency_ms''] 0) (\<lambda>label.
     Inr ([prompt_length, expected_output_length,
           if map_of row ''priority_class'' = Some (Some ''realtime'') then 1 else 0,
           if map_of row ''priority_class'' = Some (Some ''best_effort'') then 1 else 0,
           tenant_length], label)))))"

definition training_set :: "pipeline_env \<Rightarrow> string \<Rightarrow> (pyfloat list list \<times> pyfloat list) result" where
  "training_set env path =
     ebind (read_file env path) (\<lambda>content.
       let rows = snd (DictReader content)
       in if rows = [] then Inl (ValueError ''No rows found for training.'')
          else ebind (emap training_row rows) (\<lambda>xs. Inr (map fst xs, map snd xs)))"

text \<open>The loop over the epochs; the last loss is returned.\<close>

fun train_epochs :: "'m torch \<Rightarrow> pyfloat list list \<Rightarrow> pyfloat list \<Rightarrow> nat \<Rightarrow> 'm \<times> pyfloat \<Rightarrow> 'm \<times> pyfloat" where
  "train_epochs t x y 0 state = state"
| "train_epochs t x y (Suc n) state = train_epochs t x y n (th_epoch t x y (fst state))"

definition train_from_csv ::
  "'m torch option \<Rightarrow> pipeline_env \<Rightarrow> string \<Rightarrow> 'm latency_predictor \<Rightarrow> ('m latency_predictor \<times> pyfloat) result" where
  "train_from_csv torch env path p =
     ebind (torch_module torch) (\<lambda>t.
     ebind (training_set env path) (\<lambda>(x, y).
       let start = th_adam t (lp_learning_rate (pd_config p)) (pd_model p);
           (model, final_loss) = train_epochs t x y (nat (lp_epochs (pd_config p))) (start, 0)
       in Inr (p\<lparr>pd_model := model\<rparr>, final_loss)))"

text \<open>Saving the weights; \<open>th_save\<close> is what \<open>torch.save\<close> writes for the state of the network.\<close>

definition predictor_save :: "'m torch option \<Rightarrow> string \<Rightarrow> 'm latency_predictor \<Rightarrow> pipeline_env \<Rightarrow> pipeline_env result" where
  "predictor_save torch path p env =
     ebind (torch_module torch) (\<lambda>t. Inr (env\<lparr>pe_files := (pe_files env)(path \<mapsto> th_save t (pd_model p))\<rparr>))"

section \<open>Training on a normalised workload\<close>

definition features_of :: "normalized_row \<Rightarrow> pyfloat list" where
  "features_of row = [of_int (nw_prompt_length row), of_int (nw_expected_output_length row),
     if nw_priority_class row = ''realtime'' then 1 else 0, if nw_priority_class row = ''best_effort'' then 1 else 0,
     of_nat (length (cell_text (nw_tenant_id row)))]"

lemma training_row_written:
  assumes "writable_row row"
  shows "training_row (dict_row NORMALIZED_COLUMNS (row_record env row)) = Inr (features_of row, 0)"
proof -
  have "0 \<le> nw_prompt_length row" "0 \<le> nw_expected_output_length row" using assms by (simp_all add: writable_row_def row_ok_def)
  then show ?thesis unfolding training_row_def written_dict by (simp add: cell_float_def features_of_def)
qed

lemma written_training_set:
  assumes "float_text_ok env" and "\<forall>row \<in> set rows. writable_row row" and "rows \<noteq> []"
  shows "training_set (write_normalized_rows env path rows) path = Inr (map features_of rows, replicate (length rows) 0)"
proof -
  have "emap training_row (map (\<lambda>row. dict_row NORMALIZED_COLUMNS (row_record env row)) rows) =
      Inr (map (\<lambda>row. (features_of row, 0)) rows)"
    using assms(2) by (induction rows) (simp_all add: training_row_written)
  then show ?thesis using written_table [OF assms(1,2)] assms(3)
    by (simp add: training_set_def write_normalized_rows_def read_file_def comp_def map_replicate_const)
qed

text \<open>
  training on the file the pipeline wrote: the features of a row are its token counts, its
  priority class and the length of its tenant's name, but every label is 0, since normalised workloads
  have no latency column: whatever the network does with them, it is fitted to zero.
\<close>

theorem trained_on_zero_labels:
  assumes "float_text_ok env" and "\<forall>row \<in> set rows. writable_row row" and "rows \<noteq> []"
  shows "train_from_csv (Some t) (write_normalized_rows env path rows) path p =
    (case train_epochs t (map features_of rows) (replicate (length rows) 0) (nat (lp_epochs (pd_config p)))
       (th_adam t (lp_learning_rate (pd_config p)) (pd_model p), 0) of
       (model, final_loss) \<Rightarrow> Inr (p\<lparr>pd_model := model\<rparr>, final_loss))"
  using written_training_set [OF assms] by (simp add: train_from_csv_def torch_module_def case_prod_unfold Let_def)

text \<open>A network that always predicts zero, whose loss is the mean square of the labels.\<close>

definition zero_torch :: "unit torch" where
  "zero_torch = \<lparr>th_sequential = (\<lambda>n. ()), th_adam = (\<lambda>lr m. m),
     th_epoch = (\<lambda>x y m. (m, sum_list (map (\<lambda>v. v * v) y) / of_nat (length y))), th_save = (\<lambda>m. ''zero'')\<rparr>"

theorem trained_on_zero_labels_witness:
  "train_from_csv (Some zero_torch) (write_normalized_rows demo_pipeline_env ''out.csv'' [demo_row]) ''out.csv''
     \<lparr>pd_config = LatencyPredictorConfig 1, pd_model = ()\<rparr> = Inr (\<lparr>pd_config = LatencyPredictorConfig 1, pd_model = ()\<rparr>, 0)"
proof -
  have "\<forall>row \<in> set [demo_row]. writable_row row" using demo_row_writable by simp
  from trained_on_zero_labels [OF demo_float_text_ok this, of zero_torch "''out.csv''" "\<lparr>pd_config = LatencyPredictorConfig 1, pd_model = ()\<rparr>"]
  show ?thesis by (simp add: LatencyPredictorConfig_def zero_torch_def)
qed

end
