(* ===== verification/Fetchers.thy ===== *)
theory Fetchers
  imports DataPipeline LogFiles
begin

text \<open>
  Fetching the public datasets, \<open>data_pipeline/fetchers.py\<close> and \<open>scripts/fetch_real_datasets.py\<close>. The
  \<open>datasets\<close> package, \<open>git\<close> and the existence of directories are the record \<open>fetch_env\<close>; files and the text
  of floats are those of the pipeline. The lemmas show that what a fetcher stored is what
  the matching normaliser reads.
\<close>

record fetch_env =
  ft_load_dataset :: "(string \<Rightarrow> string \<Rightarrow> (string, json) dict list result) option"
  ft_git_clone :: "string \<Rightarrow> string \<Rightarrow> pipeline_env \<Rightarrow> pipeline_env result"
  ft_is_dir :: "string \<Rightarrow> bool"

definition store_text :: "string \<Rightarrow> string \<Rightarrow> pipeline_env \<Rightarrow> pipeline_env" where
  "store_text path content env = env\<lparr>pe_files := (pe_files env)(path \<mapsto> content)\<rparr>"

definition path_exists :: "fetch_env \<Rightarrow> pipeline_env \<Rightarrow> string \<Rightarrow> bool" where
  "path_exists fe env path \<longleftrightarrow> pe_files env path \<noteq> None \<or> ft_is_dir fe path"

text \<open>The body the five Hugging Face fetchers share; \<open>dataset.take\<close> yields the first rows.\<close>

definition fetch_dataset ::
  "string \<Rightarrow> string \<Rightarrow> string \<Rightarrow> fetch_env \<Rightarrow> string \<Rightarrow> int \<Rightarrow> pipeline_env \<Rightarrow> (pipeline_env \<times> string) result" where
  "fetch_dataset name split file_name fe output_dir sample_size env =
     (case ft_load_dataset fe of
        None \<Rightarrow> Inl (RuntimeError ''`datasets` package is required for Hugging Face dataset download.'')
      | Some load_dataset \<Rightarrow>
          ebind (load_dataset name split) (\<lambda>dataset.
            let records = map JDict (take (nat sample_size) dataset);
                target = join_path output_dir file_name
            in Inr (store_text target (dumps (pe_floats env) None False (JList records)) env, target)))"

type_synonym fetcher = "fetch_env \<Rightarrow> string \<Rightarrow> int \<Rightarrow> pipeline_env \<Rightarrow> (pipeline_env \<times> string) result"

definition fetch_sharegpt :: fetcher where
  "fetch_sharegpt = fetch_dataset ''ShareGPT_Vicuna_unfiltered'' ''train'' ''sharegpt_raw.json''"

definition fetch_lmsys :: fetcher where
  "fetch_lmsys = fetch_dataset ''lmsys/chatbot_arena_conversations'' ''train'' ''lmsys_raw.json''"

definition fetch_openorca :: fetcher where
  "fetch_openorca = fetch_dataset ''Open-Orca/OpenOrca'' ''train'' ''openorca_raw.json''"

definition fetch_ultrachat :: fetcher where
  "fetch_ultrachat = fetch_dataset ''HuggingFaceH4/ultrachat_200k'' ''train_sft'' ''ultrachat_raw.json''"

definition fetch_dolly :: fetcher where
  "fetch_dolly = fetch_dataset ''databricks/databricks-dolly-15k'' ''train'' ''dolly_raw.json''"

definition fetch_alibaba_cluster_trace ::
  "string \<Rightarrow> fetch_env \<Rightarrow> string \<Rightarrow> pipeline_env \<Rightarrow> (pipeline_env \<times> string) result" where
  "fetch_alibaba_cluster_trace repo_url fe output_dir env =
     (let target_root = join_path output_dir ''alibaba_clusterdata''
      in if path_exists fe env target_root then Inr (env, target_root)
         else ebind (ft_git_clone fe repo_url target_root env) (\<lambda>env'. Inr (env', target_root)))"

definition fetch_azure_retail_prices :: "fetch_env \<Rightarrow> string \<Rightarrow> pipeline_env \<Rightarrow> (pipeline_env \<times> string) result" where
  "fetch_azure_retail_prices fe output_dir env =
     (let target = join_path output_dir ''azure_retail_prices.json''
      in if path_exists fe env target then Inr (env, target)
         else Inl (RuntimeError ''Azure Retail Prices should be fetched from Microsoft's AzureRetailPrices repo/API and stored as JSON.''))"

definition MLPERF_NOTE :: string where
  "MLPERF_NOTE =
     ''Download MLPerf inference benchmark artifacts from https://mlcommons.org/en/inference-datacenter/ '' @
     ''and place normalized CSV in data/raw/mlperf.csv for ingestion with generic_csv normalizer.'' @ [LF]"

definition fetch_mlperf_reference :: "fetch_env \<Rightarrow> string \<Rightarrow> pipeline_env \<Rightarrow> (pipeline_env \<times> string) result" where
  "fetch_mlperf_reference fe output_dir env =
     (let target = join_path output_dir ''mlperf_reference.txt''
      in if path_exists fe env target then Inr (env, target)
         else Inr (store_text target MLPERF_NOTE env, target))"

text \<open>
  The registry as \<open>scripts/fetch_real_datasets.py\<close> uses it: the sample size reaches the fetchers of
  \<open>sharegpt\<close> and \<open>lmsys\<close>, the other ones run with their default of 10000.
\<close>

definition FETCH_REGISTRY :: "(string, fetcher) dict" where
  "FETCH_REGISTRY =
     [(''sharegpt'', fetch_sharegpt), (''lmsys'', fetch_lmsys), (''openorca'', fetch_openorca),
      (''ultrachat'', fetch_ultrachat), (''dolly'', fetch_dolly),
      (''alibaba'', \<lambda>fe output_dir sample_size. fetch_alibaba_cluster_trace ''https://github.com/alibaba/clusterdata'' fe output_dir),
      (''azure_retail'', \<lambda>fe output_dir sample_size. fetch_azure_retail_prices fe output_dir),
      (''mlperf'', \<lambda>fe output_dir sample_size. fetch_mlperf_reference fe output_dir)]"

definition fetch_main :: "fetch_env \<Rightarrow> string \<Rightarrow> string \<Rightarrow> int \<Rightarrow> pipeline_env \<Rightarrow> (pipeline_env \<times> json) result" where
  "fetch_main fe dataset output_dir sample_size env =
     ebind (dict_item FETCH_REGISTRY dataset (KeyError dataset)) (\<lambda>fetcher.
     ebind (if dataset \<in> {''sharegpt'', ''lmsys''} then fetcher fe output_dir sample_size env else fetcher fe output_dir 10000 env)
       (\<lambda>(env', target). Inr (env', JDict [(''dataset'', JStr dataset), (''output'', JStr target)])))"

section \<open>Lemmas\<close>

lemma fetched_file:
  assumes "ft_load_dataset fe = Some ld" and "ld name split = Inr rows"
    and "floats_ok (pe_floats env)" and "\<forall>row \<in> set rows. json_ok (JDict row)"
  shows "\<exists>env'. fetch_dataset name split f fe dir n env = Inr (env', join_path dir f) \<and>
    ebind (read_file env' (join_path dir f)) (pe_loads env') = Inr (JList (map JDict (take (nat n) rows))) \<and>
    pe_floats env' = pe_floats env \<and> pe_hash env' = pe_hash env"
proof -
  let ?v = "JList (map JDict (take (nat n) rows))"
  have "json_ok ?v" using assms(4) by (auto dest: in_set_takeD)
  from loads_dumps [OF assms(3) this, of None False] assms(1,2) show ?thesis
    by (simp add: fetch_dataset_def store_text_def read_file_def pe_loads_def Let_def)
qed

lemma sharegpt_row_env:
  assumes "pe_floats env' = pe_floats env" and "pe_hash env' = pe_hash env"
  shows "sharegpt_row env' = sharegpt_row env"
proof -
  have hash: "json_hash env' = json_hash env" by (rule ext) (simp add: json_hash_def assms(2) split: json.split)
  show ?thesis unfolding fun_eq_iff sharegpt_row_def hash pe_repr_def assms(1) by (intro allI) (rule refl)
qed

text \<open>The number of samples the command line asks for is ignored for the instruction datasets.\<close>

lemma sample_size_ignored:
  "dataset \<notin> {''sharegpt'', ''lmsys''} \<Longrightarrow> fetch_main fe dataset dir n env = fetch_main fe dataset dir m env"
  by (simp add: fetch_main_def)

text \<open>
  Fetching and normalising compose: the ShareGPT normaliser run on the file the fetcher stored sees exactly the first \<open>sample_size\<close> records of the
  dataset, and the rows it makes of them do not depend on the file.
\<close>

theorem fetched_dataset_normalizes:
  assumes "ft_load_dataset fe = Some ld" and "ld ''ShareGPT_Vicuna_unfiltered'' ''train'' = Inr rows"
    and "floats_ok (pe_floats env)" and "\<forall>row \<in> set rows. json_ok (JDict row)"
  shows "\<exists>env' target. fetch_sharegpt fe dir n env = Inr (env', target) \<and>
    normalize_sharegpt_dataset env' target limit model =
      normalize_each (sharegpt_row env model) limit 0 0 (map JDict (take (nat n) rows))"
proof -
  obtain env' where f: "fetch_sharegpt fe dir n env = Inr (env', join_path dir ''sharegpt_raw.json'')"
    and r: "ebind (read_file env' (join_path dir ''sharegpt_raw.json'')) (pe_loads env') = Inr (JList (map JDict (take (nat n) rows)))"
    and e: "pe_floats env' = pe_floats env" "pe_hash env' = pe_hash env"
    using fetched_file [OF assms] unfolding fetch_sharegpt_def by blast
  from r obtain content where "read_file env' (join_path dir ''sharegpt_raw.json'') = Inr content"
    "pe_loads env' content = Inr (JList (map JDict (take (nat n) rows)))" by (auto simp: result_simps)
  then have "normalize_sharegpt_dataset env' (join_path dir ''sharegpt_raw.json'') limit model =
      normalize_each (sharegpt_row env model) limit 0 0 (map JDict (take (nat n) rows))"
    using sharegpt_row_env [OF e] by (simp add: normalize_sharegpt_dataset_def json_records_def)
  with f show ?thesis by blast
qed

definition demo_fetch_env :: fetch_env where
  "demo_fetch_env = \<lparr>ft_load_dataset = Some (\<lambda>name split. Inr [[(''id'', JStr ''c1'')], [(''id'', JStr ''c2'')]]),
     ft_git_clone = (\<lambda>url target env. Inr env), ft_is_dir = (\<lambda>path. False)\<rparr>"

theorem fetched_dataset_normalizes_witness:
  "\<exists>env' target. fetch_sharegpt demo_fetch_env ''data/raw'' 1 demo_pipeline_env = Inr (env', target) \<and>
     normalize_sharegpt_dataset env' target None ''m'' = Inr []"
proof -
  have "ft_load_dataset demo_fetch_env = Some (\<lambda>name split. Inr [[(''id'', JStr ''c1'')], [(''id'', JStr ''c2'')]])"
    by (simp add: demo_fetch_env_def)
  then have "\<exists>env' target. fetch_sharegpt demo_fetch_env ''data/raw'' 1 demo_pipeline_env = Inr (env', target) \<and>
      normalize_sharegpt_dataset env' target None ''m'' =
        normalize_each (sharegpt_row demo_pipeline_env ''m'') None 0 0 (map JDict (take (nat 1) [[(''id'', JStr ''c1'')], [(''id'', JStr ''c2'')]]))"
    by (intro fetched_dataset_normalizes) (simp_all add: demo_pipeline_env_def exact_text_ok dict_ok_def)
  then show ?thesis by (simp add: sharegpt_row_def json_get_def dict_get_def)
qed

end
