(* ===== verification/Programs.thy ===== *)
theory Programs
  imports Argparse Scripts EngineStores GrpcRuntime Terraform Training Fetchers
begin

text \<open>
  The programs of \<open>scripts/\<close> and the command line of \<open>topology/gpu_topology_parser.py\<close>, from their
  arguments to what they print: each parser as a list of options, each program as the function of the
  arguments, the files and the components it calls. Drawing the plot (\<open>matplotlib\<close>) and the HTTP server
  (\<open>uvicorn\<close>) are parameters. The lemmas show that a command line is read as what it says.
\<close>

section \<open>Simulations and benchmarks\<close>

definition SIMULATION_ARGS :: "arg_option list" where
  "SIMULATION_ARGS =
     [add_argument ''--config'' Text_arg (Text ''configs/multi_cluster_long_context.json''),
      add_argument ''--policy'' Text_arg No_value]"

definition simulation_cli ::
  "config_env \<Rightarrow> string list \<Rightarrow> ('r, 'q, 'p, 'g) engine_env \<times> files
    \<Rightarrow> ((('r, 'q, 'p, 'g) engine_env \<times> files) \<times> string) result" where
  "simulation_cli ce argv world =
     ebind (parse_args SIMULATION_ARGS argv) (\<lambda>args.
     ebind (args_text args ''config'') (\<lambda>config.
     ebind (args_optional args ''policy'') (\<lambda>policy.
     run_simulation_main ce config policy world)))"

definition DEFAULT_POLICIES :: "string list" where
  "DEFAULT_POLICIES = [''round_robin'', ''least_queue'', ''topology_greedy'', ''cache_aware'', ''multi_objective'', ''contextual_bandit'']"

definition BENCHMARK_ARGS :: "arg_option list" where
  "BENCHMARK_ARGS =
     [add_argument ''--config'' Text_arg (Text ''configs/multi_cluster_long_context.json''),
      add_argument ''--policies'' Texts_arg (Texts DEFAULT_POLICIES),
      add_argument ''--seeds'' Ints_arg (Numbers [7, 11, 19]),
      add_argument ''--distributed'' Flag_arg (Flag False),
      add_argument ''--ray-address'' Text_arg No_value]"

text \<open>\<open>ray\<close> is Ray, if it is installed, connected to the address.\<close>

definition benchmarks_cli ::
  "(string option \<Rightarrow> (string \<times> int, ('r, 'q, 'p, 'g) engine_env \<times> files, sim_report) ray_runtime option)
    \<Rightarrow> config_env \<Rightarrow> string list \<Rightarrow> ('r, 'q, 'p, 'g) engine_env \<times> files
    \<Rightarrow> ((('r, 'q, 'p, 'g) engine_env \<times> files) \<times> string) result" where
  "benchmarks_cli ray ce argv world =
     ebind (parse_args BENCHMARK_ARGS argv) (\<lambda>args.
     ebind (args_text args ''config'') (\<lambda>config.
     ebind (args_texts args ''policies'') (\<lambda>policies.
     ebind (args_ints args ''seeds'') (\<lambda>seeds.
     ebind (args_flag args ''distributed'') (\<lambda>distributed.
     ebind (args_optional args ''ray_address'') (\<lambda>address.
     run_benchmarks_main (ray address) ce config policies seeds distributed world))))))"

definition RAY_ARGS :: "arg_option list" where
  "RAY_ARGS =
     [add_argument ''--config'' Text_arg (Text ''configs/multi_cluster_long_context.json''),
      add_argument ''--policies'' Texts_arg (Texts DEFAULT_POLICIES),
      add_argument ''--seeds'' Ints_arg (Numbers [7, 11, 19]),
      add_argument ''--ray-address'' Text_arg No_value,
      add_argument ''--output'' Text_arg (Text ''experiments/results/ray_benchmark.json'')]"

definition ray_benchmarks_cli ::
  "(string option \<Rightarrow> (string \<times> int, ('r, 'q, 'p, 'g) engine_env \<times> files, sim_report) ray_runtime option)
    \<Rightarrow> config_env \<Rightarrow> string list \<Rightarrow> ('r, 'q, 'p, 'g) engine_env \<times> files
    \<Rightarrow> ((('r, 'q, 'p, 'g) engine_env \<times> files) \<times> string) result" where
  "ray_benchmarks_cli ray ce argv world =
     ebind (parse_args RAY_ARGS argv) (\<lambda>args.
     ebind (args_text args ''config'') (\<lambda>config.
     ebind (args_texts args ''policies'') (\<lambda>policies.
     ebind (args_ints args ''seeds'') (\<lambda>seeds.
     ebind (args_optional args ''ray_address'') (\<lambda>address.
     ebind (args_text args ''output'') (\<lambda>output.
     ebind (run_ray_benchmarks_main (ray address) ce config policies seeds output world) (\<lambda>(world', line).
     Inr (world', dumps (tc_floats (ee_codec (fst world))) (Some 2) False (JDict line)))))))))"

section \<open>Data\<close>

definition FETCH_ARGS :: "arg_option list" where
  "FETCH_ARGS =
     [(add_argument ''--dataset'' Text_arg No_value)\<lparr>ao_required := True, ao_choices := Some (sort (map fst FETCH_REGISTRY))\<rparr>,
      add_argument ''--output-dir'' Text_arg (Text ''data/raw''),
      add_argument ''--sample-size'' Int_arg (Number 10000)]"

definition fetch_cli :: "fetch_env \<Rightarrow> string list \<Rightarrow> pipeline_env \<Rightarrow> (pipeline_env \<times> string) result" where
  "fetch_cli fe argv env =
     ebind (parse_args FETCH_ARGS argv) (\<lambda>args.
     ebind (args_text args ''dataset'') (\<lambda>dataset.
     ebind (args_text args ''output_dir'') (\<lambda>output_dir.
     ebind (args_int args ''sample_size'') (\<lambda>sample_size.
     ebind (fetch_main fe dataset output_dir sample_size env) (\<lambda>(env', line).
     Inr (env', dumps (pe_floats env) (Some 2) False line))))))"

definition load_pipeline_config :: "(string \<Rightarrow> json result) option \<Rightarrow> string \<Rightarrow> pipeline_env \<Rightarrow> json result" where
  "load_pipeline_config yaml path env =
     (case yaml of
        None \<Rightarrow> Inl (RuntimeError ''PyYAML is required for pipeline config parsing.'')
      | Some safe_load \<Rightarrow> ebind (read_file env path) (\<lambda>content. ebind (safe_load content) (\<lambda>payload.
          case payload of JDict _ \<Rightarrow> Inr payload | _ \<Rightarrow> Inl (ValueError ''Pipeline config must be a YAML mapping.''))))"

definition NORMALIZE_ARGS :: "arg_option list" where
  "NORMALIZE_ARGS = [add_argument ''--config'' Text_arg (Text ''configs/dataset_pipeline.yaml'')]"

definition normalize_cli ::
  "(string \<Rightarrow> json result) option \<Rightarrow> string list \<Rightarrow> pipeline_env \<Rightarrow> (pipeline_env \<times> string) result" where
  "normalize_cli yaml argv env =
     ebind (parse_args NORMALIZE_ARGS argv) (\<lambda>args.
     ebind (args_text args ''config'') (\<lambda>config.
     ebind (load_pipeline_config yaml config env) (\<lambda>payload.
     ebind (run_pipeline payload env) (\<lambda>(env', outputs).
     Inr (env', dumps (pe_floats env) (Some 2) False (JList outputs))))))"

definition TRAIN_ARGS :: "arg_option list" where
  "TRAIN_ARGS =
     [add_argument ''--input'' Text_arg (Text ''data/workloads/sample_generic_trace.csv''),
      add_argument ''--output'' Text_arg (Text ''experiments/models/latency_predictor.pt''),
      add_argument ''--epochs'' Int_arg (Number 20)]"

definition train_cli :: "'m torch option \<Rightarrow> string list \<Rightarrow> pipeline_env \<Rightarrow> (pipeline_env \<times> string) result" where
  "train_cli torch argv env =
     ebind (parse_args TRAIN_ARGS argv) (\<lambda>args.
     ebind (args_text args ''input'') (\<lambda>input.
     ebind (args_text args ''output'') (\<lambda>output.
     ebind (args_int args ''epochs'') (\<lambda>epochs.
     ebind (LatencyPredictor torch (LatencyPredictorConfig epochs)) (\<lambda>predictor.
     ebind (train_from_csv torch env input predictor) (\<lambda>(trained, loss).
     ebind (predictor_save torch output trained env) (\<lambda>env'.
     Inr (env', dumps (pe_floats env) (Some 2) False (JDict [(''output'', JStr output), (''final_loss'', JFloat loss)])))))))))"

section \<open>Topology, inventory, plot\<close>

definition TOPOLOGY_ARGS :: "arg_option list" where
  "TOPOLOGY_ARGS = [(add_argument ''--input'' Text_arg No_value)\<lparr>ao_required := True\<rparr>, add_argument ''--output'' Text_arg No_value]"

text \<open>The payload is written to the output file or else printed.\<close>

definition topology_cli :: "float_text \<Rightarrow> string list \<Rightarrow> files \<Rightarrow> (files \<times> string) result" where
  "topology_cli ft argv fs =
     ebind (parse_args TOPOLOGY_ARGS argv) (\<lambda>args.
     ebind (args_text args ''input'') (\<lambda>input.
     ebind (args_optional args ''output'') (\<lambda>output.
     ebind (from_file (map_of fs) input) (\<lambda>parsed.
     let payload = dumps ft (Some 2) True (JDict (gpu_to_dict parsed))
     in case output of Some (c # path) \<Rightarrow> Inr (write_text (c # path) payload fs, []) | _ \<Rightarrow> Inr (fs, payload)))))"

definition TFVARS_ARGS :: "arg_option list" where
  "TFVARS_ARGS =
     [add_argument ''--input'' Text_arg (Text ''configs/azure_cluster.yaml''),
      add_argument ''--output'' Text_arg (Text ''terraform/terraform.tfvars'')]"

text \<open>The module cannot be loaded without the YAML package, whatever the arguments.\<close>

definition tfvars_cli :: "'q azure_env \<Rightarrow> float_text \<Rightarrow> string list \<Rightarrow> files \<Rightarrow> files \<times> string result" where
  "tfvars_cli env ft argv fs =
     (case if ae_yaml env = None then Inl (SystemExit YAML_REQUIRED)
           else ebind (parse_args TFVARS_ARGS argv) (\<lambda>args.
                ebind (args_text args ''input'') (\<lambda>input.
                ebind (args_text args ''output'') (\<lambda>output. Inr (input, output)))) of
        Inl e \<Rightarrow> (fs, Inl e)
      | Inr (input, output) \<Rightarrow> export_tfvars_main env ft input output fs)"

text \<open>\<open>draw\<close> is the picture \<open>matplotlib\<close> saves of the bars, if it is installed.\<close>

definition plot_main :: "(string list \<Rightarrow> pyfloat list \<Rightarrow> string) option \<Rightarrow> files \<Rightarrow> (files \<times> string) result" where
  "plot_main draw fs =
     (case draw of
        None \<Rightarrow> Inl (SystemExit ''matplotlib is required for plotting. Install with `pip install matplotlib`.'')
      | Some savefig \<Rightarrow> ebind (plot_bars fs) (\<lambda>(labels, p95).
          let output = join_path ''results'' ''latency_comparison.png''
          in Inr (write_text output (savefig labels p95) fs, ''wrote '' @ output)))"

section \<open>Servers\<close>

definition GRPC_ARGS :: "arg_option list" where
  "GRPC_ARGS = [add_argument ''--host'' Text_arg (Text ''0.0.0.0''), add_argument ''--port'' Int_arg (Number 50051)]"

definition grpc_server_cli ::
  "'m stub_env \<Rightarrow> (string \<Rightarrow> unit result) \<Rightarrow> wait_end \<Rightarrow> string list \<Rightarrow> 'm process \<Rightarrow> 'm process \<times> grpc_server result" where
  "grpc_server_cli env bind outcome argv p =
     (case ebind (parse_args GRPC_ARGS argv) (\<lambda>args.
           ebind (args_text args ''host'') (\<lambda>host.
           ebind (args_int args ''port'') (\<lambda>port. Inr (host, port)))) of
        Inl e \<Rightarrow> (p, Inl e)
      | Inr (host, port) \<Rightarrow> serve env bind outcome host port p)"

definition API_ARGS :: "arg_option list" where
  "API_ARGS = [add_argument ''--host'' Text_arg (Text ''127.0.0.1''), add_argument ''--port'' Int_arg (Number 8000)]"

definition api_cli :: "(string \<Rightarrow> string \<Rightarrow> int \<Rightarrow> bool \<Rightarrow> 'w \<Rightarrow> 'w result) \<Rightarrow> string list \<Rightarrow> 'w \<Rightarrow> 'w result" where
  "api_cli uvicorn_run argv w =
     ebind (parse_args API_ARGS argv) (\<lambda>args.
     ebind (args_text args ''host'') (\<lambda>host.
     ebind (args_int args ''port'') (\<lambda>port.
     uvicorn_run ''control_plane.app:app'' host port False w)))"

section \<open>Command lines\<close>

lemma parsers_ok:
  "options_ok SIMULATION_ARGS" "options_ok BENCHMARK_ARGS" "options_ok RAY_ARGS" "options_ok FETCH_ARGS" "options_ok NORMALIZE_ARGS"
  "options_ok TRAIN_ARGS" "options_ok TOPOLOGY_ARGS" "options_ok TFVARS_ARGS" "options_ok GRPC_ARGS" "options_ok API_ARGS"
  by (simp_all add: options_ok_def SIMULATION_ARGS_def BENCHMARK_ARGS_def RAY_ARGS_def FETCH_ARGS_def NORMALIZE_ARGS_def TRAIN_ARGS_def
      TOPOLOGY_ARGS_def TFVARS_ARGS_def GRPC_ARGS_def API_ARGS_def add_argument_def startswith_def)

lemma default_policies_registered: "set DEFAULT_POLICIES \<subseteq> set (dict_keys (policy_registry pf))"
  by (simp add: DEFAULT_POLICIES_def policy_registry_def dict_keys_def)

text \<open>The simulation program, called with a configuration and perhaps a policy.\<close>

definition optional_arg :: "string \<Rightarrow> string option \<Rightarrow> string list" where
  "optional_arg flag v = (case v of None \<Rightarrow> [] | Some t \<Rightarrow> [flag, t])"

definition plain_option :: "string option \<Rightarrow> bool" where
  "plain_option v \<longleftrightarrow> (case v of None \<Rightarrow> True | Some t \<Rightarrow> \<not> startswith t ''-'')"

definition given_text :: "arg_option list \<Rightarrow> nat \<Rightarrow> string option \<Rightarrow> (arg_option \<times> arg_value) list" where
  "given_text options i v = (case v of None \<Rightarrow> [] | Some t \<Rightarrow> [(options ! i, Text t)])"

lemma setting_given_text [simp]:
  "setting d (given_text options i v) k = (if dest (ao_flag (options ! i)) = k then (case v of None \<Rightarrow> d | Some t \<Rightarrow> Text t) else d)"
  by (simp add: given_text_def split: option.split)

lemma simulation_arguments:
  assumes "\<not> startswith path ''-''" and "plain_option policy"
  shows "simulation_cli ce ([''--config'', path] @ optional_arg ''--policy'' policy) world = run_simulation_main ce path policy world"
proof -
  let ?settings = "(SIMULATION_ARGS ! 0, Text path) # given_text SIMULATION_ARGS 1 policy"
  have line: "[''--config'', path] @ optional_arg ''--policy'' policy = command_line ?settings"
    by (simp add: command_line_def SIMULATION_ARGS_def optional_arg_def given_text_def add_argument_def split: option.split)
  have "\<forall>(p, v) \<in> set ?settings. p \<in> set SIMULATION_ARGS \<and> fits p v"
    using assms by (auto simp: given_text_def SIMULATION_ARGS_def add_argument_def fits_def plain_text_def plain_option_def split: option.splits)
  moreover have "\<forall>p \<in> set SIMULATION_ARGS. ao_required p \<longrightarrow> p \<in> fst ` set ?settings"
    by (simp add: SIMULATION_ARGS_def add_argument_def)
  ultimately have "parse_args SIMULATION_ARGS (command_line ?settings) = Inr [(''config'', Text path),
      (''policy'', case policy of None \<Rightarrow> No_value | Some t \<Rightarrow> Text t)]"
    using command_line_parsed [OF parsers_ok(1), of ?settings]
    by (simp add: SIMULATION_ARGS_def add_argument_def dest_def split: option.split)
  then show ?thesis unfolding simulation_cli_def line
    by (simp add: args_text_def args_optional_def split: option.split)
qed

text \<open>
  C32: the benchmark program does what its command line says. Called with a configuration, policies,
  integer seeds of either sign, the distributed switch and a Ray address, in any number and with any of them
  left out, it runs the benchmark with exactly these and with the defaults for the others; texts must not
  begin with a dash.
\<close>

theorem benchmark_arguments:
  assumes "plain_option config" and "\<forall>t \<in> set policies. \<not> startswith t ''-''" and "plain_option address"
  shows "benchmarks_cli ray ce (optional_arg ''--config'' config @ (if policies = [] then [] else ''--policies'' # policies) @
      (if seeds = [] then [] else ''--seeds'' # map show_int seeds) @ (if distributed then [''--distributed''] else []) @
      optional_arg ''--ray-address'' address) world =
    run_benchmarks_main (ray address) ce (case config of None \<Rightarrow> ''configs/multi_cluster_long_context.json'' | Some path \<Rightarrow> path)
      (if policies = [] then DEFAULT_POLICIES else policies) (if seeds = [] then [7, 11, 19] else seeds) distributed world"
proof -
  let ?o = BENCHMARK_ARGS
  let ?settings = "given_text ?o 0 config @ (if policies = [] then [] else [(?o ! 1, Texts policies)]) @
    (if seeds = [] then [] else [(?o ! 2, Numbers seeds)]) @ (if distributed then [(?o ! 3, Flag True)] else []) @ given_text ?o 4 address"
  have line: "optional_arg ''--config'' config @ (if policies = [] then [] else ''--policies'' # policies) @
      (if seeds = [] then [] else ''--seeds'' # map show_int seeds) @ (if distributed then [''--distributed''] else []) @
      optional_arg ''--ray-address'' address = command_line ?settings"
    by (simp add: command_line_def BENCHMARK_ARGS_def optional_arg_def given_text_def add_argument_def split: option.split)
  have "\<forall>(p, v) \<in> set ?settings. p \<in> set ?o \<and> fits p v"
    using assms by (auto simp: given_text_def BENCHMARK_ARGS_def add_argument_def fits_def plain_text_def plain_option_def split: option.splits)
  moreover have "\<forall>p \<in> set ?o. ao_required p \<longrightarrow> p \<in> fst ` set ?settings"
    by (simp add: BENCHMARK_ARGS_def add_argument_def)
  ultimately have "parse_args ?o (command_line ?settings) = Inr
     [(''config'', Text (case config of None \<Rightarrow> ''configs/multi_cluster_long_context.json'' | Some path \<Rightarrow> path)),
      (''policies'', Texts (if policies = [] then DEFAULT_POLICIES else policies)),
      (''seeds'', Numbers (if seeds = [] then [7, 11, 19] else seeds)), (''distributed'', Flag distributed),
      (''ray_address'', case address of None \<Rightarrow> No_value | Some t \<Rightarrow> Text t)]"
    using command_line_parsed [OF parsers_ok(2), of ?settings]
    by (simp add: BENCHMARK_ARGS_def add_argument_def dest_def split: option.split)
  then show ?thesis unfolding benchmarks_cli_def line
    by (simp add: args_text_def args_texts_def args_ints_def args_flag_def args_optional_def split: option.split)
qed

text \<open>A dataset that cannot be fetched is refused by the parser, so the look-up of its fetcher never fails.\<close>

lemma dataset_known:
  assumes "parse_args FETCH_ARGS argv = Inr args"
  shows "\<exists>dataset. args_text args ''dataset'' = Inr dataset \<and> map_of FETCH_REGISTRY dataset \<noteq> None"
proof -
  let ?p = "(add_argument ''--dataset'' Text_arg No_value)\<lparr>ao_required := True, ao_choices := Some (sort (map fst FETCH_REGISTRY))\<rparr>"
  have p: "?p \<in> set FETCH_ARGS" by (simp add: FETCH_ARGS_def)
  have "distinct (map (dest \<circ> ao_flag) FETCH_ARGS)" by (simp add: FETCH_ARGS_def add_argument_def dest_def)
  from parse_args_typed [OF assms this p] obtain v where
    "map_of args ''dataset'' = Some v" "typed ?p v" by (auto simp: add_argument_def dest_def)
  moreover from this(2) obtain t where "v = Text t" "t \<in> set (map fst FETCH_REGISTRY)"
    by (cases v) (auto simp: typed_def choice_ok_def add_argument_def)
  ultimately show ?thesis by (auto simp: args_text_def map_of_eq_None_iff)
qed

theorem benchmark_arguments_witness:
  "benchmarks_cli (\<lambda>address. None) demo_config_env [''--config'', ''demo.json'', ''--policies'', ''spread'', ''--seeds'', ''-3'', ''4'']
     (demo_engine_env, []) = run_benchmarks_main None demo_config_env ''demo.json'' [''spread''] [-3, 4] False (demo_engine_env, [])"
proof -
  have "plain_option (Some ''demo.json'')" "plain_option None" "\<forall>t \<in> set [''spread'']. \<not> startswith t ''-''"
    by (simp_all add: plain_option_def startswith_def)
  from benchmark_arguments [OF this(1,3,2), of "\<lambda>address. None" demo_config_env "[-3, 4]" False "(demo_engine_env, [])"] show ?thesis
    by (simp add: optional_arg_def show_int_def show_nat.simps char_of_def bit_0)
qed

end
