(* ===== verification/GpuKernels.thy ===== *)
theory GpuKernels
  imports RemoteSchedulers "HOL-Library.Log_Nat"
begin

text \<open>
  The GPU path of \<open>CudaScoringEngine\<close> (\<open>cuda_kernels/runtime.py\<close>) and the three kernels it launches
  (\<open>cache_score_kernel.cu\<close>, \<open>topology_cost_kernel.cu\<close>, \<open>load_balance_kernel.cu\<close>). A kernel is a function
  of one thread that updates the output array; a launch runs all threads of the grid in an order chosen
  by the device, which is a parameter. Single precision is rounding to 24 significant bits after every
  operation, with an unbounded exponent: overflow and subnormal numbers are left out, as the scores are
  nowhere near them. The compiler \<open>SourceModule\<close> is a parameter. The lemmas show that the order of the
  threads does not matter, that the grid reaches every element, and how far the scores can be from those
  computed without a GPU.
\<close>

section \<open>Single precision\<close>

text \<open>The exponent of the leading bit.\<close>

definition binade :: "rat \<Rightarrow> int" where
  "binade x =
     (case quotient_of \<bar>x\<bar> of (a, b) \<Rightarrow>
        let k = int (floorlog 2 (nat a)) - int (floorlog 2 (nat b))
        in if 2 powi k \<le> \<bar>x\<bar> then k else k - 1)"

definition float32 :: "pyfloat \<Rightarrow> pyfloat" where
  "float32 x = (if x = 0 then 0 else let s = 2 powi (23 - binade x) in of_int (round_half_even (x * s)) / s)"

section \<open>Kernels\<close>

text \<open>A thread is a block index and an index in its block of 256 threads.\<close>

type_synonym cuda_thread = "nat \<times> nat"

definition thread_index :: "cuda_thread \<Rightarrow> nat" where
  "thread_index tid = fst tid * 256 + snd tid"

definition cache_score_kernel ::
  "pyfloat list \<Rightarrow> pyfloat list \<Rightarrow> nat \<Rightarrow> cuda_thread \<Rightarrow> pyfloat list \<Rightarrow> pyfloat list" where
  "cache_score_kernel base_hits saved_tokens cnt tid out_scores =
     (let idx = thread_index tid
      in if cnt \<le> idx then out_scores
         else let normalized_saved = float32 (saved_tokens ! idx / 8192)
              in out_scores[idx := float32 (base_hits ! idx * float32 (1 + normalized_saved))])"

definition topology_cost_kernel ::
  "pyfloat list \<Rightarrow> pyfloat list \<Rightarrow> nat \<Rightarrow> cuda_thread \<Rightarrow> pyfloat list \<Rightarrow> pyfloat list" where
  "topology_cost_kernel affinity network_cost cnt tid out_penalty =
     (let idx = thread_index tid
      in if cnt \<le> idx then out_penalty
         else let penalty = float32 (network_cost ! idx - affinity ! idx)
              in out_penalty[idx := if 0 < penalty then penalty else 0])"

definition load_balance_kernel ::
  "pyfloat list \<Rightarrow> pyfloat list \<Rightarrow> pyfloat list \<Rightarrow> nat \<Rightarrow> cuda_thread \<Rightarrow> pyfloat list \<Rightarrow> pyfloat list" where
  "load_balance_kernel queue_delay congestion_score headroom_gb cnt tid out_penalty =
     (let idx = thread_index tid
      in if cnt \<le> idx then out_penalty
         else let queue_component = float32 (queue_delay ! idx / 1000);
                  congestion_component = congestion_score ! idx;
                  memory_component = float32 (1 - float32 (headroom_gb ! idx / 64));
                  memory_component = (if memory_component < 0 then 0 else memory_component)
              in out_penalty[idx := float32 (float32 (queue_component + congestion_component) + memory_component)])"

section \<open>Launches\<close>

text \<open>\<open>block=(256, 1, 1), grid=((count + 255) // 256, 1)\<close>.\<close>

definition launch_grid :: "nat \<Rightarrow> cuda_thread list" where
  "launch_grid cnt = concat (map (\<lambda>b. map (Pair b) [0..<256]) [0..<(cnt + 255) div 256])"

type_synonym schedule = "cuda_thread list \<Rightarrow> cuda_thread list"

definition launch :: "schedule \<Rightarrow> (nat \<Rightarrow> cuda_thread \<Rightarrow> pyfloat list \<Rightarrow> pyfloat list) \<Rightarrow> nat \<Rightarrow> pyfloat list" where
  "launch schedule func cnt = fold (func cnt) (schedule (launch_grid cnt)) (replicate cnt 0)"

definition gpu_cache_bonus :: "schedule \<Rightarrow> pyfloat list \<Rightarrow> pyfloat list \<Rightarrow> pyfloat list" where
  "gpu_cache_bonus schedule cache_hits saved_tokens =
     launch schedule (cache_score_kernel (map float32 cache_hits) (map float32 saved_tokens)) (length cache_hits)"

definition gpu_topology_penalty :: "schedule \<Rightarrow> pyfloat list \<Rightarrow> pyfloat list \<Rightarrow> pyfloat list" where
  "gpu_topology_penalty schedule affinity network_costs =
     launch schedule (topology_cost_kernel (map float32 affinity) (map float32 network_costs)) (length affinity)"

definition gpu_load_penalty :: "schedule \<Rightarrow> pyfloat list \<Rightarrow> pyfloat list \<Rightarrow> pyfloat list \<Rightarrow> pyfloat list" where
  "gpu_load_penalty schedule queue_delay congestion memory_headroom =
     launch schedule (load_balance_kernel (map float32 queue_delay) (map float32 congestion) (map float32 memory_headroom))
       (length queue_delay)"

definition gpu_path :: "schedule \<Rightarrow> gpu_kernels" where
  "gpu_path schedule = \<lparr>gk_cache_bonus = gpu_cache_bonus schedule, gk_topology_penalty = gpu_topology_penalty schedule,
     gk_load_penalty = gpu_load_penalty schedule\<rparr>"

section \<open>Construction\<close>

definition KERNEL_FILES :: "string list" where
  "KERNEL_FILES = [''cache_score_kernel.cu'', ''topology_cost_kernel.cu'', ''load_balance_kernel.cu'']"

definition compile_modules ::
  "(string \<Rightarrow> string option) \<Rightarrow> (string \<Rightarrow> 'm result) \<Rightarrow> string \<Rightarrow> (string \<times> 'm) list result" where
  "compile_modules files SourceModule kernel_dir =
     emap (\<lambda>file_name.
       let path = kernel_dir @ ''/'' @ file_name
       in ebind (case files path of None \<Rightarrow> Inl (FileNotFoundError path) | Some source \<Rightarrow> SourceModule source)
            (\<lambda>module. Inr (file_name, module))) KERNEL_FILES"

text \<open>
  The constructor: the modules of an available engine, or \<open>None\<close>; \<open>pycuda\<close> is the compiler when both
  \<open>numpy\<close> and \<open>pycuda\<close> are installed.
\<close>

definition CudaScoringEngine ::
  "(string \<Rightarrow> string option) \<Rightarrow> (string \<Rightarrow> 'm result) option \<Rightarrow> string \<Rightarrow> string \<Rightarrow> (string \<times> 'm) list option result" where
  "CudaScoringEngine files pycuda use_cuda kernel_dir =
     (case pycuda of
        Some SourceModule \<Rightarrow>
          if use_cuda = ''1'' then ebind (compile_modules files SourceModule kernel_dir) (\<lambda>modules. Inr (Some modules))
          else Inr None
      | None \<Rightarrow> Inr None)"

section \<open>Every thread order gives the same array\<close>

text \<open>What a launch promises: every thread of the grid runs once.\<close>

definition once_each :: "schedule \<Rightarrow> bool" where
  "once_each schedule \<longleftrightarrow> (\<forall>tids. mset (schedule tids) = mset tids)"

lemma once_each_set: "once_each schedule \<Longrightarrow> set (schedule tids) = set tids"
  unfolding once_each_def by (metis set_mset_mset)

lemma launch_grid_reaches: "i < cnt \<Longrightarrow> \<exists>tid \<in> set (launch_grid cnt). thread_index tid = i"
proof
  assume "i < cnt"
  then have "i div 256 < (cnt + 255) div 256" by linarith
  then show "(i div 256, i mod 256) \<in> set (launch_grid cnt)" by (fastforce simp: launch_grid_def)
  show "thread_index (i div 256, i mod 256) = i" by (simp add: thread_index_def)
qed

lemma threads_write:
  assumes "\<And>tid out. func tid out = (if cnt \<le> thread_index tid then out else out[thread_index tid := g (thread_index tid)])"
  shows "length (fold func tids out) = length out \<and> (\<forall>i < length out. fold func tids out ! i =
    (if i < cnt \<and> i \<in> thread_index ` set tids then g i else out ! i))"
proof (induction tids arbitrary: out)
  case (Cons tid tids)
  show ?case using Cons [of "func tid out"] by (auto simp: assms nth_list_update)
qed simp

lemma launch_values:
  assumes "\<And>tid out. func cnt tid out =
      (if cnt \<le> thread_index tid then out else out[thread_index tid := g (thread_index tid)])"
    and "once_each schedule"
  shows "launch schedule func cnt = map g [0..<cnt]"
proof (rule nth_equalityI)
  note w = threads_write [of "func cnt", OF assms(1), of "schedule (launch_grid cnt)" "replicate cnt 0"]
  show "length (launch schedule func cnt) = length (map g [0..<cnt])" using w by (simp add: launch_def)
  show "launch schedule func cnt ! i = map g [0..<cnt] ! i" if "i < length (launch schedule func cnt)" for i
    using that w once_each_set [OF assms(2)] launch_grid_reaches [of i cnt] by (force simp: launch_def)
qed

text \<open>The values one thread computes, from the fields of a candidate.\<close>

definition gpu_annotation :: "candidate_placement \<Rightarrow> pyfloat \<times> pyfloat \<times> pyfloat" where
  "gpu_annotation c =
     (float32 (float32 (cp_expected_cache_hit_ratio c) *
        float32 (1 + float32 (float32 (of_int (cp_expected_cache_saved_tokens c)) / 8192))),
      max 0 (float32 (float32 (cp_network_cost c) - float32 (cp_topology_affinity c))),
      float32 (float32 (float32 (float32 (cp_queue_delay_ms c) / 1000) + float32 (cp_congestion_score c)) +
        max 0 (float32 (1 - float32 (float32 (cp_memory_headroom_gb c) / 64)))))"

lemma gpu_launches:
  assumes "once_each schedule"
  shows "gpu_cache_bonus schedule (map cp_expected_cache_hit_ratio cs)
      (map (\<lambda>c. of_int (cp_expected_cache_saved_tokens c)) cs) = map (\<lambda>c. fst (gpu_annotation c)) cs"
    "gpu_topology_penalty schedule (map cp_topology_affinity cs) (map cp_network_cost cs) =
      map (\<lambda>c. fst (snd (gpu_annotation c))) cs"
    "gpu_load_penalty schedule (map cp_queue_delay_ms cs) (map cp_congestion_score cs) (map cp_memory_headroom_gb cs) =
      map (\<lambda>c. snd (snd (gpu_annotation c))) cs"
proof -
  have each: "map f cs = map (\<lambda>i. f (cs ! i)) [0..<length cs]" for f :: "candidate_placement \<Rightarrow> pyfloat"
    by (rule nth_equalityI) simp_all
  show "gpu_cache_bonus schedule (map cp_expected_cache_hit_ratio cs)
      (map (\<lambda>c. of_int (cp_expected_cache_saved_tokens c)) cs) = map (\<lambda>c. fst (gpu_annotation c)) cs"
    unfolding gpu_cache_bonus_def each [of "\<lambda>c. fst (gpu_annotation c)"] length_map
    by (rule launch_values [OF _ assms]) (simp add: cache_score_kernel_def gpu_annotation_def Let_def)
  show "gpu_topology_penalty schedule (map cp_topology_affinity cs) (map cp_network_cost cs) =
      map (\<lambda>c. fst (snd (gpu_annotation c))) cs"
    unfolding gpu_topology_penalty_def each [of "\<lambda>c. fst (snd (gpu_annotation c))"] length_map
    by (rule launch_values [OF _ assms]) (simp add: topology_cost_kernel_def gpu_annotation_def Let_def max_def)
  show "gpu_load_penalty schedule (map cp_queue_delay_ms cs) (map cp_congestion_score cs) (map cp_memory_headroom_gb cs) =
      map (\<lambda>c. snd (snd (gpu_annotation c))) cs"
    unfolding gpu_load_penalty_def each [of "\<lambda>c. snd (snd (gpu_annotation c))"] length_map
    by (rule launch_values [OF _ assms]) (simp add: load_balance_kernel_def gpu_annotation_def Let_def max_def not_le)
qed

lemma enrich_gpu:
  assumes "once_each schedule"
  shows "enrich_candidates (Some (gpu_path schedule)) cs = map (\<lambda>c. annotate c (gpu_annotation c)) cs"
proof -
  have "annotate_all cs (map (\<lambda>c. fst (f c)) cs) (map (\<lambda>c. fst (snd (f c))) cs) (map (\<lambda>c. snd (snd (f c))) cs) =
      map (\<lambda>c. annotate c (f c)) cs" for f :: "candidate_placement \<Rightarrow> pyfloat \<times> pyfloat \<times> pyfloat"
    by (induction cs) simp_all
  then show ?thesis by (simp add: enrich_candidates_def gpu_path_def Let_def gpu_launches [OF assms])
qed

section \<open>Rounding errors\<close>

lemma binade_lower:
  assumes "x \<noteq> 0"
  shows "2 powi binade x \<le> \<bar>x\<bar>"
proof -
  obtain a b where q: "quotient_of \<bar>x\<bar> = (a, b)" by force
  have b: "0 < b" and x: "\<bar>x\<bar> = of_int a / of_int b" using quotient_of_denom_pos [OF q] quotient_of_div [OF q] by simp_all
  then have a: "0 < a" using assms by (metis abs_ge_zero divide_eq_0_iff less_eq_rat_def of_int_0 of_int_0_less_iff zero_less_abs_iff zero_less_divide_iff not_less_iff_gr_or_eq of_int_less_0_iff)
  define m n where "m = floorlog 2 (nat a)" and "n = floorlog 2 (nat b)"
  have "0 < m" using a by (simp add: m_def floorlog_eq_zero_iff zero_less_iff_neq_zero)
  have "(2 :: nat) ^ (m - 1) \<le> nat a" "nat b < 2 ^ n"
    using floorlog_bounds [of "nat a" 2] floorlog_bounds [of "nat b" 2] a b by (simp_all add: m_def n_def)
  then have bounds: "(2 :: rat) ^ (m - 1) \<le> of_int a" "of_int b \<le> (2 :: rat) ^ n"
    using a b by (metis (no_types) nat_le_iff of_int_le_iff of_int_numeral of_int_power of_nat_numeral of_nat_power order_less_imp_le
        le_nat_iff nat_less_iff)+
  have "(2 :: rat) powi (int m - int n - 1) = 2 ^ (m - 1) / 2 ^ n"
    using \<open>0 < m\<close> power_int_diff [of "2 :: rat" "int (m - 1)" "int n"] by (cases m) (simp_all add: algebra_simps)
  also have "\<dots> \<le> of_int a / of_int b" using bounds a b by (intro frac_le) simp_all
  finally have "(2 :: rat) powi (int m - int n - 1) \<le> \<bar>x\<bar>" by (simp add: x)
  then show ?thesis by (simp add: binade_def q Let_def m_def n_def)
qed

lemma float32_error: "\<bar>float32 x - x\<bar> \<le> 1 / 2 ^ 24 * \<bar>x\<bar>"
proof (cases "x = 0")
  case False
  define s where "s = (2 :: rat) powi (23 - binade x)"
  have s: "0 < s" by (simp add: s_def)
  have "2 ^ 23 = s * 2 powi binade x" by (simp add: s_def power_int_add [symmetric])
  also have "\<dots> \<le> s * \<bar>x\<bar>" using binade_lower [OF False] s by simp
  finally have "1 / 2 \<le> 1 / 2 ^ 24 * (s * \<bar>x\<bar>)" by simp
  with round_half_even_error [of "x * s"] have "\<bar>of_int (round_half_even (x * s)) - x * s\<bar> \<le> 1 / 2 ^ 24 * \<bar>x\<bar> * s"
    by (simp add: mult_ac)
  then have "\<bar>of_int (round_half_even (x * s)) - x * s\<bar> / s \<le> 1 / 2 ^ 24 * \<bar>x\<bar>" using s by (simp add: pos_divide_le_eq)
  moreover have "(of_int (round_half_even (x * s)) - x * s) / s = of_int (round_half_even (x * s)) / s - x"
    using s by (simp add: diff_divide_distrib)
  then have "\<bar>of_int (round_half_even (x * s)) - x * s\<bar> / s = \<bar>of_int (round_half_even (x * s)) / s - x\<bar>"
    using s by (metis abs_div_pos)
  ultimately show ?thesis using False unfolding float32_def Let_def s_def [symmetric] by simp
qed (simp add: float32_def)

text \<open>
  Error analysis in any format whose roundings have relative error \<open>u\<close>: \<open>err k m x y\<close> says that \<open>y\<close>
  approximates \<open>x\<close>, of magnitude at most \<open>m\<close>, after at most \<open>k\<close> roundings.
\<close>

locale float_format =
  fixes rnd :: "rat \<Rightarrow> rat" and u :: rat
  assumes unit_nonneg: "0 \<le> u" and rnd_error: "\<bar>rnd x - x\<bar> \<le> u * \<bar>x\<bar>"
begin

definition err :: "nat \<Rightarrow> rat \<Rightarrow> rat \<Rightarrow> rat \<Rightarrow> bool" where
  "err k m x y \<longleftrightarrow> \<bar>x\<bar> \<le> m \<and> \<bar>y - x\<bar> \<le> ((1 + u) ^ k - 1) * m"

lemma err_exact: "\<bar>x\<bar> \<le> m \<Longrightarrow> err 0 m x x"
  by (simp add: err_def)

lemma err_self: "err 0 \<bar>x\<bar> x x"
  by (simp add: err_def)

lemma err_size:
  assumes "err k m x y"
  shows "0 \<le> m" "\<bar>y\<bar> \<le> (1 + u) ^ k * m"
proof -
  from assms have e: "\<bar>x\<bar> \<le> m" "\<bar>y - x\<bar> \<le> ((1 + u) ^ k - 1) * m" by (simp_all add: err_def)
  then show "0 \<le> m" by simp
  have "\<bar>y\<bar> \<le> \<bar>x\<bar> + \<bar>y - x\<bar>" by simp
  also have "\<dots> \<le> m + ((1 + u) ^ k - 1) * m" using e by simp
  finally show "\<bar>y\<bar> \<le> (1 + u) ^ k * m" by (simp add: algebra_simps)
qed

lemma err_rnd:
  assumes "err k m x y"
  shows "err (Suc k) m x (rnd y)"
proof -
  from assms have e: "\<bar>x\<bar> \<le> m" "\<bar>y - x\<bar> \<le> ((1 + u) ^ k - 1) * m" by (simp_all add: err_def)
  have "\<bar>rnd y - x\<bar> \<le> \<bar>rnd y - y\<bar> + \<bar>y - x\<bar>" by simp
  also have "\<dots> \<le> u * ((1 + u) ^ k * m) + ((1 + u) ^ k - 1) * m"
    using rnd_error [of y] mult_left_mono [OF err_size(2) [OF assms] unit_nonneg] e by linarith
  finally show ?thesis using e by (simp add: err_def algebra_simps)
qed

lemma err_mono:
  assumes "err k m x y" and "k \<le> l"
  shows "err l m x y"
proof -
  have "(1 + u) ^ k \<le> (1 + u) ^ l" using assms(2) unit_nonneg by (intro power_increasing) simp_all
  then have "((1 + u) ^ k - 1) * m \<le> ((1 + u) ^ l - 1) * m" using err_size(1) [OF assms(1)] by (intro mult_right_mono) simp_all
  with assms(1) show ?thesis unfolding err_def by linarith
qed

lemma err_add: "err k m x y \<Longrightarrow> err k n v w \<Longrightarrow> err k (m + n) (x + v) (y + w)"
  unfolding err_def distrib_left by linarith

lemma err_diff: "err k m x y \<Longrightarrow> err k n v w \<Longrightarrow> err k (m + n) (x - v) (y - w)"
  unfolding err_def distrib_left by linarith

lemma err_divide:
  assumes "err k m x y" and "0 < d"
  shows "err k (m / d) (x / d) (y / d)"
  using assms by (simp add: err_def abs_div_pos [symmetric] diff_divide_distrib [symmetric] divide_right_mono)

lemma err_max:
  assumes "err k m x y"
  shows "err k m (max 0 x) (max 0 y)"
  using assms unfolding err_def by linarith

lemma err_mult:
  assumes "err k m x y" and "err l n v w"
  shows "err (k + l) (m * n) (x * v) (y * w)"
proof -
  from assms have x: "\<bar>x\<bar> \<le> m" "\<bar>y - x\<bar> \<le> ((1 + u) ^ k - 1) * m" and v: "\<bar>v\<bar> \<le> n" "\<bar>w - v\<bar> \<le> ((1 + u) ^ l - 1) * n"
    by (simp_all add: err_def)
  have "y * w - x * v = (y - x) * w + x * (w - v)" by (simp add: algebra_simps)
  then have "\<bar>y * w - x * v\<bar> \<le> \<bar>y - x\<bar> * \<bar>w\<bar> + \<bar>x\<bar> * \<bar>w - v\<bar>" by (metis abs_mult abs_triangle_ineq)
  also have "\<dots> \<le> ((1 + u) ^ k - 1) * m * ((1 + u) ^ l * n) + m * (((1 + u) ^ l - 1) * n)"
    using x v err_size [OF assms(1)] err_size [OF assms(2)]
    by (intro add_mono mult_mono) (auto intro: order_trans [OF abs_ge_zero])
  finally have "\<bar>y * w - x * v\<bar> \<le> ((1 + u) ^ (k + l) - 1) * (m * n)" by (simp add: algebra_simps power_add)
  moreover have "\<bar>x * v\<bar> \<le> m * n" using x v err_size(1) [OF assms(1)] by (simp add: abs_mult mult_mono)
  ultimately show ?thesis by (simp add: err_def)
qed

text \<open>Rounding the exact value to four digits instead.\<close>

lemma err_decimal:
  assumes "err k m x y"
  shows "\<bar>y - py_round 4 x\<bar> \<le> 1 / 20000 + ((1 + u) ^ k - 1) * m"
proof -
  have "\<bar>py_round 4 x - x\<bar> \<le> 1 / 20000" using py_round_error [of 4 x] by simp
  with assms show ?thesis unfolding err_def by linarith
qed

end

interpretation single: float_format float32 "1 / 2 ^ 24"
  by unfold_locales (simp, rule float32_error)

section \<open>Scores with and without a GPU\<close>

text \<open>The magnitudes of the terms of the three scores.\<close>

definition score_scale :: "candidate_placement \<Rightarrow> pyfloat \<times> pyfloat \<times> pyfloat" where
  "score_scale c =
     (\<bar>cp_expected_cache_hit_ratio c\<bar> * (1 + \<bar>of_int (cp_expected_cache_saved_tokens c)\<bar> / 8192),
      \<bar>cp_network_cost c\<bar> + \<bar>cp_topology_affinity c\<bar>,
      \<bar>cp_queue_delay_ms c\<bar> / 1000 + \<bar>cp_congestion_score c\<bar> + (1 + \<bar>cp_memory_headroom_gb c\<bar> / 64))"

definition scores_close :: "candidate_placement \<Rightarrow> pyfloat \<times> pyfloat \<times> pyfloat \<Rightarrow> pyfloat \<times> pyfloat \<times> pyfloat \<Rightarrow> bool" where
  "scores_close c v w =
     (case (v, w, score_scale c) of ((b, t, l), (b', t', l'), (mb, mt, ml)) \<Rightarrow>
        \<bar>b - b'\<bar> \<le> 1 / 20000 + mb / 2 ^ 21 \<and> \<bar>t - t'\<bar> \<le> 1 / 20000 + mt / 2 ^ 21 \<and> \<bar>l - l'\<bar> \<le> 1 / 20000 + ml / 2 ^ 21)"

lemma single_decimal:
  assumes "single.err k m x y" and "k \<le> 5"
  shows "\<bar>y - py_round 4 x\<bar> \<le> 1 / 20000 + m / 2 ^ 21"
proof -
  have "((1 + 1 / 2 ^ 24 :: rat) ^ 5 - 1) * m \<le> 1 / 2 ^ 21 * m"
    using single.err_size(1) [OF assms(1)] by (intro mult_right_mono) (simp_all add: eval_nat_numeral)
  with single.err_decimal [OF single.err_mono [OF assms]] show ?thesis by simp
qed

lemmas single_rounded = single.err_rnd [OF single.err_self]

lemma annotations_close: "scores_close c (gpu_annotation c) (cpu_annotation c)"
proof -
  have one: "single.err k 1 1 1" for k
    using single.err_mono [OF single.err_exact [of 1 1]] by simp
  have saved: "single.err 3 (1 + \<bar>s\<bar> / 8192) (1 + s / 8192) (float32 (1 + float32 (float32 s / 8192)))" for s
    using single.err_rnd [OF single.err_add [OF one single.err_rnd [OF single.err_divide [OF single_rounded]]]]
    by (simp add: numeral_3_eq_3)
  have memory: "single.err 3 (1 + \<bar>g\<bar> / 64) (max 0 (1 - g / 64)) (max 0 (float32 (1 - float32 (float32 g / 64))))" for g
    using single.err_max [OF single.err_rnd [OF single.err_diff [OF one single.err_rnd [OF single.err_divide [OF single_rounded]]]]]
    by (simp add: numeral_3_eq_3)
  have load: "single.err 3 (\<bar>q\<bar> / 1000 + \<bar>c\<bar>) (q / 1000 + c) (float32 (float32 (float32 q / 1000) + float32 c))" for q c
    using single.err_rnd [OF single.err_add [OF single.err_rnd [OF single.err_divide [OF single_rounded]]
        single.err_mono [OF single_rounded]]] by (simp add: numeral_3_eq_3)
  note cache = single_decimal [OF single.err_rnd [OF single.err_mult [OF single_rounded saved]]]
    and topology = single_decimal [OF single.err_max [OF single.err_rnd [OF single.err_diff [OF single_rounded single_rounded]]]]
    and total_load = single_decimal [OF single.err_rnd [OF single.err_add [OF load memory]]]
  show ?thesis
    using cache topology total_load by (simp add: scores_close_def score_scale_def gpu_annotation_def cpu_annotation_def)
qed

text \<open>
  C29: scoring on the GPU agrees with scoring without it: in whatever order the threads of the launches
  run, every candidate is annotated exactly as its own thread computes, and each of the three scores is
  within half a unit of the fourth decimal, plus a single precision error of at most a two-millionth of
  the magnitude of its terms, of the score computed without a GPU.
\<close>

theorem gpu_scores_agree:
  assumes "once_each schedule" and "cs \<noteq> []"
  shows "\<exists>gpu cpu. enrich_candidates (Some (gpu_path schedule)) cs = map2 annotate cs gpu \<and>
    enrich_candidates None cs = map2 annotate cs cpu \<and> length gpu = length cs \<and> length cpu = length cs \<and>
    (\<forall>i < length cs. scores_close (cs ! i) (gpu ! i) (cpu ! i))"
proof (intro exI conjI)
  have each: "map (\<lambda>c. annotate c (f c)) cs = map2 annotate cs (map f cs)" for f by (induction cs) simp_all
  show "enrich_candidates (Some (gpu_path schedule)) cs = map2 annotate cs (map gpu_annotation cs)"
    by (simp add: enrich_gpu [OF assms(1)] each)
  show "enrich_candidates None cs = map2 annotate cs (map cpu_annotation cs)" by (simp add: enrich_cpu each)
  show "\<forall>i < length cs. scores_close (cs ! i) (map gpu_annotation cs ! i) (map cpu_annotation cs ! i)"
    by (simp add: annotations_close)
qed simp_all

theorem gpu_scores_agree_witness:
  "\<exists>gpu cpu. enrich_candidates (Some (gpu_path rev)) demo_candidates = map2 annotate demo_candidates gpu \<and>
     enrich_candidates None demo_candidates = map2 annotate demo_candidates cpu \<and> length gpu = 3 \<and> length cpu = 3 \<and>
     scores_close (demo_candidates ! 1) (gpu ! 1) (cpu ! 1)"
proof -
  have "once_each rev" by (simp add: once_each_def)
  from gpu_scores_agree [OF this, of demo_candidates] obtain gpu cpu where
    "enrich_candidates (Some (gpu_path rev)) demo_candidates = map2 annotate demo_candidates gpu"
    "enrich_candidates None demo_candidates = map2 annotate demo_candidates cpu"
    "length gpu = length demo_candidates" "length cpu = length demo_candidates"
    "\<forall>i < length demo_candidates. scores_close (demo_candidates ! i) (gpu ! i) (cpu ! i)"
    by (auto simp: demo_candidates_def)
  moreover have "length demo_candidates = 3" by (simp add: demo_candidates_def)
  ultimately show ?thesis by (intro exI [of _ gpu] exI [of _ cpu]) simp
qed

text \<open>The constructor compiles all kernels or raises; without the switch it touches no file.\<close>

lemma engine_disabled: "use_cuda \<noteq> ''1'' \<Longrightarrow> CudaScoringEngine files pycuda use_cuda kernel_dir = Inr None"
  by (simp add: CudaScoringEngine_def split: option.split)

lemma engine_compiled:
  assumes "CudaScoringEngine files (Some SourceModule) ''1'' kernel_dir = Inr engine"
  shows "\<exists>modules. engine = Some modules \<and> map fst modules = KERNEL_FILES \<and>
    (\<forall>(file_name, module) \<in> set modules. \<exists>source. files (kernel_dir @ ''/'' @ file_name) = Some source \<and>
      SourceModule source = Inr module)"
  using assms by (fastforce simp: CudaScoringEngine_def compile_modules_def KERNEL_FILES_def result_simps Let_def split: option.splits)

end
