(* ===== verification/Affinity.thy ===== *)
theory Affinity
  imports PyStrings
begin

text \<open>
  The stand-alone affinity helper \<open>topology_service_cpp/affinity_score.cpp\<close>: it reads a CSV matrix of link
  costs and prints the matrix of affinities. Of the C++ library it uses \<open>getline\<close>, \<open>stod\<close> and fixed
  output with four decimals. A cost is an exact rational, so that the rounding of a \<open>double\<close> is not part of
  the model; its range is: \<open>stod\<close> reads the longest decimal prefix of an item and throws \<open>out_of_range\<close> when
  the value rounds to infinity. Its other spellings (hexadecimal, infinity, NaN) and values below the least
  normal \<open>double\<close>, where it depends on the library whether \<open>stod\<close> throws, are kept apart as outside the model, so that
  nothing is claimed about them. The lemmas say what the helper prints, that its output is a matrix of
  the same shape it reads back itself, and when it fails.
\<close>

section \<open>Reading\<close>

text \<open>
  The strings \<open>std::getline\<close> delivers, for lines and for items: what stands before each delimiter, and
  what stands after the last one unless it is empty.
\<close>

fun getlines :: "char \<Rightarrow> string \<Rightarrow> string list" where
  "getlines delim [] = []"
| "getlines delim (c # s) =
     (if c = delim then [] # getlines delim s
      else case getlines delim s of
          [] \<Rightarrow> [[c]]
        | item # items \<Rightarrow> (c # item) # items)"

datatype stod_error = InvalidArgument | OutOfRange | NotDecimal | Subnormal

definition c_space :: "char \<Rightarrow> bool" where
  "c_space c \<longleftrightarrow> (let n = of_char c :: nat in n = 32 \<or> (9 \<le> n \<and> n \<le> 13))"

definition c_hex_digit :: "char \<Rightarrow> bool" where
  "c_hex_digit c \<longleftrightarrow> is_digit c \<or> lower_char c \<in> set ''abcdef''"

text \<open>The spellings of a number that are not decimal.\<close>

definition not_decimal :: "string \<Rightarrow> bool" where
  "not_decimal t \<longleftrightarrow>
     (let u = lower t in startswith u ''inf'' \<or> startswith u ''nan'' \<or>
        (startswith u ''0x'' \<and> (case drop 2 u of [] \<Rightarrow> False
           | c # r \<Rightarrow> c_hex_digit c \<or> (c = CHR ''.'' \<and> r \<noteq> [] \<and> c_hex_digit (hd r)))))"

definition exponent_of :: "string \<Rightarrow> int" where
  "exponent_of r =
     (case r of [] \<Rightarrow> 0
      | c # t \<Rightarrow>
          if c = CHR ''e'' \<or> c = CHR ''E''
          then let (sg, u) = (case t of [] \<Rightarrow> (1, [])
                 | d # v \<Rightarrow> if d = CHR ''-'' then (- 1, v) else if d = CHR ''+'' then (1, v) else (1, t))
               in sg * int (read_nat (takeWhile is_digit u))
          else 0)"

definition decimal_prefix :: "string \<Rightarrow> rat option" where
  "decimal_prefix t =
     (let ip = takeWhile is_digit t; r1 = dropWhile is_digit t;
          (fp, r2) = (case r1 of [] \<Rightarrow> ([], r1)
            | c # r \<Rightarrow> if c = CHR ''.'' then (takeWhile is_digit r, dropWhile is_digit r) else ([], r1));
          k = exponent_of r2; x = of_nat (read_nat ip) + of_nat (read_nat fp) / 10 ^ length fp
      in if ip = [] \<and> fp = [] then None
         else Some (if 0 \<le> k then x * 10 ^ nat k else x / 10 ^ nat (- k)))"

text \<open>
  The exceptions of \<open>stod\<close>: \<open>invalid_argument\<close> where no number starts, \<open>out_of_range\<close> where the number rounds
  to infinity, that is from the middle between the greatest \<open>double\<close>, \<open>2\<^sup>1\<^sup>0\<^sup>2\<^sup>4 - 2\<^sup>9\<^sup>7\<^sup>1\<close>, and \<open>2\<^sup>1\<^sup>0\<^sup>2\<^sup>4\<close> on.
\<close>

definition overflows :: "rat \<Rightarrow> bool" where
  "overflows x \<longleftrightarrow> 2 ^ 1024 - 2 ^ 970 \<le> x"

definition below_normal :: "rat \<Rightarrow> bool" where
  "below_normal x \<longleftrightarrow> x \<noteq> 0 \<and> x * 2 ^ 1022 < 1"

definition stod :: "string \<Rightarrow> stod_error + rat" where
  "stod s =
     (let t = dropWhile c_space s;
          (negative, u) = (case t of [] \<Rightarrow> (False, [])
            | c # r \<Rightarrow> if c = CHR ''-'' then (True, r) else if c = CHR ''+'' then (False, r) else (False, t))
      in if not_decimal u then Inl NotDecimal
         else case decimal_prefix u of
             None \<Rightarrow> Inl InvalidArgument
           | Some x \<Rightarrow>
               if overflows x then Inl OutOfRange
               else if below_normal x then Inl Subnormal
               else Inr (if negative then - x else x))"

text \<open>\<open>read_csv\<close>: the loop over the items of a line, then the loop over the lines. A file that cannot be
  opened delivers no line.\<close>

fun read_row :: "string list \<Rightarrow> stod_error + rat list" where
  "read_row [] = Inr []"
| "read_row (item # items) =
     (case stod item of Inl e \<Rightarrow> Inl e
      | Inr x \<Rightarrow> (case read_row items of Inl e \<Rightarrow> Inl e | Inr row \<Rightarrow> Inr (x # row)))"

fun read_lines :: "string list \<Rightarrow> stod_error + rat list list" where
  "read_lines [] = Inr []"
| "read_lines (line # rest) =
     (case read_row (getlines CHR '','' line) of Inl e \<Rightarrow> Inl e
      | Inr row \<Rightarrow> (case read_lines rest of Inl e \<Rightarrow> Inl e
          | Inr matrix \<Rightarrow> Inr (if row \<noteq> [] then row # matrix else matrix)))"

definition read_csv :: "string option \<Rightarrow> stod_error + rat list list" where
  "read_csv content = (case content of None \<Rightarrow> Inr [] | Some text \<Rightarrow> read_lines (getlines CHR 0x0A text))"

section \<open>The program\<close>

text \<open>
  How the process ends: with an exit status, what it printed and its error message; or by the uncaught
  exception of \<open>stod\<close>, before anything is printed. \<open>OutsideModel\<close> stands for a file with a number that
  is not decimal, or too small to be a normal \<open>double\<close>.
\<close>

datatype outcome = Exit int string string | Terminated | OutsideModel

definition max_cost :: "rat list list \<Rightarrow> rat" where
  "max_cost matrix = fold (\<lambda>row m. fold (\<lambda>v m. max m v) row m) matrix 0"

definition link_affinity :: "rat \<Rightarrow> rat \<Rightarrow> rat" where
  "link_affinity cost v = 1 - v / max cost 1"

fun print_row :: "rat \<Rightarrow> rat list \<Rightarrow> string" where
  "print_row cost [] = [CHR 0x0A]"
| "print_row cost (v # row) =
     format_fixed 4 (link_affinity cost v) @ (if row \<noteq> [] then '','' else []) @ print_row cost row"

definition affinity_main :: "(string \<Rightarrow> string option) \<Rightarrow> string list \<Rightarrow> outcome" where
  "affinity_main files args =
     (case args of [] \<Rightarrow> Exit 1 [] (''usage: affinity_score <adjacency.csv>'' @ [CHR 0x0A])
      | path # _ \<Rightarrow>
          (case read_csv (files path) of
             Inl InvalidArgument \<Rightarrow> Terminated
           | Inl OutOfRange \<Rightarrow> Terminated
           | Inl NotDecimal \<Rightarrow> OutsideModel
           | Inl Subnormal \<Rightarrow> OutsideModel
           | Inr matrix \<Rightarrow>
               if matrix = [] then Exit 1 [] (''empty matrix'' @ [CHR 0x0A])
               else Exit 0 (concat (map (print_row (max_cost matrix)) matrix)) []))"

section \<open>Lines and numbers\<close>

lemma getlines_item: "delim \<notin> set item \<Longrightarrow> getlines delim (item @ delim # s) = item # getlines delim s"
  by (induction item) auto

lemma getlines_last: "delim \<notin> set item \<Longrightarrow> item \<noteq> [] \<Longrightarrow> getlines delim item = [item]"
proof (induction item)
  case (Cons c item)
  then show ?case by (cases "item = []") auto
qed simp

lemma read_row_length: "read_row items = Inr row \<Longrightarrow> length row = length items"
  by (induction items arbitrary: row) (auto split: sum.splits)

lemma read_lines_rows: "read_lines lines = Inr matrix \<Longrightarrow> [] \<notin> set matrix"
  by (induction lines arbitrary: matrix) (auto split: sum.splits if_splits)

lemma digit_lower [simp]: "is_digit c \<Longrightarrow> lower_char c = c"
  by (auto simp: lower_char_def is_digit_def Let_def)

lemma decimal_prefix_fixed:
  "decimal_prefix (show_nat a @ CHR ''.'' # zfill w (show_nat b)) =
     Some (of_nat a + of_nat b / 10 ^ length (zfill w (show_nat b)))"
proof -
  let ?f = "zfill w (show_nat b)"
  have 1: "takeWhile is_digit (show_nat a @ CHR ''.'' # ?f) = show_nat a"
    "dropWhile is_digit (show_nat a @ CHR ''.'' # ?f) = CHR ''.'' # ?f"
    using show_nat_all_digits [of _ a] by (simp_all add: takeWhile_append2 dropWhile_append2)
  have 2: "takeWhile is_digit ?f = ?f" "dropWhile is_digit ?f = []"
    using zfill_all_digits [of _ w b] by (auto simp: takeWhile_eq_all_conv dropWhile_eq_Nil_conv)
  show ?thesis unfolding decimal_prefix_def Let_def 1 list.case if_P [OF refl] 2 prod.case by (simp add: exponent_of_def)
qed

lemma decimal_start:
  assumes "is_digit c" and "\<forall>d \<in> set s. is_digit d \<or> d = CHR ''.''"
  shows "\<not> not_decimal (c # s)" "\<not> c_space c" "c \<noteq> CHR ''-''" "c \<noteq> CHR ''+''"
proof -
  have "\<not> is_digit CHR ''i''" "\<not> is_digit CHR ''n''" "\<not> is_digit CHR ''x''" by (simp_all add: is_digit_def)
  then have plain: "is_digit x \<Longrightarrow> x \<notin> set ''inx''" for x by auto
  have dot: "lower_char CHR ''.'' = CHR ''.''" by (simp add: lower_char_def)
  have "lower_char d \<noteq> CHR ''x''" if "d \<in> set s" for d
    using bspec [OF assms(2) that] plain [of d] dot by auto
  with assms(1) plain [OF assms(1)] show "\<not> not_decimal (c # s)"
    by (cases s) (auto simp: not_decimal_def lower_def startswith_def Let_def)
  show "\<not> c_space c" "c \<noteq> CHR ''-''" "c \<noteq> CHR ''+''" using assms(1) by (auto simp: c_space_def is_digit_def Let_def)
qed

text \<open>A number that is printed with four decimals and at most 1 is no number out of range.\<close>

lemma fixed_in_range:
  assumes "of_nat a + of_nat b / 10 ^ 4 \<le> (1 :: rat)"
  shows "\<not> overflows (of_nat a + of_nat b / 10 ^ 4)" "\<not> below_normal (of_nat a + of_nat b / 10 ^ 4)"
proof -
  have "(1 :: rat) < 2 ^ 1024 - 2 ^ 970" by simp
  with assms show "\<not> overflows (of_nat a + of_nat b / 10 ^ 4)" by (simp add: overflows_def)
  have "1 \<le> (of_nat a + of_nat b / 10 ^ 4) * (2 ^ 1022 :: rat)" if "of_nat a + of_nat b / 10 ^ 4 \<noteq> (0 :: rat)"
  proof -
    from that have "1 \<le> a * 10 ^ 4 + b" by auto
    then have "(1 :: rat) \<le> of_nat (a * 10 ^ 4 + b)" by (metis of_nat_1 of_nat_le_iff)
    then have "1 / 10 ^ 4 \<le> of_nat a + of_nat b / (10 ^ 4 :: rat)" by (simp add: field_simps)
    then have "1 / 10 ^ 4 * 2 ^ 1022 \<le> (of_nat a + of_nat b / 10 ^ 4) * (2 ^ 1022 :: rat)"
      by (rule mult_right_mono) simp
    moreover have "(1 :: rat) \<le> 1 / 10 ^ 4 * 2 ^ 1022" by simp
    ultimately show ?thesis by (rule order_trans [rotated])
  qed
  then show "\<not> below_normal (of_nat a + of_nat b / 10 ^ 4)" by (auto simp: below_normal_def not_less)
qed

lemma stod_fixed:
  assumes "\<bar>py_round 4 x\<bar> \<le> 1"
  shows "stod (format_fixed 4 x) = Inr (py_round 4 x)"
proof -
  obtain a b where fmt: "format_fixed 4 x = (if x < 0 then ''-'' else []) @ show_nat a @ CHR ''.'' # zfill 4 (show_nat b)"
    and len: "length (zfill 4 (show_nat b)) = 4"
    and val: "py_round 4 x = (if x < 0 then - (of_nat a + of_nat b / 10 ^ 4) else of_nat a + of_nat b / 10 ^ 4)"
    using format_fixed_parts [of 4 x] by (metis zero_less_numeral)
  let ?body = "show_nat a @ CHR ''.'' # zfill 4 (show_nat b)"
  obtain c s where body: "?body = c # s" by (cases ?body) auto
  have "c = hd (show_nat a)" using arg_cong [OF body, of hd] by simp
  then have "is_digit c" by simp
  moreover have "\<forall>d \<in> set (c # s). is_digit d \<or> d = CHR ''.''"
    unfolding body [symmetric] by (auto dest: show_nat_all_digits zfill_all_digits)
  ultimately have start: "\<not> not_decimal (c # s)" "\<not> c_space c" "c \<noteq> CHR ''-''" "c \<noteq> CHR ''+''"
    using decimal_start [of c s] by auto
  have "decimal_prefix (c # s) = Some (of_nat a + of_nat b / 10 ^ 4)"
    using decimal_prefix_fixed [of a 4 b] len by (simp add: body)
  moreover have "of_nat a + of_nat b / 10 ^ 4 \<le> (1 :: rat)" using assms val by (simp split: if_splits)
  ultimately show ?thesis using start fixed_in_range [of a b]
    unfolding fmt body val by (simp add: stod_def Let_def) (simp add: c_space_def)
qed

section \<open>What is printed\<close>

definition printed :: "rat \<Rightarrow> rat \<Rightarrow> rat" where
  "printed cost v = py_round 4 (link_affinity cost v)"

lemma fixed_plain: "c \<in> {CHR '','', CHR 0x0A} \<Longrightarrow> c \<notin> set (format_fixed n x)"
  using format_fixed_chars [of c n x] by (auto simp: is_digit_def)

lemma fixed_nonempty [simp]: "format_fixed n x \<noteq> []"
  by (simp add: format_fixed_def Let_def)

lemma read_row_printed:
  "\<forall>v \<in> set row. \<bar>printed cost v\<bar> \<le> 1 \<Longrightarrow>
     read_row (map (\<lambda>v. format_fixed 4 (link_affinity cost v)) row) = Inr (map (printed cost) row)"
  by (induction row) (simp_all add: stod_fixed printed_def)

lemma print_row_items:
  "row \<noteq> [] \<Longrightarrow> \<exists>line. print_row cost row = line @ [CHR 0x0A] \<and> CHR 0x0A \<notin> set line \<and>
     getlines CHR '','' line = map (\<lambda>v. format_fixed 4 (link_affinity cost v)) row"
proof (induction row)
  case (Cons v row)
  let ?item = "format_fixed 4 (link_affinity cost v)"
  show ?case
  proof (cases "row = []")
    case True
    then show ?thesis by (simp add: getlines_last fixed_plain)
  next
    case False
    with Cons.IH obtain line where line: "print_row cost row = line @ [CHR 0x0A]" "CHR 0x0A \<notin> set line"
      "getlines CHR '','' line = map (\<lambda>v. format_fixed 4 (link_affinity cost v)) row" by blast
    with False show ?thesis by (intro exI [of _ "?item @ CHR '','' # line"]) (simp add: getlines_item fixed_plain)
  qed
qed simp

lemma matrix_read_back:
  "[] \<notin> set matrix \<Longrightarrow> \<forall>row \<in> set matrix. \<forall>v \<in> set row. \<bar>printed cost v\<bar> \<le> 1 \<Longrightarrow>
     read_lines (getlines CHR 0x0A (concat (map (print_row cost) matrix))) = Inr (map (map (printed cost)) matrix)"
proof (induction matrix)
  case (Cons row matrix)
  then obtain line where line: "print_row cost row = line @ [CHR 0x0A]" "CHR 0x0A \<notin> set line"
      "getlines CHR '','' line = map (\<lambda>v. format_fixed 4 (link_affinity cost v)) row"
    using print_row_items [of row cost] by auto
  with Cons show ?case by (auto simp: getlines_item read_row_printed)
qed simp

section \<open>Affinities\<close>

lemma fold_max_ge:
  fixes m :: "'a :: linorder"
  shows "m \<le> fold (\<lambda>v m. max m v) row m" "v \<in> set row \<Longrightarrow> v \<le> fold (\<lambda>v m. max m v) row m"
proof -
  have ge: "m \<le> fold (\<lambda>v m. max m v) row m" for row and m :: 'a
    by (induction row arbitrary: m) (auto intro: order_trans [OF max.cobounded1])
  then show "m \<le> fold (\<lambda>v m. max m v) row m" .
  have "v \<le> fold (\<lambda>v m. max m v) row (max m v)" for row m
    by (rule order_trans [OF max.cobounded2 ge])
  then show "v \<in> set row \<Longrightarrow> v \<le> fold (\<lambda>v m. max m v) row m"
    by (induction row arbitrary: m) auto
qed

lemma max_cost_ge: "row \<in> set matrix \<Longrightarrow> v \<in> set row \<Longrightarrow> v \<le> max_cost matrix"
proof -
  let ?f = "\<lambda>row m. fold (\<lambda>v m. max m v) row m"
  have ge: "m \<le> fold ?f rows m" for rows and m :: rat
    by (induction rows arbitrary: m) (auto intro: order_trans [OF fold_max_ge(1)])
  have "row \<in> set rows \<Longrightarrow> v \<in> set row \<Longrightarrow> v \<le> fold ?f rows m" for rows m
    by (induction rows arbitrary: m) (auto intro: order_trans [OF fold_max_ge(2) ge])
  then show "row \<in> set matrix \<Longrightarrow> v \<in> set row \<Longrightarrow> ?thesis" by (simp add: max_cost_def)
qed

lemma link_affinity_less: "v < w \<Longrightarrow> link_affinity cost w < link_affinity cost v"
  by (simp add: link_affinity_def divide_strict_right_mono)

lemma printed_mono: "v \<le> w \<Longrightarrow> printed cost w \<le> printed cost v"
  using link_affinity_less [of v w cost] by (cases "v = w") (simp_all add: printed_def py_round_mono)

lemma printed_range:
  assumes "0 \<le> v" and "v \<le> cost"
  shows "0 \<le> printed cost v \<and> printed cost v \<le> 1"
proof -
  have "v / max cost 1 \<le> 1" "0 \<le> v / max cost 1" using assms by (simp_all add: divide_le_eq le_max_iff_disj)
  then have "0 \<le> link_affinity cost v" "link_affinity cost v \<le> 1" by (simp_all add: link_affinity_def)
  then show ?thesis unfolding printed_def using py_round_nonneg py_round_le_int [of _ 1 4] by simp
qed

text \<open>
  C40: the affinity helper: for a file that holds a matrix of costs, each a decimal in the range of a
  \<open>double\<close> and none negative, the helper exits with
  status 0 and an empty error stream, and what it prints is again a matrix in the format it reads: of the
  same shape, each cost replaced by its affinity to four decimals. These lie between 0 and 1, and a lower
  cost never has a lower affinity; a cost of zero has affinity 1.
\<close>

theorem affinity_output:
  assumes "read_csv (files path) = Inr matrix" and "matrix \<noteq> []" and "\<forall>row \<in> set matrix. \<forall>v \<in> set row. 0 \<le> v"
  shows "\<exists>out f. affinity_main files (path # rest) = Exit 0 out [] \<and> read_csv (Some out) = Inr (map (map f) matrix) \<and>
    (\<forall>row \<in> set matrix. \<forall>v \<in> set row. 0 \<le> f v \<and> f v \<le> 1) \<and> (\<forall>v w. v \<le> w \<longrightarrow> f w \<le> f v) \<and> f 0 = 1"
proof -
  let ?cost = "max_cost matrix"
  let ?out = "concat (map (print_row ?cost) matrix)"
  have "[] \<notin> set matrix" using assms(1) read_lines_rows by (auto simp: read_csv_def split: option.splits)
  moreover have range: "\<forall>row \<in> set matrix. \<forall>v \<in> set row. 0 \<le> printed ?cost v \<and> printed ?cost v \<le> 1"
    using assms(3) max_cost_ge printed_range by blast
  ultimately have "read_csv (Some ?out) = Inr (map (map (printed ?cost)) matrix)"
    by (simp add: read_csv_def matrix_read_back)
  moreover have "affinity_main files (path # rest) = Exit 0 ?out []" using assms(1,2) by (simp add: affinity_main_def)
  moreover note range
  moreover have "printed ?cost 0 = 1" by (simp add: printed_def link_affinity_def)
  ultimately show ?thesis using printed_mono by (intro exI [of _ ?out] exI [of _ "printed ?cost"]) blast
qed

definition demo_costs :: "string \<Rightarrow> string option" where
  "demo_costs path = (if path = ''costs.csv'' then Some (''0, 2.5'' @ [CHR 0x0A] @ ''1e1,4,'' @ [CHR 0x0A]) else None)"

lemma demo_costs_read: "read_csv (demo_costs ''costs.csv'') = Inr [[0, 5 / 2], [10, 4]]"
proof -
  note stod_simps = stod_def not_decimal_def lower_def lower_char_def startswith_def decimal_prefix_def exponent_of_def
    is_digit_def c_space_def overflows_def below_normal_def read_nat_def
  have "stod ''0'' = Inr 0" "stod '' 2.5'' = Inr (5 / 2)" "stod ''1e1'' = Inr 10" "stod ''4'' = Inr 4"
    by (simp_all add: stod_simps)
  then show ?thesis by (simp add: read_csv_def demo_costs_def)
qed

theorem affinity_output_witness:
  "\<exists>out a b c. affinity_main demo_costs [''costs.csv''] = Exit 0 out [] \<and>
     read_csv (Some out) = Inr [[1, a], [b, c]] \<and> 0 \<le> b \<and> b \<le> c \<and> c \<le> a \<and> a \<le> 1"
  using affinity_output [of demo_costs "''costs.csv''" "[[0, 5 / 2], [10, 4]]" "[]", OF demo_costs_read] by auto

text \<open>
  What can go wrong: no argument, a file that cannot be opened or holds no item, and an item that is no
  number, also an empty one before a comma, or a number out of range, which end the process by an
  exception of \<open>stod\<close>.
\<close>

lemma affinity_failures:
  "affinity_main files [] = Exit 1 [] (''usage: affinity_score <adjacency.csv>'' @ [CHR 0x0A])"
  "files path = None \<Longrightarrow> affinity_main files (path # rest) = Exit 1 [] (''empty matrix'' @ [CHR 0x0A])"
  "files path = Some (replicate n CHR 0x0A) \<Longrightarrow> affinity_main files (path # rest) = Exit 1 [] (''empty matrix'' @ [CHR 0x0A])"
  "files path = Some (CHR '','' # text) \<Longrightarrow> affinity_main files (path # rest) = Terminated"
  "files path = Some ''1e400'' \<Longrightarrow> affinity_main files (path # rest) = Terminated"
proof -
  have "read_lines (getlines CHR 0x0A (replicate n CHR 0x0A)) = Inr []" by (induction n) simp_all
  then show "files path = Some (replicate n CHR 0x0A) \<Longrightarrow> affinity_main files (path # rest) = Exit 1 [] (''empty matrix'' @ [CHR 0x0A])"
    by (simp add: affinity_main_def read_csv_def)
  have "stod [] = Inl InvalidArgument"
    by (simp add: stod_def not_decimal_def lower_def startswith_def decimal_prefix_def)
  then have "read_lines (getlines CHR 0x0A (CHR '','' # text)) = Inl InvalidArgument"
    by (auto split: list.split)
  then show "files path = Some (CHR '','' # text) \<Longrightarrow> affinity_main files (path # rest) = Terminated"
    by (simp add: affinity_main_def read_csv_def)
  have "(2 :: rat) ^ 1024 - 2 ^ 970 \<le> 10 ^ 400" by simp
  then have "stod ''1e400'' = Inl OutOfRange"
    by (simp add: stod_def not_decimal_def lower_def lower_char_def startswith_def decimal_prefix_def exponent_of_def
        is_digit_def c_space_def overflows_def read_nat_def)
  then show "files path = Some ''1e400'' \<Longrightarrow> affinity_main files (path # rest) = Terminated"
    by (simp add: affinity_main_def read_csv_def)
qed (simp_all add: affinity_main_def read_csv_def)

end
