(* ===== verification/RedisSweeps.thy ===== *)
theory RedisSweeps
  imports Benchmarks EngineStores
begin

text \<open>
  Benchmarks of \<open>benchmarks/harness.py\<close> whose simulations share a Redis: every run finds in the mirror what
  the runs before it have cached, so its report may depend on them, but as long as the requests of all runs
  fit in the cache directory every run completes.
\<close>

section \<open>One run after another\<close>

text \<open>The services a run leaves behind are again services a run can start from.\<close>

lemma next_env_parts [simp]:
  "pf_redis (ee_platform (next_env env se)) = pf_redis (ee_platform env)"
  "pf_redis_store (ee_platform (next_env env se)) = kc_redis_store (nm_cache_directory (se_control_plane se))"
  "pf_files (ee_platform (next_env env se)) = pf_files (ee_platform env)"
  "policy_registry (ee_platform (next_env env se)) = policy_registry (ee_platform env)"
  "platform_ok (ee_platform (next_env env se)) = platform_ok (ee_platform env)"
  "ee_azure (next_env env se) = ee_azure env" "ee_codec (next_env env se) = ee_codec env"
  "ee_workload (next_env env se) = ee_workload env" "ee_postgres_dsn (next_env env se) = ee_postgres_dsn env"
  "ee_psycopg_installed (next_env env se) = ee_psycopg_installed env"
  by (simp_all add: next_env_def policy_registry_def platform_ok_def)

lemma sweepable_next:
  assumes "sweepable earlier env config policies"
    and "mirror_room (pf_redis (ee_platform env)) n (kc_redis_store (nm_cache_directory (se_control_plane se)))"
  shows "sweepable n (next_env env se) config policies"
  using assms by (simp add: sweepable_def local_env_def)

lemma mirrored_task:
  assumes "sweepable earlier env config policies" and "fst task \<in> set policies"
    and "int earlier + max 0 (wc_request_count (ec_workload config)) \<le> 20000"
  shows "\<exists>env' fs' rep. harness_task config task (env, fs) = Inr ((env', fs'), rep) \<and>
    sweepable (earlier + nat (wc_request_count (ec_workload config))) env' config policies \<and> ee_codec env' = ee_codec env \<and>
    map_of rep ''seed'' = Some (JInt (snd task)) \<and> map_of rep ''policy_name'' = Some (JStr (fst task)) \<and>
    map_of rep ''requests_total'' = Some (JInt (max 0 (wc_request_count (ec_workload config))))"
proof -
  let ?c = "task_config config task"
  have ok: "local_env earlier env" "config_ok ?c" "workload_ok (ec_workload ?c)"
    "int earlier + max 0 (wc_request_count (ec_workload ?c)) \<le> 20000"
    using assms(1,3) by (simp_all add: sweepable_def)
  obtain se where se: "SimulationEngine env ?c fs = Inr se" using task_constructs [OF assms(1,2)] by blast
  obtain requests :: "inference_request list" and se' rep where run: "run env se = Inr (se', rep)" and plane: "plane_ok (ee_platform env) (se_control_plane se')"
    and len: "length requests = nat (wc_request_count (ec_workload ?c))"
    and room: "plane_room (ee_platform env) (earlier + length requests) (se_control_plane se')"
    and rep: "map_of rep ''requests_total'' = Some (JInt (max 0 (wc_request_count (ec_workload ?c))))"
      "map_of rep ''policy_name'' = Some (JStr (ec_policy ?c))"
    using simulation_returns [OF ok se] by blast
  have "sweepable (earlier + nat (wc_request_count (ec_workload config))) (next_env env se') config policies"
    using mirror_room_left [OF plane_okD(3) [OF plane]] room len
    by (intro sweepable_next [OF assms(1)]) (simp add: plane_room_def)
  moreover have "simulate (with_seed (with_policy config (fst task)) (snd task)) (env, fs) = Inr ((next_env env se', se_files se'), rep)"
    using se run by (simp add: simulate_def task_config_def)
  ultimately show ?thesis using rep by (auto simp: harness_task_def case_prod_unfold dict_simps)
qed

section \<open>A benchmark\<close>

definition report_view :: "sim_report \<Rightarrow> json option \<times> json option \<times> json option" where
  "report_view rep = (map_of rep ''seed'', map_of rep ''policy_name'', map_of rep ''requests_total'')"

definition expected_view :: "experiment_config \<Rightarrow> string \<times> int \<Rightarrow> json option \<times> json option \<times> json option" where
  "expected_view config task = (Some (JInt (snd task)), Some (JStr (fst task)),
     Some (JInt (max 0 (wc_request_count (ec_workload config)))))"

lemma mirrored_collect:
  assumes "sweepable earlier env config policies" and "fst ` set tasks \<subseteq> set policies"
    and "earlier + length tasks * nat (wc_request_count (ec_workload config)) \<le> 20000"
  shows "\<exists>env' fs' new. efold (\<lambda>task (w, reports). ebind (harness_task config task w) (\<lambda>(w', rep). Inr (w', reports @ [rep])))
      tasks ((env, fs), reports) = Inr ((env', fs'), reports @ new) \<and> ee_codec env' = ee_codec env \<and>
    map report_view new = map (expected_view config) tasks \<and>
    sweepable (earlier + length tasks * nat (wc_request_count (ec_workload config))) env' config policies"
  using assms
proof (induction tasks arbitrary: earlier env fs reports)
  case (Cons task tasks)
  let ?n = "nat (wc_request_count (ec_workload config))"
  have "int earlier + max 0 (wc_request_count (ec_workload config)) \<le> 20000" using Cons.prems(3) by simp
  moreover have "fst task \<in> set policies" using Cons.prems(2) by simp
  ultimately obtain env1 fs1 rep where 1: "harness_task config task (env, fs) = Inr ((env1, fs1), rep)"
    "sweepable (earlier + ?n) env1 config policies" "ee_codec env1 = ee_codec env"
    and view: "map_of rep ''seed'' = Some (JInt (snd task))" "map_of rep ''policy_name'' = Some (JStr (fst task))"
      "map_of rep ''requests_total'' = Some (JInt (max 0 (wc_request_count (ec_workload config))))"
    using mirrored_task [OF Cons.prems(1), of task fs] by blast
  have view: "report_view rep = expected_view config task" by (simp add: report_view_def expected_view_def view)
  have "fst ` set tasks \<subseteq> set policies" "earlier + ?n + length tasks * ?n \<le> 20000" using Cons.prems(2,3) by simp_all
  from Cons.IH [OF 1(2) this, of fs1 "reports @ [rep]"] obtain env' fs' new where
    2: "efold (\<lambda>task (w, reports). ebind (harness_task config task w) (\<lambda>(w', rep). Inr (w', reports @ [rep])))
      tasks ((env1, fs1), reports @ [rep]) = Inr ((env', fs'), (reports @ [rep]) @ new)" "ee_codec env' = ee_codec env1"
    "map report_view new = map (expected_view config) tasks" "sweepable (earlier + ?n + length tasks * ?n) env' config policies"
    by blast
  show ?case
    by (intro exI [of _ env'] exI [of _ fs'] exI [of _ "rep # new"]) (use 1 2 view in \<open>simp add: add.assoc\<close>)
qed simp


text \<open>Four runs of the example, on one Redis that is empty at first.\<close>

lemma demo_redis_sweepable: "sweepable n demo_redis_env demo_config [''round_robin'', ''least_queue'']"
proof -
  have "policy_registry (ee_platform demo_redis_env) = policy_registry (ee_platform demo_engine_env)"
    "pf_files (ee_platform demo_redis_env) = pf_files (ee_platform demo_engine_env)" "ee_azure demo_redis_env = ee_azure demo_engine_env"
    by (simp_all add: demo_redis_env_def demo_engine_env_def policy_registry_def)
  with demo_sweep_ok demo_redis_local [of n] show ?thesis by (simp add: sweep_ok_def sweepable_def)
qed


end
