(* ===== verification/Spec2Isabelle.thy ===== *)
theory Spec2Isabelle
  imports Programs GpuKernels Affinity RedisSweeps
begin

text \<open>
  Verification of NimbusMesh-X, a control plane that routes inference requests to pools of accelerators,
  together with the simulator, the benchmarks and the data pipeline around it.

  \<^bold>\<open>The program.\<close> A configuration file describes clusters, pools and a workload. The control plane
  (\<open>control_plane/service.py\<close>) owns the clusters, a topology graph, a directory of KV-cache prefixes,
  the serving back ends and a routing policy. For a request it builds one candidate per pool, with the
  projected latencies, the route cost, the expected cache hit and a reason for rejection if there is one;
  a scoring engine annotates the candidates, on a GPU if there is one; a gRPC scheduler, the C++ core or
  the configured policy chooses among them; the local scheduler books the choice on a slot of the pool,
  and the cache directory and the policy learn from the result. The simulation engine drives the control
  plane with a generated or replayed workload and feeds each result to metrics, logs, an Azure simulation
  and two optional stores; the harness and the Ray sweep run the engine over policies and seeds; an HTTP
  application serves routing decisions; the data pipeline turns public datasets into traces.

  \<^bold>\<open>Theories and sources.\<close>
  \<^item> \<open>PyPrelude\<close>, \<open>PyStrings\<close>, \<open>Heapq\<close>, \<open>Csv\<close>, \<open>PyJson\<close>, \<open>Argparse\<close>: the part of Python and its standard library
    the sources use (errors as values, dictionaries in insertion order, rounding, selection, string methods,
    heaps, CSV, JSON text written and parsed, command lines).
  \<^item> \<open>Types\<close>: \<open>nimbusmesh_x/types.py\<close>; \<open>Config\<close> and \<open>ConfigLoader\<close>: \<open>nimbusmesh_x/config.py\<close>;
    \<open>Samples\<close>: the concrete experiment the examples evaluate.
  \<^item> \<open>GpuTopology\<close>: \<open>topology/gpu_topology_parser.py\<close>; \<open>TopologyService\<close>: \<open>topology_service/graph.py\<close>;
    \<open>Affinity\<close>: \<open>topology_service_cpp/affinity_score.cpp\<close>, a program of its own.
  \<^item> \<open>RedisStore\<close>: \<open>storage/redis_store.py\<close>; \<open>CacheDirectory\<close>: \<open>cache_directory/directory.py\<close>.
  \<^item> \<open>Backends\<close>: \<open>serving_backends/\<close>; \<open>Policies\<close>: \<open>policies/\<close>; \<open>RemoteSchedulers\<close>: \<open>grpc_layer/\<close>,
    \<open>scheduler_core/cpp_bridge.py\<close>, \<open>scheduler_core_cpp/scheduler_core.cpp\<close> and the CPU path of
    \<open>cuda_kernels/runtime.py\<close>; \<open>GpuKernels\<close>: its GPU path and the three kernels; \<open>GrpcRuntime\<close>:
    \<open>grpc_layer/stub_loader.py\<close> and the set-up of the client and the server.
  \<^item> \<open>LocalScheduler\<close>: \<open>cluster_scheduler/local_scheduler.py\<close>; \<open>ControlPlane\<close>: \<open>control_plane/service.py\<close>;
    \<open>Api\<close>: \<open>control_plane/api.py\<close>.
  \<^item> \<open>Metrics\<close>: \<open>nimbusmesh_x/metrics.py\<close>; \<open>LogFiles\<close>: \<open>logging_utils.py\<close>, \<open>structured_logs.py\<close> and
    \<open>exporters.py\<close> of \<open>nimbusmesh_x/\<close>; \<open>PostgresStore\<close>: \<open>storage/postgres_store.py\<close>; \<open>AzureSim\<close>:
    \<open>azure_sim/environment.py\<close>.
  \<^item> \<open>Workload\<close>: \<open>workload_gen/generator.py\<close>; \<open>DataPipeline\<close> and \<open>Fetchers\<close>: \<open>data_pipeline/\<close> with
    \<open>scripts/normalize_workloads.py\<close> and \<open>scripts/fetch_real_datasets.py\<close>; \<open>Training\<close>: \<open>ml/latency_predictor.py\<close>.
  \<^item> \<open>Engine\<close>: \<open>simulators/engine.py\<close>, in \<open>EngineStores\<close> together with the PostgreSQL and Redis stores;
    \<open>Benchmarks\<close>: \<open>simulators/ray_engine.py\<close> and \<open>benchmarks/harness.py\<close>, in \<open>RedisSweeps\<close> on a shared Redis; \<open>Scripts\<close>: what \<open>run_simulation.py\<close>,
    \<open>run_benchmarks.py\<close>, \<open>run_ray_benchmarks.py\<close> do with their arguments and what \<open>plot_results.py\<close> reads;
    \<open>Terraform\<close>: \<open>scripts/export_azure_to_tfvars.py\<close>; \<open>Programs\<close>: every Python program of \<open>scripts/\<close>, and
    that of the topology parser, from its command line to what it prints.

  \<^bold>\<open>How state and operations correspond.\<close> A class is a record with one field per attribute and a method
  a function that returns the updated record, composed as the code composes calls; objects the code shares
  (the pools inside the clusters, the files, the external stores) are threaded through in the order of the
  calls. A raise is the left value of \<open>result\<close>. \<open>int\<close> is unbounded; a \<open>float\<close> is an exact rational, rounded
  where the code rounds, so the effects of double precision are not part of the model, while the single
  precision of the kernels is written out. A record of parameters (\<open>platform\<close>, \<open>redis_env\<close>, \<open>engine_env\<close>,
  \<open>workload_env\<close>, \<open>text_codec\<close> and the like) holds what is outside the repository: clients of Redis,
  PostgreSQL, gRPC, Ray and YAML, the draws of \<open>random\<close>, the digits of a float's text (\<open>float_text\<close>), the
  GPU's thread order. The control plane and the engine each have a client of Redis with a state of its own:
  they use different hashes, and neither sees what the other writes (\<open>fetch_after_decision\<close> and
  \<open>read_after_affinity\<close> in \<open>RedisStore\<close>). The control planes of one process share the hash of cache affinities: the
  HTTP application hands its mirror to a simulation it starts and takes it back, also from one that raises. What the theorems use of them are named hypotheses with a concrete instance in a
  witness: \<open>redis_hash\<close>, \<open>pg_database\<close>, \<open>stub_compiler\<close>, \<open>floats_ok\<close> (a float's text is a JSON number that is
  read back), \<open>platform_ok\<close>, \<open>rng_ok\<close>, \<open>local_env\<close>, \<open>ray_cluster\<close>, \<open>terraform_syntax\<close>, \<open>once_each\<close>.

  \<^bold>\<open>Interfaces.\<close> Where one component relies on a contract of another it is a locale, interpreted on the
  model's definitions: \<open>py_dict\<close> (dictionaries), \<open>priority_queue\<close> (the heap of the path search), \<open>redis_hash\<close>
  (the mirror), \<open>pg_database\<close> (the experiment store: unordered tables, JSONB columns as documents), \<open>ray_cluster\<close>
  (remote calls on workers, results in the order of the futures), \<open>terraform_syntax\<close> (the documented rules the
  exported variables are read by), \<open>stub_compiler\<close> (gRPC stubs), \<open>latency_model\<close> (back ends), \<open>routing_policy\<close> (policies), \<open>index_scheduler\<close> (gRPC and C++),
  \<open>append_store\<close> (log files), \<open>row_source\<close> (normalisers), \<open>float_format\<close> (single precision).

  \<^bold>\<open>What is shown.\<close>
  \<^item> Routing: an admitted request fits its pool, a request is admitted if some pool can take it, a rejected
    one changes no pool and names its reason; every interleaving of calls keeps the control plane
    well-formed, and every call on a well-formed plane returns.
  \<^item> Placement: bookings on a slot never overlap, times and memory add up.
  \<^item> Routes: the path search returns the least cost of a walk; the route cost has a closed form.
  \<^item> Cache: the directory invariant, the score as a first best entry with its bounds, what trimming keeps
    and that it fails exactly where the sort has to compare two entries, that an observed or persisted prefix is found again, and how far the directory and
    its Redis mirror can grow together (\<open>room\<close>).
  \<^item> Choices: every policy returns an allowed candidate, and every policy but round robin an undominated one;
    the gRPC scheduler and the C++ core return an allowed and least candidate; fair round robin, means of the bandit, balanced counters; scores with and without a GPU agree up to rounding.
  \<^item> Runs: a simulation completes with one result per request in every sink, a benchmark with one report
    per task, also on a Redis that earlier runs have filled; without Redis reports are reproducible, so local
    and distributed sweeps agree; a database only observes a run, and Redis ends with every decision; the program of \<open>scripts/run_simulation.py\<close> works from command line to report, and a normalised
    dataset can be simulated (both below).
  \<^item> Data: configurations load exactly, optional keys have their defaults; generated and replayed workloads
    are valid; JSON text parses to the value it was written from, so that logs, rows and configurations
    read back; normalised files replay and read back; exported Terraform variables have the inventory as their value; command
    lines mean what they say; quantiles are quantiles; the plot shows the exports.
  \<^item> gRPC: stubs are generated once; without them the client is switched off and the server refuses.
  \<^item> Defects, as theorems: a queue limit above the number of slots never rejects, trimming may raise a
    \<open>TypeError\<close>, a spread counter is back at its old value once the result is observed, the latency
    predictor is fitted to zero labels, the metrics end point is constant, the sample size option is
    ignored for three datasets, a missing value is exported as a reference that has no value, and a prefix
    evicted as stale is hydrated from Redis again and still scored.
  \<^item> The affinity helper prints a matrix it reads back itself, of affinities that never rise with the cost.

  \<^bold>\<open>Termination.\<close> All definitions are total: loops over data are structural, the others (the path search,
  splitting, parsing, bisection) have a measure. No fuel is used. The bound of 20000 in the theorems on
  runs, for the requests together with the entries earlier runs left in Redis, is the capacity the control
  plane gives its cache directory: below it trimming never compares entries, which is the one step of a run
  that can raise.

  \<^bold>\<open>Not modelled.\<close> What lies outside the Python sources: the numerics of the latency predictor (torch), the
  compiler for protocol buffers and the modules it writes, drawing the plot (matplotlib), the HTTP server
  (uvicorn, FastAPI), Terraform and the parser for YAML, all parameters; double precision; directories, which files have
  no need of here; the separator \<open>--\<close> on command lines. In the affinity helper, numbers that are not
  decimal or too small for a normal double. In the HTTP application, the exact state a raising simulation leaves: any
  files and any entries it can have written are covered. Left out are the shell scripts, notebooks, dashboards and deployment files, which hold no logic of
  the program. Every Python module of the repository is modelled; what remains unmapped of them are imports,
  package headers, the guards around optional imports (their outcome is a flag of the model) and the creation
  of directories.
\<close>

section \<open>The simulation program\<close>

text \<open>The policy of the command line, or the configured one.\<close>

definition chosen_policy :: "experiment_config \<Rightarrow> string option \<Rightarrow> string" where
  "chosen_policy config policy = (case policy of Some (c # p) \<Rightarrow> c # p | _ \<Rightarrow> ec_policy config)"

lemma chosen_config:
  "(case policy of Some (c # p) \<Rightarrow> with_policy config (c # p) | _ \<Rightarrow> config) =
   task_config config (chosen_policy config policy, ec_seed config)"
  by (simp add: chosen_policy_def task_config_def with_policy_def with_seed_def split: option.split list.split)

lemma run_simulation_reports:
  assumes "load_config ce path = Inr config" and "sweep_ok env config [chosen_policy config policy]"
    and "map_of gs ''configs/azure_cluster.yaml'' = map_of fs ''configs/azure_cluster.yaml''"
  shows "\<exists>gs'. run_simulation_main ce path policy (env, gs) = Inr ((env, gs'), tc_pretty (ee_codec env)
      (JDict (single_report env fs config (chosen_policy config policy, ec_seed config)))) \<and>
    map_of gs' ''configs/azure_cluster.yaml'' = map_of fs ''configs/azure_cluster.yaml''"
  using task_report [OF assms(2) _ assms(3), of "(chosen_policy config policy, ec_seed config)"] assms(1)
  by (auto simp: run_simulation_main_def chosen_config)



section \<open>From a dataset to a report\<close>

lemma rows_writable:
  assumes "map_of NORMALIZER_REGISTRY name = Some normalizer" and "normalizer penv input limit model = Inr rows"
    and "\<forall>row \<in> set rows. text_ok (nw_request_id row) \<and> text_ok (nw_tenant_id row) \<and> text_ok (nw_model_id row) \<and> text_ok (nw_session_id row)"
  shows "\<forall>row \<in> set rows. writable_row row"
  using registry_rows [OF assms(1,2)] assms(3) by (simp add: writable_row_def)

text \<open>
  C18: a dataset can be simulated: the rows any registered normaliser makes of a dataset, written by the
  pipeline to the file that the configuration names as its trace, drive the simulation to its end. Rows
  that with the entries earlier runs left in Redis are at most 20000, with texts free of carriage returns, give one result per replayed row, in order, for a
  request with the row's identifier, token counts, class, tenant and model; the report counts them.
\<close>

theorem dataset_simulated:
  assumes "local_env earlier env" and "config_ok config" and "SimulationEngine env config fs = Inr se"
    and "map_of NORMALIZER_REGISTRY name = Some normalizer" and "normalizer penv input limit model = Inr rows"
    and "\<forall>row \<in> set rows. text_ok (nw_request_id row) \<and> text_ok (nw_tenant_id row) \<and> text_ok (nw_model_id row) \<and> text_ok (nw_session_id row)"
    and "float_text_ok penv" and "earlier + length rows \<le> 20000"
    and "wc_trace_path (ec_workload config) = Some path" and "path \<noteq> []"
    and "we_files (ee_workload env) path = pe_files (write_normalized_rows penv path rows) path"
  shows "\<exists>se' rep. run env se = Inr (se', rep) \<and> plane_ok (ee_platform env) (se_control_plane se') \<and>
    list_all2 stands_for (replayed_rows (ec_workload config) rows) (map rr_request (mc_results (se_metrics se'))) \<and>
    map_of rep ''requests_total'' = Some (JInt (int (length (replayed_rows (ec_workload config) rows))))"
proof -
  have "rng_ok (we_rng (ee_workload env))" using assms(1) by (simp add: local_env_def)
  note replay = written_file_replays [OF this assms(7) rows_writable [OF assms(4-6)] assms(11)]
  obtain requests state where
    gen: "generate_requests (ee_workload env) (ec_workload config) (ec_seed config) = Inr (requests, state)"
    and ok: "\<forall>r \<in> set requests. request_ok r" and rows: "list_all2 stands_for (replayed_rows (ec_workload config) rows) requests"
    using replay [of "ec_workload config" "ec_seed config" "(rg_seed (we_rng (ee_workload env)) (ec_seed config), [])"] assms(9,10)
    by (cases path) (auto simp: generate_requests_def)
  note len = list_all2_lengthD [OF rows]
  have "earlier + length requests \<le> 20000" using len replayed_rows_length [of "ec_workload config" rows] assms(8) by simp
  from requests_served [OF assms(1-3) gen ok this] rows len show ?thesis by auto
qed

definition demo_dataset_rows :: "normalized_row list" where
  "demo_dataset_rows = (case normalize_generic_workload_csv demo_pipeline_env ''trace.csv'' (Some 2) ''llama-3-8b'' of
     Inl _ \<Rightarrow> [] | Inr rows \<Rightarrow> rows)"

definition demo_dataset_env :: "(memory_client, unit, unit, int) engine_env" where
  "demo_dataset_env = demo_engine_env\<lparr>ee_workload := demo_workload_env
     \<lparr>we_files := pe_files (write_normalized_rows demo_pipeline_env ''out.csv'' demo_dataset_rows)\<rparr>\<rparr>"

definition demo_dataset_config :: experiment_config where
  "demo_dataset_config = demo_config\<lparr>ec_workload := demo_workload\<lparr>wc_trace_path := Some ''out.csv''\<rparr>\<rparr>"

lemma demo_dataset_normalized:
  "case normalize_generic_workload_csv demo_pipeline_env ''trace.csv'' (Some 2) ''llama-3-8b'' of
     Inl e \<Rightarrow> False
   | Inr rows \<Rightarrow> length rows = 2 \<and> list_all (\<lambda>row. text_ok (nw_request_id row) \<and> text_ok (nw_tenant_id row) \<and>
       text_ok (nw_model_id row) \<and> text_ok (nw_session_id row)) rows"
  by code_simp

lemma demo_dataset_rows_ok:
  "normalize_generic_workload_csv demo_pipeline_env ''trace.csv'' (Some 2) ''llama-3-8b'' = Inr demo_dataset_rows"
  "length demo_dataset_rows = 2"
  "\<forall>row \<in> set demo_dataset_rows. text_ok (nw_request_id row) \<and> text_ok (nw_tenant_id row) \<and>
     text_ok (nw_model_id row) \<and> text_ok (nw_session_id row)"
  using demo_dataset_normalized by (auto simp: demo_dataset_rows_def list_all_iff split: sum.splits)

theorem dataset_simulated_witness:
  "\<exists>se se' rep. SimulationEngine demo_dataset_env demo_dataset_config [(''configs/azure_cluster.yaml'', [])] = Inr se \<and>
     run demo_dataset_env se = Inr (se', rep) \<and> map_of rep ''requests_total'' = Some (JInt 2)"
proof -
  have env: "local_env 0 demo_dataset_env"
    using demo_local_env [of 0] lcg_rng_ok by (simp add: local_env_def demo_dataset_env_def demo_workload_env_def)
  have cfg: "config_ok demo_dataset_config" using demo_config_ok by (simp add: demo_dataset_config_def config_ok_def ids_ok_def)
  have "\<exists>plane. NimbusMeshControlPlane demo_platform demo_dataset_config = Inr plane"
    using demo_constructed
    by (auto simp: NimbusMeshControlPlane_def demo_dataset_config_def result_simps build_from_config_def build_runtime_clusters_def)
  then obtain se where se: "SimulationEngine demo_dataset_env demo_dataset_config [(''configs/azure_cluster.yaml'', [])] = Inr se"
    using demo_parts_constructed [of demo_dataset_config _ demo_dataset_env] by (auto simp: demo_dataset_env_def demo_engine_env_def)
  have name: "map_of NORMALIZER_REGISTRY ''generic_csv'' = Some normalize_generic_workload_csv" by (simp add: NORMALIZER_REGISTRY_def)
  have two: "length (replayed_rows (ec_workload demo_dataset_config) demo_dataset_rows) = 2"
    using demo_dataset_rows_ok(2) by (simp add: replayed_rows_def limited_rows_def demo_dataset_config_def demo_workload_def)
  have "\<exists>se' rep. run demo_dataset_env se = Inr (se', rep) \<and> plane_ok (ee_platform demo_dataset_env) (se_control_plane se') \<and>
      list_all2 stands_for (replayed_rows (ec_workload demo_dataset_config) demo_dataset_rows) (map rr_request (mc_results (se_metrics se'))) \<and>
      map_of rep ''requests_total'' = Some (JInt (int (length (replayed_rows (ec_workload demo_dataset_config) demo_dataset_rows))))"
    by (rule dataset_simulated [OF env cfg se name demo_dataset_rows_ok(1,3) demo_float_text_ok, of "''out.csv''"])
       (simp_all add: demo_dataset_rows_ok(2) demo_dataset_config_def demo_dataset_env_def)
  with se two show ?thesis by auto
qed

end
